(* ===== verification/GoText.thy ===== *)
theory GoText
  imports GoStrings
begin

text \<open>
  White space (\<open>strings.TrimSpace\<close>, \<open>strings.Fields\<close>) and numbers (\<open>strconv.Atoi\<close>,
  \<open>strconv.Itoa\<close>, hexadecimal digits). The round trips of the wire formats rest on
  \<open>fields_join\<close> and \<open>atoi_itoa\<close>.
\<close>

section \<open>White space\<close>

text \<open>The UTF-8 encodings of the runes for which \<open>unicode.IsSpace\<close> holds.\<close>

definition space_runes :: "string list" where
  "space_runes =
     [[CHR 0x09], [CHR 0x0A], [CHR 0x0B], [CHR 0x0C], [CHR 0x0D], [CHR 0x20],
      [CHR 0xC2, CHR 0x85], [CHR 0xC2, CHR 0xA0], [CHR 0xE1, CHR 0x9A, CHR 0x80],
      [CHR 0xE2, CHR 0x80, CHR 0x80], [CHR 0xE2, CHR 0x80, CHR 0x81],
      [CHR 0xE2, CHR 0x80, CHR 0x82], [CHR 0xE2, CHR 0x80, CHR 0x83],
      [CHR 0xE2, CHR 0x80, CHR 0x84], [CHR 0xE2, CHR 0x80, CHR 0x85],
      [CHR 0xE2, CHR 0x80, CHR 0x86], [CHR 0xE2, CHR 0x80, CHR 0x87],
      [CHR 0xE2, CHR 0x80, CHR 0x88], [CHR 0xE2, CHR 0x80, CHR 0x89],
      [CHR 0xE2, CHR 0x80, CHR 0x8A], [CHR 0xE2, CHR 0x80, CHR 0xA8],
      [CHR 0xE2, CHR 0x80, CHR 0xA9], [CHR 0xE2, CHR 0x80, CHR 0xAF],
      [CHR 0xE2, CHR 0x81, CHR 0x9F], [CHR 0xE3, CHR 0x80, CHR 0x80]]"

definition rev_space_runes :: "string list" where
  "rev_space_runes = map rev space_runes"

definition head_len :: "string list \<Rightarrow> string \<Rightarrow> nat" where
  "head_len ps s = (case find (\<lambda>p. has_prefix s p) ps of None \<Rightarrow> 0 | Some p \<Rightarrow> length p)"

definition space_len :: "string \<Rightarrow> nat" where
  "space_len s = head_len space_runes s"

function strip_heads :: "string list \<Rightarrow> string \<Rightarrow> string" where
  "strip_heads ps s =
     (if s = [] \<or> head_len ps s = 0 then s else strip_heads ps (drop (head_len ps s) s))"
  by pat_completeness auto
termination
  by (relation "measure (\<lambda>(ps, s). length s)") auto

declare strip_heads.simps [simp del]

definition trim_space :: "string \<Rightarrow> string" where
  "trim_space s = rev (strip_heads rev_space_runes (rev (strip_heads space_runes s)))"

text \<open>Printable ASCII characters: no white-space rune starts or ends with one.\<close>

definition graphic :: "char \<Rightarrow> bool" where
  "graphic c \<longleftrightarrow> 33 \<le> code c \<and> code c \<le> 126"

lemma head_len_Nil: "\<forall>p \<in> set ps. p \<noteq> [] \<Longrightarrow> head_len ps [] = 0"
proof -
  assume "\<forall>p \<in> set ps. p \<noteq> []"
  then have "find (\<lambda>p. has_prefix [] p) ps = None"
    by (auto simp: find_None_iff)
  then show ?thesis by (simp add: head_len_def)
qed

lemma head_len_other_head:
  "\<forall>p \<in> set ps. p \<noteq> [] \<and> hd p \<noteq> c \<Longrightarrow> head_len ps (c # s) = 0"
proof -
  assume ps: "\<forall>p \<in> set ps. p \<noteq> [] \<and> hd p \<noteq> c"
  then have "find (\<lambda>p. has_prefix (c # s) p) ps = None"
    by (auto simp: find_None_iff prefix_Cons)
  then show ?thesis by (simp add: head_len_def)
qed

lemma space_runes_heads: "p \<in> set space_runes \<Longrightarrow> p \<noteq> [] \<and> \<not> graphic (hd p)"
  unfolding space_runes_def graphic_def by auto

lemma rev_space_runes_heads: "p \<in> set rev_space_runes \<Longrightarrow> p \<noteq> [] \<and> \<not> graphic (hd p)"
  unfolding rev_space_runes_def space_runes_def graphic_def by auto

lemma space_len_Nil [simp]: "space_len [] = 0"
  unfolding space_len_def by (rule head_len_Nil) (auto dest: space_runes_heads)

lemma space_len_graphic [simp]: "graphic c \<Longrightarrow> space_len (c # s) = 0"
  unfolding space_len_def by (rule head_len_other_head) (auto dest: space_runes_heads)

lemma space_len_blank [simp]: "space_len (CHR '' '' # s) = 1"
  by (simp add: space_len_def head_len_def space_runes_def)

lemma strip_heads_graphic:
  "(\<And>p. p \<in> set ps \<Longrightarrow> p \<noteq> [] \<and> \<not> graphic (hd p)) \<Longrightarrow> s = [] \<or> graphic (hd s) \<Longrightarrow>
   strip_heads ps s = s"
proof -
  assume ps: "\<And>p. p \<in> set ps \<Longrightarrow> p \<noteq> [] \<and> \<not> graphic (hd p)" and s: "s = [] \<or> graphic (hd s)"
  show ?thesis
  proof (cases s)
    case (Cons c t)
    with s ps have "head_len ps s = 0"
      by (metis head_len_other_head list.sel(1) list.distinct(1))
    then show ?thesis by (simp add: strip_heads.simps)
  qed (simp add: strip_heads.simps)
qed

lemma trim_space_graphic:
  "s = [] \<or> (graphic (hd s) \<and> graphic (last s)) \<Longrightarrow> trim_space s = s"
  unfolding trim_space_def
  by (auto simp: strip_heads_graphic space_runes_heads rev_space_runes_heads hd_rev)

lemma strip_heads_suffix: "suffix (strip_heads ps s) s"
proof (induction ps s rule: strip_heads.induct)
  case (1 ps s)
  show ?case
  proof (cases "s = [] \<or> head_len ps s = 0")
    case True
    then show ?thesis by (simp add: strip_heads.simps [of ps s])
  next
    case False
    with 1 have "suffix (strip_heads ps (drop (head_len ps s) s)) (drop (head_len ps s) s)"
      by blast
    with False show ?thesis
      by (metis strip_heads.simps suffix_drop suffix_order.trans)
  qed
qed

lemma set_trim_space: "set (trim_space s) \<subseteq> set s"
proof -
  have "set (strip_heads ps t) \<subseteq> set t" for ps t
    using strip_heads_suffix set_mono_suffix by blast
  then show ?thesis unfolding trim_space_def by (metis set_rev subset_trans)
qed

subsection \<open>Fields\<close>

fun take_word :: "string \<Rightarrow> string \<times> string" where
  "take_word [] = ([], [])"
| "take_word (c # s) =
     (if 0 < space_len (c # s) then ([], c # s)
      else (let (w, r) = take_word s in (c # w, r)))"

lemma take_word_length: "length (snd (take_word s)) \<le> length s"
  by (induction s) (auto split: prod.splits)

lemma strip_heads_length: "length (strip_heads ps s) \<le> length s"
  by (rule suffix_length_le) (rule strip_heads_suffix)

function str_fields :: "string \<Rightarrow> string list" where
  "str_fields s =
     (let t = strip_heads space_runes s in
      if t = [] then [] else fst (take_word t) # (if take_word t = ([], t) then [] else str_fields (snd (take_word t))))"
  by pat_completeness auto
termination
proof (relation "measure length", goal_cases)
  case (2 s t)
  obtain c u where t: "t = c # u"
    using 2(2) by (cases t) auto
  have "length (snd (take_word t)) < length t"
    using 2(3) take_word_length [of u] t by (auto split: prod.splits if_splits)
  also have "length t \<le> length s"
    using 2(1) strip_heads_length by simp
  finally show ?case by simp
qed simp

declare str_fields.simps [simp del]

lemma take_word_graphic:
  "\<forall>c \<in> set w. graphic c \<Longrightarrow> take_word (w @ s) = (w @ fst (take_word s), snd (take_word s))"
  by (induction w) (auto split: prod.splits)

lemma strip_blank: "strip_heads space_runes (CHR '' '' # s) = strip_heads space_runes s"
  by (subst strip_heads.simps) (simp add: space_len_blank [unfolded space_len_def])

lemma fields_blank: "str_fields (CHR '' '' # s) = str_fields s"
  by (simp add: str_fields.simps [of "CHR '' '' # s"] str_fields.simps [of s] strip_blank)

lemma strip_word:
  "w \<noteq> [] \<Longrightarrow> \<forall>c \<in> set w. graphic c \<Longrightarrow> strip_heads space_runes (w @ s) = w @ s"
  by (rule strip_heads_graphic) (auto dest: space_runes_heads simp: hd_append)

lemma fields_word: "w \<noteq> [] \<Longrightarrow> \<forall>c \<in> set w. graphic c \<Longrightarrow> str_fields w = [w]"
proof -
  assume w: "w \<noteq> []" "\<forall>c \<in> set w. graphic c"
  have "str_fields [] = []" by (simp add: str_fields.simps strip_heads.simps)
  then show ?thesis
    using w strip_word [OF w, of "[]"] take_word_graphic [OF w(2), of "[]"]
    by (simp add: str_fields.simps [of w])
qed

lemma fields_word_blank:
  "w \<noteq> [] \<Longrightarrow> \<forall>c \<in> set w. graphic c \<Longrightarrow> str_fields (w @ CHR '' '' # s) = w # str_fields s"
proof -
  assume w: "w \<noteq> []" "\<forall>c \<in> set w. graphic c"
  let ?t = "w @ CHR '' '' # s"
  have "take_word ?t = (w, CHR '' '' # s)"
    using take_word_graphic [OF w(2), of "CHR '' '' # s"] by simp
  then show ?thesis
    using w strip_word [OF w, of "CHR '' '' # s"]
    by (simp add: str_fields.simps [of ?t] fields_blank)
qed

lemma fields_join:
  "\<forall>w \<in> set ws. w \<noteq> [] \<and> (\<forall>c \<in> set w. graphic c) \<Longrightarrow> str_fields (join '' '' ws) = ws"
proof (induction "'' ''" ws rule: join.induct)
  case 1
  then show ?case by (simp add: str_fields.simps strip_heads.simps)
next
  case (2 w)
  then show ?case by (simp add: fields_word)
next
  case (3 w v ws)
  then show ?case by (simp add: fields_word_blank)
qed

section \<open>Numbers\<close>

definition digit_char :: "nat \<Rightarrow> char" where
  "digit_char d = char_of (48 + d)"

definition digit_val :: "char \<Rightarrow> nat" where
  "digit_val c = code c - 48"

function nat_str :: "nat \<Rightarrow> string" where
  "nat_str n = (if n < 10 then [digit_char n] else nat_str (n div 10) @ [digit_char (n mod 10)])"
  by pat_completeness auto
termination
  by (relation "measure id") auto

declare nat_str.simps [simp del]

definition itoa :: "int \<Rightarrow> string" where
  "itoa i = (if i < 0 then CHR ''-'' # nat_str (nat (- i)) else nat_str (nat i))"

definition digits_val :: "string \<Rightarrow> nat" where
  "digits_val s = foldl (\<lambda>a c. 10 * a + digit_val c) 0 s"

definition all_digits :: "string \<Rightarrow> bool" where
  "all_digits s \<longleftrightarrow> s \<noteq> [] \<and> list_all is_digit s"

definition max_int64 :: int where "max_int64 = 2 ^ 63 - 1"
definition min_int64 :: int where "min_int64 = - (2 ^ 63)"

text \<open>\<open>strconv.Atoi\<close> (and \<open>ParseInt\<close> with base 10 and 64 bits): an optional sign, then digits;
  a value outside 64 bits is an error.\<close>

definition atoi :: "string \<Rightarrow> int option" where
  "atoi s =
     (let neg = has_prefix s ''-'';
          ds = (if has_prefix s ''-'' \<or> has_prefix s ''+'' then tl s else s);
          v = int (digits_val ds);
          i = (if neg then - v else v)
      in if all_digits ds \<and> min_int64 \<le> i \<and> i \<le> max_int64 then Some i else None)"

lemma digit_char_digit [simp]: "d < 10 \<Longrightarrow> is_digit (digit_char d)"
  by (simp add: digit_char_def is_digit_def)

lemma digit_val_char [simp]: "d < 10 \<Longrightarrow> digit_val (digit_char d) = d"
  by (simp add: digit_char_def digit_val_def)

lemma nat_str_nonempty [simp]: "nat_str n \<noteq> []"
  by (subst nat_str.simps) simp

lemma nat_str_digits: "list_all is_digit (nat_str n)"
proof (induction n rule: nat_str.induct)
  case (1 n)
  then show ?case by (subst nat_str.simps) simp
qed

lemma digits_val_nat_str [simp]: "digits_val (nat_str n) = n"
proof (induction n rule: nat_str.induct)
  case (1 n)
  then show ?case by (subst nat_str.simps) (auto simp: digits_val_def)
qed

lemma digit_char_simps [simp]:
  "digit_char 0 = CHR ''0''" "digit_char (Suc 0) = CHR ''1''" "digit_char 1 = CHR ''1''"
  "digit_char 2 = CHR ''2''" "digit_char 3 = CHR ''3''" "digit_char 4 = CHR ''4''"
  "digit_char 5 = CHR ''5''" "digit_char 6 = CHR ''6''" "digit_char 7 = CHR ''7''"
  "digit_char 8 = CHR ''8''" "digit_char 9 = CHR ''9''"
  by (simp_all add: digit_char_def char_of_def bit_0)

lemma is_digit_graphic: "is_digit c \<Longrightarrow> graphic c"
  by (simp add: is_digit_def graphic_def)

lemma nat_str_graphic: "c \<in> set (nat_str n) \<Longrightarrow> graphic c"
  using nat_str_digits [of n] by (auto simp: list_all_iff is_digit_graphic)

lemma nat_str_head: "is_digit (hd (nat_str n))"
  using nat_str_digits [of n] by (cases "nat_str n") auto

lemma nat_str_no_sign [simp]: "\<not> has_prefix (nat_str n) ''-''" "\<not> has_prefix (nat_str n) ''+''"
  using nat_str_head [of n] by (auto simp: prefix_singleton_iff is_digit_def)

lemma atoi_nat_str: "int n \<le> max_int64 \<Longrightarrow> atoi (nat_str n) = Some (int n)"
  by (simp add: atoi_def all_digits_def nat_str_digits min_int64_def Let_def)

lemma atoi_itoa: "min_int64 \<le> i \<Longrightarrow> i \<le> max_int64 \<Longrightarrow> atoi (itoa i) = Some i"
proof (cases "i < 0")
  case True
  assume "min_int64 \<le> i"
  with True show ?thesis
    by (simp add: itoa_def atoi_def all_digits_def nat_str_digits Let_def max_int64_def)
next
  case False
  assume "i \<le> max_int64"
  with False show ?thesis by (simp add: itoa_def atoi_nat_str)
qed

lemma itoa_graphic: "c \<in> set (itoa i) \<Longrightarrow> graphic c"
  using nat_str_graphic by (auto simp: itoa_def graphic_def split: if_splits)

lemma itoa_nonempty [simp]: "itoa i \<noteq> []"
  by (simp add: itoa_def)

lemma itoa_inj: "itoa i = itoa j \<Longrightarrow> i = j"
proof -
  assume e: "itoa i = itoa j"
  have no: "nat_str n \<noteq> CHR ''-'' # t" for n t
    using nat_str_no_sign(1) [of n] by (auto simp del: nat_str_no_sign)
  have inj: "nat_str m = nat_str n \<Longrightarrow> m = n" for m n
    by (metis digits_val_nat_str)
  show ?thesis
    using e no no [symmetric] by (auto simp: itoa_def split: if_splits dest!: inj)
qed

text \<open>Hexadecimal, as \<open>encoding/hex\<close> and \<open>%x\<close> write it.\<close>

definition hex_char :: "nat \<Rightarrow> char" where
  "hex_char d = (if d < 10 then char_of (48 + d) else char_of (87 + d))"

definition hex_byte :: "nat \<Rightarrow> string" where
  "hex_byte b = [hex_char (b div 16), hex_char (b mod 16)]"

definition hex_encode :: "nat list \<Rightarrow> string" where
  "hex_encode bs = concat (map hex_byte bs)"

lemma hex_char_simps [simp]:
  "hex_char 0 = CHR ''0''" "hex_char (Suc 0) = CHR ''1''" "hex_char 1 = CHR ''1''"
  "hex_char 2 = CHR ''2''" "hex_char 3 = CHR ''3''" "hex_char 4 = CHR ''4''"
  "hex_char 5 = CHR ''5''" "hex_char 6 = CHR ''6''" "hex_char 7 = CHR ''7''"
  "hex_char 8 = CHR ''8''" "hex_char 9 = CHR ''9''" "hex_char 10 = CHR ''a''"
  "hex_char 11 = CHR ''b''" "hex_char 12 = CHR ''c''" "hex_char 13 = CHR ''d''"
  "hex_char 14 = CHR ''e''" "hex_char 15 = CHR ''f''"
  by (simp_all add: hex_char_def char_of_def bit_0)

lemma hex_char_lower: "d < 16 \<Longrightarrow> is_hex_lower (hex_char d)"
  by (simp add: hex_char_def is_hex_lower_def is_digit_def)

lemma length_hex_encode [simp]: "length (hex_encode bs) = 2 * length bs"
  by (induction bs) (auto simp: hex_encode_def hex_byte_def)

lemma hex_encode_lower: "\<forall>b \<in> set bs. b < 256 \<Longrightarrow> list_all is_hex_lower (hex_encode bs)"
  by (induction bs) (auto simp: hex_encode_def hex_byte_def hex_char_lower)

section \<open>Runes\<close>

definition in_range :: "nat \<Rightarrow> nat \<Rightarrow> char \<Rightarrow> bool" where
  "in_range a b c \<longleftrightarrow> a \<le> code c \<and> code c \<le> b"

text \<open>How many bytes ranging over a string takes for its first rune; an invalid byte counts as one.\<close>

definition rune_len :: "string \<Rightarrow> nat" where
  "rune_len s =
     (case s of
        [] \<Rightarrow> 0
      | [a] \<Rightarrow> 1
      | a # b # r \<Rightarrow>
          if in_range 0xC2 0xDF a \<and> in_range 0x80 0xBF b then 2
          else
            (case r of
               [] \<Rightarrow> 1
             | c # r' \<Rightarrow>
                 if in_range 0x80 0xBF c \<and>
                    ((code a = 0xE0 \<and> in_range 0xA0 0xBF b) \<or> (code a = 0xED \<and> in_range 0x80 0x9F b) \<or>
                     ((in_range 0xE1 0xEC a \<or> in_range 0xEE 0xEF a) \<and> in_range 0x80 0xBF b)) then 3
                 else
                   (case r' of
                      [] \<Rightarrow> 1
                    | d # _ \<Rightarrow>
                        if in_range 0x80 0xBF c \<and> in_range 0x80 0xBF d \<and>
                           ((code a = 0xF0 \<and> in_range 0x90 0xBF b) \<or> (code a = 0xF4 \<and> in_range 0x80 0x8F b) \<or>
                            (in_range 0xF1 0xF3 a \<and> in_range 0x80 0xBF b)) then 4 else 1)))"

lemma rune_len_pos: "s \<noteq> [] \<Longrightarrow> 0 < rune_len s"
  by (auto simp: rune_len_def split: list.splits)

lemma rune_len_le: "rune_len s \<le> length s"
  by (auto simp: rune_len_def split: list.splits)

text \<open>Every rune that is not accepted becomes an underscore; accepted runes are ASCII.\<close>

function clean_runes :: "(char \<Rightarrow> bool) \<Rightarrow> string \<Rightarrow> string" where
  "clean_runes ok s =
     (if s = [] then []
      else (if ok (hd s) then hd s else CHR ''_'') # clean_runes ok (drop (rune_len s) s))"
  by pat_completeness auto
termination
  by (relation "measure (\<lambda>(ok, s). length s)") (auto simp: rune_len_pos)

declare clean_runes.simps [simp del]

lemma clean_runes_chars: "ok (CHR ''_'') \<Longrightarrow> list_all ok (clean_runes ok s)"
proof (induction ok s rule: clean_runes.induct)
  case (1 ok s)
  then show ?case by (subst clean_runes.simps) auto
qed

lemma clean_runes_length: "length (clean_runes ok s) \<le> length s"
proof (induction ok s rule: clean_runes.induct)
  case (1 ok s)
  show ?case
  proof (cases "s = []")
    case True
    then show ?thesis by (simp add: clean_runes.simps)
  next
    case False
    then have "length (clean_runes ok (drop (rune_len s) s)) \<le> length s - rune_len s" using 1 by simp
    then show ?thesis using False rune_len_pos [OF False] rune_len_le [of s] by (subst clean_runes.simps) simp
  qed
qed

lemma clean_runes_hd:
  "s \<noteq> [] \<Longrightarrow> clean_runes ok s \<noteq> [] \<and> hd (clean_runes ok s) = (if ok (hd s) then hd s else CHR ''_'')"
  by (simp add: clean_runes.simps [of ok s])

end
