(* ===== verification/Prelude.thy ===== *)
theory Prelude
  imports GoText "HOL-Library.Multiset" "HOL-Library.Option_ord" "HOL-Library.AList"
begin

text \<open>
  What the components share beyond strings: the hand-written insertion sort that appears three
  times in the sources (\<open>dldw1.encodeFlags\<close>, \<open>whitelist.Entries\<close>, \<open>audit.RedactURL\<close>), instants and
  durations, and lemmas on finite maps and on updates of association lists.
\<close>

section \<open>Insertion sort\<close>

text \<open>
  The inner loop moves \<open>out[j]\<close> left while it is smaller than \<open>out[j-1]\<close>. On the reversed sorted
  part (largest first) that is \<open>sift\<close>; the outer loop takes the elements from left to right.
\<close>

fun sift :: "'a::linorder \<Rightarrow> 'a list \<Rightarrow> 'a list" where
  "sift x [] = [x]"
| "sift x (y # ys) = (if x < y then y # sift x ys else x # y # ys)"

definition insertion_sort :: "'a::linorder list \<Rightarrow> 'a list" where
  "insertion_sort xs = rev (foldl (\<lambda>acc x. sift x acc) [] xs)"

lemma mset_sift [simp]: "mset (sift x ys) = add_mset x (mset ys)"
  by (induction ys) auto

lemma set_sift [simp]: "set (sift x ys) = insert x (set ys)"
  by (metis mset_sift set_mset_add_mset_insert set_mset_mset)

lemma sorted_sift: "sorted (rev ys) \<Longrightarrow> sorted (rev (sift x ys))"
  by (induction ys) (auto simp: sorted_append)

lemma mset_foldl_sift: "mset (foldl (\<lambda>acc x. sift x acc) acc xs) = mset acc + mset xs"
  by (induction xs arbitrary: acc) auto

lemma sorted_foldl_sift:
  "sorted (rev acc) \<Longrightarrow> sorted (rev (foldl (\<lambda>acc x. sift x acc) acc xs))"
  by (induction xs arbitrary: acc) (auto simp: sorted_sift)

lemma insertion_sort_sort: "insertion_sort xs = sort xs"
proof (rule properties_for_sort [symmetric])
  show "mset (insertion_sort xs) = mset xs"
    using mset_foldl_sift [of "[]" xs] by (simp add: insertion_sort_def)
  show "sorted (insertion_sort xs)"
    using sorted_foldl_sift [of "[]" xs] by (simp add: insertion_sort_def)
qed

lemma sort_sorted_list_of_set: "distinct xs \<Longrightarrow> sort xs = sorted_list_of_set (set xs)"
  by (simp add: sorted_list_of_set_sort_remdups distinct_remdups_id)

section \<open>Instants and durations\<close>

text \<open>
  A \<open>time.Time\<close> is its number of nanoseconds since 1 January of year 1, UTC, so the zero time
  (\<open>IsZero\<close>) is 0. A \<open>time.Duration\<close> is a number of nanoseconds. \<open>Sub\<close> saturates at the bounds of
  a 64-bit duration. \<open>Unix\<close> is the number of whole seconds since 1970.
\<close>

type_synonym time = int
type_synonym duration = int

definition second :: duration where "second = 1000000000"
definition minute :: duration where "minute = 60 * second"
definition hour :: duration where "hour = 60 * minute"

lemmas duration_defs = hour_def minute_def second_def

definition zero_time :: time where "zero_time = 0"

abbreviation time_is_zero :: "time \<Rightarrow> bool" where
  "time_is_zero t \<equiv> t = zero_time"

definition time_sub :: "time \<Rightarrow> time \<Rightarrow> duration" where
  "time_sub t u = max min_int64 (min max_int64 (t - u))"

definition unix_epoch :: time where "unix_epoch = 62135596800 * second"

definition time_unix :: "time \<Rightarrow> int" where
  "time_unix t = (t - unix_epoch) div second"

definition time_of_unix :: "int \<Rightarrow> time" where
  "time_of_unix s = unix_epoch + s * second"

lemma time_unix_of_unix [simp]: "time_unix (time_of_unix s) = s"
  by (simp add: time_unix_def time_of_unix_def second_def)

lemma time_unix_mono: "t \<le> u \<Longrightarrow> time_unix t \<le> time_unix u"
  unfolding time_unix_def second_def by (rule zdiv_mono1) auto

lemma time_sub_le_iff: "0 \<le> d \<Longrightarrow> d < max_int64 \<Longrightarrow> time_sub t u \<le> d \<longleftrightarrow> t - u \<le> d"
  by (auto simp: time_sub_def min_int64_def max_int64_def min_def max_def)

lemma time_sub_less_iff: "0 \<le> d \<Longrightarrow> d < max_int64 \<Longrightarrow> d < time_sub t u \<longleftrightarrow> d < t - u"
  using time_sub_le_iff [of d t u] by linarith

section \<open>Maps and lists\<close>

lemma map_upd_None_iff [simp]: "(m(k := None)) k' = Some v \<longleftrightarrow> k \<noteq> k' \<and> m k' = Some v"
  by auto

lemma dom_upd_finite [intro]: "finite (dom m) \<Longrightarrow> finite (dom (m(k := v)))"
  by (cases v) auto

lemma card_dom_upd_le: "finite (dom m) \<Longrightarrow> card (dom (m(k \<mapsto> v))) \<le> Suc (card (dom m))"
  by (simp add: card_insert_le_m1 card_insert_if)

lemma filter_update_other:
  "i < length xs \<Longrightarrow> \<not> P (xs ! i) \<Longrightarrow> \<not> P y \<Longrightarrow> filter P (xs[i := y]) = filter P xs"
proof (induction xs arbitrary: i)
  case (Cons x xs)
  then show ?case by (cases i) auto
qed simp

lemma nth_upd: "xs[i := x] ! j = (if i = j \<and> j < length xs then x else xs ! j)"
  by (metis list_update_beyond nth_list_update_eq nth_list_update_neq not_less)

section \<open>Go maps\<close>

text \<open>
  Where the size of a Go map or a sweep over it matters, the map is the list of its entries, with
  distinct keys. \<open>mput\<close> and \<open>mdel\<close> are assignment and \<open>delete\<close>; \<open>mkeep\<close> is a loop that deletes the
  entries failing a test.
\<close>

type_synonym ('k, 'v) gomap = "('k \<times> 'v) list"

abbreviation mget :: "('k, 'v) gomap \<Rightarrow> 'k \<Rightarrow> 'v option" where
  "mget \<equiv> map_of"

definition mput :: "'k \<Rightarrow> 'v \<Rightarrow> ('k, 'v) gomap \<Rightarrow> ('k, 'v) gomap" where
  "mput k v m = AList.update k v m"

definition mdel :: "'k \<Rightarrow> ('k, 'v) gomap \<Rightarrow> ('k, 'v) gomap" where
  "mdel k m = AList.delete k m"

definition mkeep :: "('k \<Rightarrow> 'v \<Rightarrow> bool) \<Rightarrow> ('k, 'v) gomap \<Rightarrow> ('k, 'v) gomap" where
  "mkeep P m = filter (\<lambda>(k, v). P k v) m"

definition mkeys_ok :: "('k, 'v) gomap \<Rightarrow> bool" where
  "mkeys_ok m \<longleftrightarrow> distinct (map fst m)"

named_theorems map_simps "lookups after updates of a Go map"

lemma mget_mput [simp, map_simps]: "mget (mput k v m) k' = (if k = k' then Some v else mget m k')"
  by (simp add: mput_def update_conv')

lemma mget_mdel [simp, map_simps]: "mget (mdel k m) k' = (if k = k' then None else mget m k')"
  by (simp add: mdel_def delete_conv')

lemma mget_mkeep [map_simps]:
  "mkeys_ok m \<Longrightarrow> mget (mkeep P m) k = (case mget m k of None \<Rightarrow> None | Some v \<Rightarrow> if P k v then Some v else None)"
proof (induction m)
  case (Cons x m)
  obtain a b where x: "x = (a, b)" by (cases x)
  have "a \<notin> fst ` set m" using Cons.prems x by (simp add: mkeys_ok_def)
  then have "mget m a = None" by (simp add: map_of_eq_None_iff)
  then show ?case using Cons x by (auto simp: mkeep_def mkeys_ok_def split: option.splits)
qed (simp add: mkeep_def)

lemma mkeys_ok_Nil [simp]: "mkeys_ok []"
  by (simp add: mkeys_ok_def)

lemma mkeys_ok_mput [simp]: "mkeys_ok m \<Longrightarrow> mkeys_ok (mput k v m)"
  by (simp add: mkeys_ok_def mput_def distinct_update)

lemma mkeys_ok_mdel [simp]: "mkeys_ok m \<Longrightarrow> mkeys_ok (mdel k m)"
  by (simp add: mkeys_ok_def mdel_def distinct_delete)

lemma mkeys_ok_mkeep [simp]: "mkeys_ok m \<Longrightarrow> mkeys_ok (mkeep P m)"
  by (induction m) (auto simp: mkeys_ok_def mkeep_def image_iff)

lemma length_mput: "length (mput k v m) = (if mget m k = None then Suc (length m) else length m)"
  by (induction m) (auto simp: mput_def)

lemma length_mkeep: "length (mkeep P m) \<le> length m"
  by (simp add: mkeep_def)

end
