(* ===== verification/GoNet.thy ===== *)
theory GoNet
  imports Prelude "HOL-Library.Word"
begin

text \<open>
  What the sources use of the package \<open>net\<close>: IP addresses as byte slices (4 or 16 bytes, the empty
  slice for nil), \<open>ParseIP\<close>, \<open>IP.String\<close>, the address-class predicates, CIDR blocks,
  \<open>SplitHostPort\<close> and \<open>JoinHostPort\<close>, and \<open>fmt.Sscanf\<close> with the verb \<open>%d\<close>.
\<close>

unbundle bit_operations_syntax

type_synonym byte = "8 word"
type_synonym ip = "byte list"

section \<open>Address classes\<close>

definition v4_in_v6 :: ip where
  "v4_in_v6 = [0, 0, 0, 0, 0, 0, 0, 0, 0, 0, 0xff, 0xff]"

definition to4 :: "ip \<Rightarrow> ip" where
  "to4 a = (if length a = 4 then a
            else if length a = 16 \<and> take 12 a = v4_in_v6 then drop 12 a
            else [])"

definition ipv6_loopback :: ip where "ipv6_loopback = replicate 15 0 @ [1]"
definition ipv6_unspecified :: ip where "ipv6_unspecified = replicate 16 0"
definition ipv4_zero :: ip where "ipv4_zero = v4_in_v6 @ [0, 0, 0, 0]"

definition ip_equal :: "ip \<Rightarrow> ip \<Rightarrow> bool" where
  "ip_equal a b \<longleftrightarrow>
     (if length a = length b then a = b
      else if length a = 4 \<and> length b = 16 then take 12 b = v4_in_v6 \<and> a = drop 12 b
      else if length a = 16 \<and> length b = 4 then take 12 a = v4_in_v6 \<and> drop 12 a = b
      else False)"

definition is_unspecified :: "ip \<Rightarrow> bool" where
  "is_unspecified a \<longleftrightarrow> ip_equal a ipv4_zero \<or> ip_equal a ipv6_unspecified"

definition is_loopback :: "ip \<Rightarrow> bool" where
  "is_loopback a \<longleftrightarrow>
     (if to4 a \<noteq> [] then to4 a ! 0 = 127 else ip_equal a ipv6_loopback)"

definition is_private :: "ip \<Rightarrow> bool" where
  "is_private a \<longleftrightarrow>
     (let b = to4 a in
      if b \<noteq> [] then b ! 0 = 10 \<or> (b ! 0 = 172 \<and> b ! 1 AND 0xf0 = 16) \<or> (b ! 0 = 192 \<and> b ! 1 = 168)
      else length a = 16 \<and> a ! 0 AND 0xfe = 0xfc)"

definition is_multicast :: "ip \<Rightarrow> bool" where
  "is_multicast a \<longleftrightarrow>
     (let b = to4 a in
      if b \<noteq> [] then b ! 0 AND 0xf0 = 0xe0 else length a = 16 \<and> a ! 0 = 0xff)"

definition is_link_local_multicast :: "ip \<Rightarrow> bool" where
  "is_link_local_multicast a \<longleftrightarrow>
     (let b = to4 a in
      if b \<noteq> [] then b ! 0 = 224 \<and> b ! 1 = 0 \<and> b ! 2 = 0
      else length a = 16 \<and> a ! 0 = 0xff \<and> a ! 1 AND 0x0f = 0x02)"

definition is_link_local_unicast :: "ip \<Rightarrow> bool" where
  "is_link_local_unicast a \<longleftrightarrow>
     (let b = to4 a in
      if b \<noteq> [] then b ! 0 = 169 \<and> b ! 1 = 254
      else length a = 16 \<and> a ! 0 = 0xfe \<and> a ! 1 AND 0xc0 = 0x80)"

lemmas ip_class_defs =
  is_unspecified_def is_loopback_def is_private_def is_multicast_def
  is_link_local_multicast_def is_link_local_unicast_def

lemma length_v4_in_v6 [simp]: "length v4_in_v6 = 12"
  by (simp add: v4_in_v6_def)

lemma to4_v4 [simp]: "length a = 4 \<Longrightarrow> to4 a = a"
  by (simp add: to4_def)

lemma to4_mapped [simp]: "length a = 4 \<Longrightarrow> to4 (v4_in_v6 @ a) = a"
  by (simp add: to4_def)

lemma to4_cases: "to4 a = [] \<or> (length (to4 a) = 4 \<and> (a = to4 a \<or> a = v4_in_v6 @ to4 a))"
  unfolding to4_def by (auto) (metis append_take_drop_id)

text \<open>A mapped address and the plain IPv4 address it maps are in the same classes.\<close>

lemma mapped_classes:
  assumes "length a = 4"
  shows "is_loopback (v4_in_v6 @ a) = is_loopback a"
    and "is_private (v4_in_v6 @ a) = is_private a"
    and "is_multicast (v4_in_v6 @ a) = is_multicast a"
    and "is_link_local_multicast (v4_in_v6 @ a) = is_link_local_multicast a"
    and "is_link_local_unicast (v4_in_v6 @ a) = is_link_local_unicast a"
  using assms by (auto simp: ip_class_defs Let_def)

lemma v4_in_v6_not_zero [simp]: "replicate 12 0 \<noteq> v4_in_v6"
proof
  assume "replicate 12 0 = v4_in_v6"
  then have "replicate 12 (0::byte) ! 10 = v4_in_v6 ! 10" by simp
  then show False by (simp add: v4_in_v6_def)
qed

lemma v4_in_v6_not_unspecified [simp]: "v4_in_v6 @ a \<noteq> ipv6_unspecified"
proof
  assume "v4_in_v6 @ a = ipv6_unspecified"
  then have "take 12 (v4_in_v6 @ a) = take 12 ipv6_unspecified" by simp
  then show False using v4_in_v6_not_zero by (simp add: ipv6_unspecified_def)
qed

lemma mapped_unspecified:
  assumes "length a = 4"
  shows "is_unspecified (v4_in_v6 @ a) = is_unspecified a"
  using assms v4_in_v6_not_zero
  by (auto simp: is_unspecified_def ip_equal_def ipv4_zero_def length_replicate)
    (auto simp: ipv6_unspecified_def)

section \<open>CIDR blocks\<close>

text \<open>\<open>IPNet\<close>: a network number and a mask of the same length.\<close>

type_synonym ipnet = "byte list \<times> byte list"

definition cidr_mask_byte :: "nat \<Rightarrow> byte" where
  "cidr_mask_byte n = (if 8 \<le> n then 0xff else word_of_nat (256 - 2 ^ (8 - n)))"

fun cidr_mask :: "nat \<Rightarrow> nat \<Rightarrow> byte list" where
  "cidr_mask ones 0 = []"
| "cidr_mask ones (Suc bytes) = cidr_mask_byte ones # cidr_mask (ones - 8) bytes"

definition net_contains :: "ipnet \<Rightarrow> ip \<Rightarrow> bool" where
  "net_contains n a \<longleftrightarrow>
     (let b = (if to4 a \<noteq> [] then to4 a else a)
      in length b = length (fst n) \<and>
         list_all2 (\<lambda>(x, m) y. x AND m = y AND m) (zip (fst n) (snd n)) b)"

section \<open>Parsing addresses\<close>

definition hex_val :: "char \<Rightarrow> nat option" where
  "hex_val c = (if is_digit c then Some (code c - 48)
                else if 97 \<le> code c \<and> code c \<le> 102 then Some (code c - 87)
                else if 65 \<le> code c \<and> code c \<le> 70 then Some (code c - 55)
                else None)"

text \<open>An octet: one to three decimal digits, no leading zero, at most 255.\<close>

definition parse_octet :: "string \<Rightarrow> byte option" where
  "parse_octet s = (if all_digits s \<and> (length s = 1 \<or> hd s \<noteq> CHR ''0'') \<and> digits_val s \<le> 255
                    then Some (word_of_nat (digits_val s)) else None)"

definition parse_ipv4 :: "string \<Rightarrow> byte list option" where
  "parse_ipv4 s = (case map parse_octet (split_byte (CHR ''.'') s) of
       [Some a, Some b, Some c, Some d] \<Rightarrow> Some [a, b, c, d] | _ \<Rightarrow> None)"

definition group_bytes :: "nat \<Rightarrow> byte list" where
  "group_bytes v = [word_of_nat (v div 256), word_of_nat (v mod 256)]"

definition hex_digits_val :: "string \<Rightarrow> nat" where
  "hex_digits_val s = foldl (\<lambda>a c. 16 * a + (case hex_val c of None \<Rightarrow> 0 | Some d \<Rightarrow> d)) 0 s"

text \<open>
  The group loop of \<open>netip.parseIPv6\<close>: \<open>acc\<close> holds the bytes so far, \<open>ell\<close> the byte offset of the
  ellipsis. The result is the bytes and the ellipsis, before it is expanded.
\<close>

function v6_groups :: "string \<Rightarrow> byte list \<Rightarrow> nat option \<Rightarrow> (byte list \<times> nat option) option" where
  "v6_groups s acc ell =
     (if 16 \<le> length acc then (if s = [] then Some (acc, ell) else None)
      else
        let ds = takeWhile (\<lambda>c. hex_val c \<noteq> None) s; rest = drop (length ds) s in
        if ds = [] \<or> 4 < length ds then None
        else if has_prefix rest ''.'' then
          (if (ell = None \<and> length acc \<noteq> 12) \<or> 12 < length acc then None
           else map_option (\<lambda>v4. (acc @ v4, ell)) (parse_ipv4 s))
        else
          let acc' = acc @ group_bytes (hex_digits_val ds) in
          if rest = [] then Some (acc', ell)
          else if \<not> has_prefix rest '':'' \<or> length rest = 1 then None
          else if has_prefix rest ''::'' then
            (if ell \<noteq> None then None
             else if length rest = 2 then Some (acc', Some (length acc'))
             else v6_groups (drop 2 rest) acc' (Some (length acc')))
          else v6_groups (tl rest) acc' ell)"
  by pat_completeness auto
termination
  by (relation "measure (\<lambda>(s, acc, ell). length s)") auto

declare v6_groups.simps [simp del]

definition expand_ellipsis :: "byte list \<times> nat option \<Rightarrow> byte list option" where
  "expand_ellipsis r = (case r of
       (bs, None) \<Rightarrow> (if length bs = 16 then Some bs else None)
     | (bs, Some e) \<Rightarrow> (if 16 \<le> length bs then None
                       else Some (take e bs @ replicate (16 - length bs) 0 @ drop e bs)))"

definition parse_ipv6 :: "string \<Rightarrow> byte list option" where
  "parse_ipv6 s =
     (if s = ''::'' then Some ipv6_unspecified
      else if has_prefix s ''::'' then Option.bind (v6_groups (drop 2 s) [] (Some 0)) expand_ellipsis
      else Option.bind (v6_groups s [] None) expand_ellipsis)"

text \<open>
  \<open>net.ParseIP\<close>: the first of \<open>.\<close>, \<open>:\<close>, \<open>%\<close> decides the form; an address with a zone is not an IP;
  the result always has 16 bytes. Nil is \<open>[]\<close>.
\<close>

definition parse_ip :: "string \<Rightarrow> ip" where
  "parse_ip s =
     (case dropWhile (\<lambda>c. c \<noteq> CHR ''.'' \<and> c \<noteq> CHR '':'' \<and> c \<noteq> CHR ''%'') s of
        [] \<Rightarrow> []
      | c # _ \<Rightarrow>
          if c = CHR ''.'' then (case parse_ipv4 s of None \<Rightarrow> [] | Some b \<Rightarrow> v4_in_v6 @ b)
          else if c = CHR '':'' \<and> CHR ''%'' \<notin> set s
          then (case parse_ipv6 s of None \<Rightarrow> [] | Some b \<Rightarrow> b)
          else [])"

definition parse_cidr :: "string \<Rightarrow> ipnet option" where
  "parse_cidr s =
     (case index_byte s (CHR ''/'') of
        None \<Rightarrow> None
      | Some i \<Rightarrow>
          let a = parse_ip (take i s); n = digits_val (drop (Suc i) s);
              b = (if CHR '':'' \<in> set (take i s) then a else to4 a);
              m = cidr_mask n (length b)
          in if a = [] \<or> \<not> all_digits (drop (Suc i) s) \<or> 8 * length b < n then None
             else Some (map2 (\<lambda>x y. x AND y) b m, m))"

lemma parse_ip_examples:
  "parse_ip ''192.168.0.1'' = v4_in_v6 @ [192, 168, 0, 1]"
  "parse_ip ''::1'' = ipv6_loopback"
  "parse_ip ''fe80::1%eth0'' = []"
  "parse_ip ''github.com'' = []"
  "parse_ip ''01.2.3.4'' = []"
  by code_simp+

section \<open>Rendering addresses\<close>

fun v6_words :: "byte list \<Rightarrow> nat list" where
  "v6_words (a # b # r) = (256 * unat a + unat b) # v6_words r"
| "v6_words _ = []"

function hex_str :: "nat \<Rightarrow> string" where
  "hex_str n = (if n < 16 then [hex_char n] else hex_str (n div 16) @ [hex_char (n mod 16)])"
  by pat_completeness auto
termination
  by (relation "measure id") auto

declare hex_str.simps [simp del]

text \<open>The leftmost longest run of at least two zero groups, as (start, length).\<close>

definition zero_run_at :: "nat list \<Rightarrow> nat \<Rightarrow> nat" where
  "zero_run_at ws i = length (takeWhile (\<lambda>w. w = 0) (drop i ws))"

definition longest_zero_run :: "nat list \<Rightarrow> nat \<times> nat" where
  "longest_zero_run ws =
     foldl (\<lambda>(b, l) i. if 2 \<le> zero_run_at ws i \<and> l < zero_run_at ws i then (i, zero_run_at ws i) else (b, l))
       (length ws, 0) [0..<length ws]"

definition v6_string :: "byte list \<Rightarrow> string" where
  "v6_string a =
     (let ws = v6_words a; (b, l) = longest_zero_run ws in
      if l = 0 then join '':'' (map hex_str ws)
      else join '':'' (map hex_str (take b ws)) @ ''::'' @ join '':'' (map hex_str (drop (b + l) ws)))"

definition v4_string :: "byte list \<Rightarrow> string" where
  "v4_string a = join ''.'' (map (\<lambda>b. nat_str (unat b)) a)"

definition ip_string :: "ip \<Rightarrow> string" where
  "ip_string a =
     (if a = [] then ''<nil>''
      else if to4 a \<noteq> [] then v4_string (to4 a)
      else if length a = 16 then v6_string a
      else CHR ''?'' # hex_encode (map unat a))"

lemma ip_string_examples:
  "ip_string [10, 0, 0, 1] = ''10.0.0.1''"
  "ip_string (v4_in_v6 @ [10, 0, 0, 1]) = ''10.0.0.1''"
  by (simp_all add: ip_string_def v4_string_def nat_str.simps)

lemma v6_string_example:
  "ip_string [0x20, 1, 0x0d, 0xb8, 0, 0, 0, 0, 0, 0, 0, 0, 0, 0, 0, 1] = ''2001:db8::1''"
  by (simp add: ip_string_def to4_def v4_in_v6_def v6_string_def longest_zero_run_def
      zero_run_at_def upt_rec hex_str.simps)

lemma v4_string_head: "a \<noteq> [] \<Longrightarrow> v4_string a \<noteq> [] \<and> is_digit (hd (v4_string a))"
proof -
  assume "a \<noteq> []"
  then obtain b r where "a = b # r" by (cases a) auto
  then show ?thesis using nat_str_head [of "unat b"]
    by (cases r) (auto simp: v4_string_def hd_append)
qed

section \<open>Host and port\<close>

definition join_host_port :: "string \<Rightarrow> string \<Rightarrow> string" where
  "join_host_port h p = (if CHR '':'' \<in> set h then ''['' @ h @ '']:'' @ p else h @ '':'' @ p)"

definition split_host_port :: "string \<Rightarrow> (string \<times> string) option" where
  "split_host_port s =
     (case last_index_byte s (CHR '':'') of
        None \<Rightarrow> None
      | Some i \<Rightarrow>
          if has_prefix s ''['' then
            (case index_byte s (CHR '']'') of
               None \<Rightarrow> None
             | Some e \<Rightarrow>
                 if e + 1 \<noteq> i then None
                 else if CHR ''['' \<in> set (drop 1 s) \<or> CHR '']'' \<in> set (drop (e + 1) s) then None
                 else Some (take (e - 1) (drop 1 s), drop (Suc i) s))
          else if CHR '':'' \<in> set (take i s) \<or> CHR ''['' \<in> set s \<or> CHR '']'' \<in> set s then None
          else Some (take i s, drop (Suc i) s))"

lemma split_join_host_port:
  assumes "CHR ''['' \<notin> set h" "CHR '']'' \<notin> set h" "CHR '':'' \<notin> set p" "CHR ''['' \<notin> set p" "CHR '']'' \<notin> set p"
  shows "split_host_port (join_host_port h p) = Some (h, p)"
proof (cases "CHR '':'' \<in> set h")
  case True
  let ?s = "''['' @ h @ '']:'' @ p"
  have e: "index_byte ?s (CHR '']'') = Some (Suc (length h))"
    using index_byte_append [of "CHR '']''" "''['' @ h" "'':'' @ p"] assms by simp
  have "last_index_byte ?s (CHR '':'') = Some (length (''['' @ h @ '']''))"
    using last_index_byte_append [of "CHR '':''" p "''['' @ h @ '']''"] assms by simp
  then show ?thesis
    using True e assms by (simp add: join_host_port_def split_host_port_def)
next
  case False
  have "last_index_byte (h @ '':'' @ p) (CHR '':'') = Some (length h)"
    using last_index_byte_append [of "CHR '':''" p h] assms by simp
  moreover have "\<not> has_prefix (h @ '':'' @ p) ''[''"
    using assms by (cases h) auto
  ultimately show ?thesis
    using False assms by (simp add: join_host_port_def split_host_port_def)
qed

text \<open>\<open>fmt.Sscanf (s, "%d", &n)\<close>: leading blanks, a sign, digits; what follows is ignored.\<close>

definition scan_blanks :: "string list" where
  "scan_blanks = filter (\<lambda>p. p \<noteq> [CHR 0x0A]) space_runes"

definition sscanf_d :: "string \<Rightarrow> int option" where
  "sscanf_d s =
     (let t = strip_heads scan_blanks s;
          sg = (if has_prefix t ''-'' \<or> has_prefix t ''+'' then take 1 t else []);
          ds = takeWhile is_digit (drop (length sg) t)
      in if ds = [] then None else atoi (sg @ ds))"

lemma sscanf_d_nat_str: "int n \<le> max_int64 \<Longrightarrow> sscanf_d (nat_str n) = Some (int n)"
proof -
  assume "int n \<le> max_int64"
  moreover have "strip_heads scan_blanks (nat_str n) = nat_str n"
    by (rule strip_heads_graphic)
      (auto simp: scan_blanks_def is_digit_graphic nat_str_head dest: space_runes_heads)
  moreover have tw: "takeWhile is_digit (nat_str n) = nat_str n"
    using nat_str_digits [of n] by (simp add: list_all_iff takeWhile_eq_all_conv)
  ultimately show ?thesis by (simp add: sscanf_d_def Let_def atoi_nat_str tw del: takeWhile_eq_all_conv)
qed

section \<open>Evaluating blocks and masks\<close>

lemma cidr_mask_numeral: "cidr_mask ones (numeral k) = cidr_mask_byte ones # cidr_mask (ones - 8) (pred_numeral k)"
  by (simp add: numeral_eq_Suc)
lemma replicate_numeral_Cons: "replicate (numeral k) x = x # replicate (pred_numeral k) x"
  by (simp add: numeral_eq_Suc)
lemmas cidr_eval = parse_cidr_def parse_ip_def parse_ipv6_def v6_groups.simps expand_ellipsis_def hex_digits_val_def hex_val_def 
  is_digit_def group_bytes_def ipv6_unspecified_def cidr_mask_numeral replicate_numeral_Cons cidr_mask_byte_def
  all_digits_def digits_val_def digit_val_def to4_def v4_in_v6_def

lemma byte_all:
  "P 0 0 \<Longrightarrow> P 1 1 \<Longrightarrow> list_all (\<lambda>n. P (word_of_nat n :: byte) n) [2..<256] \<Longrightarrow> P b (unat b)"
proof -
  assume p: "P 0 0" "P 1 1" and "list_all (\<lambda>n. P (word_of_nat n :: byte) n) [2..<256]"
  then have *: "\<forall>n \<in> set [2..<256]. P (word_of_nat n :: byte) n" by (simp only: list_all_iff)
  have b: "b = word_of_nat (unat b)" by simp
  have "unat b < 2 ^ LENGTH(8)" by (rule unsigned_less)
  then have "unat b < 256" by simp
  then consider "unat b = 0" | "unat b = 1" | "unat b \<in> set [2..<256]"
    unfolding set_upt atLeastLessThan_iff by linarith
  then show "P b (unat b)"
  proof cases
    case 3 then have "P (word_of_nat (unat b)) (unat b)" using * by (rule bspec [rotated])
    then show ?thesis by simp
  next
    case 1 then have "b = 0" by (simp add: unsigned_eq_0_iff)
    with p show ?thesis by simp
  next
    case 2 then have "b = 1" using b by simp
    with p show ?thesis by simp
  qed
qed

lemma byte_and_192: "(b::byte) AND 192 = 64 \<longleftrightarrow> 64 \<le> unat b \<and> unat b < 128"
  by (rule byte_all [where P = "\<lambda>b n. (b AND 192 = 64) = (64 \<le> n \<and> n < 128)"]) simp_all
lemma byte_and_240_16: "(b::byte) AND 240 = 16 \<longleftrightarrow> 16 \<le> unat b \<and> unat b < 32"
  by (rule byte_all [where P = "\<lambda>b n. (b AND 240 = 16) = (16 \<le> n \<and> n < 32)"]) simp_all
lemma byte_and_254: "(b::byte) AND 254 = 18 \<longleftrightarrow> unat b = 18 \<or> unat b = 19"
  by (rule byte_all [where P = "\<lambda>b n. (b AND 254 = 18) = (n = 18 \<or> n = 19)"]) simp_all
lemma byte_and_240_240: "(b::byte) AND 240 = 240 \<longleftrightarrow> 240 \<le> unat b"
  by (rule byte_all [where P = "\<lambda>b n. (b AND 240 = 240) = (240 \<le> n)"]) simp_all
lemma byte_and_240_224: "(b::byte) AND 240 = 224 \<longleftrightarrow> 224 \<le> unat b \<and> unat b < 240"
  by (rule byte_all [where P = "\<lambda>b n. (b AND 240 = 224) = (224 \<le> n \<and> n < 240)"]) simp_all

lemma byte_and_255 [simp]: "(b::byte) AND 255 = b"
proof -
  have "(255::byte) = -1" by simp
  then show ?thesis by (metis and.right_neutral)
qed

end
