(* ===== verification/Whitelist.thy ===== *)
theory Whitelist
  imports GoNet
begin

text \<open>
  \<^verbatim>\<open>internal/policy/whitelist\<close>: the domain list that decides which hosts the tunnel and the local
  proxy send through the server. A Go set \<open>map[string]struct{}\<close> is the list of its keys without
  repetition; where the code ranges over a map, the order is an argument.
\<close>

section \<open>The list\<close>

record wl_list =
  wl_version :: string
  wl_exact :: "string list"
  wl_suffix :: "string list"

definition wl_empty :: "string \<Rightarrow> wl_list" where
  "wl_empty v = \<lparr>wl_version = v, wl_exact = [], wl_suffix = []\<rparr>"

text \<open>An entry as the loop of \<open>Parse\<close> cleans it, and one turn of that loop.\<close>

definition wl_clean :: "string \<Rightarrow> string" where
  "wl_clean e = trim_suffix (to_lower (trim_space e)) ''.''"

definition wl_add :: "wl_list \<Rightarrow> string \<Rightarrow> wl_list" where
  "wl_add l e0 =
     (let e = wl_clean e0 in
      if e = [] \<or> has_prefix e ''#'' then l
      else if has_prefix e ''*.'' then
        l\<lparr>wl_suffix := List.insert (trim_prefix e ''*'') (wl_suffix l)\<rparr>
      else if has_prefix e ''.'' then
        l\<lparr>wl_suffix := List.insert e (wl_suffix l),
          wl_exact := List.insert (trim_prefix e ''.'') (wl_exact l)\<rparr>
      else
        l\<lparr>wl_exact := List.insert e (wl_exact l),
          wl_suffix := List.insert (''.'' @ e) (wl_suffix l)\<rparr>)"

definition wl_parse :: "string \<Rightarrow> string list \<Rightarrow> wl_list" where
  "wl_parse v entries = foldl wl_add (wl_empty v) entries"

section \<open>Entries\<close>

text \<open>
  \<open>Entries\<close> ranges over both maps: \<open>es\<close> and \<open>ss\<close> are the orders in which the run-time visits the
  keys of \<open>exact\<close> and \<open>suffix\<close>. The set \<open>seen\<close> always holds the elements of \<open>out\<close>.
\<close>

fun wl_collect :: "string list \<Rightarrow> string list \<Rightarrow> string list" where
  "wl_collect out [] = out"
| "wl_collect out (d # ds) = wl_collect (if d \<in> set out then out else out @ [d]) ds"

definition wl_entries_order :: "string list \<Rightarrow> string list \<Rightarrow> string list" where
  "wl_entries_order es ss =
     insertion_sort (wl_collect (wl_collect [] es) (map (\<lambda>d. trim_prefix d ''.'') ss))"

definition wl_entries :: "wl_list \<Rightarrow> string list" where
  "wl_entries l = wl_entries_order (wl_exact l) (wl_suffix l)"

definition wl_len :: "wl_list \<Rightarrow> nat" where
  "wl_len l = length (wl_entries l)"

section \<open>Matching\<close>

text \<open>\<open>isAllDigits\<close> is false on the empty string.\<close>

definition normalize_host :: "string \<Rightarrow> string" where
  "normalize_host host =
     (let h = to_lower (trim_space host);
          h1 = (case last_index_byte h (CHR '':'') of
                  None \<Rightarrow> h
                | Some i \<Rightarrow>
                    let tail = drop (Suc i) h in
                    if all_digits tail \<or> (contains h '']'' \<and> Suc i = length h) then
                      (if (all_digits tail \<and> \<not> has_prefix h ''['') \<or> has_suffix h '']'' then take i h else h)
                    else h);
          h2 = trim_suffix h1 ''.''
      in if has_prefix h2 ''['' \<and> has_suffix h2 '']'' then butlast (tl h2) else h2)"

definition wl_match :: "wl_list \<Rightarrow> string \<Rightarrow> bool" where
  "wl_match l host =
     (let h = normalize_host host in
      if h = [] then False
      else if parse_ip h \<noteq> [] then False
      else if h \<in> set (wl_exact l) then True
      else list_ex (\<lambda>suf. has_suffix h suf) (wl_suffix l))"

definition wl_default :: wl_list where
  "wl_default = wl_parse ''default''
     [''github.com'', ''objects.githubusercontent.com'', ''codeload.github.com'',
      ''raw.githubusercontent.com'', ''github-releases.githubusercontent.com'',
      ''gist.github.com'', ''api.github.com'', ''files.pythonhosted.org'', ''pypi.org'',
      ''registry.npmjs.org'']"

text \<open>The store holds one list and swaps it whole.\<close>

record wl_store =
  wls_list :: wl_list

definition wl_new_store :: "wl_list option \<Rightarrow> wl_store" where
  "wl_new_store l = \<lparr>wls_list = (case l of None \<Rightarrow> wl_parse ''empty'' [] | Some x \<Rightarrow> x)\<rparr>"

definition wl_get :: "wl_store \<Rightarrow> wl_list" where
  "wl_get s = wls_list s"

definition wl_swap :: "wl_store \<Rightarrow> wl_list \<Rightarrow> wl_store" where
  "wl_swap s l = s\<lparr>wls_list := l\<rparr>"

section \<open>The whitelist file\<close>

text \<open>
  \<open>LoadWhitelist\<close> of \<^verbatim>\<open>internal/server/app/app.go\<close>. Reading the file gives its bytes, no file or
  another error; \<open>stamp\<close> is the formatted modification time, when \<open>Stat\<close> succeeds.
\<close>

datatype file_read = File string | No_File | Read_Error

definition crlf :: string where
  "crlf = [CHR 0x0D, CHR 0x0A]"

fun load_lines :: "string \<Rightarrow> string list \<Rightarrow> string list \<Rightarrow> string \<times> string list" where
  "load_lines version entries [] = (version, entries)"
| "load_lines version entries (l # ls) =
     (let line = trim_space l in
      if line = [] \<or> has_prefix line ''#'' then
        (let v = trim_prefix line ''# version:'' in
         load_lines (if v \<noteq> line then trim_space v else version) entries ls)
      else load_lines version (entries @ [line]) ls)"

definition load_whitelist :: "file_read \<Rightarrow> string option \<Rightarrow> wl_list option" where
  "load_whitelist r stamp =
     (case r of
        No_File \<Rightarrow> Some wl_default
      | Read_Error \<Rightarrow> None
      | File content \<Rightarrow>
          (let (version, entries) = load_lines [] [] (split_byte (CHR 0x0A) (replace_all content crlf [CHR 0x0A])) in
           Some (wl_parse
             (if version = [] then (case stamp of Some t \<Rightarrow> t | None \<Rightarrow> ''unknown'') else version) entries)))"

lemma load_lines_entries:
  "snd (load_lines v acc ls) =
     acc @ filter (\<lambda>l. l \<noteq> [] \<and> \<not> has_prefix l ''#'') (map trim_space ls)"
  by (induction ls arbitrary: v acc) (auto simp: Let_def)

section \<open>What an entry covers\<close>

text \<open>The documented meaning of one entry, on a normalised host.\<close>

definition entry_covers :: "string \<Rightarrow> string \<Rightarrow> bool" where
  "entry_covers e0 h \<longleftrightarrow>
     (let e = wl_clean e0 in
      e \<noteq> [] \<and> \<not> has_prefix e ''#'' \<and>
      (if has_prefix e ''*.'' then has_suffix h (tl e)
       else if has_prefix e ''.'' then h = tl e \<or> has_suffix h e
       else h = e \<or> has_suffix h (''.'' @ e)))"

lemma wl_add_covers:
  "(h \<in> set (wl_exact (wl_add l e)) \<or> list_ex (\<lambda>suf. has_suffix h suf) (wl_suffix (wl_add l e))) \<longleftrightarrow>
   (h \<in> set (wl_exact l) \<or> list_ex (\<lambda>suf. has_suffix h suf) (wl_suffix l)) \<or> entry_covers e h"
proof -
  have p: "has_prefix (wl_clean e) ''*.'' \<Longrightarrow> trim_prefix (wl_clean e) ''*'' = tl (wl_clean e)"
    "has_prefix (wl_clean e) ''.'' \<Longrightarrow> trim_prefix (wl_clean e) ''.'' = tl (wl_clean e)"
    by (auto simp: trim_prefix_def prefix_def)
  show ?thesis
    by (auto simp: wl_add_def entry_covers_def Let_def p list_ex_iff)
qed

lemma wl_foldl_covers:
  "(h \<in> set (wl_exact (foldl wl_add l es)) \<or> list_ex (\<lambda>suf. has_suffix h suf) (wl_suffix (foldl wl_add l es))) \<longleftrightarrow>
   (h \<in> set (wl_exact l) \<or> list_ex (\<lambda>suf. has_suffix h suf) (wl_suffix l)) \<or> (\<exists>e \<in> set es. entry_covers e h)"
proof (induction es arbitrary: l)
  case (Cons e es)
  show ?case by (simp only: foldl_Cons Cons.IH wl_add_covers) auto
qed simp

lemma wl_match_parse:
  "wl_match (wl_parse v es) host \<longleftrightarrow>
     normalize_host host \<noteq> [] \<and> parse_ip (normalize_host host) = [] \<and>
     (\<exists>e \<in> set es. entry_covers e (normalize_host host))"
  using wl_foldl_covers [of "normalize_host host" "wl_empty v" es]
  by (auto simp: wl_match_def wl_parse_def wl_empty_def Let_def)

subsection \<open>Labels\<close>

lemma dot_suffix_labels:
  "has_suffix h (CHR ''.'' # d) \<Longrightarrow> suffix (split_byte (CHR ''.'') d) (split_byte (CHR ''.'') h)"
  by (auto simp: suffix_def split_byte_append_sep)

text \<open>The labels an entry names: its cleaned form without a leading \<open>*.\<close> or \<open>.\<close>.\<close>

definition entry_labels :: "string \<Rightarrow> string list" where
  "entry_labels e0 =
     (let e = wl_clean e0 in
      split_byte (CHR ''.'')
        (if has_prefix e ''*.'' then drop 2 e else if has_prefix e ''.'' then tl e else e))"

lemma entry_covers_labels:
  "entry_covers e h \<Longrightarrow> suffix (entry_labels e) (split_byte (CHR ''.'') h)"
proof -
  assume c: "entry_covers e h"
  have p: "has_prefix x ''*.'' \<Longrightarrow> tl x = CHR ''.'' # drop 2 x"
    "has_prefix x ''.'' \<Longrightarrow> x = CHR ''.'' # tl x" for x
    by (auto simp: prefix_def)
  show ?thesis
    using c p [of "wl_clean e"]
    by (auto simp: entry_covers_def entry_labels_def Let_def dot_suffix_labels split: if_splits)
qed

subsection \<open>Entries, sorted and without repetition, whatever the map order\<close>

lemma wl_collect_set: "set (wl_collect out ds) = set out \<union> set ds"
  by (induction ds arbitrary: out) auto

lemma wl_collect_distinct: "distinct out \<Longrightarrow> distinct (wl_collect out ds)"
  by (induction ds arbitrary: out) auto

lemma wl_entries_order_sorted:
  "wl_entries_order es ss = sorted_list_of_set (set es \<union> (\<lambda>d. trim_prefix d ''.'') ` set ss)"
proof -
  let ?c = "wl_collect (wl_collect [] es) (map (\<lambda>d. trim_prefix d ''.'') ss)"
  have "distinct ?c" by (intro wl_collect_distinct) simp
  then have "insertion_sort ?c = sorted_list_of_set (set ?c)"
    by (simp add: insertion_sort_sort sort_sorted_list_of_set)
  also have "set ?c = set es \<union> (\<lambda>d. trim_prefix d ''.'') ` set ss"
    by (simp add: wl_collect_set)
  finally show ?thesis by (simp only: wl_entries_order_def)
qed

lemma set_wl_entries:
  "set (wl_entries l) = set (wl_exact l) \<union> (\<lambda>d. trim_prefix d ''.'') ` set (wl_suffix l)"
  by (simp add: wl_entries_def wl_entries_order_sorted)

subsection \<open>Publishing a list and parsing it again\<close>

text \<open>
  The server publishes \<open>Entries\<close> and the client parses them. A plain entry is one that cleaning
  leaves alone and that has neither a wildcard nor a leading dot.
\<close>

definition plain_entry :: "string \<Rightarrow> bool" where
  "plain_entry e \<longleftrightarrow> wl_clean e = e \<and> e \<noteq> [] \<and> hd e \<notin> {CHR ''#'', CHR ''*'', CHR ''.''}"

lemma plain_entry_covers:
  "plain_entry e \<Longrightarrow> entry_covers e h \<longleftrightarrow> h = e \<or> has_suffix h (''.'' @ e)"
  by (cases e) (auto simp: plain_entry_def entry_covers_def Let_def)

lemma wl_add_plain:
  "plain_entry e \<Longrightarrow> wl_add l e =
     l\<lparr>wl_exact := List.insert e (wl_exact l), wl_suffix := List.insert (''.'' @ e) (wl_suffix l)\<rparr>"
  by (cases e) (auto simp: plain_entry_def wl_add_def Let_def)

lemma wl_plain_fields:
  "\<forall>e \<in> set es. plain_entry e \<Longrightarrow>
   set (wl_exact (foldl wl_add l es)) = set (wl_exact l) \<union> set es \<and>
   set (wl_suffix (foldl wl_add l es)) = set (wl_suffix l) \<union> (\<lambda>e. ''.'' @ e) ` set es"
  by (induction es arbitrary: l) (auto simp: wl_add_plain)

lemma wl_entries_plain:
  "\<forall>e \<in> set es. plain_entry e \<Longrightarrow> set (wl_entries (wl_parse v es)) = set es"
  using wl_plain_fields [of es "wl_empty v"]
  by (auto simp: set_wl_entries wl_parse_def wl_empty_def image_image trim_prefix_def)

text \<open>A clean entry is a plain one, possibly behind a \<open>*.\<close> mark; \<open>published\<close> drops the mark.\<close>

definition published :: "string \<Rightarrow> string" where
  "published e = (if has_prefix e ''*.'' then drop 2 e else e)"

definition clean_entry :: "string \<Rightarrow> bool" where
  "clean_entry e \<longleftrightarrow> wl_clean e = e \<and> plain_entry (published e)"

lemma wl_add_clean:
  "clean_entry e \<Longrightarrow>
     set (wl_exact (wl_add l e)) \<union> (\<lambda>d. trim_prefix d ''.'') ` set (wl_suffix (wl_add l e)) =
     insert (published e) (set (wl_exact l) \<union> (\<lambda>d. trim_prefix d ''.'') ` set (wl_suffix l))"
proof -
  assume c: "clean_entry e"
  show ?thesis
  proof (cases "has_prefix e ''*.''")
    case True
    then obtain d where "e = ''*.'' @ d" by (auto simp: prefix_def)
    with c show ?thesis
      by (auto simp: clean_entry_def published_def wl_add_def Let_def trim_prefix_def plain_entry_def)
  next
    case False
    with c have "plain_entry e" "published e = e" by (auto simp: clean_entry_def published_def)
    then show ?thesis by (auto simp: wl_add_plain trim_prefix_def)
  qed
qed

lemma set_wl_entries_clean:
  "\<forall>e \<in> set es. clean_entry e \<Longrightarrow> set (wl_entries (wl_parse v es)) = set (map published es)"
proof -
  assume c: "\<forall>e \<in> set es. clean_entry e"
  have "set (wl_exact (foldl wl_add l es)) \<union> (\<lambda>d. trim_prefix d ''.'') ` set (wl_suffix (foldl wl_add l es)) =
     set (map published es) \<union> (set (wl_exact l) \<union> (\<lambda>d. trim_prefix d ''.'') ` set (wl_suffix l))" for l
    using c
  proof (induction es arbitrary: l)
    case (Cons e es)
    then show ?case
      by (simp only: foldl_Cons) (use Cons.prems in \<open>simp add: wl_add_clean del: wl_add_def\<close>)
  qed simp
  from this [of "wl_empty v"] show ?thesis
    by (simp add: set_wl_entries wl_parse_def wl_empty_def)
qed

section \<open>The interface the tunnel and the proxy rely on\<close>

text \<open>
  A host filter decides on a normal form of the host, and never lets an IP literal or an empty host
  through.
\<close>

locale host_filter =
  fixes matches :: "'l \<Rightarrow> string \<Rightarrow> bool"
    and norm :: "string \<Rightarrow> string"
  assumes match_norm: "norm h = norm h' \<Longrightarrow> matches l h = matches l h'"
    and match_nonempty: "matches l h \<Longrightarrow> norm h \<noteq> []"
    and match_not_ip: "matches l h \<Longrightarrow> parse_ip (norm h) = []"
begin

lemma ip_never_matches: "parse_ip (norm h) \<noteq> [] \<Longrightarrow> \<not> matches l h"
  using match_not_ip by blast

lemma empty_never_matches: "norm h = [] \<Longrightarrow> \<not> matches l h"
  using match_nonempty by blast

end

interpretation wl: host_filter wl_match normalize_host
  by unfold_locales (auto simp: wl_match_def Let_def split: if_splits)

section \<open>Properties\<close>

text \<open>
  C1. The parsed list matches a host exactly when the host, normalised, is neither empty nor an IP
  literal and one of the entries covers it: \<open>d\<close> and \<open>.d\<close> cover \<open>d\<close> and its subdomains, \<open>*.d\<close> only
  the subdomains, and blank or \<open>#\<close> entries cover nothing.
\<close>

theorem whitelist_match_iff_covered:
  "wl_match (wl_parse v entries) host \<longleftrightarrow>
     normalize_host host \<noteq> [] \<and> parse_ip (normalize_host host) = [] \<and>
     (\<exists>e \<in> set entries. entry_covers e (normalize_host host))"
  by (rule wl_match_parse)

text \<open>
  Matching respects label boundaries: when a host matches, the labels of some entry are the last
  labels of the host. So \<open>github.com.evil.com\<close> and \<open>evilgithub.com\<close> are not let in by \<open>github.com\<close>.
\<close>

theorem whitelist_label_boundary:
  assumes "wl_match (wl_parse v entries) host"
  shows "\<exists>e \<in> set entries. suffix (entry_labels e) (split_byte (CHR ''.'') (normalize_host host))"
  using assms entry_covers_labels by (auto simp: wl_match_parse)

theorem whitelist_label_boundary_witness:
  "wl_match (wl_parse ''v1'' [''github.com'']) ''API.github.com:443'' \<and>
   \<not> wl_match (wl_parse ''v1'' [''github.com'']) ''github.com.evil.com'' \<and>
   (\<exists>e \<in> set [''github.com''].
      suffix (entry_labels e) (split_byte (CHR ''.'') (normalize_host ''API.github.com:443'')))"
proof -
  have m: "wl_match (wl_parse ''v1'' [''github.com'']) ''API.github.com:443''"
    by code_simp
  moreover have "\<not> wl_match (wl_parse ''v1'' [''github.com'']) ''github.com.evil.com''"
    by code_simp
  ultimately show ?thesis using whitelist_label_boundary [OF m] by blast
qed

text \<open>
  \<open>Entries\<close> does not depend on the order in which the run-time visits the two maps: for any
  visiting orders of the same keys the result is the strictly sorted list of the exact names and the
  suffixes without their dot.
\<close>

theorem whitelist_entries_canonical:
  assumes "set es = set (wl_exact l)" and "set ss = set (wl_suffix l)"
  shows "wl_entries_order es ss = wl_entries l \<and> sorted_wrt (<) (wl_entries l) \<and>
    set (wl_entries l) = set (wl_exact l) \<union> (\<lambda>d. trim_prefix d ''.'') ` set (wl_suffix l)"
  using assms by (simp add: wl_entries_def wl_entries_order_sorted)

theorem whitelist_entries_canonical_witness:
  "wl_entries_order [''b.io'', ''a.io''] [''.a.io'', ''.b.io''] = wl_entries (wl_parse ''v'' [''a.io'', ''b.io''])"
proof -
  have e: "set [''b.io'', ''a.io''] = set (wl_exact (wl_parse ''v'' [''a.io'', ''b.io'']))"
    "set [''.a.io'', ''.b.io''] = set (wl_suffix (wl_parse ''v'' [''a.io'', ''b.io'']))"
    by code_simp+
  show ?thesis using whitelist_entries_canonical [OF e] by blast
qed

text \<open>
  What publishing a list does to its meaning. The client that parses the published entries has
  the list with every \<open>*.\<close> mark dropped: it matches exactly the hosts the server's plain entries
  cover, and for a wildcard entry also the bare domain, which the server refuses.
\<close>

theorem whitelist_publish_reparse:
  assumes "\<forall>e \<in> set es. clean_entry e"
  shows "wl_match (wl_parse v' (wl_entries (wl_parse v es))) host \<longleftrightarrow>
    wl_match (wl_parse v (map published es)) host"
  using assms by (simp add: wl_match_parse set_wl_entries_clean del: set_map)

theorem whitelist_publish_reparse_witness:
  "\<not> wl_match (wl_parse ''1'' [''*.github.com'']) ''github.com'' \<and>
   wl_match (wl_parse ''1'' (wl_entries (wl_parse ''1'' [''*.github.com'']))) ''github.com''"
proof -
  have c: "\<forall>e \<in> set [''*.github.com'']. clean_entry e" by code_simp
  have "wl_match (wl_parse ''1'' (map published [''*.github.com''])) ''github.com''" by code_simp
  moreover have "\<not> wl_match (wl_parse ''1'' [''*.github.com'']) ''github.com''" by code_simp
  ultimately show ?thesis using whitelist_publish_reparse [OF c, of "''1''" "''1''" "''github.com''"] by blast
qed

text \<open>
  Loading a whitelist file gives the list of its lines that are neither blank nor comments, each
  trimmed; a missing file gives the built-in default list and any other read error gives no list.
\<close>

theorem load_whitelist_entries:
  "(\<exists>version. load_whitelist (File content) stamp = Some (wl_parse version
      (filter (\<lambda>l. l \<noteq> [] \<and> \<not> has_prefix l ''#'')
        (map trim_space (split_byte (CHR 0x0A) (replace_all content crlf [CHR 0x0A])))))) \<and>
   load_whitelist No_File stamp = Some wl_default \<and> load_whitelist Read_Error stamp = None"
  using load_lines_entries [of "[]" "[]" "split_byte (CHR 0x0A) (replace_all content crlf [CHR 0x0A])"]
  by (auto simp: load_whitelist_def split: prod.splits)

end
