(* ===== verification/Ssrf.thy ===== *)
theory Ssrf
  imports GoNet
begin

text \<open>
  \<^verbatim>\<open>internal/policy/ssrf\<close>: the address and port policy every outgoing connection of the server
  passes through, and the guarded dialer. The resolver and the operating system's dialer are
  arguments: \<open>lookup\<close> gives the addresses of a name or an error text, \<open>connect\<close> a connection to an
  \<open>ip:port\<close> text or an error text.
\<close>

section \<open>Errors\<close>

datatype ssrf_code = Code_Port_Denied | Code_IP_Denied | Code_Resolve

record ssrf_error =
  se_code :: ssrf_code
  se_detail :: string

fun ssrf_code_string :: "ssrf_code \<Rightarrow> string" where
  "ssrf_code_string Code_Port_Denied = ''E_PORT_DENIED''"
| "ssrf_code_string Code_IP_Denied = ''E_SSRF_DENIED''"
| "ssrf_code_string Code_Resolve = ''E_DNS_RESOLVE''"

definition ssrf_error_string :: "ssrf_error \<Rightarrow> string" where
  "ssrf_error_string e = ssrf_code_string (se_code e) @ '': '' @ se_detail e"

definition denied :: "ssrf_code \<Rightarrow> string \<Rightarrow> ssrf_error" where
  "denied c d = \<lparr>se_code = c, se_detail = d\<rparr>"

section \<open>Blocked addresses\<close>

definition must_cidrs :: "string list \<Rightarrow> ipnet list option" where
  "must_cidrs cidrs = those (map parse_cidr cidrs)"

definition blocked_v4 :: "ipnet list" where
  "blocked_v4 = the (must_cidrs
     [''0.0.0.0/8'', ''10.0.0.0/8'', ''100.64.0.0/10'', ''127.0.0.0/8'', ''169.254.0.0/16'',
      ''172.16.0.0/12'', ''192.0.0.0/24'', ''192.0.2.0/24'', ''192.88.99.0/24'', ''192.168.0.0/16'',
      ''198.18.0.0/15'', ''198.51.100.0/24'', ''203.0.113.0/24'', ''240.0.0.0/4''])"

definition blocked_v6 :: "ipnet list" where
  "blocked_v6 = the (must_cidrs
     [''::/128'', ''::1/128'', ''64:ff9b::/96'', ''100::/64'', ''2001:10::/28'', ''2001:db8::/32'',
      ''fc00::/7'', ''fe80::/10'', ''ff00::/8''])"

definition is_v4_mapped :: "ip \<Rightarrow> bool" where
  "is_v4_mapped a \<longleftrightarrow> length a = 16 \<and> has_prefix (ip_string a) ''::ffff:''"

text \<open>The recursive call is on \<open>ip.To4()\<close>, so on four bytes or on nil.\<close>

function blocked_ip :: "ip \<Rightarrow> bool" where
  "blocked_ip a =
     (if a = [] then True
      else if \<not> (to4 a \<noteq> [] \<and> \<not> is_v4_mapped a) \<and> is_v4_mapped a then blocked_ip (to4 a)
      else
        (let b = (if to4 a \<noteq> [] \<and> \<not> is_v4_mapped a then to4 a else a) in
         if is_loopback b \<or> is_private b \<or> is_link_local_unicast b \<or> is_link_local_multicast b \<or>
            is_multicast b \<or> is_unspecified b then True
         else
           (let (c, table) = (if to4 b \<noteq> [] then (to4 b, blocked_v4) else (b, blocked_v6)) in
            list_ex (\<lambda>n. net_contains n c) table)))"
  by pat_completeness auto
termination
proof (relation "measure length")
  fix a :: ip
  assume "\<not> (to4 a \<noteq> [] \<and> \<not> is_v4_mapped a) \<and> is_v4_mapped a"
  then have "length a = 16" by (simp add: is_v4_mapped_def)
  moreover have "length (to4 a) < 16" using to4_cases [of a] by auto
  ultimately show "(to4 a, a) \<in> measure length" by simp
qed simp

declare blocked_ip.simps [simp del]

section \<open>The policy\<close>

record policy =
  pol_ports :: "int list"
  pol_block_private :: bool
  pol_allow_loopback :: bool
  pol_dial_timeout :: duration

definition allowed_ports :: "policy \<Rightarrow> int list" where
  "allowed_ports p = (if pol_ports p = [] then [80, 443] else pol_ports p)"

definition allow_all_ports :: "policy \<Rightarrow> bool" where
  "allow_all_ports p = list_ex (\<lambda>q. q = 0 \<or> q = -1) (pol_ports p)"

definition dial_timeout :: "policy \<Rightarrow> duration" where
  "dial_timeout p = (if pol_dial_timeout p \<le> 0 then 10 * second else pol_dial_timeout p)"

definition int_list_string :: "int list \<Rightarrow> string" where
  "int_list_string ps = ''['' @ join '' '' (map itoa ps) @ '']''"

text \<open>A check returns \<open>None\<close> for the nil error.\<close>

definition check_port :: "policy \<Rightarrow> int \<Rightarrow> ssrf_error option" where
  "check_port p port =
     (if port \<le> 0 \<or> 65535 < port then Some (denied Code_Port_Denied (''invalid port '' @ itoa port))
      else if allow_all_ports p then None
      else if list_ex (\<lambda>ap. ap = port) (allowed_ports p) then None
      else Some (denied Code_Port_Denied
        (''port '' @ itoa port @ '' not allowed (allowed: '' @ int_list_string (allowed_ports p) @
         ''; use 0 or -1 for all)'')))"

definition lead_ones :: "byte \<Rightarrow> nat" where
  "lead_ones b = length (takeWhile (\<lambda>i. bit b i) [7, 6, 5, 4, 3, 2, 1, 0])"

fun mask_ones :: "byte list \<Rightarrow> nat" where
  "mask_ones [] = 0"
| "mask_ones (b # bs) = (if b = 0xff then 8 + mask_ones bs else lead_ones b)"

definition ipnet_string :: "ipnet \<Rightarrow> string" where
  "ipnet_string n = ip_string (fst n) @ ''/'' @ nat_str (mask_ones (snd n))"

definition is_documentation :: "ip \<Rightarrow> bool" where
  "is_documentation a =
     list_ex (\<lambda>n. net_contains n a \<and>
        (ipnet_string n = ''2001:db8::/32'' \<or> ipnet_string n = ''192.0.2.0/24'' \<or>
         ipnet_string n = ''198.51.100.0/24'' \<or> ipnet_string n = ''203.0.113.0/24''))
       (blocked_v4 @ blocked_v6)"

definition check_ip :: "policy \<Rightarrow> ip \<Rightarrow> ssrf_error option" where
  "check_ip p a =
     (if pol_allow_loopback p \<and> is_loopback a then None
      else
        let blocked = blocked_ip a in
        if pol_block_private p then
          (if blocked
           then Some (denied Code_IP_Denied (''target resolves to blocked/reserved range '' @ ip_string a))
           else None)
        else if is_loopback a \<or> is_link_local_unicast a \<or> is_link_local_multicast a \<or> is_unspecified a then
          Some (denied Code_IP_Denied (''target resolves to loopback/link-local '' @ ip_string a))
        else if blocked \<and> (is_documentation a \<or> is_unspecified a) then
          Some (denied Code_IP_Denied (''target resolves to reserved range '' @ ip_string a))
        else None)"

definition parse_ip_literal :: "string \<Rightarrow> ip" where
  "parse_ip_literal host =
     (if has_prefix host ''['' \<and> has_suffix host '']''
      then parse_ip (take (length host - 2) (drop 1 host))
      else parse_ip host)"

type_synonym resolver = "string \<Rightarrow> string + ip list"

text \<open>The loop over the resolved addresses: the first refusal is returned.\<close>

fun first_refusal :: "policy \<Rightarrow> ip list \<Rightarrow> ssrf_error option" where
  "first_refusal p [] = None"
| "first_refusal p (a # as) = (case check_ip p a of Some e \<Rightarrow> Some e | None \<Rightarrow> first_refusal p as)"

definition check_host :: "policy \<Rightarrow> resolver \<Rightarrow> string \<Rightarrow> ssrf_error option" where
  "check_host p lookup host =
     (if host = [] then Some (denied Code_IP_Denied ''empty host'')
      else if parse_ip_literal host \<noteq> [] then check_ip p (parse_ip_literal host)
      else (case lookup host of
          Inl err \<Rightarrow> Some (denied Code_Resolve (''resolve '' @ host @ '': '' @ err))
        | Inr addrs \<Rightarrow>
            if addrs = [] then Some (denied Code_Resolve (''no addresses for '' @ host))
            else first_refusal p addrs))"

definition must_atoi :: "string \<Rightarrow> int" where
  "must_atoi s = (case sscanf_d s of None \<Rightarrow> -1 | Some n \<Rightarrow> n)"

record candidates =
  cand_host :: string
  cand_port :: string
  cand_ips :: "ip list"

definition candidate_ips :: "policy \<Rightarrow> resolver \<Rightarrow> string \<Rightarrow> ssrf_error + candidates" where
  "candidate_ips p lookup addr =
     (let (h, ps) = (case split_host_port addr of None \<Rightarrow> (addr, ''443'') | Some r \<Rightarrow> r) in
      if h = [] then Inl (denied Code_IP_Denied (''empty host in '' @ addr))
      else case check_port p (must_atoi ps) of
        Some e \<Rightarrow> Inl e
      | None \<Rightarrow>
          if parse_ip_literal h \<noteq> [] then
            (case check_ip p (parse_ip_literal h) of
               Some e \<Rightarrow> Inl e
             | None \<Rightarrow> Inr \<lparr>cand_host = h, cand_port = ps, cand_ips = [parse_ip_literal h]\<rparr>)
          else (case lookup h of
              Inl err \<Rightarrow> Inl (denied Code_Resolve (''resolve '' @ h @ '': '' @ err))
            | Inr addrs \<Rightarrow>
                (case first_refusal p addrs of
                   Some e \<Rightarrow> Inl e
                 | None \<Rightarrow>
                     if addrs = [] then Inl (denied Code_Resolve (''no addresses for '' @ h))
                     else Inr \<lparr>cand_host = h, cand_port = ps, cand_ips = addrs\<rparr>)))"

section \<open>The guarded dialer\<close>

text \<open>
  \<open>try_dial\<close> is the loop of \<open>DialContext\<close> over the candidates: the addresses it dials, in order, and
  the connection or the last error. A dial attempt is recorded with its outcome.
\<close>

datatype dial_error = Policy_Refused ssrf_error | Dial_Failed string string

fun try_dial :: "(string \<Rightarrow> string + 'c) \<Rightarrow> string \<Rightarrow> string \<Rightarrow> ip list \<Rightarrow> string list \<times> (string + 'c)" where
  "try_dial connect port lastErr [] = ([], Inl lastErr)"
| "try_dial connect port lastErr (a # as) =
     (let target = join_host_port (ip_string a) port in
      case connect target of
        Inr c \<Rightarrow> ([target], Inr c)
      | Inl e \<Rightarrow> (let (tried, r) = try_dial connect port e as in (target # tried, r)))"

definition dial_context ::
    "policy \<Rightarrow> resolver \<Rightarrow> (string \<Rightarrow> string + 'c) \<Rightarrow> string \<Rightarrow> string \<Rightarrow> string list \<times> (dial_error + 'c)" where
  "dial_context p lookup connect network addr =
     (if network \<notin> {''tcp'', ''tcp4'', ''tcp6'', []} then
        ([], Inl (Policy_Refused (denied Code_IP_Denied (''network '' @ network @ '' not allowed''))))
      else case candidate_ips p lookup addr of
        Inl e \<Rightarrow> ([], Inl (Policy_Refused e))
      | Inr c \<Rightarrow>
          (case try_dial connect (cand_port c) [] (cand_ips c) of
             (tried, Inr conn) \<Rightarrow> (tried, Inr conn)
           | (tried, Inl err) \<Rightarrow> (tried, Inl (Dial_Failed addr err))))"

section \<open>The tables\<close>

lemma blocked_v4_eval:
  "blocked_v4 =
    [([0, 0, 0, 0], [255, 0, 0, 0]), ([10, 0, 0, 0], [255, 0, 0, 0]),
     ([100, 64, 0, 0], [255, 192, 0, 0]), ([127, 0, 0, 0], [255, 0, 0, 0]),
     ([169, 254, 0, 0], [255, 255, 0, 0]), ([172, 16, 0, 0], [255, 240, 0, 0]),
     ([192, 0, 0, 0], [255, 255, 255, 0]), ([192, 0, 2, 0], [255, 255, 255, 0]),
     ([192, 88, 99, 0], [255, 255, 255, 0]), ([192, 168, 0, 0], [255, 255, 0, 0]),
     ([198, 18, 0, 0], [255, 254, 0, 0]), ([198, 51, 100, 0], [255, 255, 255, 0]),
     ([203, 0, 113, 0], [255, 255, 255, 0]), ([240, 0, 0, 0], [240, 0, 0, 0])]"
  by code_simp

lemma blocked_v6_cidrs:
  "parse_cidr ''::/128'' = Some (replicate 16 0, replicate 16 255)"
  "parse_cidr ''::1/128'' = Some (replicate 15 0 @ [1], replicate 16 255)"
  "parse_cidr ''64:ff9b::/96'' = Some ([0, 100, 255, 155] @ replicate 12 0, replicate 12 255 @ replicate 4 0)"
  "parse_cidr ''100::/64'' = Some  ([1] @ replicate 15 0, replicate 8 255 @ replicate 8 0)"
  "parse_cidr ''2001:10::/28'' = Some  ([32, 1, 0, 16] @ replicate 12 0, [255, 255, 255, 240] @ replicate 12 0)"
  "parse_cidr ''2001:db8::/32'' = Some ([32, 1, 13, 184] @ replicate 12 0, replicate 4 255 @ replicate 12 0)"
  "parse_cidr ''fc00::/7'' = Some ([252] @ replicate 15 0, [254] @ replicate 15 0)"
  "parse_cidr ''fe80::/10'' = Some ([254, 128] @ replicate 14 0, [255, 192] @ replicate 14 0)"
  "parse_cidr ''ff00::/8'' = Some ([255] @ replicate 15 0, [255] @ replicate 15 0)"
  by (simp_all add: cidr_eval Let_def)

lemma blocked_v6_eval:
  "blocked_v6 =
    [(replicate 16 0, replicate 16 255), (replicate 15 0 @ [1], replicate 16 255),
     ([0, 100, 255, 155] @ replicate 12 0, replicate 12 255 @ replicate 4 0),
     ([1] @ replicate 15 0, replicate 8 255 @ replicate 8 0),
     ([32, 1, 0, 16] @ replicate 12 0, [255, 255, 255, 240] @ replicate 12 0),
     ([32, 1, 13, 184] @ replicate 12 0, replicate 4 255 @ replicate 12 0),
     ([252] @ replicate 15 0, [254] @ replicate 15 0),
     ([254, 128] @ replicate 14 0, [255, 192] @ replicate 14 0),
     ([255] @ replicate 15 0, [255] @ replicate 15 0)]"
  by (simp add: blocked_v6_def must_cidrs_def blocked_v6_cidrs)

text \<open>Which IPv4 addresses are reserved, by their first three bytes.\<close>

definition ipv4_reserved :: "byte \<Rightarrow> byte \<Rightarrow> byte \<Rightarrow> bool" where
  "ipv4_reserved a b c \<longleftrightarrow>
     a = 0 \<or> a = 10 \<or> a = 127 \<or> 224 \<le> unat a \<or>
     (a = 100 \<and> 64 \<le> unat b \<and> unat b < 128) \<or> (a = 169 \<and> b = 254) \<or>
     (a = 172 \<and> 16 \<le> unat b \<and> unat b < 32) \<or>
     (a = 192 \<and> (b = 168 \<or> (b = 0 \<and> (c = 0 \<or> c = 2)) \<or> (b = 88 \<and> c = 99))) \<or>
     (a = 198 \<and> (unat b = 18 \<or> unat b = 19 \<or> (b = 51 \<and> c = 100))) \<or>
     (a = 203 \<and> b = 0 \<and> c = 113)"

lemma not_mapped_v4 [simp]: "length a = 4 \<Longrightarrow> \<not> is_v4_mapped a"
  by (simp add: is_v4_mapped_def)

lemma not_mapped_mapped [simp]: "length a = 4 \<Longrightarrow> \<not> is_v4_mapped (v4_in_v6 @ a)"
proof -
  assume l: "length a = 4"
  then have "a \<noteq> []" by auto
  then have "is_digit (hd (v4_string a))" "v4_string a \<noteq> []" by (simp_all add: v4_string_head)
  then have "\<not> has_prefix (v4_string a) ''::ffff:''"
    by (cases "v4_string a") (auto simp: is_digit_def)
  then show ?thesis using l by (auto simp: is_v4_mapped_def ip_string_def)
qed

lemma blocked_ip_to4:
  assumes "length a = 4"
  shows "blocked_ip (v4_in_v6 @ a) = blocked_ip a"
proof -
  have "a \<noteq> []" using assms by auto
  then show ?thesis
    using assms by (simp add: blocked_ip.simps [of a] blocked_ip.simps [of "v4_in_v6 @ a"] Let_def)
qed

lemma v4_table_iff:
  "list_ex (\<lambda>n. net_contains n [a, b, c, d]) blocked_v4 \<longleftrightarrow>
     a = 0 \<or> a = 10 \<or> (a = 100 \<and> 64 \<le> unat b \<and> unat b < 128) \<or> a = 127 \<or> (a = 169 \<and> b = 254) \<or>
     (a = 172 \<and> 16 \<le> unat b \<and> unat b < 32) \<or> (a = 192 \<and> b = 0 \<and> c = 0) \<or> (a = 192 \<and> b = 0 \<and> c = 2) \<or>
     (a = 192 \<and> b = 88 \<and> c = 99) \<or> (a = 192 \<and> b = 168) \<or> (a = 198 \<and> (unat b = 18 \<or> unat b = 19)) \<or>
     (a = 198 \<and> b = 51 \<and> c = 100) \<or> (a = 203 \<and> b = 0 \<and> c = 113) \<or> 240 \<le> unat a"
  by (simp add: blocked_v4_eval net_contains_def byte_and_192 byte_and_240_16 byte_and_254
    byte_and_240_240)

lemma v4_classes_iff:
  "is_loopback [a, b, c, d] \<longleftrightarrow> a = 127"
  "is_private [a, b, c, d] \<longleftrightarrow> a = 10 \<or> (a = 172 \<and> 16 \<le> unat b \<and> unat b < 32) \<or> (a = 192 \<and> b = 168)"
  "is_link_local_unicast [a, b, c, d] \<longleftrightarrow> a = 169 \<and> b = 254"
  "is_link_local_multicast [a, b, c, d] \<longleftrightarrow> a = 224 \<and> b = 0 \<and> c = 0"
  "is_multicast [a, b, c, d] \<longleftrightarrow> 224 \<le> unat a \<and> unat a < 240"
  "is_unspecified [a, b, c, d] \<longleftrightarrow> a = 0 \<and> b = 0 \<and> c = 0 \<and> d = 0"
  by (simp_all add: ip_class_defs byte_and_240_16 byte_and_240_224 ip_equal_def ipv4_zero_def ipv6_unspecified_def)

lemma blocked_v4_iff: "blocked_ip [a, b, c, d] \<longleftrightarrow> ipv4_reserved a b c"
proof -
  have "blocked_ip [a, b, c, d] \<longleftrightarrow>
     is_loopback [a, b, c, d] \<or> is_private [a, b, c, d] \<or> is_link_local_unicast [a, b, c, d] \<or>
     is_link_local_multicast [a, b, c, d] \<or> is_multicast [a, b, c, d] \<or> is_unspecified [a, b, c, d] \<or>
     list_ex (\<lambda>n. net_contains n [a, b, c, d]) blocked_v4"
    by (simp add: blocked_ip.simps [of "[a, b, c, d]"] Let_def)
  moreover have "a = 224 \<Longrightarrow> 224 \<le> unat a" by simp
  moreover have "224 \<le> unat a \<longleftrightarrow> (224 \<le> unat a \<and> unat a < 240) \<or> 240 \<le> unat a" by linarith
  ultimately show ?thesis
    unfolding v4_table_iff v4_classes_iff ipv4_reserved_def by argo
qed

lemma blocked_ip_Nil: "blocked_ip []"
  by (subst blocked_ip.simps) simp

lemma blocked_ip_unmapped6:
  assumes "\<not> is_v4_mapped b" and "to4 b = []"
  shows "blocked_ip b \<longleftrightarrow> b = [] \<or> is_loopback b \<or> is_private b \<or> is_link_local_unicast b \<or>
    is_link_local_multicast b \<or> is_multicast b \<or> is_unspecified b \<or> list_ex (\<lambda>n. net_contains n b) blocked_v6"
  by (subst blocked_ip.simps) (simp only: assms simp_thms if_True if_False Let_def prod.case, simp)

lemma blocked_ip_unmapped4:
  assumes "length b = 4"
  shows "blocked_ip b \<longleftrightarrow> is_loopback b \<or> is_private b \<or> is_link_local_unicast b \<or>
    is_link_local_multicast b \<or> is_multicast b \<or> is_unspecified b \<or> list_ex (\<lambda>n. net_contains n b) blocked_v4"
proof -
  have "b \<noteq> []" using assms by auto
  then show ?thesis
    by (subst blocked_ip.simps) (simp only: assms not_mapped_v4 to4_v4 simp_thms if_True if_False Let_def prod.case, simp)
qed

lemma not_blocked_classes:
  assumes "\<not> blocked_ip a"
  shows "a \<noteq> []" "\<not> is_loopback a" "\<not> is_private a" "\<not> is_multicast a" "\<not> is_link_local_unicast a"
    "\<not> is_link_local_multicast a" "\<not> is_unspecified a"
    "list_all (\<lambda>n. \<not> net_contains n a) (if to4 a \<noteq> [] then blocked_v4 else blocked_v6)"
proof -
  show ne: "a \<noteq> []" using assms by (auto simp: blocked_ip.simps)
  have nm: "\<not> is_v4_mapped a"
  proof
    assume m: "is_v4_mapped a"
    then have "to4 a = []" using to4_cases [of a] not_mapped_v4 [of a] not_mapped_mapped [of "to4 a"] by metis
    with m have "blocked_ip a"
      by (subst blocked_ip.simps) (simp only: simp_thms if_True blocked_ip_Nil if_cancel)
    then show False using assms by simp
  qed
  let ?ok = "\<lambda>b. \<not> is_loopback b \<and> \<not> is_private b \<and> \<not> is_multicast b \<and> \<not> is_link_local_unicast b \<and>
      \<not> is_link_local_multicast b \<and> \<not> is_unspecified b \<and>
      list_all (\<lambda>n. \<not> net_contains n b) (if to4 b \<noteq> [] then blocked_v4 else blocked_v6)"
  have four: "?ok b" if "length b = 4" "\<not> blocked_ip b" for b
  proof -
    have "b \<noteq> []" using that by auto
    then show ?thesis using that by (simp add: blocked_ip_unmapped4 list_all_iff list_ex_iff)
  qed
  have "?ok a"
  proof (cases "to4 a = []")
    case True
    with assms nm show ?thesis by (simp add: blocked_ip_unmapped6 list_all_iff list_ex_iff)
  next
    case False
    with to4_cases [of a] consider "length a = 4" | b where "length b = 4" "a = v4_in_v6 @ b" by metis
    then show ?thesis
    proof cases
      case 1 then show ?thesis using four assms by blast
    next
      case (2 b)
      then have "?ok b" using assms four by (simp add: blocked_ip_to4)
      moreover have ne': "b \<noteq> []" using 2 by auto
      moreover have "net_contains n a = net_contains n b" for n
        using 2 ne' by (simp add: net_contains_def)
      ultimately show ?thesis
        using 2 by (simp add: mapped_classes mapped_unspecified)
    qed
  qed
  then show "\<not> is_loopback a" "\<not> is_private a" "\<not> is_multicast a" "\<not> is_link_local_unicast a"
    "\<not> is_link_local_multicast a" "\<not> is_unspecified a"
    "list_all (\<lambda>n. \<not> net_contains n a) (if to4 a \<noteq> [] then blocked_v4 else blocked_v6)" by blast+
qed

section \<open>The interface of a guarded dialer\<close>

text \<open>
  What the tunnel and the plain proxy rely on: a dial attempt goes to an address the policy accepted,
  and a connection is the one the last attempt gave.
\<close>

locale dial_guard =
  fixes dial :: "'p \<Rightarrow> string \<Rightarrow> string list \<times> (dial_error + 'c)"
    and accepts :: "'p \<Rightarrow> string \<Rightarrow> bool"
    and connect :: "string \<Rightarrow> string + 'c"
  assumes tried_accepted: "dial p addr = (tried, r) \<Longrightarrow> t \<in> set tried \<Longrightarrow> accepts p t"
    and connected_last: "dial p addr = (tried, Inr c) \<Longrightarrow> tried \<noteq> [] \<and> connect (last tried) = Inr c"
begin

lemma connection_accepted: "dial p addr = (tried, Inr c) \<Longrightarrow> accepts p (last tried)"
  using tried_accepted connected_last by (metis last_in_set)

lemma nothing_accepted_no_connection:
  "(\<And>t. \<not> accepts p t) \<Longrightarrow> dial p addr = (tried, r) \<Longrightarrow> tried = [] \<and> (\<exists>e. r = Inl e)"
  using tried_accepted connected_last by (metis ex_in_conv set_empty sumE)

end

text \<open>A dialled text is acceptable when it names an accepted address and an accepted port.\<close>

definition target_ok :: "policy \<Rightarrow> string \<Rightarrow> bool" where
  "target_ok p t \<longleftrightarrow> (\<exists>a port. t = join_host_port (ip_string a) port \<and> check_ip p a = None \<and>
     check_port p (must_atoi port) = None)"

lemma first_refusal_None_iff: "first_refusal p as = None \<longleftrightarrow> (\<forall>a \<in> set as. check_ip p a = None)"
  by (induction as) (auto split: option.splits)

lemma candidate_ips_checked:
  "candidate_ips p lookup addr = Inr c \<Longrightarrow>
     check_port p (must_atoi (cand_port c)) = None \<and> cand_ips c \<noteq> [] \<and>
     (\<forall>a \<in> set (cand_ips c). check_ip p a = None)"
  by (auto simp: candidate_ips_def first_refusal_None_iff Let_def
      split: prod.splits option.splits sum.splits if_splits)

lemma try_dial_targets:
  "try_dial connect port e as = (tried, r) \<Longrightarrow> t \<in> set tried \<Longrightarrow>
     \<exists>a \<in> set as. t = join_host_port (ip_string a) port"
proof (induction as arbitrary: e tried r)
  case (Cons a as)
  then show ?case
    by (fastforce simp: Let_def split: sum.splits prod.splits)
qed simp

lemma try_dial_connected:
  "try_dial connect port e as = (tried, Inr c) \<Longrightarrow> tried \<noteq> [] \<and> connect (last tried) = Inr c"
  by (induction as arbitrary: e tried) (auto simp: Let_def split: sum.splits prod.splits)

lemma dial_context_tried:
  assumes "dial_context p lookup connect network addr = (tried, r)" and "t \<in> set tried"
  shows "target_ok p t"
proof -
  from assms obtain c e' r' where c: "candidate_ips p lookup addr = Inr c"
    and t: "try_dial connect (cand_port c) [] (cand_ips c) = (tried, r')"
    by (auto simp: dial_context_def split: if_splits sum.splits prod.splits)
  from try_dial_targets [OF t assms(2)] candidate_ips_checked [OF c] show ?thesis
    unfolding target_ok_def by blast
qed

lemma dial_context_connected:
  assumes "dial_context p lookup connect network addr = (tried, Inr c)"
  shows "tried \<noteq> [] \<and> connect (last tried) = Inr c"
proof -
  from assms obtain d :: candidates where "try_dial connect (cand_port d) [] (cand_ips d) = (tried, Inr c)"
    by (simp add: dial_context_def split: if_splits sum.splits prod.splits)
  then show ?thesis by (rule try_dial_connected)
qed

interpretation guarded: dial_guard
  "\<lambda>p. dial_context p lookup connect network" target_ok connect
  for lookup connect network
  by unfold_locales (rule dial_context_tried, assumption+, rule dial_context_connected, assumption)

section \<open>Properties\<close>

text \<open>
  C2. No DNS rebinding: every address the guarded dialer connects to was itself checked, an address
  the policy accepts on a port it accepts, and a connection it returns is the one of the last attempt.
\<close>

theorem ssrf_dials_only_checked:
  assumes "dial_context p lookup connect network addr = (tried, r)"
  shows "(\<forall>t \<in> set tried. \<exists>a port. t = join_host_port (ip_string a) port \<and> check_ip p a = None \<and>
             check_port p (must_atoi port) = None) \<and>
         (\<forall>c. r = Inr c \<longrightarrow> tried \<noteq> [] \<and> connect (last tried) = Inr c)"
  using guarded.tried_accepted [OF assms] guarded.connected_last [of p lookup connect network addr tried] assms
  by (auto simp: target_ok_def)

definition public_policy :: policy where
  "public_policy = \<lparr>pol_ports = [], pol_block_private = True, pol_allow_loopback = False, pol_dial_timeout = 0\<rparr>"

theorem ssrf_dials_only_checked_witness:
  "\<exists>tried. dial_context public_policy (\<lambda>h. Inr [[8, 8, 8, 8]]) (\<lambda>t. Inr (0::nat)) ''tcp'' ''x.io:443'' = (tried, Inr 0) \<and>
     tried \<noteq> [] \<and> dial_context public_policy (\<lambda>h. Inr [[8, 8, 8, 8], [10, 0, 0, 1]]) (\<lambda>t. Inr (0::nat)) ''tcp'' ''x.io:443'' = ([], Inl (Policy_Refused
       (denied Code_IP_Denied ''target resolves to blocked/reserved range 10.0.0.1'')))"
proof -
  let ?l = "\<lambda>h. Inr [[8, 8, 8, 8]]" and ?c = "\<lambda>t. Inr (0::nat)"
  have s: "split_host_port ''x.io:443'' = Some (''x.io'', ''443'')" "parse_ip_literal ''x.io'' = []"
    by code_simp+
  have q: "check_port public_policy (must_atoi ''443'') = None"
    using sscanf_d_nat_str [of 443]
    by (simp add: check_port_def must_atoi_def public_policy_def allow_all_ports_def allowed_ports_def
      nat_str.simps max_int64_def digit_char_def char_of_def bit_0)
  have b: "\<not> blocked_ip [8, 8, 8, 8]" "blocked_ip [10, 0, 0, 1]"
    by (simp_all add: blocked_v4_iff ipv4_reserved_def)
  have i: "check_ip public_policy [8, 8, 8, 8] = None" "check_ip public_policy [10, 0, 0, 1] =
      Some (denied Code_IP_Denied ''target resolves to blocked/reserved range 10.0.0.1'')"
    using b by (simp_all add: check_ip_def public_policy_def ip_string_examples)
  have d: "dial_context public_policy ?l ?c ''tcp'' ''x.io:443'' = ([join_host_port (ip_string [8, 8, 8, 8]) ''443''], Inr 0)"
    "dial_context public_policy (\<lambda>h. Inr [[8, 8, 8, 8], [10, 0, 0, 1]]) ?c ''tcp'' ''x.io:443'' = ([], Inl (Policy_Refused
       (denied Code_IP_Denied ''target resolves to blocked/reserved range 10.0.0.1'')))"
    by (simp_all add: dial_context_def candidate_ips_def s q i)
  from ssrf_dials_only_checked [OF d(1)] d show ?thesis by blast
qed

text \<open>
  C3. The safety floor. An accepted address is never a loopback address (unless loopback is
  explicitly allowed), link-local or unspecified, whatever the other settings; with
  \<open>BlockPrivate\<close> it is also neither private, nor multicast, nor in any reserved block.
\<close>

theorem ssrf_accepted_addresses:
  assumes "check_ip p a = None" and "\<not> (pol_allow_loopback p \<and> is_loopback a)"
  shows "\<not> is_loopback a \<and> \<not> is_link_local_unicast a \<and> \<not> is_link_local_multicast a \<and> \<not> is_unspecified a \<and>
    (pol_block_private p \<longrightarrow> a \<noteq> [] \<and> \<not> is_private a \<and> \<not> is_multicast a \<and>
       list_all (\<lambda>n. \<not> net_contains n a) (if to4 a \<noteq> [] then blocked_v4 else blocked_v6))"
  using assms not_blocked_classes [of a]
  by (auto simp: check_ip_def Let_def split: if_splits)

theorem ssrf_accepted_addresses_witness:
  "check_ip public_policy [8, 8, 8, 8] = None \<and> \<not> is_private [8, 8, 8, 8]"
proof -
  have c: "check_ip public_policy [8, 8, 8, 8] = None" "\<not> (pol_allow_loopback public_policy \<and> is_loopback [8, 8, 8, 8])"
    by (simp_all add: check_ip_def public_policy_def blocked_v4_iff ipv4_reserved_def)
  have "pol_block_private public_policy" by (simp add: public_policy_def)
  with ssrf_accepted_addresses [OF c] c show ?thesis by blast
qed

text \<open>
  The IPv4 block list, as arithmetic on the bytes, and the IPv4-mapped IPv6 form of an address is
  treated exactly like the address itself.
\<close>

theorem ssrf_blocked_ipv4:
  "(blocked_ip [a, b, c, d] \<longleftrightarrow> ipv4_reserved a b c) \<and>
   (blocked_ip (v4_in_v6 @ [a, b, c, d]) \<longleftrightarrow> ipv4_reserved a b c)"
  by (simp add: blocked_ip_to4 blocked_v4_iff)

text \<open>
  A port passes exactly when it is a TCP port and the list contains it, or a wildcard (0 or -1),
  or is empty and the port is 80 or 443.
\<close>

theorem ssrf_port_policy:
  "check_port p port = None \<longleftrightarrow>
     1 \<le> port \<and> port \<le> 65535 \<and>
     (0 \<in> set (pol_ports p) \<or> -1 \<in> set (pol_ports p) \<or> port \<in> set (pol_ports p) \<or>
      (pol_ports p = [] \<and> port \<in> {80, 443}))"
  by (auto simp: check_port_def allow_all_ports_def allowed_ports_def list_ex_iff)

end
