(* ===== verification/Dldw1.thy ===== *)
theory Dldw1
  imports GoNet
begin

text \<open>
  \<^verbatim>\<open>internal/protocol/dldw1\<close>, the handshake of the tunnel (one request line, one response line), and
  \<^verbatim>\<open>internal/ids\<close>, the generators of the identifiers it carries. A Go map of flags is a map here; where
  the code ranges over it, the visiting order of its entries is an argument.
\<close>

section \<open>Requests\<close>

datatype wire_error =
    Malformed | Bad_Host | Bad_Host_Char | Bad_Port string | Token_Length | Bad_Token_Char char
  | Bad_Nonce | Empty_Flag | Multiple_Eq | Bad_Flag_Key | Bad_Flag_Value
  | Bad_Expires | Bad_Code_Length | Bad_Code_Charset | Too_Long | Read_Failed

definition proto :: string where "proto = ''DLDW/1''"
definition max_line :: nat where "max_line = 4096"
definition newline :: char where "newline = CHR 0x0A"
definition crlf_set :: string where "crlf_set = [CHR 0x0D, CHR 0x0A]"

record connect =
  cn_host :: string
  cn_port :: int
  cn_token :: string
  cn_nonce :: string
  cn_client :: string
  cn_flags :: "string \<rightharpoonup> string"

definition connect_flag :: "connect \<Rightarrow> string \<Rightarrow> string" where
  "connect_flag c k = (case cn_flags c k of None \<Rightarrow> [] | Some v \<Rightarrow> v)"

definition encode_flags :: "(string \<times> string) list \<Rightarrow> string" where
  "encode_flags fs =
     (if fs = [] then ''-''
      else join '','' (insertion_sort (map (\<lambda>(k, v). k @ ''='' @ v) fs)))"

definition connect_encode :: "connect \<Rightarrow> (string \<times> string) list \<Rightarrow> string" where
  "connect_encode c fs =
     proto @ '' CONNECT '' @ cn_host c @ '' '' @ itoa (cn_port c) @ '' '' @ cn_token c @ '' '' @
     cn_nonce c @ '' '' @ cn_client c @ '' '' @ encode_flags fs @ [newline]"

subsection \<open>Validators: the error, or nil\<close>

definition host_char :: "char \<Rightarrow> bool" where
  "host_char c \<longleftrightarrow> \<not> (code c \<le> 32 \<or> 127 \<le> code c \<or> c = CHR '','')"

definition valid_host :: "string \<Rightarrow> wire_error option" where
  "valid_host h =
     (if h = [] \<or> 253 < length h then Some Bad_Host
      else if list_all host_char h then None else Some Bad_Host_Char)"

definition token_char :: "char \<Rightarrow> bool" where
  "token_char c \<longleftrightarrow> is_lower c \<or> is_upper c \<or> is_digit c \<or>
     c \<in> {CHR ''_'', CHR ''-'', CHR ''.'', CHR ''=''}"

definition valid_token :: "string \<Rightarrow> nat \<Rightarrow> nat \<Rightarrow> wire_error option" where
  "valid_token t lo hi =
     (if length t < lo \<or> hi < length t then Some Token_Length
      else map_option Bad_Token_Char (find (\<lambda>c. \<not> token_char c) t))"

definition err_code_char :: "char \<Rightarrow> bool" where
  "err_code_char c \<longleftrightarrow> is_upper c \<or> is_digit c \<or> c = CHR ''_''"

definition valid_err_code :: "string \<Rightarrow> wire_error option" where
  "valid_err_code c =
     (if length c < 3 \<or> 48 < length c then Some Bad_Code_Length
      else if list_all err_code_char c then None else Some Bad_Code_Charset)"

subsection \<open>Parsing\<close>

fun parse_flag_list :: "string list \<Rightarrow> (string \<rightharpoonup> string) \<Rightarrow> wire_error + (string \<rightharpoonup> string)" where
  "parse_flag_list [] out = Inr out"
| "parse_flag_list (kv # kvs) out =
     (if kv = [] then Inl Empty_Flag
      else if 1 < count_byte kv (CHR ''='') then Inl Multiple_Eq
      else
        (let (k, v) = (case index_byte kv (CHR ''='') of
                         None \<Rightarrow> (kv, [])
                       | Some eq \<Rightarrow> (take eq kv, drop (Suc eq) kv)) in
         if valid_token k 1 32 \<noteq> None then Inl Bad_Flag_Key
         else if valid_token v 0 64 \<noteq> None then Inl Bad_Flag_Value
         else parse_flag_list kvs (out(k \<mapsto> v))))"

definition parse_flags :: "string \<Rightarrow> wire_error + (string \<rightharpoonup> string)" where
  "parse_flags s =
     (if s = ''-'' then Inr Map.empty else parse_flag_list (split_byte (CHR '','') s) Map.empty)"

definition parse_connect :: "string \<Rightarrow> wire_error + connect" where
  "parse_connect line =
     (let f = str_fields (trim_right_set line crlf_set) in
      if length f \<noteq> 8 \<or> f ! 0 \<noteq> proto \<or> f ! 1 \<noteq> ''CONNECT'' then Inl Malformed
      else case valid_host (f ! 2) of Some e \<Rightarrow> Inl e | None \<Rightarrow>
      (case atoi (f ! 3) of None \<Rightarrow> Inl (Bad_Port (f ! 3)) | Some port \<Rightarrow>
       if port \<le> 0 \<or> 65535 < port then Inl (Bad_Port (f ! 3))
       else case valid_token (f ! 4) 8 512 of Some e \<Rightarrow> Inl e | None \<Rightarrow>
       if length (f ! 5) \<noteq> 32 \<or> \<not> list_all is_hex_lower (f ! 5) then Inl Bad_Nonce
       else case valid_token (f ! 6) 1 64 of Some e \<Rightarrow> Inl e | None \<Rightarrow>
       (case parse_flags (f ! 7) of Inl e \<Rightarrow> Inl e | Inr flags \<Rightarrow>
        Inr \<lparr>cn_host = f ! 2, cn_port = port, cn_token = f ! 4, cn_nonce = f ! 5,
             cn_client = f ! 6, cn_flags = flags\<rparr>)))"

section \<open>Responses\<close>

record ok_resp =
  ok_conn_id :: string
  ok_expires :: int
  ok_ip :: string

record err_resp =
  er_code :: string
  er_message :: string

datatype response = Resp_OK ok_resp | Resp_Err err_resp

definition ok_encode :: "ok_resp \<Rightarrow> string" where
  "ok_encode r =
     proto @ '' OK '' @ ok_conn_id r @ '' '' @ itoa (ok_expires r) @ '' '' @
     (if ok_ip r = [] then ''-'' else ok_ip r) @ [newline]"

definition err_encode :: "err_resp \<Rightarrow> string" where
  "err_encode e =
     proto @ '' ERR '' @ er_code e @ '' '' @
     (if er_message e = [] then ''unspecified error'' else er_message e) @ [newline]"

definition parse_response :: "string \<Rightarrow> wire_error + response" where
  "parse_response line =
     (let s = trim_right_set line crlf_set; f = str_fields s in
      if length f < 3 \<or> f ! 0 \<noteq> proto then Inl Malformed
      else if f ! 1 = ''OK'' then
        (if length f \<noteq> 5 then Inl Malformed
         else case valid_token (f ! 2) 4 64 of Some e \<Rightarrow> Inl e | None \<Rightarrow>
         (case atoi (f ! 3) of None \<Rightarrow> Inl Bad_Expires | Some exp \<Rightarrow>
          if exp < 0 then Inl Bad_Expires
          else if f ! 4 \<noteq> ''-'' then
            (case valid_token (f ! 4) 3 64 of Some e \<Rightarrow> Inl e
             | None \<Rightarrow> Inr (Resp_OK \<lparr>ok_conn_id = f ! 2, ok_expires = exp, ok_ip = f ! 4\<rparr>))
          else Inr (Resp_OK \<lparr>ok_conn_id = f ! 2, ok_expires = exp, ok_ip = []\<rparr>)))
      else if f ! 1 = ''ERR'' then
        (case valid_err_code (f ! 2) of Some e \<Rightarrow> Inl e | None \<Rightarrow>
         (let tag = '' ERR '' @ f ! 2 @ '' '' in
          Inr (Resp_Err \<lparr>er_code = f ! 2,
            er_message = (case index_of s tag of None \<Rightarrow> [] | Some i \<Rightarrow> drop (i + length tag) s)\<rparr>)))
      else Inl Malformed)"

text \<open>
  \<open>ReadLine\<close> on a reader whose buffer holds \<open>buf\<close> bytes, with \<open>input\<close> still to come before the end
  of the stream: the line and what is left.
\<close>

definition read_line :: "nat \<Rightarrow> string \<Rightarrow> wire_error + (string \<times> string)" where
  "read_line buf input =
     (case index_byte (take buf input) newline of
        None \<Rightarrow> Inl (if buf \<le> length input then Too_Long else Read_Failed)
      | Some i \<Rightarrow>
          if max_line < Suc i then Inl Too_Long
          else Inr (take (Suc i) input, drop (Suc i) input))"

section \<open>Identifiers\<close>

text \<open>
  \<open>randHex\<close>: \<open>rnd\<close> is what the system's random source gives for \<open>n\<close> bytes, or nothing when it fails.
\<close>

definition rand_hex :: "(nat \<Rightarrow> byte list option) \<Rightarrow> nat \<Rightarrow> string" where
  "rand_hex rnd n = (case rnd n of
       None \<Rightarrow> replicate (n * 2) (CHR ''0'')
     | Some b \<Rightarrow> hex_encode (map unat b))"

definition new_request_id where "new_request_id rnd = ''req_'' @ rand_hex rnd 8"
definition new_conn_id where "new_conn_id rnd = ''conn_'' @ rand_hex rnd 6"
definition new_task_id where "new_task_id rnd = ''task_'' @ rand_hex rnd 10"
definition new_token where "new_token rnd = ''dldw_'' @ rand_hex rnd 24"
definition new_token_id where "new_token_id rnd = ''tok_'' @ rand_hex rnd 6"
definition new_nonce where "new_nonce rnd = rand_hex rnd 16"
definition new_client_id where "new_client_id rnd = ''dev_'' @ rand_hex rnd 8"

lemmas id_defs = new_request_id_def new_conn_id_def new_task_id_def new_token_def new_token_id_def
  new_nonce_def new_client_id_def

section \<open>Well-formed messages\<close>

definition flags_ok :: "(string \<rightharpoonup> string) \<Rightarrow> bool" where
  "flags_ok m \<longleftrightarrow> (\<forall>k v. m k = Some v \<longrightarrow>
     valid_token k 1 32 = None \<and> valid_token v 0 64 = None \<and> CHR ''='' \<notin> set k \<and> CHR ''='' \<notin> set v)"

definition connect_ok :: "connect \<Rightarrow> bool" where
  "connect_ok c \<longleftrightarrow> valid_host (cn_host c) = None \<and> 1 \<le> cn_port c \<and> cn_port c \<le> 65535 \<and>
     valid_token (cn_token c) 8 512 = None \<and> length (cn_nonce c) = 32 \<and>
     list_all is_hex_lower (cn_nonce c) \<and> valid_token (cn_client c) 1 64 = None \<and> flags_ok (cn_flags c)"

lemma valid_token_None_iff:
  "valid_token t lo hi = None \<longleftrightarrow> lo \<le> length t \<and> length t \<le> hi \<and> list_all token_char t"
  by (auto simp: valid_token_def find_None_iff list_all_iff)

lemma token_char_graphic: "token_char c \<Longrightarrow> graphic c"
  by (auto simp: token_char_def graphic_def char_class_defs)

lemma host_char_graphic: "host_char c \<Longrightarrow> graphic c"
  by (auto simp: host_char_def graphic_def)

lemma hex_lower_token: "is_hex_lower c \<Longrightarrow> token_char c"
  by (auto simp: token_char_def char_class_defs)

lemma err_code_char_graphic: "err_code_char c \<Longrightarrow> graphic c"
  by (auto simp: err_code_char_def graphic_def char_class_defs)

lemma token_char_not_comma [simp]: "\<not> token_char (CHR '','')"
  by (simp add: token_char_def char_class_defs)

lemma token_char_not_colon [simp]: "\<not> token_char (CHR '':'')"
  by (simp add: token_char_def char_class_defs)

lemma token_no_comma: "valid_token t lo hi = None \<Longrightarrow> CHR '','' \<notin> set t"
  by (auto simp: valid_token_None_iff list_all_iff dest: bspec [of _ _ "CHR '',''"])

lemma token_no_colon: "valid_token t lo hi = None \<Longrightarrow> CHR '':'' \<notin> set t"
  by (auto simp: valid_token_None_iff list_all_iff dest: bspec [of _ _ "CHR '':''"])

lemma graphic_marks [simp]: "graphic (CHR ''='')" "graphic (CHR '','')" "graphic (CHR ''-'')" "graphic (CHR '':'')"
  by (simp_all add: graphic_def)

abbreviation word_ok :: "string \<Rightarrow> bool" where
  "word_ok w \<equiv> w \<noteq> [] \<and> (\<forall>c \<in> set w. graphic c)"

lemma word_ok_token: "valid_token t lo hi = None \<Longrightarrow> 0 < lo \<Longrightarrow> word_ok t"
  by (auto simp: valid_token_None_iff list_all_iff token_char_graphic)

lemma word_ok_host: "valid_host h = None \<Longrightarrow> word_ok h"
  by (auto simp: valid_host_def list_all_iff host_char_graphic split: if_splits)

lemma word_ok_hex: "length n = 32 \<Longrightarrow> list_all is_hex_lower n \<Longrightarrow> word_ok n"
  by (auto simp: list_all_iff hex_lower_token token_char_graphic)

lemma word_ok_itoa: "word_ok (itoa i)"
  using itoa_graphic by simp

lemma word_ok_code: "valid_err_code c = None \<Longrightarrow> word_ok c"
  by (auto simp: valid_err_code_def list_all_iff err_code_char_graphic split: if_splits)

lemma word_ok_proto: "word_ok proto"
  by (simp add: proto_def graphic_def)

lemma trim_line: "word_ok w \<Longrightarrow> trim_right_set (s @ w @ [newline]) crlf_set = s @ w"
proof -
  assume w: "word_ok w"
  have "trim_right_set ((s @ w) @ [newline]) crlf_set = trim_right_set (s @ w) crlf_set"
    by (rule trim_right_set_append) (simp add: newline_def crlf_set_def)
  also have "\<dots> = s @ w"
  proof (rule trim_right_set_id)
    have "graphic (last w)" using w last_in_set by blast
    moreover have "c \<in> set crlf_set \<Longrightarrow> \<not> graphic c" for c
      by (auto simp: crlf_set_def graphic_def)
    ultimately show "s @ w = [] \<or> last (s @ w) \<notin> set crlf_set"
      using w by (metis last_appendR)
  qed
  finally show ?thesis by simp
qed

subsection \<open>Flags\<close>

definition flag_text :: "string \<times> string \<Rightarrow> string" where
  "flag_text kv = fst kv @ ''='' @ snd kv"

lemma parse_flag_list_ok:
  "\<forall>kv \<in> set fs. valid_token (fst kv) 1 32 = None \<and> valid_token (snd kv) 0 64 = None \<and>
      CHR ''='' \<notin> set (fst kv) \<and> CHR ''='' \<notin> set (snd kv) \<Longrightarrow>
   parse_flag_list (map flag_text fs) out = Inr (out ++ map_of (rev fs))"
proof (induction fs arbitrary: out)
  case (Cons kv fs)
  obtain k v where kv: "kv = (k, v)" by (cases kv)
  then have "index_byte (flag_text kv) (CHR ''='') = Some (length k)"
    using Cons.prems index_byte_append [of "CHR ''=''" k v] by (simp add: flag_text_def)
  then show ?case
    using Cons kv by (simp add: flag_text_def count_byte_0 map_add_upd_left fun_upd_def map_add_def)
      (auto simp: fun_eq_iff map_add_def split: option.splits)
qed simp

lemma map_of_perm: "distinct (map fst fs) \<Longrightarrow> set gs = set fs \<Longrightarrow> length gs = length fs \<Longrightarrow> map_of gs = map_of fs"
proof -
  assume d: "distinct (map fst fs)" and s: "set gs = set fs" and l: "length gs = length fs"
  have "distinct fs" using d by (simp add: distinct_map)
  then have "distinct gs" using s l by (metis card_distinct distinct_card)
  moreover have "inj_on fst (set gs)" using d s by (simp add: distinct_map)
  ultimately have "distinct (map fst gs)" by (simp add: distinct_map)
  with d s show ?thesis by (simp add: map_of_inject_set)
qed

lemma parse_flags_encode:
  assumes d: "distinct (map fst fs)" and m: "m = map_of fs" and ok: "flags_ok m"
  shows "parse_flags (encode_flags fs) = Inr m"
proof (cases "fs = []")
  case True
  then show ?thesis using m by (simp add: encode_flags_def parse_flags_def)
next
  case False
  have kv: "\<forall>kv \<in> set fs. valid_token (fst kv) 1 32 = None \<and> valid_token (snd kv) 0 64 = None \<and>
      CHR ''='' \<notin> set (fst kv) \<and> CHR ''='' \<notin> set (snd kv)"
  proof
    fix kv assume "kv \<in> set fs"
    then have "m (fst kv) = Some (snd kv)" using d m by simp
    then show "valid_token (fst kv) 1 32 = None \<and> valid_token (snd kv) 0 64 = None \<and>
      CHR ''='' \<notin> set (fst kv) \<and> CHR ''='' \<notin> set (snd kv)"
      using ok by (auto simp: flags_ok_def)
  qed
  define gs where "gs = sort_key flag_text fs"
  have "sort (map flag_text fs) = map flag_text gs"
    by (rule properties_for_sort) (simp_all add: gs_def)
  then have g: "mset gs = mset fs" "map flag_text gs = insertion_sort (map flag_text fs)"
    by (simp_all add: gs_def insertion_sort_sort)
  have sg: "set gs = set fs" "length gs = length fs"
    using g(1) mset_eq_setD mset_eq_length by auto
  have gkv: "\<forall>kv \<in> set gs. valid_token (fst kv) 1 32 = None \<and> valid_token (snd kv) 0 64 = None \<and>
      CHR ''='' \<notin> set (fst kv) \<and> CHR ''='' \<notin> set (snd kv)"
    using kv sg by simp
  have ft: "map (\<lambda>(k, v). k @ ''='' @ v) fs = map flag_text fs" by (auto simp: flag_text_def)
  have enc: "encode_flags fs = join '','' (map flag_text gs)"
    unfolding encode_flags_def ft g(2) using False by simp
  have nc: "\<forall>w \<in> set (map flag_text gs). CHR '','' \<notin> set w"
    using gkv by (auto simp: flag_text_def token_no_comma)
  have ne: "map flag_text gs \<noteq> []" using False sg by auto
  have sp: "split_byte (CHR '','') (encode_flags fs) = map flag_text gs"
    unfolding enc by (rule split_join [OF ne nc])
  have "encode_flags fs \<noteq> ''-''"
  proof
    assume "encode_flags fs = ''-''"
    then have "map flag_text gs = [''-'']" using sp by simp
    then obtain kv where "flag_text kv = ''-''" by (cases gs) auto
    then have "set (fst kv @ ''='' @ snd kv) = set ''-''" by (simp only: flag_text_def)
    then show False by auto
  qed
  then have "parse_flags (encode_flags fs) = Inr (Map.empty ++ map_of (rev gs))"
    using parse_flag_list_ok [OF gkv] sp by (simp add: parse_flags_def)
  moreover have "map_of (rev gs) = map_of fs"
    using map_of_perm [OF d, of "rev gs"] sg by simp
  ultimately show ?thesis using m by simp
qed

section \<open>Encoding\<close>

lemma connect_encode_join:
  "connect_encode c fs = join '' '' [proto, ''CONNECT'', cn_host c, itoa (cn_port c), cn_token c,
     cn_nonce c, cn_client c, encode_flags fs] @ [newline]"
  by (simp add: connect_encode_def)

lemma set_join: "set (join s ws) \<subseteq> set s \<union> (\<Union>w \<in> set ws. set w)"
  by (induction s ws rule: join.induct) auto

lemma join_not_Nil: "ws \<noteq> [] \<Longrightarrow> hd ws \<noteq> [] \<Longrightarrow> join s ws \<noteq> []"
  by (cases "(s, ws)" rule: join.cases) auto

lemma word_ok_flags:
  assumes "distinct (map fst fs)" and "flags_ok (map_of fs)"
  shows "word_ok (encode_flags fs)"
proof (cases "fs = []")
  case True
  then show ?thesis by (simp add: encode_flags_def graphic_def)
next
  case False
  let ?ts = "insertion_sort (map (\<lambda>(k, v). k @ ''='' @ v) fs)"
  have s: "set ?ts = set (map (\<lambda>(k, v). k @ ''='' @ v) fs)" by (simp add: insertion_sort_sort)
  have ok: "\<forall>w \<in> set ?ts. word_ok w"
  proof
    fix w assume "w \<in> set ?ts"
    then obtain k v where kv: "(k, v) \<in> set fs" "w = k @ ''='' @ v" unfolding s by auto
    then have "map_of fs k = Some v" using assms by simp
    then have "valid_token k 1 32 = None" "valid_token v 0 64 = None" using assms by (auto simp: flags_ok_def)
    then show "word_ok w" using kv by (auto simp: valid_token_None_iff list_all_iff token_char_graphic)
  qed
  have "?ts \<noteq> []" using s False by (metis list.map_disc_iff set_empty)
  then have "join '','' ?ts \<noteq> []" using ok by (metis join_not_Nil list.set_sel(1))
  moreover have "\<forall>c \<in> set (join '','' ?ts). graphic c"
    using set_join [of "'',''" ?ts] ok by (fastforce simp: graphic_def)
  ultimately show ?thesis using False by (simp add: encode_flags_def)
qed

lemma parse_connect_encode:
  assumes c: "connect_ok c" and f: "distinct (map fst fs)" "cn_flags c = map_of fs"
  shows "parse_connect (connect_encode c fs) = Inr c"
proof -
  let ?ws = "[proto, ''CONNECT'', cn_host c, itoa (cn_port c), cn_token c, cn_nonce c, cn_client c, encode_flags fs]"
  have fl: "flags_ok (map_of fs)" using c f by (simp add: connect_ok_def)
  have w8: "word_ok (encode_flags fs)" by (rule word_ok_flags [OF f(1) fl])
  have ws: "\<forall>w \<in> set ?ws. word_ok w"
    using c w8 word_ok_host [of "cn_host c"] word_ok_token [of "cn_token c" 8 512] word_ok_token [of "cn_client c" 1 64]
      word_ok_hex [of "cn_nonce c"] word_ok_itoa word_ok_proto
    by (simp add: connect_ok_def) (simp add: graphic_def)
  have "join '' '' ?ws = join '' '' (butlast ?ws) @ '' '' @ encode_flags fs" by simp
  then have "trim_right_set (connect_encode c fs) crlf_set = join '' '' ?ws"
    unfolding connect_encode_join using trim_line [OF w8, of "join '' '' (butlast ?ws) @ '' ''"] by simp
  then have "str_fields (trim_right_set (connect_encode c fs) crlf_set) = ?ws"
    using fields_join [OF ws] by simp
  moreover have "parse_flags (encode_flags fs) = Inr (cn_flags c)"
    using parse_flags_encode [OF f(1) f(2)] c by (simp add: connect_ok_def)
  moreover have "atoi (itoa (cn_port c)) = Some (cn_port c)"
    using c by (intro atoi_itoa) (auto simp: connect_ok_def min_int64_def max_int64_def)
  ultimately show ?thesis
    using c by (simp add: parse_connect_def connect_ok_def)
qed

section \<open>What parsing accepts\<close>

lemma take_drop_count:
  assumes "index_byte s c = Some i" and "\<not> 1 < count_byte s c"
  shows "c \<notin> set (take i s) \<and> c \<notin> set (drop (Suc i) s)"
proof -
  from assms(1) have i: "i < length s" "s ! i = c" "c \<notin> set (take i s)" by (simp_all add: index_byte_Some)
  have "s = take i s @ c # drop (Suc i) s" using i by (metis id_take_nth_drop)
  then have "count_byte s c = count_byte (take i s) c + (1 + count_byte (drop (Suc i) s) c)"
    by (metis count_byte_Cons count_byte_append)
  then have "count_byte (drop (Suc i) s) c = 0" using assms(2) by simp
  then show ?thesis using i(3) by (auto simp: count_byte_def filter_empty_conv)
qed

lemma parse_flag_list_flags_ok:
  "parse_flag_list kvs out = Inr m \<Longrightarrow> flags_ok out \<Longrightarrow> flags_ok m"
proof (induction kvs arbitrary: out)
  case (Cons kv kvs)
  obtain k v where kv: "(case index_byte kv (CHR ''='') of None \<Rightarrow> (kv, [])
                       | Some eq \<Rightarrow> (take eq kv, drop (Suc eq) kv)) = (k, v)" by fastforce
  have c: "\<not> 1 < count_byte kv (CHR ''='')" and k: "valid_token k 1 32 = None" and v: "valid_token v 0 64 = None"
    and r: "parse_flag_list kvs (out(k \<mapsto> v)) = Inr m"
    using Cons.prems(1) kv by (auto split: if_splits)
  have "CHR ''='' \<notin> set k \<and> CHR ''='' \<notin> set v"
    using kv c by (auto simp: index_byte_None_iff take_drop_count split: option.splits)
  then have "flags_ok (out(k \<mapsto> v))"
    using Cons.prems(2) k v by (simp add: flags_ok_def)
  then show ?case using Cons.IH r by blast
qed simp

lemma parse_flags_flags_ok: "parse_flags s = Inr m \<Longrightarrow> flags_ok m"
  unfolding parse_flags_def
  by (split if_splits) (auto simp: flags_ok_def dest: parse_flag_list_flags_ok [where out = Map.empty])

lemma parse_connect_ok: "parse_connect line = Inr c \<Longrightarrow> connect_ok c"
  unfolding parse_connect_def Let_def connect_ok_def
  by (auto split: if_splits option.splits sum.splits dest: parse_flags_flags_ok)

section \<open>Responses\<close>

lemma parse_ok_encode_fields:
  assumes "word_ok (ok_conn_id r)" and "ok_ip r = [] \<or> word_ok (ok_ip r)"
  shows "str_fields (trim_right_set (ok_encode r) crlf_set) =
    [proto, ''OK'', ok_conn_id r, itoa (ok_expires r), if ok_ip r = [] then ''-'' else ok_ip r]"
proof -
  let ?ip = "if ok_ip r = [] then ''-'' else ok_ip r"
  let ?ws = "[proto, ''OK'', ok_conn_id r, itoa (ok_expires r), ?ip]"
  have ip: "word_ok ?ip" using assms by auto
  have ws: "\<forall>w \<in> set ?ws. word_ok w"
    using assms ip word_ok_itoa word_ok_proto by (simp add: graphic_def)
  have "ok_encode r = (join '' '' (butlast ?ws) @ '' '') @ ?ip @ [newline]"
    by (simp add: ok_encode_def)
  then have "trim_right_set (ok_encode r) crlf_set = join '' '' ?ws"
    using trim_line [OF ip, of "join '' '' (butlast ?ws) @ '' ''"] by simp
  then show ?thesis using fields_join [OF ws] by simp
qed

lemma parse_response_fields:
  assumes "str_fields (trim_right_set line crlf_set) = [proto, ''OK'', cid, itoa e, ip]"
    and "valid_token cid 4 64 = None" and "0 \<le> e" and "e \<le> max_int64"
  shows "parse_response line =
    (if ip \<noteq> ''-'' then
       (case valid_token ip 3 64 of Some er \<Rightarrow> Inl er
        | None \<Rightarrow> Inr (Resp_OK \<lparr>ok_conn_id = cid, ok_expires = e, ok_ip = ip\<rparr>))
     else Inr (Resp_OK \<lparr>ok_conn_id = cid, ok_expires = e, ok_ip = []\<rparr>))"
proof -
  have "atoi (itoa e) = Some e" using assms by (intro atoi_itoa) (auto simp: min_int64_def)
  then show ?thesis using assms by (auto simp: parse_response_def Let_def split: option.splits)
qed

lemma hex_str_word: "hex_str n \<noteq> [] \<and> (\<forall>c \<in> set (hex_str n). graphic c)"
proof (induction n rule: hex_str.induct)
  case (1 n)
  have g: "graphic (hex_char d)" if "d < 16" for d
    using hex_char_lower [OF that] by (simp add: hex_lower_token token_char_graphic)
  show ?case using 1 g by (subst (1 2) hex_str.simps) auto
qed

lemma join_colon_word: "\<forall>w \<in> set ws. \<forall>c \<in> set w. graphic c \<Longrightarrow> \<forall>c \<in> set (join '':'' ws). graphic c"
  using set_join [of "'':''" ws] by fastforce

lemma v6_string_word:
  assumes "length a = 16"
  shows "word_ok (v6_string a) \<and> CHR '':'' \<in> set (v6_string a)"
proof -
  have len: "length (v6_words b) = length b div 2" for b
    by (induction b rule: v6_words.induct) auto
  then obtain w v ws where w: "v6_words a = w # v # ws"
    using assms by (cases "v6_words a" rule: list.exhaust; cases "tl (v6_words a)") (auto simp: len dest: arg_cong [of _ _ length])
  have h: "\<forall>w \<in> set (map hex_str ns). \<forall>c \<in> set w. graphic c" for ns
    using hex_str_word by auto
  show ?thesis
  proof (cases "snd (longest_zero_run (v6_words a)) = 0")
    case True
    then have "v6_string a = join '':'' (map hex_str (v6_words a))"
      by (simp add: v6_string_def Let_def case_prod_beta)
    then show ?thesis using join_colon_word [OF h [of "v6_words a"]] w by auto
  next
    case False
    then obtain b l where "v6_string a = join '':'' (map hex_str (take b (v6_words a))) @ ''::'' @
        join '':'' (map hex_str (drop (b + l) (v6_words a)))"
      by (auto simp: v6_string_def Let_def case_prod_beta)
    then show ?thesis
      using join_colon_word [OF h [of "take b (v6_words a)"]] join_colon_word [OF h [of "drop (b + l) (v6_words a)"]]
      by auto
  qed
qed

lemma v4_string_token:
  assumes "length a = 4"
  shows "valid_token (v4_string a) 3 64 = None \<and> v4_string a \<noteq> ''-''"
proof -
  obtain b c d e where a: "a = [b, c, d, e]"
    using assms by (auto simp: length_Suc_conv numeral_eq_Suc)
  have l: "1 \<le> length (nat_str (unat x)) \<and> length (nat_str (unat x)) \<le> 3" for x :: byte
  proof -
    have "unat x < 256" using unsigned_less [of x] by simp
    then show ?thesis by (simp add: nat_str.simps [of "unat x"] nat_str.simps [of "unat x div 10"] nat_str.simps [of "unat x div 10 div 10"])
  qed
  have t: "list_all token_char (nat_str n)" for n
    using nat_str_digits [of n] by (auto simp: list_all_iff token_char_def)
  have s: "v4_string a = nat_str (unat b) @ ''.'' @ nat_str (unat c) @ ''.'' @ nat_str (unat d) @ ''.'' @ nat_str (unat e)"
    by (simp add: v4_string_def a)
  have "valid_token (v4_string a) 3 64 = None"
    unfolding valid_token_None_iff s
    using l [of b] l [of c] l [of d] l [of e] t by (auto simp: token_char_def)
  moreover have "hd (v4_string a) \<noteq> CHR ''-''"
    using v4_string_head [of a] a by (auto simp: is_digit_def)
  ultimately show ?thesis by auto
qed

lemma index_of_later:
  "c \<notin> set s \<Longrightarrow> p = c # r \<Longrightarrow> index_of (s @ p @ t) p = Some (length s)"
proof (induction s)
  case (Cons d s)
  then have "\<not> has_prefix ((d # s) @ p @ t) p" by auto
  with Cons show ?case by simp
qed (simp add: index_of_append_here)

lemma parse_err_encode:
  assumes c: "valid_err_code (er_code e) = None" and m: "er_message e \<noteq> []" "last (er_message e) \<notin> set crlf_set"
  shows "parse_response (err_encode e) = Inr (Resp_Err e)"
proof -
  let ?s = "proto @ '' ERR '' @ er_code e @ '' '' @ er_message e"
  have "err_encode e = ?s @ [newline]" using m by (simp add: err_encode_def)
  moreover have "trim_right_set (?s @ [newline]) crlf_set = trim_right_set ?s crlf_set"
    by (rule trim_right_set_append) (simp add: newline_def crlf_set_def)
  moreover have "trim_right_set ?s crlf_set = ?s" using m by (intro trim_right_set_id) simp
  ultimately have s: "trim_right_set (err_encode e) crlf_set = ?s" by simp
  have w: "word_ok (er_code e)" "word_ok ''ERR''" using word_ok_code [OF c] by (simp_all add: graphic_def)
  have f: "str_fields ?s = proto # ''ERR'' # er_code e # str_fields (er_message e)"
    using fields_word_blank [of proto "''ERR '' @ er_code e @ '' '' @ er_message e"] word_ok_proto
      fields_word_blank [of "''ERR''" "er_code e @ '' '' @ er_message e"]
      fields_word_blank [of "er_code e" "er_message e"] w by simp
  have "index_of ?s ('' ERR '' @ er_code e @ '' '') = Some (length proto)"
    using index_of_later [of "CHR '' ''" proto "'' ERR '' @ er_code e @ '' ''" "''ERR '' @ er_code e @ '' ''" "er_message e"]
    by (simp add: proto_def)
  moreover have "drop (length proto + length ('' ERR '' @ er_code e @ '' '')) ?s = er_message e"
  proof -
    have "?s = (proto @ '' ERR '' @ er_code e @ '' '') @ er_message e" by simp
    moreover have "length proto + length ('' ERR '' @ er_code e @ '' '') = length (proto @ '' ERR '' @ er_code e @ '' '')"
      by simp
    ultimately show ?thesis by (metis append_eq_conv_conj)
  qed
  ultimately show ?thesis
    unfolding parse_response_def Let_def s f using c
    by (simp del: append_Cons append.simps append_assoc drop_append length_append)
qed

lemma rand_hex_lower: "length (rand_hex rnd n) = 2 * n \<and> list_all is_hex_lower (rand_hex rnd n)"
  if "\<And>b. rnd n = Some b \<Longrightarrow> length b = n"
proof (cases "rnd n")
  case None
  then show ?thesis
    by (simp add: rand_hex_def list_all_iff char_class_defs)
next
  case (Some b)
  have "unat x < 256" for x :: byte using unsigned_less [of x] by simp
  then show ?thesis
    using that Some hex_encode_lower [of "map unat b"] by (simp add: rand_hex_def)
qed

lemma rand_hex_token: "list_all token_char (rand_hex rnd n)" if "\<And>b. rnd n = Some b \<Longrightarrow> length b = n"
  using rand_hex_lower [of rnd n] that by (auto simp: list_all_iff hex_lower_token)

section \<open>Properties\<close>

text \<open>
  C4. A request survives the wire: a well-formed request, its flags visited in any order, encodes to a
  line that parses back to that request.
\<close>

theorem connect_roundtrip:
  assumes "connect_ok c" and "distinct (map fst fs)" and "cn_flags c = map_of fs"
  shows "parse_connect (connect_encode c fs) = Inr c"
  using assms by (rule parse_connect_encode)

definition sample_connect :: connect where
  "sample_connect = \<lparr>cn_host = ''github.com'', cn_port = 443, cn_token = ''dldw_0123'',
     cn_nonce = replicate 32 (CHR ''a''), cn_client = ''dev_1'', cn_flags = map_of [(''v'', ''1''), (''mode'', ''x'')]\<rparr>"

theorem connect_roundtrip_witness:
  "parse_connect (connect_encode sample_connect [(''v'', ''1''), (''mode'', ''x'')]) = Inr sample_connect"
proof (rule connect_roundtrip)
  show "connect_ok sample_connect"
    by (simp add: connect_ok_def sample_connect_def valid_host_def host_char_def valid_token_def token_char_def
      char_class_defs flags_ok_def list_all_iff)
qed (simp_all add: sample_connect_def)

text \<open>
  Whatever line a peer sends, an accepted request is well formed: a host of printable characters, a
  TCP port, a token of 8 to 512 token characters, a nonce of 32 lower-case hexadecimal digits.
\<close>

theorem connect_accepted_wellformed:
  assumes "parse_connect line = Inr c"
  shows "connect_ok c \<and> (\<forall>x \<in> set (cn_host c @ cn_token c @ cn_nonce c @ cn_client c). graphic x)"
  using parse_connect_ok [OF assms] word_ok_host [of "cn_host c"] word_ok_token [of "cn_token c" 8 512]
    word_ok_token [of "cn_client c" 1 64] word_ok_hex [of "cn_nonce c"]
  by (auto simp: connect_ok_def)

theorem connect_accepted_wellformed_witness:
  "connect_ok sample_connect"
proof -
  have p: "parse_connect (connect_encode sample_connect [(''v'', ''1''), (''mode'', ''x'')]) = Inr sample_connect"
    by (rule parse_connect_encode)
      (simp_all add: connect_ok_def sample_connect_def valid_host_def host_char_def valid_token_def token_char_def
        char_class_defs flags_ok_def list_all_iff)
  from connect_accepted_wellformed [OF p] show ?thesis by blast
qed

text \<open>
  An OK response whose connection id is a token survives the wire when the resolved address is
  absent or IPv4; when the target was reached over IPv6 the line is refused by the parser, because an
  address with colons is not a token.
\<close>

theorem ok_response_wire:
  assumes "valid_token cid 4 64 = None" and "0 \<le> e" and "e \<le> max_int64" and "length a \<in> {4, 16}"
  shows "parse_response (ok_encode \<lparr>ok_conn_id = cid, ok_expires = e, ok_ip = []\<rparr>) =
           Inr (Resp_OK \<lparr>ok_conn_id = cid, ok_expires = e, ok_ip = []\<rparr>) \<and>
         (if to4 a \<noteq> []
          then parse_response (ok_encode \<lparr>ok_conn_id = cid, ok_expires = e, ok_ip = ip_string a\<rparr>) =
            Inr (Resp_OK \<lparr>ok_conn_id = cid, ok_expires = e, ok_ip = ip_string a\<rparr>)
          else \<exists>err. parse_response (ok_encode \<lparr>ok_conn_id = cid, ok_expires = e, ok_ip = ip_string a\<rparr>) = Inl err)"
proof -
  let ?r = "\<lambda>ip. \<lparr>ok_conn_id = cid, ok_expires = e, ok_ip = ip\<rparr>"
  have cw: "word_ok cid" using word_ok_token [OF assms(1)] by simp
  have p: "parse_response (ok_encode (?r ip)) =
      (case valid_token ip 3 64 of Some er \<Rightarrow> Inl er | None \<Rightarrow> Inr (Resp_OK (?r ip)))"
    if "word_ok ip" "ip \<noteq> ''-''" for ip
    using parse_response_fields [OF _ assms(1-3), of "ok_encode (?r ip)" ip] parse_ok_encode_fields [of "?r ip"] that cw
    by simp
  have none: "parse_response (ok_encode (?r [])) = Inr (Resp_OK (?r []))"
    using parse_response_fields [OF _ assms(1-3), of "ok_encode (?r [])" "''-''"] parse_ok_encode_fields [of "?r []"] cw
    by simp
  show ?thesis
  proof (cases "to4 a = []")
    case False
    then have l: "length (to4 a) = 4" using to4_cases [of a] by auto
    have "valid_token (ip_string a) 3 64 = None" "ip_string a \<noteq> ''-''"
      using v4_string_token [OF l] False assms(4) by (auto simp: ip_string_def)
    with p [of "ip_string a"] none False word_ok_token show ?thesis by auto
  next
    case True
    then have l: "length a = 16" using assms(4) by auto
    then have s: "ip_string a = v6_string a" using True by (auto simp: ip_string_def)
    then have "valid_token (ip_string a) 3 64 \<noteq> None" "ip_string a \<noteq> ''-''"
      using v6_string_word [OF l] token_no_colon by auto
    with p [of "ip_string a"] none True v6_string_word [OF l] s show ?thesis by auto
  qed
qed

theorem ok_response_wire_witness:
  "\<exists>err. parse_response (ok_encode \<lparr>ok_conn_id = ''conn_1'', ok_expires = 0, ok_ip = ip_string ipv6_loopback\<rparr>) = Inl err"
proof -
  have "valid_token ''conn_1'' 4 64 = None" by code_simp
  moreover have "to4 ipv6_loopback = []" "length ipv6_loopback \<in> {4, 16}"
    by code_simp+
  ultimately show ?thesis
    using ok_response_wire [of "''conn_1''" 0 ipv6_loopback] by (simp add: max_int64_def)
qed

text \<open>
  An error response survives the wire, message and inner blanks included, when its code is well
  formed and its message is not empty and does not end in a line break.
\<close>

theorem err_roundtrip:
  assumes "valid_err_code (er_code e) = None" and "er_message e \<noteq> []"
    and "last (er_message e) \<notin> set crlf_set"
  shows "parse_response (err_encode e) = Inr (Resp_Err e)"
  using assms by (rule parse_err_encode)

theorem err_roundtrip_witness:
  "parse_response (err_encode \<lparr>er_code = ''E_AUTH'', er_message = ''bad  token''\<rparr>) =
     Inr (Resp_Err \<lparr>er_code = ''E_AUTH'', er_message = ''bad  token''\<rparr>)"
  by (rule err_roundtrip) (simp_all add: valid_err_code_def err_code_char_def char_class_defs crlf_set_def)

text \<open>
  Every generated identifier passes the validator of the field it is sent in, whether the random
  source works or fails: tokens, client ids and connection ids are tokens of the required length and
  nonces are 32 lower-case hexadecimal digits.
\<close>

theorem generated_ids_valid:
  assumes "\<And>n b. rnd n = Some b \<Longrightarrow> length b = n"
  shows "valid_token (new_token rnd) 8 512 = None \<and> valid_token (new_client_id rnd) 1 64 = None \<and>
    valid_token (new_conn_id rnd) 4 64 = None \<and>
    length (new_nonce rnd) = 32 \<and> list_all is_hex_lower (new_nonce rnd)"
  using rand_hex_lower [of rnd] rand_hex_token [of rnd] assms
  by (simp add: id_defs valid_token_None_iff) (simp add: token_char_def char_class_defs)

theorem generated_ids_valid_witness:
  "length (new_nonce (\<lambda>n. Some (replicate n 255))) = 32"
  using generated_ids_valid [of "\<lambda>n. Some (replicate n 255)"] by simp

end
