(* ===== verification/RateLimit.thy ===== *)
theory RateLimit
  imports Complex_Main Prelude
begin

text \<open>
  \<^verbatim>\<open>internal/server/ratelimit\<close>: the token bucket, the sliding-window counter and the concurrency cap.
  Each call takes the clock reading \<open>time.Now()\<close> as an argument and runs under the component's mutex,
  so a call is one step. The \<open>float64\<close> token counts are exact rationals here: the rounding of the
  additions is not modelled.
\<close>

section \<open>Limiter\<close>

record bucket =
  bk_tokens :: rat
  bk_last :: time

record limiter =
  lm_rate :: rat
  lm_burst :: int
  lm_buckets :: "(string, bucket) gomap"

definition new_limiter :: "rat \<Rightarrow> int \<Rightarrow> limiter" where
  "new_limiter rate burst =
     \<lparr>lm_rate = rate, lm_burst = (if burst < 1 then 1 else burst), lm_buckets = []\<rparr>"

definition seconds :: "duration \<Rightarrow> rat" where
  "seconds d = of_int d / of_int second"

definition gc_idle :: "limiter \<Rightarrow> duration" where
  "gc_idle l =
     (let idle = \<lfloor>of_int (lm_burst l) / lm_rate l * (3 / 2)\<rfloor> * second in
      if idle < minute then minute else idle)"

definition gc_locked :: "limiter \<Rightarrow> time \<Rightarrow> limiter" where
  "gc_locked l now =
     l\<lparr>lm_buckets := mkeep (\<lambda>k b. \<not> gc_idle l < time_sub now (bk_last b)) (lm_buckets l)\<rparr>"

definition max_buckets :: nat where "max_buckets = 65536"

definition refill :: "limiter \<Rightarrow> time \<Rightarrow> bucket \<Rightarrow> bucket" where
  "refill l now b =
     (let elapsed = seconds (time_sub now (bk_last b)) in
      if 0 < elapsed then
        (let t = bk_tokens b + elapsed * lm_rate l in
         b\<lparr>bk_tokens := (if of_int (lm_burst l) < t then of_int (lm_burst l) else t)\<rparr>)
      else b)"

definition limiter_allow :: "limiter \<Rightarrow> time \<Rightarrow> string \<Rightarrow> bool \<times> limiter" where
  "limiter_allow l0 now key =
     (let l = (if max_buckets < length (lm_buckets l0) then gc_locked l0 now else l0);
          b = (case mget (lm_buckets l) key of
                 None \<Rightarrow> \<lparr>bk_tokens = of_int (lm_burst l), bk_last = now\<rparr>
               | Some b \<Rightarrow> refill l now b);
          b' = b\<lparr>bk_last := now\<rparr>
      in if 1 \<le> bk_tokens b'
         then (True, l\<lparr>lm_buckets := mput key (b'\<lparr>bk_tokens := bk_tokens b' - 1\<rparr>) (lm_buckets l)\<rparr>)
         else (False, l\<lparr>lm_buckets := mput key b' (lm_buckets l)\<rparr>))"

section \<open>Count\<close>

record count =
  ct_window :: duration
  ct_max :: int
  ct_events :: "(string, time list) gomap"

definition new_count :: "int \<Rightarrow> duration \<Rightarrow> count" where
  "new_count mx window = \<lparr>ct_window = window, ct_max = mx, ct_events = []\<rparr>"

definition count_gc :: "count \<Rightarrow> time \<Rightarrow> count" where
  "count_gc c now =
     c\<lparr>ct_events := mkeep (\<lambda>k v. \<not> (v = [] \<or> ct_window c < time_sub now (last v))) (ct_events c)\<rparr>"

definition count_allow :: "count \<Rightarrow> time \<Rightarrow> string \<Rightarrow> bool \<times> count" where
  "count_allow c0 now key =
     (let c = (if max_buckets < length (ct_events c0) then count_gc c0 now else c0);
          evs = (case mget (ct_events c) key of None \<Rightarrow> [] | Some v \<Rightarrow> v);
          keep = filter (\<lambda>t. time_sub now t \<le> ct_window c) evs
      in if ct_max c \<le> int (length keep)
         then (False, c\<lparr>ct_events := mput key keep (ct_events c)\<rparr>)
         else (True, c\<lparr>ct_events := mput key (keep @ [now]) (ct_events c)\<rparr>))"

section \<open>Conc\<close>

record conc =
  cc_max :: int
  cc_cur :: "(string, int) gomap"

definition new_conc :: "int \<Rightarrow> conc" where
  "new_conc mx = \<lparr>cc_max = (if mx < 1 then 1 else mx), cc_cur = []\<rparr>"

definition conc_cur :: "conc \<Rightarrow> string \<Rightarrow> int" where
  "conc_cur c key = (case mget (cc_cur c) key of None \<Rightarrow> 0 | Some n \<Rightarrow> n)"

definition conc_acquire :: "conc \<Rightarrow> string \<Rightarrow> conc option" where
  "conc_acquire c key =
     (if cc_max c \<le> conc_cur c key then None
      else Some (c\<lparr>cc_cur := mput key (conc_cur c key + 1) (cc_cur c)\<rparr>))"

text \<open>
  The body of the release function; \<open>sync.Once\<close> is the flag a release function carries, True once
  it has run.
\<close>

definition conc_release_body :: "conc \<Rightarrow> string \<Rightarrow> conc" where
  "conc_release_body c key =
     (let n = conc_cur c key - 1 in
      if n \<le> 0 then c\<lparr>cc_cur := mdel key (mput key n (cc_cur c))\<rparr>
      else c\<lparr>cc_cur := mput key n (cc_cur c)\<rparr>)"

definition conc_release :: "conc \<Rightarrow> string \<Rightarrow> bool \<Rightarrow> conc \<times> bool" where
  "conc_release c key done = (if done then (c, True) else (conc_release_body c key, True))"

text \<open>
  The calls of any number of goroutines: the cap, and the release functions handed out so far with
  their keys and flags. A release function may be called any number of times.
\<close>

type_synonym conc_state = "conc \<times> (string \<times> bool) list"

inductive conc_step :: "conc_state \<Rightarrow> conc_state \<Rightarrow> bool" where
  acquired: "conc_acquire c key = Some c' \<Longrightarrow> conc_step (c, hs) (c', hs @ [(key, False)])"
| refused: "conc_acquire c key = None \<Longrightarrow> conc_step (c, hs) (c, hs)"
| released: "i < length hs \<Longrightarrow> hs ! i = (key, d) \<Longrightarrow> conc_release c key d = (c', d') \<Longrightarrow>
    conc_step (c, hs) (c', hs[i := (key, d')])"

inductive_cases conc_stepE: "conc_step s s'"

section \<open>A budget that is paid from and refilled\<close>

text \<open>A run of calls at given times; the decisions in order and the last state.\<close>

fun run_calls :: "('s \<Rightarrow> time \<Rightarrow> string \<Rightarrow> bool \<times> 's) \<Rightarrow> 's \<Rightarrow> (time \<times> string) list \<Rightarrow> bool list \<times> 's" where
  "run_calls step s [] = ([], s)"
| "run_calls step s ((t, k) # es) =
     (let (ok, s') = step s t k; (oks, s'') = run_calls step s' es in (ok # oks, s''))"

definition granted :: "string \<Rightarrow> (time \<times> string) list \<Rightarrow> bool list \<Rightarrow> nat" where
  "granted key es oks = length (filter (\<lambda>((t, k), ok). k = key \<and> ok) (zip es oks))"

locale budget =
  fixes step :: "'s \<Rightarrow> time \<Rightarrow> string \<Rightarrow> bool \<times> 's"
    and avail :: "'s \<Rightarrow> string \<Rightarrow> time \<Rightarrow> rat"
    and rate :: "'s \<Rightarrow> rat"
    and inv :: "'s \<Rightarrow> time \<Rightarrow> bool"
  assumes decision: "inv s t0 \<Longrightarrow> t0 \<le> now \<Longrightarrow> step s now k = (ok, s') \<Longrightarrow> ok \<longleftrightarrow> 1 \<le> avail s k now"
    and payment: "inv s t0 \<Longrightarrow> t0 \<le> now \<Longrightarrow> step s now k = (ok, s') \<Longrightarrow>
      avail s' k now = avail s k now - (if ok then 1 else 0)"
    and others: "inv s t0 \<Longrightarrow> t0 \<le> now \<Longrightarrow> step s now k = (ok, s') \<Longrightarrow> k' \<noteq> k \<Longrightarrow> now \<le> t \<Longrightarrow>
      avail s' k' t = avail s k' t"
    and refilled: "inv s t0 \<Longrightarrow> t0 \<le> t \<Longrightarrow> t \<le> t' \<Longrightarrow> avail s k t' \<le> avail s k t + rate s * seconds (t' - t)"
    and nonneg: "inv s t0 \<Longrightarrow> t0 \<le> t \<Longrightarrow> 0 \<le> avail s k t"
    and kept: "inv s t0 \<Longrightarrow> t0 \<le> now \<Longrightarrow> step s now k = (ok, s') \<Longrightarrow> inv s' now \<and> rate s' = rate s"
begin

lemma run_bound:
  assumes "inv s t0" and "run_calls step s es = (oks, s')" and "sorted (t0 # map fst es)"
  shows "of_nat (granted key es oks) + avail s' key (last (t0 # map fst es))
    \<le> avail s key t0 + rate s * seconds (last (t0 # map fst es) - t0) \<and> inv s' (last (t0 # map fst es))"
  using assms
proof (induction es arbitrary: s t0 oks)
  case Nil
  then show ?case by (auto simp: granted_def seconds_def)
next
  case (Cons e es)
  obtain t k where e: "e = (t, k)" by (cases e)
  obtain ok s1 where st: "step s t k = (ok, s1)" by fastforce
  obtain oks' where r: "run_calls step s1 es = (oks', s')" and oks: "oks = ok # oks'"
    using Cons.prems(2) e st by (auto split: prod.splits)
  have t: "t0 \<le> t" and so: "sorted (t # map fst es)" using Cons.prems(3) e by auto
  note inv = Cons.prems(1)
  have k1: "inv s1 t" "rate s1 = rate s" using kept [OF inv t st] by auto
  let ?l = "last (t # map fst es)"
  have ih: "of_nat (granted key es oks') + avail s' key ?l \<le> avail s1 key t + rate s * seconds (?l - t)"
    "inv s' ?l" using Cons.IH [OF k1(1) r so] k1 by auto
  have g: "granted key (e # es) oks = (if k = key \<and> ok then 1 else 0) + granted key es oks'"
    by (simp add: granted_def e oks)
  have a: "avail s1 key t = avail s key t - (if k = key \<and> ok then 1 else 0)"
    using payment [OF inv t st] others [OF inv t st, of key t] by (cases "k = key") auto
  have r0: "avail s key t \<le> avail s key t0 + rate s * seconds (t - t0)"
    using refilled [OF inv _ t] by auto
  have sec: "seconds (?l - t) + seconds (t - t0) = seconds (?l - t0)"
    by (simp add: seconds_def diff_divide_distrib [symmetric] add_divide_distrib [symmetric])
  have "rate s * seconds (?l - t) + rate s * seconds (t - t0) = rate s * seconds (?l - t0)"
    by (simp only: sec [symmetric] distrib_left)
  then show ?case
    using ih g a r0 e by (auto split: if_splits)
qed

lemma grants_bound:
  assumes "inv s t0" and "run_calls step s es = (oks, s')" and "sorted (t0 # map fst es)"
  shows "of_nat (granted key es oks) \<le> avail s key t0 + rate s * seconds (last (t0 # map fst es) - t0)"
  using run_bound [OF assms, of key] nonneg [of s' "last (t0 # map fst es)" "last (t0 # map fst es)" key] by auto

end

section \<open>The token bucket is a budget\<close>

definition limiter_avail :: "limiter \<Rightarrow> string \<Rightarrow> time \<Rightarrow> rat" where
  "limiter_avail l key now =
     (case mget (lm_buckets l) key of None \<Rightarrow> of_int (lm_burst l) | Some b \<Rightarrow> bk_tokens (refill l now b))"

definition limiter_inv :: "limiter \<Rightarrow> time \<Rightarrow> bool" where
  "limiter_inv l t \<longleftrightarrow> 0 < lm_rate l \<and> 1 \<le> lm_burst l \<and> mkeys_ok (lm_buckets l) \<and>
     (\<forall>k b. mget (lm_buckets l) k = Some b \<longrightarrow>
        0 \<le> bk_tokens b \<and> bk_tokens b \<le> of_int (lm_burst l) \<and> bk_last b \<le> t)"

lemma time_sub_mono: "t \<le> t' \<Longrightarrow> time_sub t u \<le> time_sub t' u"
  by (auto simp: time_sub_def)

lemma time_sub_add: "t \<le> t' \<Longrightarrow> u \<le> t \<Longrightarrow> time_sub t' u \<le> time_sub t u + (t' - t)"
  by (auto simp: time_sub_def min_int64_def max_int64_def)

lemma time_sub_nonneg: "u \<le> t \<Longrightarrow> 0 \<le> time_sub t u"
  by (auto simp: time_sub_def min_int64_def max_int64_def)

lemma seconds_mono: "d \<le> e \<Longrightarrow> seconds d \<le> seconds e"
  by (simp add: seconds_def second_def divide_right_mono)

lemma seconds_add: "seconds (d + e) = seconds d + seconds e"
  by (simp add: seconds_def add_divide_distrib)

lemma seconds_0 [simp]: "seconds 0 = 0"
  by (simp add: seconds_def)

lemma refill_tokens:
  "bk_tokens (refill l now b) =
     (let e = seconds (time_sub now (bk_last b)) in
      if 0 < e then min (of_int (lm_burst l)) (bk_tokens b + e * lm_rate l) else bk_tokens b)"
  by (auto simp: refill_def Let_def min_def)

lemma refill_bounds:
  assumes "limiter_inv l t" and "mget (lm_buckets l) k = Some b"
  shows "0 \<le> bk_tokens (refill l now b) \<and> bk_tokens (refill l now b) \<le> of_int (lm_burst l)"
proof -
  have b: "0 \<le> bk_tokens b" "bk_tokens b \<le> of_int (lm_burst l)" "0 < lm_rate l" "1 \<le> lm_burst l"
    using assms by (auto simp: limiter_inv_def)
  let ?e = "seconds (time_sub now (bk_last b))"
  have "0 < ?e \<Longrightarrow> 0 \<le> ?e * lm_rate l" using b by simp
  moreover have "(0::rat) \<le> of_int (lm_burst l)" using b by simp
  ultimately show ?thesis using b by (auto simp: refill_tokens Let_def)
qed

lemma refill_grows:
  assumes "limiter_inv l t0" and "mget (lm_buckets l) k = Some b" and "t0 \<le> t" and "t \<le> t'"
  shows "bk_tokens (refill l t' b) \<le> bk_tokens (refill l t b) + lm_rate l * seconds (t' - t)"
proof -
  have b: "bk_last b \<le> t" "0 < lm_rate l" "bk_tokens b \<le> of_int (lm_burst l)"
    using assms by (auto simp: limiter_inv_def intro: order_trans [of _ t0])
  let ?e = "seconds (time_sub t (bk_last b))" and ?e' = "seconds (time_sub t' (bk_last b))" and ?d = "seconds (t' - t)"
  have e: "0 \<le> ?e" using time_sub_nonneg [OF b(1)] seconds_mono [of 0] by simp
  have d: "0 \<le> ?d" using assms(4) seconds_mono [of 0] by simp
  have "?e' \<le> ?e + ?d"
    using time_sub_add [OF assms(4) b(1)] by (metis seconds_add seconds_mono)
  then have m: "?e' * lm_rate l \<le> ?e * lm_rate l + lm_rate l * ?d"
    using b(2) by (metis distrib_right mult.commute mult_le_cancel_right_pos)
  have dr: "0 \<le> lm_rate l * ?d" using d b(2) by simp
  define p p' q where pq: "p = ?e * lm_rate l" "p' = ?e' * lm_rate l" "q = lm_rate l * ?d"
  have "p' \<le> p + q" "0 \<le> q" "?e = 0 \<Longrightarrow> p = 0" using m dr by (simp_all only: pq mult_zero_left)
  moreover have "0 \<le> p" unfolding pq using e b(2) by simp
  ultimately show ?thesis
    using b(3) e unfolding refill_tokens Let_def pq [symmetric] by (cases "?e = 0") (auto simp: min_def)
qed

text \<open>A bucket the sweep drops would be full by now, and later.\<close>

lemma idle_is_full:
  assumes i: "limiter_inv l t0" and b: "mget (lm_buckets l) k = Some b"
    and idle: "gc_idle l < time_sub now (bk_last b)" and t: "now \<le> t"
  shows "bk_tokens (refill l t b) = of_int (lm_burst l)"
proof -
  have r: "0 < lm_rate l" "0 \<le> bk_tokens b" using i b by (auto simp: limiter_inv_def)
  define x where "x = of_int (lm_burst l) / lm_rate l"
  let ?e = "seconds (time_sub t (bk_last b))"
  have sec: "(0::rat) < of_int second" by (simp add: second_def)
  have m: "minute \<le> gc_idle l" "\<lfloor>x * (3 / 2)\<rfloor> * second \<le> gc_idle l"
    by (auto simp: gc_idle_def Let_def x_def)
  have e: "seconds (gc_idle l) < ?e"
  proof -
    have "gc_idle l < time_sub t (bk_last b)" using idle time_sub_mono [OF t, of "bk_last b"] by linarith
    then show ?thesis by (simp add: seconds_def second_def divide_strict_right_mono)
  qed
  have "x \<le> seconds (gc_idle l)"
  proof (cases "x \<le> 2")
    case True
    have "60 = seconds minute" by (simp add: seconds_def minute_def second_def)
    also have "\<dots> \<le> seconds (gc_idle l)" by (rule seconds_mono [OF m(1)])
    finally show ?thesis using True by simp
  next
    case False
    have "x * (3 / 2) - 1 \<le> of_int \<lfloor>x * (3 / 2)\<rfloor>" by linarith
    also have "\<dots> = seconds (\<lfloor>x * (3 / 2)\<rfloor> * second)" using sec by (simp add: seconds_def)
    also have "\<dots> \<le> seconds (gc_idle l)" by (rule seconds_mono [OF m(2)])
    finally show ?thesis using False by linarith
  qed
  then have "x < ?e" using e by linarith
  then have y: "of_int (lm_burst l) < ?e * lm_rate l" using r by (simp add: x_def pos_divide_less_eq)
  have "(0::rat) < of_int (lm_burst l)" using i by (auto simp: limiter_inv_def)
  then have "0 < ?e" using y r by (metis less_trans zero_less_mult_pos2)
  then show ?thesis using y r by (auto simp: refill_tokens Let_def)
qed

lemma gc_avail:
  assumes "limiter_inv l t0" and "t0 \<le> now" and "now \<le> t"
  shows "limiter_avail (gc_locked l now) key t = limiter_avail l key t"
proof (cases "mget (lm_buckets l) key")
  case None
  then show ?thesis using assms by (simp add: limiter_avail_def gc_locked_def limiter_inv_def mget_mkeep)
next
  case (Some b)
  have rf: "bk_tokens (refill (gc_locked l now) t b) = bk_tokens (refill l t b)"
    by (simp add: refill_tokens gc_locked_def Let_def)
  show ?thesis
    using Some assms rf idle_is_full [OF assms(1) Some _ assms(3)]
    by (auto simp: limiter_avail_def gc_locked_def limiter_inv_def mget_mkeep)
qed

lemma gc_inv: "limiter_inv l t \<Longrightarrow> limiter_inv (gc_locked l now) t"
  by (auto simp: limiter_inv_def gc_locked_def mget_mkeep split: option.splits if_splits)

text \<open>One call without a sweep.\<close>

definition limiter_take :: "limiter \<Rightarrow> time \<Rightarrow> string \<Rightarrow> bool \<times> limiter" where
  "limiter_take l now key =
     (let a = limiter_avail l key now in
      (1 \<le> a, l\<lparr>lm_buckets := mput key \<lparr>bk_tokens = (if 1 \<le> a then a - 1 else a), bk_last = now\<rparr> (lm_buckets l)\<rparr>))"

lemma limiter_allow_take:
  "limiter_allow l now key = limiter_take (if max_buckets < length (lm_buckets l) then gc_locked l now else l) now key"
proof -
  define m where "m = (if max_buckets < length (lm_buckets l) then gc_locked l now else l)"
  show ?thesis
    unfolding limiter_allow_def m_def [symmetric] Let_def limiter_take_def limiter_avail_def
    by (cases "mget (lm_buckets m) key") (auto intro!: arg_cong [where f = "\<lambda>b. m\<lparr>lm_buckets := mput key b (lm_buckets m)\<rparr>"])
qed

lemma limiter_take_budget:
  assumes i: "limiter_inv l t0" and t: "t0 \<le> now" and s: "limiter_take l now k = (ok, l')"
  shows "ok \<longleftrightarrow> 1 \<le> limiter_avail l k now"
    and "limiter_avail l' k now = limiter_avail l k now - (if ok then 1 else 0)"
    and "k' \<noteq> k \<Longrightarrow> limiter_avail l' k' u = limiter_avail l k' u"
    and "limiter_inv l' now" and "lm_rate l' = lm_rate l"
proof -
  let ?a = "limiter_avail l k now"
  have a: "0 \<le> ?a" "?a \<le> of_int (lm_burst l)"
    using refill_bounds [OF i, of k] i by (auto simp: limiter_avail_def limiter_inv_def split: option.splits)
  show "ok \<longleftrightarrow> 1 \<le> ?a" using s by (auto simp: limiter_take_def Let_def)
  show "limiter_avail l' k now = ?a - (if ok then 1 else 0)"
    using s by (auto simp: limiter_take_def Let_def limiter_avail_def [of l'] refill_tokens time_sub_def
      min_int64_def max_int64_def)
  show "k' \<noteq> k \<Longrightarrow> limiter_avail l' k' u = limiter_avail l k' u"
    using s by (auto simp: limiter_take_def Let_def limiter_avail_def refill_tokens split: option.splits)
  show "limiter_inv l' now"
    using s i a t by (auto simp: limiter_take_def Let_def limiter_inv_def split: if_splits)
      (meson order_trans)+
  show "lm_rate l' = lm_rate l" using s by (auto simp: limiter_take_def Let_def)
qed

lemma limiter_refilled:
  assumes "limiter_inv l t0" and "t0 \<le> t" and "t \<le> t'"
  shows "limiter_avail l k t' \<le> limiter_avail l k t + lm_rate l * seconds (t' - t)"
proof (cases "mget (lm_buckets l) k")
  case None
  have "0 \<le> lm_rate l * seconds (t' - t)"
    using assms seconds_mono [of 0 "t' - t"] by (simp add: limiter_inv_def)
  then show ?thesis using None by (simp add: limiter_avail_def)
next
  case (Some b)
  then show ?thesis using refill_grows [OF assms(1) Some assms(2,3)] by (simp add: limiter_avail_def)
qed

lemma limiter_avail_nonneg: "limiter_inv l t0 \<Longrightarrow> 0 \<le> limiter_avail l k t"
  using refill_bounds [of l t0 k] by (auto simp: limiter_avail_def limiter_inv_def split: option.splits)

interpretation lim: budget limiter_allow limiter_avail lm_rate limiter_inv
proof
  fix l l' t0 now k ok
  assume i: "limiter_inv l t0" and t: "t0 \<le> now" and s: "limiter_allow l now k = (ok, l')"
  let ?m = "if max_buckets < length (lm_buckets l) then gc_locked l now else l"
  have m: "limiter_inv ?m t0" using i gc_inv by simp
  have av: "limiter_avail ?m key u = limiter_avail l key u" if "now \<le> u" for key u
    using gc_avail [OF i t that] by simp
  have r: "lm_rate ?m = lm_rate l" by (simp add: gc_locked_def)
  note b = limiter_take_budget [OF m t s [unfolded limiter_allow_take]]
  show "ok \<longleftrightarrow> 1 \<le> limiter_avail l k now" using b(1) av by simp
  show "limiter_avail l' k now = limiter_avail l k now - (if ok then 1 else 0)" using b(2) av by simp
  show "limiter_inv l' now \<and> lm_rate l' = lm_rate l" using b(4,5) r by simp
  show "limiter_avail l' k' u = limiter_avail l k' u" if "k' \<noteq> k" "now \<le> u" for k' u
    using b(3) [OF that(1)] av that by simp
qed (simp_all add: limiter_refilled limiter_avail_nonneg)

section \<open>The window counter\<close>

definition count_evs :: "count \<Rightarrow> string \<Rightarrow> time list" where
  "count_evs c key = (case mget (ct_events c) key of None \<Rightarrow> [] | Some v \<Rightarrow> v)"

definition in_window :: "duration \<Rightarrow> time \<Rightarrow> time list \<Rightarrow> time list" where
  "in_window w u ts = filter (\<lambda>t. u - w \<le> t \<and> t \<le> u) ts"

definition recent :: "duration \<Rightarrow> time \<Rightarrow> time list \<Rightarrow> time list" where
  "recent w now ts = filter (\<lambda>t. now - t \<le> w) ts"

definition count_inv :: "count \<Rightarrow> string \<Rightarrow> time list \<Rightarrow> time \<Rightarrow> bool" where
  "count_inv c key A t0 \<longleftrightarrow> mkeys_ok (ct_events c) \<and> 0 \<le> ct_window c \<and> ct_window c < max_int64 \<and>
     (\<forall>k. sorted (count_evs c k) \<and> (\<forall>t \<in> set (count_evs c k). t \<le> t0)) \<and> (\<forall>t \<in> set A. t \<le> t0) \<and>
     (\<forall>now \<ge> t0. recent (ct_window c) now (count_evs c key) = recent (ct_window c) now A) \<and>
     (\<forall>u. length (in_window (ct_window c) u A) \<le> nat (ct_max c))"

lemma recent_old: "\<forall>t \<in> set ts. w < now - t \<Longrightarrow> now \<le> u \<Longrightarrow> recent w u ts = []"
  by (force simp: recent_def filter_empty_conv)

lemma count_gc_evs:
  assumes "mkeys_ok (ct_events c)" and "0 \<le> ct_window c" and "ct_window c < max_int64"
    and "sorted (count_evs c k)" and "now \<le> u"
  shows "count_evs (count_gc c now) k = count_evs c k \<or>
    (count_evs (count_gc c now) k = [] \<and> recent (ct_window c) u (count_evs c k) = [])"
proof (cases "mget (ct_events c) k")
  case None
  then show ?thesis using assms by (simp add: count_evs_def count_gc_def mget_mkeep)
next
  case (Some v)
  show ?thesis
  proof (cases "v = [] \<or> ct_window c < time_sub now (last v)")
    case False
    then show ?thesis using Some assms by (simp add: count_evs_def count_gc_def mget_mkeep)
  next
    case True
    have gone: "count_evs (count_gc c now) k = []" using True Some assms by (simp add: count_evs_def count_gc_def mget_mkeep)
    have "\<forall>t \<in> set v. ct_window c < now - t"
    proof
      fix t assume tv: "t \<in> set v"
      then have "v \<noteq> []" by auto
      then have "ct_window c < now - last v"
        using True time_sub_less_iff [OF assms(2,3)] by simp
      moreover have "t \<le> last v"
      proof -
        obtain i where "i < length v" "t = v ! i" using tv by (metis in_set_conv_nth)
        moreover have "sorted v" using assms(4) Some by (simp add: count_evs_def)
        ultimately show ?thesis using \<open>v \<noteq> []\<close> by (simp add: last_conv_nth sorted_iff_nth_mono)
      qed
      ultimately show "ct_window c < now - t" by linarith
    qed
    then have "recent (ct_window c) u v = []" using assms(5) by (rule recent_old)
    then show ?thesis using gone Some by (simp add: count_evs_def)
  qed
qed

text \<open>One call without a sweep.\<close>

definition count_take :: "count \<Rightarrow> time \<Rightarrow> string \<Rightarrow> bool \<times> count" where
  "count_take c now key =
     (let keep = filter (\<lambda>t. time_sub now t \<le> ct_window c) (count_evs c key) in
      if ct_max c \<le> int (length keep)
      then (False, c\<lparr>ct_events := mput key keep (ct_events c)\<rparr>)
      else (True, c\<lparr>ct_events := mput key (keep @ [now]) (ct_events c)\<rparr>))"

lemma count_allow_take:
  "count_allow c now key = count_take (if max_buckets < length (ct_events c) then count_gc c now else c) now key"
  by (simp add: count_allow_def count_take_def count_evs_def Let_def)

lemma count_inv_le:
  assumes "count_inv c key A t0" and "t0 \<le> now"
  shows "t \<in> set (count_evs c k) \<Longrightarrow> t \<le> now" and "t \<in> set A \<Longrightarrow> t \<le> now"
proof -
  have le: "\<forall>t \<in> set (count_evs c k). t \<le> t0" "\<forall>t \<in> set A. t \<le> t0"
    using assms(1) unfolding count_inv_def by simp_all
  show "t \<in> set (count_evs c k) \<Longrightarrow> t \<le> now" using le(1) assms(2) by (meson order_trans)
  show "t \<in> set A \<Longrightarrow> t \<le> now" using le(2) assms(2) by (meson order_trans)
qed

lemma count_inv_sorted: "count_inv c key A t0 \<Longrightarrow> sorted (count_evs c k)"
  by (simp add: count_inv_def)

lemma count_gc_inv: "count_inv c key A t0 \<Longrightarrow> t0 \<le> now \<Longrightarrow> count_inv (count_gc c now) key A now"
proof -
  assume i: "count_inv c key A t0" and t: "t0 \<le> now"
  have e: "count_evs (count_gc c now) k = count_evs c k \<or>
    (count_evs (count_gc c now) k = [] \<and> recent (ct_window c) u (count_evs c k) = [])" if "now \<le> u" for k u
    using count_gc_evs [of c k now u] i that by (simp add: count_inv_def)
  have s: "sorted (count_evs (count_gc c now) k) \<and> (\<forall>t \<in> set (count_evs (count_gc c now) k). t \<le> now)" for k
    using e [of now k] count_inv_le(1) [OF i t] count_inv_sorted [OF i] by auto
  have r: "recent (ct_window c) u (count_evs (count_gc c now) key) = recent (ct_window c) u A" if "now \<le> u" for u
    using e [OF that, of key] i t that by (auto simp: count_inv_def) (simp add: recent_def)
  have f: "ct_window (count_gc c now) = ct_window c" "ct_max (count_gc c now) = ct_max c"
    "mkeys_ok (ct_events (count_gc c now))" using i by (simp_all add: count_gc_def count_inv_def)
  show ?thesis
    using i s r count_inv_le(2) [OF i t] unfolding count_inv_def f(1,2) by (simp add: f(3))
qed

lemma recent_recent: "now \<le> u \<Longrightarrow> recent w u (recent w now ts) = recent w u ts"
  by (auto simp: recent_def intro: filter_cong)

lemma sorted_recent: "sorted ts \<Longrightarrow> sorted (recent w now ts)"
  by (simp add: recent_def sorted_filter [where f = id, simplified] sorted_wrt_filter)

lemma count_take_inv:
  assumes i: "count_inv c key A t0" and t: "t0 \<le> now" and s: "count_take c now k = (ok, c')"
  shows "count_inv c' key (A @ (if k = key \<and> ok then [now] else [])) now \<and> ct_window c' = ct_window c \<and> ct_max c' = ct_max c"
proof -
  let ?w = "ct_window c"
  have w: "0 \<le> ?w" "?w < max_int64" using i by (simp_all add: count_inv_def)
  define keep where "keep = recent ?w now (count_evs c k)"
  have "filter (\<lambda>t. time_sub now t \<le> ?w) (count_evs c k) = keep"
    by (simp add: keep_def recent_def time_sub_le_iff [OF w])
  then have ok: "ok \<longleftrightarrow> \<not> ct_max c \<le> int (length keep)"
    and c': "c' = c\<lparr>ct_events := mput k (if ok then keep @ [now] else keep) (ct_events c)\<rparr>"
    using s by (auto simp: count_take_def Let_def split: if_splits)
  have ev: "count_evs c' k' = (if k' = k then (if ok then keep @ [now] else keep) else count_evs c k')" for k'
    by (simp add: count_evs_def c')
  have f: "ct_window c' = ?w" "ct_max c' = ct_max c" "mkeys_ok (ct_events c')"
    using i by (simp_all add: c' count_inv_def)
  have le: "\<forall>t \<in> set (count_evs c k'). t \<le> now" and so: "sorted (count_evs c k')" for k'
    using count_inv_le(1) [OF i t] count_inv_sorted [OF i] by auto
  have keep: "sorted keep" "\<forall>t \<in> set keep. t \<le> now"
    using so [of k] le [of k] by (simp_all add: keep_def sorted_recent) (simp add: recent_def)
  have s1: "sorted (count_evs c' k') \<and> (\<forall>t \<in> set (count_evs c' k'). t \<le> now)" for k'
    using keep le so by (auto simp: ev sorted_append)
  let ?A = "A @ (if k = key \<and> ok then [now] else [])"
  have a: "\<forall>t \<in> set A. t \<le> now" using count_inv_le(2) [OF i t] by auto
  have rec: "recent ?w u (count_evs c key) = recent ?w u A" if "t0 \<le> u" for u
    using i that by (simp add: count_inv_def)
  have r: "recent ?w u (count_evs c' key) = recent ?w u ?A" if "now \<le> u" for u
    using rec [of u] recent_recent [OF that, of ?w "count_evs c k"] that t
    by (auto simp: ev keep_def recent_def simp del: filter_filter)
  have win: "length (in_window ?w u ?A) \<le> nat (ct_max c)" for u
  proof (cases "k = key \<and> ok \<and> now \<le> u")
    case False
    then have "in_window ?w u ?A = in_window ?w u A" by (auto simp: in_window_def)
    then show ?thesis using i by (simp add: count_inv_def)
  next
    case True
    then have "length keep = length (recent ?w now A)" using rec [OF t] by (simp add: keep_def)
    moreover have "length (in_window ?w u A) \<le> length (recent ?w now A)"
    proof -
      have "in_window ?w u A = filter (\<lambda>t. u - ?w \<le> t \<and> t \<le> u) (recent ?w now A)"
        using True by (auto simp: in_window_def recent_def intro: filter_cong)
      then show ?thesis by simp
    qed
    moreover have "length (in_window ?w u ?A) \<le> Suc (length (in_window ?w u A))"
      by (simp add: in_window_def)
    moreover have "length keep < nat (ct_max c)" using ok True by linarith
    ultimately show ?thesis by linarith
  qed
  have a1: "\<forall>t \<in> set ?A. t \<le> now" using a by auto
  show ?thesis using f s1 a1 r win w by (simp add: count_inv_def del: set_append)
qed

lemma count_allow_inv:
  assumes "count_inv c key A t0" and "t0 \<le> now" and "count_allow c now k = (ok, c')"
  shows "count_inv c' key (A @ (if k = key \<and> ok then [now] else [])) now \<and> ct_window c' = ct_window c \<and> ct_max c' = ct_max c"
proof (cases "max_buckets < length (ct_events c)")
  case True
  then have s: "count_take (count_gc c now) now k = (ok, c')" using assms(3) by (simp add: count_allow_take)
  from count_take_inv [OF count_gc_inv [OF assms(1,2)] order_refl s] show ?thesis by (simp add: count_gc_def)
next
  case False
  then have "count_take c now k = (ok, c')" using assms(3) by (simp add: count_allow_take)
  from count_take_inv [OF assms(1,2) this] show ?thesis .
qed

definition allowed_times :: "string \<Rightarrow> (time \<times> string) list \<Rightarrow> bool list \<Rightarrow> time list" where
  "allowed_times key es oks = map (fst \<circ> fst) (filter (\<lambda>((t, k), ok). k = key \<and> ok) (zip es oks))"

lemma count_run_inv:
  "count_inv c key A t0 \<Longrightarrow> run_calls count_allow c es = (oks, c') \<Longrightarrow> sorted (t0 # map fst es) \<Longrightarrow>
   \<exists>t1. count_inv c' key (A @ allowed_times key es oks) t1 \<and> ct_window c' = ct_window c \<and> ct_max c' = ct_max c"
proof (induction es arbitrary: c A t0 oks)
  case Nil
  then show ?case by (auto simp: allowed_times_def)
next
  case (Cons e es)
  obtain t k where e: "e = (t, k)" by (cases e)
  obtain ok c1 where st: "count_allow c t k = (ok, c1)" by fastforce
  obtain oks' where r: "run_calls count_allow c1 es = (oks', c')" and oks: "oks = ok # oks'"
    using Cons.prems(2) e st by (auto split: prod.splits)
  have t: "t0 \<le> t" and so: "sorted (t # map fst es)" using Cons.prems(3) e by auto
  note i1 = count_allow_inv [OF Cons.prems(1) t st]
  have "A @ allowed_times key (e # es) oks =
    (A @ (if k = key \<and> ok then [t] else [])) @ allowed_times key es oks'"
    by (simp add: allowed_times_def e oks)
  then show ?case using Cons.IH [OF conjunct1 [OF i1] r so] i1 by auto
qed

section \<open>The concurrency cap\<close>

definition live :: "(string \<times> bool) list \<Rightarrow> string \<Rightarrow> int" where
  "live hs key = int (length (filter (\<lambda>(k, d). k = key \<and> \<not> d) hs))"

definition conc_inv :: "conc_state \<Rightarrow> bool" where
  "conc_inv s \<longleftrightarrow> 1 \<le> cc_max (fst s) \<and> (\<forall>k. conc_cur (fst s) k = live (snd s) k \<and> live (snd s) k \<le> cc_max (fst s)) \<and>
     (\<forall>k n. mget (cc_cur (fst s)) k = Some n \<longrightarrow> 1 \<le> n)"

lemma conc_cur_mput [simp]: "conc_cur (c\<lparr>cc_cur := mput k n m\<rparr>) k' = (if k = k' then n else conc_cur (c\<lparr>cc_cur := m\<rparr>) k')"
  by (simp add: conc_cur_def)

lemma conc_cur_mdel [simp]: "conc_cur (c\<lparr>cc_cur := mdel k m\<rparr>) k' = (if k = k' then 0 else conc_cur (c\<lparr>cc_cur := m\<rparr>) k')"
  by (simp add: conc_cur_def)

lemma live_done: "i < length hs \<Longrightarrow> hs ! i = (key, False) \<Longrightarrow>
   live (hs[i := (key, True)]) k = live hs k - (if k = key then 1 else 0) \<and> (k = key \<longrightarrow> 1 \<le> live hs k)"
proof (induction hs arbitrary: i)
  case (Cons h hs)
  then show ?case by (cases i) (auto simp: live_def split: if_splits)
qed simp

lemma conc_step_inv: "conc_step s s' \<Longrightarrow> conc_inv s \<Longrightarrow> conc_inv s' \<and> cc_max (fst s') = cc_max (fst s)"
proof (induction rule: conc_step.induct)
  case (acquired c key c' hs)
  then have "c' = c\<lparr>cc_cur := mput key (conc_cur c key + 1) (cc_cur c)\<rparr>" "conc_cur c key < cc_max c"
    by (auto simp: conc_acquire_def split: if_splits)
  moreover have "live (hs @ [(key, False)]) k = live hs k + (if k = key then 1 else 0)" for k
    by (simp add: live_def)
  moreover have "0 \<le> live hs k" for k by (simp add: live_def)
  ultimately show ?case using acquired(2) by (auto simp: conc_inv_def)
next
  case (released i hs key d c c' d')
  show ?case
  proof (cases d)
    case True
    then have "c' = c" "d' = True" using released by (simp_all add: conc_release_def)
    moreover have "hs[i := (key, True)] = hs" using released True by (metis list_update_id)
    ultimately show ?thesis using released by simp
  next
    case False
    then have c: "c' = conc_release_body c key" "d' = True" using released by (auto simp: conc_release_def)
    have h: "hs ! i = (key, False)" using released False by simp
    note l = live_done [OF released(1) h]
    have "live hs key \<le> cc_max c" using released(4) by (simp add: conc_inv_def)
    then have "live hs key - 1 \<le> cc_max c" by linarith
    then show ?thesis
      using released(4) l unfolding c conc_inv_def
      by (auto simp: conc_release_body_def Let_def)
  qed
qed auto

lemma conc_reachable_inv:
  "conc_step\<^sup>*\<^sup>* (new_conc mx, []) s \<Longrightarrow> conc_inv s \<and> cc_max (fst s) = max mx 1"
proof (induction rule: rtranclp_induct)
  case base
  then show ?case by (auto simp: conc_inv_def new_conc_def conc_cur_def live_def)
next
  case (step s s')
  then show ?case using conc_step_inv [OF step(2)] by simp
qed

section \<open>Properties\<close>



text \<open>
  The window counter never lets more than its maximum through in any closed window of its size:
  starting empty, over any run at non-decreasing times, at most \<open>max\<close> granted events of a key have
  times between \<open>u - window\<close> and \<open>u\<close>, for every instant \<open>u\<close>.
\<close>

theorem count_window_cap:
  assumes "0 \<le> window" and "window < max_int64" and "run_calls count_allow (new_count mx window) es = (oks, c')"
    and "sorted (map fst es)"
  shows "length (in_window window u (allowed_times key es oks)) \<le> nat mx"
proof (cases es)
  case Nil
  then show ?thesis by (simp add: allowed_times_def in_window_def)
next
  case (Cons e es')
  have i: "count_inv (new_count mx window) key [] (fst e)"
    using assms by (simp add: count_inv_def new_count_def count_evs_def in_window_def)
  have s: "sorted (fst e # map fst es)" using assms(4) Cons by auto
  from count_run_inv [OF i assms(3) s] show ?thesis
    by (auto simp: count_inv_def new_count_def)
qed

theorem count_window_cap_witness:
  "length (in_window 10 9 (allowed_times ''k'' [(0, ''k''), (5, ''k''), (11, ''k'')] [True, False, True])) \<le> 1"
proof -
  let ?es = "[(0, ''k''), (5, ''k''), (11, ''k'')]"
  obtain c' where r: "run_calls count_allow (new_count 1 10) ?es = ([True, False, True], c')"
    by (simp add: count_allow_def new_count_def Let_def max_buckets_def mput_def time_sub_def
      min_int64_def max_int64_def)
  have "(10::int) < max_int64" by (simp add: max_int64_def)
  from count_window_cap [OF _ this r, of 9 "''k''"] show ?thesis by simp
qed

text \<open>
  C6. The concurrency cap holds for any interleaving of acquisitions and releases: the counter of a key
  is the number of its release functions that have not run, never exceeds the cap, and calling a
  release function again changes nothing; a key without holders has no entry.
\<close>

theorem conc_cap:
  assumes "conc_step\<^sup>*\<^sup>* (new_conc mx, []) (c, hs)"
  shows "conc_cur c key = live hs key \<and> live hs key \<le> max mx 1 \<and> (live hs key = 0 \<longrightarrow> mget (cc_cur c) key = None)"
proof -
  note i = conc_reachable_inv [OF assms]
  have "mget (cc_cur c) key = None" if "live hs key = 0"
  proof (rule ccontr)
    assume "mget (cc_cur c) key \<noteq> None"
    then obtain n where n: "mget (cc_cur c) key = Some n" by blast
    then have "1 \<le> n" using i by (simp add: conc_inv_def)
    moreover have "conc_cur c key = n" using n by (simp add: conc_cur_def)
    moreover have "conc_cur c key = 0" using i that by (simp add: conc_inv_def)
    ultimately show False by simp
  qed
  moreover have "conc_cur c key = live hs key" using i by (simp add: conc_inv_def)
  moreover have "live hs key \<le> cc_max c" using i unfolding conc_inv_def by fastforce
  moreover have "cc_max c = max mx 1" using i by simp
  ultimately show ?thesis by simp
qed

theorem conc_cap_witness:
  "\<exists>c. conc_step\<^sup>*\<^sup>* (new_conc 1, []) (c, [(''t'', False)]) \<and> conc_acquire c ''t'' = None \<and> conc_cur c ''t'' = 1"
proof -
  let ?c = "new_conc 1\<lparr>cc_cur := mput ''t'' 1 []\<rparr>"
  have "conc_acquire (new_conc 1) ''t'' = Some ?c"
    by (simp add: conc_acquire_def new_conc_def conc_cur_def)
  from conc_step.acquired [OF this, of "[]"] have s: "conc_step\<^sup>*\<^sup>* (new_conc 1, []) (?c, [(''t'', False)])"
    by simp
  have "conc_acquire ?c ''t'' = None" by (simp add: conc_acquire_def new_conc_def conc_cur_def)
  moreover have "live [(''t'', False)] ''t'' = 1" by (simp add: live_def)
  ultimately show ?thesis using conc_cap [OF s, of "''t''"] s by auto
qed

end
