(* ===== verification/Auth.thy ===== *)
theory Auth
  imports Sha256 Dldw1 RateLimit
begin

text \<open>
  \<^verbatim>\<open>internal/server/auth\<close>: device tokens and the replay protection of tunnel nonces. The two maps of the
  store hold pointers to shared records, so the records live in a heap (a list, the address is the
  index) and the maps hold addresses. The file holds the saved records; \<open>io\<close> says whether a write
  and rename succeeds. Every operation is one critical section; \<open>Refresh\<close> is two, as in the code.
\<close>

section \<open>Records and the store\<close>

datatype auth_error = Invalid_Token | Revoked | Expired | Save_Failed

record trec =
  tr_id :: string
  tr_client :: string
  tr_hash :: string
  tr_created :: time
  tr_expires :: time
  tr_revoked :: time
  tr_last_seen :: time

definition trec_active :: "trec \<Rightarrow> time \<Rightarrow> bool" where
  "trec_active r now \<longleftrightarrow> time_is_zero (tr_revoked r) \<and> (time_is_zero (tr_expires r) \<or> now < tr_expires r)"

definition hash_token :: "string \<Rightarrow> string" where
  "hash_token tok = bytes_hex (sha256 (str_bytes tok))"

record tstore =
  ts_path :: string
  ts_heap :: "trec list"
  ts_records :: "(string, nat) gomap"
  ts_by_hash :: "(string, nat) gomap"
  ts_ttl :: duration
  ts_save_back :: bool
  ts_disk :: "trec list option"

definition empty_tstore :: "string \<Rightarrow> duration \<Rightarrow> tstore" where
  "empty_tstore path ttl =
     \<lparr>ts_path = path, ts_heap = [], ts_records = [], ts_by_hash = [], ts_ttl = ttl,
      ts_save_back = False, ts_disk = None\<rparr>"

definition load_rec :: "tstore \<Rightarrow> trec \<Rightarrow> tstore" where
  "load_rec s r =
     s\<lparr>ts_heap := ts_heap s @ [r],
       ts_records := mput (tr_id r) (length (ts_heap s)) (ts_records s),
       ts_by_hash := mput (tr_hash r) (length (ts_heap s)) (ts_by_hash s)\<rparr>"

text \<open>What reading the token file gives.\<close>

datatype token_file = Tokens "trec list" | No_Token_File | Token_Read_Error | Bad_Json

definition new_tstore :: "string \<Rightarrow> duration \<Rightarrow> bool \<Rightarrow> token_file \<Rightarrow> tstore option" where
  "new_tstore path ttl mkdir_ok f =
     (let s = empty_tstore path ttl in
      if path = [] then Some s
      else if \<not> mkdir_ok then Some s
      else case f of
        No_Token_File \<Rightarrow> Some s
      | Token_Read_Error \<Rightarrow> None
      | Bad_Json \<Rightarrow> None
      | Tokens recs \<Rightarrow> Some ((foldl load_rec s recs)\<lparr>ts_disk := Some recs\<rparr>))"

text \<open>\<open>saveLocked\<close> writes the records in the order the run-time visits the map; None is the nil error.\<close>

definition save_locked :: "bool \<Rightarrow> tstore \<Rightarrow> auth_error option \<times> tstore" where
  "save_locked io s =
     (if ts_path s = [] then (None, s)
      else if io then (None, s\<lparr>ts_disk := Some (map (\<lambda>(k, a). ts_heap s ! a) (ts_records s))\<rparr>)
      else (Some Save_Failed, s))"

text \<open>\<open>Register\<close>: the client id, token and record id drawn, and the clock.\<close>

definition register ::
    "bool \<Rightarrow> (nat \<Rightarrow> byte list option) \<Rightarrow> (nat \<Rightarrow> byte list option) \<Rightarrow> (nat \<Rightarrow> byte list option) \<Rightarrow> time \<Rightarrow>
     tstore \<Rightarrow> string \<Rightarrow> (nat \<times> string \<times> auth_error option) \<times> tstore" where
  "register io rc rt ri now s client0 =
     (let client = (if client0 = [] then new_client_id rc else client0);
          tok = new_token rt;
          r = \<lparr>tr_id = new_token_id ri, tr_client = client, tr_hash = hash_token tok, tr_created = now,
               tr_expires = (if 0 < ts_ttl s then now + ts_ttl s else zero_time),
               tr_revoked = zero_time, tr_last_seen = zero_time\<rparr>;
          (e, s') = save_locked io (load_rec s r)
      in ((length (ts_heap s), tok, e), s'))"

text \<open>
  \<open>Validate\<close> reads the clock twice: for the expiry and for the last-seen stamp. The result is the
  address of the record, if any, and the error, if any.
\<close>

definition validate ::
    "bool \<Rightarrow> time \<Rightarrow> time \<Rightarrow> tstore \<Rightarrow> string \<Rightarrow> (nat option \<times> auth_error option) \<times> tstore" where
  "validate io now now' s token =
     (if token = [] then ((None, Some Invalid_Token), s)
      else case mget (ts_by_hash s) (hash_token token) of
        None \<Rightarrow> ((None, Some Invalid_Token), s)
      | Some a \<Rightarrow>
          (let r = ts_heap s ! a in
           if \<not> time_is_zero (tr_revoked r) then ((Some a, Some Revoked), s)
           else if \<not> time_is_zero (tr_expires r) \<and> tr_expires r < now then ((Some a, Some Expired), s)
           else
             (let s1 = s\<lparr>ts_heap := (ts_heap s)[a := r\<lparr>tr_last_seen := now'\<rparr>]\<rparr>;
                  (e, s2) = (if ts_save_back s1 then save_locked io s1 else (None, s1))
              in ((Some a, e), s2))))"

text \<open>The second critical section of \<open>Refresh\<close>, on the record at address \<open>a\<close>.\<close>

definition refresh_commit :: "bool \<Rightarrow> time \<Rightarrow> tstore \<Rightarrow> nat \<Rightarrow> string \<Rightarrow> auth_error option \<times> tstore" where
  "refresh_commit io now s a newtok =
     (let r = ts_heap s ! a;
          r' = r\<lparr>tr_hash := hash_token newtok,
                 tr_expires := (if 0 < ts_ttl s then now + ts_ttl s else zero_time)\<rparr>
      in save_locked io
           (s\<lparr>ts_heap := (ts_heap s)[a := r'],
              ts_by_hash := mput (hash_token newtok) a (mdel (tr_hash r) (ts_by_hash s))\<rparr>))"

definition refresh ::
    "bool \<Rightarrow> bool \<Rightarrow> (nat \<Rightarrow> byte list option) \<Rightarrow> time \<Rightarrow> time \<Rightarrow> time \<Rightarrow> tstore \<Rightarrow> string \<Rightarrow>
     (nat option \<times> string \<times> auth_error option) \<times> tstore" where
  "refresh io io' rt now now' now'' s token =
     (case validate io now now' s token of
        ((_, Some e), s1) \<Rightarrow> ((None, [], Some e), s1)
      | ((None, None), s1) \<Rightarrow> ((None, [], None), s1)
      | ((Some a, None), s1) \<Rightarrow>
          (let newtok = new_token rt; (e, s2) = refresh_commit io' now'' s1 a newtok
           in ((Some a, newtok, e), s2)))"

definition revoke :: "bool \<Rightarrow> time \<Rightarrow> tstore \<Rightarrow> string \<Rightarrow> auth_error option \<times> tstore" where
  "revoke io now s token =
     (case mget (ts_by_hash s) (hash_token token) of
        None \<Rightarrow> (Some Invalid_Token, s)
      | Some a \<Rightarrow> save_locked io (s\<lparr>ts_heap := (ts_heap s)[a := (ts_heap s ! a)\<lparr>tr_revoked := now\<rparr>]\<rparr>))"

definition tstore_count :: "tstore \<Rightarrow> nat" where
  "tstore_count s = length (ts_records s)"

definition keep_dirty_persistence :: "tstore \<Rightarrow> tstore" where
  "keep_dirty_persistence s = s\<lparr>ts_save_back := True\<rparr>"

section \<open>Nonces\<close>

record nonce_store =
  ns_ttl :: duration
  ns_seen :: "(string, time) gomap"
  ns_max :: nat

definition new_nonce_store :: "duration \<Rightarrow> nonce_store" where
  "new_nonce_store ttl =
     \<lparr>ns_ttl = (if ttl \<le> 0 then 10 * minute else ttl), ns_seen = [], ns_max = 2 ^ 20\<rparr>"

definition nonce_key :: "string \<Rightarrow> string \<Rightarrow> string" where
  "nonce_key tid nonce = tid @ ''/'' @ nonce"

definition nonce_evict :: "nonce_store \<Rightarrow> time \<Rightarrow> nonce_store" where
  "nonce_evict n now =
     (if ns_max n \<le> length (ns_seen n) then
        (let seen = mkeep (\<lambda>k t. \<not> ns_ttl n < time_sub now t) (ns_seen n) in
         n\<lparr>ns_seen := (if ns_max n \<le> length seen then [] else seen)\<rparr>)
      else n)"

definition check_and_add :: "nonce_store \<Rightarrow> time \<Rightarrow> string \<Rightarrow> bool \<times> nonce_store" where
  "check_and_add n0 now key =
     (let n = nonce_evict n0 now in
      if mget (ns_seen n) key \<noteq> None then (False, n)
      else (True, n\<lparr>ns_seen := mput key now (ns_seen n)\<rparr>))"

section \<open>The Authorization header\<close>

fun first_bearer :: "string list \<Rightarrow> string \<Rightarrow> string" where
  "first_bearer [] h = []"
| "first_bearer (p # ps) h = (if has_prefix h p then trim_space (trim_prefix h p) else first_bearer ps h)"

definition bearer_token :: "string \<Rightarrow> string" where
  "bearer_token header = first_bearer [''Bearer '', ''bearer '', ''token ''] (trim_space header)"

section \<open>The invariant of the store\<close>

text \<open>Every indexed address is a record of the heap whose hash is the key.\<close>

definition tstore_inv :: "tstore \<Rightarrow> bool" where
  "tstore_inv s \<longleftrightarrow>
     (\<forall>h a. mget (ts_by_hash s) h = Some a \<longrightarrow> a < length (ts_heap s) \<and> tr_hash (ts_heap s ! a) = h) \<and>
     (\<forall>i a. mget (ts_records s) i = Some a \<longrightarrow> a < length (ts_heap s) \<and> tr_id (ts_heap s ! a) = i)"

inductive auth_step :: "tstore \<Rightarrow> tstore \<Rightarrow> bool" where
  registers: "register io rc rt ri now s client = (r, s') \<Longrightarrow> auth_step s s'"
| validates: "validate io now now' s token = (r, s') \<Longrightarrow> auth_step s s'"
| commits: "a < length (ts_heap s) \<Longrightarrow> refresh_commit io now s a newtok = (e, s') \<Longrightarrow> auth_step s s'"
| revokes: "now \<noteq> zero_time \<Longrightarrow> revoke io now s token = (e, s') \<Longrightarrow> auth_step s s'"

inductive_cases auth_stepE: "auth_step s s'"

lemma save_locked_fields:
  assumes "save_locked io s = (e, s')"
  shows "ts_heap s' = ts_heap s" "ts_records s' = ts_records s" "ts_by_hash s' = ts_by_hash s"
    "ts_ttl s' = ts_ttl s" "ts_path s' = ts_path s" "ts_save_back s' = ts_save_back s"
  using assms by (auto simp: save_locked_def split: if_splits)

lemma tstore_inv_fields:
  "ts_heap s' = ts_heap s \<Longrightarrow> ts_records s' = ts_records s \<Longrightarrow> ts_by_hash s' = ts_by_hash s \<Longrightarrow>
   tstore_inv s' = tstore_inv s"
  by (simp add: tstore_inv_def)

lemma save_locked_inv: "save_locked io s = (e, s') \<Longrightarrow> tstore_inv s' = tstore_inv s"
  by (rule tstore_inv_fields) (simp_all add: save_locked_fields)

lemma load_rec_inv: "tstore_inv s \<Longrightarrow> tstore_inv (load_rec s r)"
  by (auto simp: tstore_inv_def load_rec_def nth_append less_Suc_eq split: if_splits)

lemma heap_update_inv:
  assumes "tstore_inv s" and "tr_hash r = tr_hash (ts_heap s ! a)" and "tr_id r = tr_id (ts_heap s ! a)"
  shows "tstore_inv (s\<lparr>ts_heap := (ts_heap s)[a := r]\<rparr>)"
  using assms by (auto simp: tstore_inv_def nth_upd)

lemma register_inv: "register io rc rt ri now s client = (r, s') \<Longrightarrow> tstore_inv s \<Longrightarrow> tstore_inv s'"
  by (auto simp: register_def Let_def load_rec_inv save_locked_inv split: prod.splits)

lemma validate_inv: "validate io now now' s token = (r, s') \<Longrightarrow> tstore_inv s \<Longrightarrow> tstore_inv s'"
  by (auto simp: validate_def Let_def save_locked_inv heap_update_inv
      split: prod.splits option.splits if_splits)

lemma refresh_commit_inv:
  assumes "refresh_commit io now s a newtok = (e, s')" and "tstore_inv s" and "a < length (ts_heap s)"
  shows "tstore_inv s'"
proof -
  let ?s = "s\<lparr>ts_heap := (ts_heap s)[a := (ts_heap s ! a)\<lparr>tr_hash := hash_token newtok,
       tr_expires := (if 0 < ts_ttl s then now + ts_ttl s else zero_time)\<rparr>],
       ts_by_hash := mput (hash_token newtok) a (mdel (tr_hash (ts_heap s ! a)) (ts_by_hash s))\<rparr>"
  have "tstore_inv ?s"
    using assms(2,3) by (auto simp: tstore_inv_def nth_upd)
  moreover have "save_locked io ?s = (e, s')"
    using assms(1) by (simp add: refresh_commit_def Let_def)
  ultimately show ?thesis using save_locked_inv by simp
qed

lemma revoke_inv: "revoke io now s token = (e, s') \<Longrightarrow> tstore_inv s \<Longrightarrow> tstore_inv s'"
  by (auto simp: revoke_def save_locked_inv heap_update_inv split: option.splits)

lemma auth_step_inv: "auth_step s s' \<Longrightarrow> tstore_inv s \<Longrightarrow> tstore_inv s'"
  by (erule auth_stepE) (auto dest: register_inv validate_inv refresh_commit_inv revoke_inv)

lemma auth_steps_inv: "auth_step\<^sup>*\<^sup>* s s' \<Longrightarrow> tstore_inv s \<Longrightarrow> tstore_inv s'"
  by (induction rule: rtranclp_induct) (auto dest: auth_step_inv)

subsection \<open>Revocation is for good\<close>

definition is_revoked :: "tstore \<Rightarrow> nat \<Rightarrow> bool" where
  "is_revoked s a \<longleftrightarrow> a < length (ts_heap s) \<and> \<not> time_is_zero (tr_revoked (ts_heap s ! a))"

lemma register_revoked: "register io rc rt ri now s client = (r, s') \<Longrightarrow> is_revoked s a \<Longrightarrow> is_revoked s' a"
  by (auto simp: register_def Let_def is_revoked_def load_rec_def nth_append dest!: save_locked_fields(1) split: prod.splits)

lemma validate_revoked: "validate io now now' s token = (r, s') \<Longrightarrow> is_revoked s a \<Longrightarrow> is_revoked s' a"
  by (auto simp: validate_def Let_def is_revoked_def nth_upd dest!: save_locked_fields(1)
      split: prod.splits option.splits if_splits)

lemma refresh_commit_revoked:
  "refresh_commit io now s b newtok = (e, s') \<Longrightarrow> is_revoked s a \<Longrightarrow> is_revoked s' a"
  by (auto simp: refresh_commit_def Let_def is_revoked_def nth_upd dest!: save_locked_fields(1) split: if_splits)

lemma revoke_revoked:
  "now \<noteq> zero_time \<Longrightarrow> revoke io now s token = (e, s') \<Longrightarrow> is_revoked s a \<Longrightarrow> is_revoked s' a"
  by (auto simp: revoke_def is_revoked_def nth_upd dest!: save_locked_fields(1) split: option.splits if_splits)

lemma auth_steps_revoked: "auth_step\<^sup>*\<^sup>* s s' \<Longrightarrow> is_revoked s a \<Longrightarrow> is_revoked s' a"
proof (induction rule: rtranclp_induct)
  case (step y z)
  from step(2) show ?case
    by (rule auth_stepE)
      (use step in \<open>auto dest: register_revoked validate_revoked refresh_commit_revoked revoke_revoked\<close>)
qed

lemma validate_ok_iff:
  "(\<exists>s'. validate io now now' s token = ((Some a, None), s')) \<longleftrightarrow>
     token \<noteq> [] \<and> mget (ts_by_hash s) (hash_token token) = Some a \<and>
     time_is_zero (tr_revoked (ts_heap s ! a)) \<and>
     (time_is_zero (tr_expires (ts_heap s ! a)) \<or> now \<le> tr_expires (ts_heap s ! a)) \<and>
     (ts_save_back s \<longrightarrow> ts_path s = [] \<or> io)"
  by (auto simp: validate_def Let_def save_locked_def split: option.splits if_splits)

subsection \<open>Registering, refreshing\<close>

lemma register_index:
  assumes "register io rc rt ri now s client = ((a, tok, e), s')"
  shows "mget (ts_by_hash s') (hash_token tok) = Some a" "a = length (ts_heap s)" "tok = new_token rt"
    "tr_revoked (ts_heap s' ! a) = zero_time"
    "tr_expires (ts_heap s' ! a) = (if 0 < ts_ttl s then now + ts_ttl s else zero_time)"
    "ts_save_back s' = ts_save_back s" "ts_path s' = ts_path s"
proof -
  let ?r = "\<lparr>tr_id = new_token_id ri, tr_client = (if client = [] then new_client_id rc else client),
    tr_hash = hash_token (new_token rt), tr_created = now,
    tr_expires = (if 0 < ts_ttl s then now + ts_ttl s else zero_time),
    tr_revoked = zero_time, tr_last_seen = zero_time\<rparr>"
  obtain e0 s0 where s0: "save_locked io (load_rec s ?r) = (e0, s0)" by (cases "save_locked io (load_rec s ?r)")
  then have "register io rc rt ri now s client = ((length (ts_heap s), new_token rt, e0), s0)"
    unfolding register_def Let_def by simp
  then have r: "save_locked io (load_rec s ?r) = (e, s')" and a: "a = length (ts_heap s)" "tok = new_token rt"
    using s0 assms by auto
  note f = save_locked_fields [OF r(1)]
  show "mget (ts_by_hash s') (hash_token tok) = Some a" "a = length (ts_heap s)" "tok = new_token rt"
    "tr_revoked (ts_heap s' ! a) = zero_time"
    "tr_expires (ts_heap s' ! a) = (if 0 < ts_ttl s then now + ts_ttl s else zero_time)"
    "ts_save_back s' = ts_save_back s" "ts_path s' = ts_path s"
    using r a f by (simp_all add: load_rec_def nth_append)
qed

lemma new_token_nonempty: "new_token rt \<noteq> []"
  by (simp add: new_token_def)

lemma refresh_commit_index:
  assumes "refresh_commit io now s a newtok = (e, s')" and "tstore_inv s" and "a < length (ts_heap s)"
  shows "mget (ts_by_hash s') h = Some a \<longleftrightarrow> h = hash_token newtok"
    and "tr_revoked (ts_heap s' ! a) = tr_revoked (ts_heap s ! a)"
    and "tr_expires (ts_heap s' ! a) = (if 0 < ts_ttl s then now + ts_ttl s else zero_time)"
proof -
  note f = save_locked_fields [OF assms(1) [unfolded refresh_commit_def Let_def]]
  have "mget (ts_by_hash s') h = (if hash_token newtok = h then Some a
      else if tr_hash (ts_heap s ! a) = h then None else mget (ts_by_hash s) h)"
    using f(3) by simp
  then show "mget (ts_by_hash s') h = Some a \<longleftrightarrow> h = hash_token newtok"
    using assms(2) by (auto simp: tstore_inv_def)
  show "tr_revoked (ts_heap s' ! a) = tr_revoked (ts_heap s ! a)"
    "tr_expires (ts_heap s' ! a) = (if 0 < ts_ttl s then now + ts_ttl s else zero_time)"
    using f(1) assms(3) by (simp_all add: nth_upd)
qed

section \<open>Replay protection as an interface\<close>

text \<open>A guard that, while it has room, accepts a key exactly once.\<close>

locale replay_guard =
  fixes check :: "'s \<Rightarrow> time \<Rightarrow> string \<Rightarrow> bool \<times> 's"
    and knows :: "'s \<Rightarrow> string \<Rightarrow> bool"
    and room :: "'s \<Rightarrow> nat"
  assumes accepts_new: "0 < room s \<Longrightarrow> check s now k = (ok, s') \<Longrightarrow> ok \<longleftrightarrow> \<not> knows s k"
    and learns: "0 < room s \<Longrightarrow> check s now k = (ok, s') \<Longrightarrow> knows s' k' \<longleftrightarrow> k' = k \<or> knows s k'"
    and uses_room: "0 < room s \<Longrightarrow> check s now k = (ok, s') \<Longrightarrow> room s \<le> Suc (room s')"
begin

lemma at_most_once:
  "length es \<le> room s \<Longrightarrow> run_calls check s es = (oks, s') \<Longrightarrow>
   granted key es oks \<le> (if knows s key then 0 else 1)"
proof (induction es arbitrary: s oks)
  case Nil
  then show ?case by (simp add: granted_def)
next
  case (Cons e es)
  obtain t k where e: "e = (t, k)" by (cases e)
  obtain ok s1 where st: "check s t k = (ok, s1)" by fastforce
  obtain oks' where r: "run_calls check s1 es = (oks', s')" and oks: "oks = ok # oks'"
    using Cons.prems(2) e st by (auto split: prod.splits)
  have room: "0 < room s" using Cons.prems(1) by simp
  have "length es \<le> room s1" using uses_room [OF room st] Cons.prems(1) by simp
  note ih = Cons.IH [OF this r]
  have "granted key (e # es) oks = (if k = key \<and> ok then 1 else 0) + granted key es oks'"
    by (simp add: granted_def e oks)
  then show ?case using ih accepts_new [OF room st] learns [OF room st, of key] by (auto split: if_splits)
qed

end

definition nonce_room :: "nonce_store \<Rightarrow> nat" where
  "nonce_room n = ns_max n - length (ns_seen n)"

lemma nonce_evict_room: "0 < nonce_room n \<Longrightarrow> nonce_evict n now = n"
  by (simp add: nonce_evict_def nonce_room_def)

interpretation nonces: replay_guard check_and_add "\<lambda>n k. mget (ns_seen n) k \<noteq> None" nonce_room
proof
  fix n n' now k ok k'
  assume r: "0 < nonce_room n" and c: "check_and_add n now k = (ok, n')"
  note d = c [unfolded check_and_add_def nonce_evict_room [OF r] Let_def]
  show "ok \<longleftrightarrow> \<not> mget (ns_seen n) k \<noteq> None" using d by (auto split: if_splits)
  show "mget (ns_seen n') k' \<noteq> None \<longleftrightarrow> k' = k \<or> mget (ns_seen n) k' \<noteq> None"
    using d by (auto split: if_splits)
  show "nonce_room n \<le> Suc (nonce_room n')"
    using d by (auto simp: nonce_room_def length_mput split: if_splits)
qed

lemma nonce_key_inj:
  assumes "CHR ''/'' \<notin> set n" and "CHR ''/'' \<notin> set n'" and "nonce_key t n = nonce_key t' n'"
  shows "t = t' \<and> n = n'"
proof -
  have "last_index_byte (nonce_key t n) (CHR ''/'') = Some (length t)"
    "last_index_byte (nonce_key t' n') (CHR ''/'') = Some (length t')"
    using assms(1,2) by (simp_all add: nonce_key_def last_index_byte_append)
  then have "length t = length t'" using assms(3) by simp
  then show ?thesis using assms(3) by (simp add: nonce_key_def)
qed

section \<open>Properties\<close>

text \<open>
  C7. No replay: while the store has room for the calls of a run, a (token id, nonce) pair is accepted
  at most once in the run, and never when it is already stored, whatever time passes.
\<close>

theorem nonce_accepted_once:
  assumes "length es \<le> ns_max n - length (ns_seen n)" and "run_calls check_and_add n es = (oks, n')"
  shows "granted (nonce_key tid nonce) es oks \<le> (if mget (ns_seen n) (nonce_key tid nonce) = None then 1 else 0)"
  using nonces.at_most_once [of es n oks n' "nonce_key tid nonce"] assms by (simp add: nonce_room_def split: if_splits)

theorem nonce_accepted_once_witness:
  "granted (nonce_key ''t'' ''ab'') [(0, ''t/ab''), (5, ''t/cd''), (9, ''t/ab'')] [True, True, False] \<le> 1"
proof -
  let ?es = "[(0, ''t/ab''), (5, ''t/cd''), (9, ''t/ab'')]" and ?n = "\<lparr>ns_ttl = 1, ns_seen = [], ns_max = 3\<rparr>"
  have l: "length ?es \<le> ns_max ?n - length (ns_seen ?n)" by simp
  obtain n' where r: "run_calls check_and_add ?n ?es = ([True, True, False], n')"
    by (simp add: check_and_add_def nonce_evict_def mput_def)
  from nonce_accepted_once [OF l r, of "''t''" "''ab''"] show ?thesis by simp
qed

text \<open>
  When the store is full, a call forgets a stored nonce only if it is older than the time-to-live,
  or if a whole store of nonces is younger: then everything is forgotten, and a nonce used moments ago
  is accepted again.
\<close>

theorem nonce_forgotten:
  assumes "mkeys_ok (ns_seen n)" and "mget (ns_seen n) key = Some t" and "check_and_add n now key' = (ok, n')"
  shows "(mget (ns_seen n') key = None \<or> (key' = key \<and> ok)) \<longleftrightarrow>
    ns_max n \<le> length (ns_seen n) \<and>
    (ns_ttl n < time_sub now t \<or> ns_max n \<le> length (mkeep (\<lambda>k t. \<not> ns_ttl n < time_sub now t) (ns_seen n))) \<and>
    (key' = key \<or> mget (ns_seen n') key = None)"
  using assms
  by (auto simp: check_and_add_def nonce_evict_def Let_def mget_mkeep split: if_splits option.splits)

theorem nonce_forgotten_witness:
  "check_and_add \<lparr>ns_ttl = 10, ns_seen = [(''a'', 0)], ns_max = 1\<rparr> 5 ''a'' =
     (True, \<lparr>ns_ttl = 10, ns_seen = [(''a'', 5)], ns_max = 1\<rparr>)"
proof -
  let ?n = "\<lparr>ns_ttl = 10, ns_seen = [(''a'', 0)], ns_max = 1\<rparr>"
  have c: "check_and_add ?n 5 ''a'' = (True, \<lparr>ns_ttl = 10, ns_seen = [(''a'', 5)], ns_max = 1\<rparr>)"
    by (simp add: check_and_add_def nonce_evict_def mkeep_def mput_def time_sub_def min_int64_def max_int64_def)
  have k: "mkeys_ok (ns_seen ?n)" "mget (ns_seen ?n) ''a'' = Some 0" by (simp_all add: mkeys_ok_def)
  show ?thesis using nonce_forgotten [OF k c] c by simp
qed

text \<open>
  A registered token validates as its record exactly until its expiry, the expiry instant included;
  without a time-to-live it does not expire.
\<close>

theorem register_then_validate:
  assumes "register io rc rt ri t s client = ((a, tok, e), s1)" and "\<not> ts_save_back s"
  shows "(\<exists>s2. validate io' now now' s1 tok = ((Some a, None), s2)) \<longleftrightarrow>
    ts_ttl s \<le> 0 \<or> t + ts_ttl s = zero_time \<or> now \<le> t + ts_ttl s"
  unfolding validate_ok_iff
  using register_index [OF assms(1)] assms(2) new_token_nonempty [of rt] by (auto simp: zero_time_def)

theorem register_then_validate_witness:
  "\<exists>a tok e s1 s2. register True (\<lambda>n. None) (\<lambda>n. None) (\<lambda>n. None) 100 (empty_tstore [] 50) ''dev'' = ((a, tok, e), s1) \<and>
     validate True 150 150 s1 tok = ((Some a, None), s2)"
proof -
  let ?s = "empty_tstore [] 50" and ?r = "\<lambda>n. None"
  obtain a tok e s1 where r: "register True ?r ?r ?r 100 ?s ''dev'' = ((a, tok, e), s1)"
    by (metis prod_cases3 prod.collapse)
  have b: "\<not> ts_save_back ?s" by (simp add: empty_tstore_def)
  have "ts_ttl ?s = 50" by (simp add: empty_tstore_def)
  then show ?thesis using register_then_validate [OF r b, of True 150 150] r by auto
qed

text \<open>
  Refreshing rotates the secret: in a store that satisfies the invariant, after the commit the
  tokens that validate as the record are exactly those with the new token's hash, so the old secret is
  dead, while a revoked record stays revoked.
\<close>

theorem refresh_rotates:
  assumes "tstore_inv s" and "a < length (ts_heap s)" and "refresh_commit io t s a newtok = (e, s1)"
    and "newtok \<noteq> []"
  shows "tstore_inv s1 \<and>
    ((\<exists>e2 s2. validate io' now now' s1 tok = ((Some a, e2), s2)) \<longleftrightarrow> tok \<noteq> [] \<and> hash_token tok = hash_token newtok) \<and>
    (is_revoked s a \<longrightarrow> is_revoked s1 a)"
proof -
  have "(\<exists>e2 s2. validate io' now now' s1 tok = ((Some a, e2), s2)) \<longleftrightarrow>
      tok \<noteq> [] \<and> mget (ts_by_hash s1) (hash_token tok) = Some a"
    by (auto simp: validate_def Let_def save_locked_def split: option.splits)
  then show ?thesis
    using refresh_commit_index(1) [OF assms(3,1,2)] refresh_commit_inv [OF assms(3,1,2)]
      refresh_commit_revoked [OF assms(3)] by blast
qed

definition sample_store :: tstore where
  "sample_store = load_rec (empty_tstore [] 0)
     \<lparr>tr_id = ''tok_1'', tr_client = ''dev'', tr_hash = hash_token ''old'', tr_created = 1,
      tr_expires = zero_time, tr_revoked = zero_time, tr_last_seen = zero_time\<rparr>"

lemma sample_store_inv: "tstore_inv sample_store" and sample_store_heap: "0 < length (ts_heap sample_store)"
proof -
  show "tstore_inv sample_store"
    unfolding sample_store_def by (rule load_rec_inv) (simp add: tstore_inv_def empty_tstore_def)
  show "0 < length (ts_heap sample_store)" by (simp add: sample_store_def load_rec_def)
qed

theorem refresh_rotates_witness:
  "\<exists>e s1 s2. refresh_commit True 5 sample_store 0 ''new'' = (e, s1) \<and> tstore_inv s1 \<and>
     (\<exists>e2. validate True 6 6 s1 ''new'' = ((Some 0, e2), s2))"
proof -
  obtain e s1 where c: "refresh_commit True 5 sample_store 0 ''new'' = (e, s1)" by fastforce
  from refresh_rotates [OF sample_store_inv sample_store_heap c, of True 6 6 "''new''"] c show ?thesis by auto
qed

text \<open>
  C8. Revocation is permanent: once a token is revoked, no sequence of registrations, validations,
  refreshes (even one that had already validated the token) and revocations lets any token validate as
  that record again; the index invariant holds throughout.
\<close>

theorem revoked_forever:
  assumes "tstore_inv s" and "mget (ts_by_hash s) (hash_token tok) = Some a" and "now \<noteq> zero_time"
    and "revoke io now s tok = (e, s1)" and "auth_step\<^sup>*\<^sup>* s1 s2"
  shows "tstore_inv s2 \<and> (\<nexists>s3. validate io' t t' s2 tok' = ((Some a, None), s3))"
proof -
  have "a < length (ts_heap s)" using assms(1,2) by (simp add: tstore_inv_def)
  then have "is_revoked s1 a"
    using assms(2-4) by (auto simp: revoke_def is_revoked_def nth_upd dest!: save_locked_fields(1))
  then have "is_revoked s2 a" by (rule auth_steps_revoked [OF assms(5)])
  moreover have "tstore_inv s2" using auth_steps_inv [OF assms(5)] revoke_inv [OF assms(4,1)] by blast
  ultimately show ?thesis unfolding validate_ok_iff by (auto simp: is_revoked_def)
qed

theorem revoked_forever_witness:
  "\<exists>e s1. revoke True 7 sample_store ''old'' = (e, s1) \<and>
     (\<nexists>s3. validate True 8 8 s1 ''old'' = ((Some 0, None), s3))"
proof -
  obtain e s1 where c: "revoke True 7 sample_store ''old'' = (e, s1)" by fastforce
  have h: "mget (ts_by_hash sample_store) (hash_token ''old'') = Some 0"
    by (simp add: sample_store_def load_rec_def empty_tstore_def)
  have z: "(7::time) \<noteq> zero_time" by (simp add: zero_time_def)
  from revoked_forever [OF sample_store_inv h z c rtranclp.rtrancl_refl, of True 8 8 "''old''"] c
  show ?thesis by blast
qed

end
