(* ===== verification/Tunnel.thy ===== *)
theory Tunnel
  imports Whitelist Ssrf Auth
begin

text \<open>
  \<^verbatim>\<open>internal/server/tunnel\<close>, the server end of the tunnel, and \<open>TunnelDial\<close> of
  \<^verbatim>\<open>internal/client/proxy/tunnelclient.go\<close>, its client end. A handler run is a function of the
  configuration, the shared state and an environment: the clock readings, the resolver at the two
  moments it is asked, the operating system's dialer and the upstream proxy. The two \<open>pump\<close>
  goroutines are a step relation on the shared byte counter.
\<close>

section \<open>Configuration and state\<close>

record tcfg =
  tc_policy :: policy
  tc_upstream :: string
  tc_mode :: string
  tc_handshake :: duration
  tc_idle :: duration
  tc_max_conns :: int
  tc_max_bytes :: int
  tc_copy_buffer :: int

definition default_policy :: policy where
  "default_policy = \<lparr>pol_ports = [], pol_block_private = True, pol_allow_loopback = False, pol_dial_timeout = 0\<rparr>"

text \<open>\<open>defaults\<close>; a nil policy is None.\<close>

definition tcfg_defaults :: "tcfg \<Rightarrow> policy option \<Rightarrow> tcfg" where
  "tcfg_defaults c pol =
     c\<lparr>tc_handshake := (if tc_handshake c \<le> 0 then 10 * second else tc_handshake c),
       tc_idle := (if tc_idle c \<le> 0 then 5 * minute else tc_idle c),
       tc_max_conns := (if tc_max_conns c \<le> 0 then 16 else tc_max_conns c),
       tc_max_bytes := (if tc_max_bytes c \<le> 0 then 256 * 2 ^ 20 else tc_max_bytes c),
       tc_copy_buffer := (if tc_copy_buffer c \<le> 0 then 32 * 1024 else tc_copy_buffer c),
       tc_policy := (case pol of None \<Rightarrow> default_policy | Some p \<Rightarrow> p)\<rparr>"

record tserver =
  sv_tokens :: tstore
  sv_nonces :: nonce_store
  sv_wl :: wl_store
  sv_conns :: conc

definition new_tserver :: "tcfg \<Rightarrow> tstore \<Rightarrow> nonce_store \<Rightarrow> wl_store \<Rightarrow> tserver" where
  "new_tserver c toks ns wl =
     \<lparr>sv_tokens = toks, sv_nonces = ns, sv_wl = wl, sv_conns = new_conc (tc_max_conns c)\<rparr>"

text \<open>A connection is known by the address of its peer, when that is a TCP address.\<close>

record tenv =
  te_io :: bool
  te_now_expiry :: time
  te_now_seen :: time
  te_now_nonce :: time
  te_lookup_check :: resolver
  te_lookup_dial :: resolver
  te_connect :: "string \<Rightarrow> string + ip option"
  te_upstream_dial :: "string \<Rightarrow> string + ip option"
  te_rnd :: "nat \<Rightarrow> byte list option"
  te_write_ok :: bool

text \<open>An audit entry: event, connection id, fields.\<close>

type_synonym audit_entry = "string \<times> string \<times> (string \<times> string) list"

datatype tunnel_end =
    Rejected string string
  | Write_Failed
  | Tunneled string string

record outcome =
  oc_end :: tunnel_end
  oc_sent :: string
  oc_audit :: "audit_entry list"
  oc_dialled :: "string list"

definition bool_text :: "bool \<Rightarrow> string" where
  "bool_text b = (if b then ''true'' else ''false'')"

fun auth_error_text :: "auth_error \<Rightarrow> string" where
  "auth_error_text Invalid_Token = ''auth: invalid token''"
| "auth_error_text Revoked = ''auth: token revoked''"
| "auth_error_text Expired = ''auth: token expired''"
| "auth_error_text Save_Failed = ''save failed''"

text \<open>\<open>reject\<close> sends an ERR line; what the handler logs after it comes with it.\<close>

definition reject :: "string \<Rightarrow> string \<Rightarrow> audit_entry list \<Rightarrow> string list \<Rightarrow> outcome" where
  "reject cd msg lg tried =
     \<lparr>oc_end = Rejected cd msg, oc_sent = err_encode \<lparr>er_code = cd, er_message = msg\<rparr>,
      oc_audit = lg, oc_dialled = tried\<rparr>"

definition ssrf_reject :: "ssrf_error \<Rightarrow> audit_entry list \<Rightarrow> outcome" where
  "ssrf_reject e lg = reject (ssrf_code_string (se_code e)) (ssrf_error_string e) lg []"

section \<open>The handler\<close>

text \<open>
  Authentication and replay: the request and the record's id, or the outcome; with the state after.
\<close>

definition tunnel_auth :: "tenv \<Rightarrow> tserver \<Rightarrow> string \<Rightarrow> (outcome + connect \<times> string) \<times> tserver" where
  "tunnel_auth env s input =
     (case read_line (max_line + 1) input of
        Inl _ \<Rightarrow> (Inl (reject ''E_PROTO'' ''handshake read failed'' [] []), s)
      | Inr (line, _) \<Rightarrow>
     (case parse_connect line of
        Inl _ \<Rightarrow> (Inl (reject ''E_PROTO'' ''malformed handshake'' [] []), s)
      | Inr req \<Rightarrow>
     (case validate (te_io env) (te_now_expiry env) (te_now_seen env) (sv_tokens s) (cn_token req) of
        ((_, Some e), toks) \<Rightarrow>
          (Inl (reject ''E_AUTH'' ''invalid token''
             [(''tunnel_auth_fail'', [], [(''client_id'', cn_client req), (''error'', auth_error_text e)])] []),
           s\<lparr>sv_tokens := toks\<rparr>)
      | ((None, None), toks) \<Rightarrow> (Inl (reject ''E_AUTH'' ''invalid token'' [] []), s\<lparr>sv_tokens := toks\<rparr>)
      | ((Some a, None), toks) \<Rightarrow>
          (let tid = tr_id (ts_heap toks ! a);
               (fresh, nonces) = check_and_add (sv_nonces s) (te_now_nonce env) (nonce_key tid (cn_nonce req));
               s' = s\<lparr>sv_tokens := toks, sv_nonces := nonces\<rparr>
           in if \<not> fresh then
                (Inl (reject ''E_REPLAY'' ''nonce already used''
                   [(''tunnel_replay'', [], [(''token_id'', tid), (''client_id'', cn_client req)])] []), s')
              else (Inr (req, tid), s')))))"

text \<open>The policy checks: the audit entries so far, or the refusal.\<close>

definition tunnel_policy :: "tcfg \<Rightarrow> tenv \<Rightarrow> tserver \<Rightarrow> connect \<Rightarrow> string \<Rightarrow> outcome + audit_entry list" where
  "tunnel_policy cfg env s req tid =
     (let listed = wl_match (wl_get (sv_wl s)) (cn_host req);
          off = (if tc_mode cfg = ''relay_all'' \<and> \<not> listed
                 then [(''tunnel_relay_offwl'', [], [(''token_id'', tid), (''host'', cn_host req), (''client_id'', cn_client req)])]
                 else [])
      in if tc_mode cfg \<noteq> ''relay_all'' \<and> \<not> listed then
           Inl (reject ''E_NOT_WHITELISTED'' ''host not in whitelist (server tunnel.mode=whitelist_only)''
             [(''tunnel_wl_deny'', [], [(''token_id'', tid), (''host'', cn_host req)])] [])
         else case check_port (tc_policy cfg) (cn_port req) of
           Some e \<Rightarrow> Inl (ssrf_reject e
             (off @ [(''tunnel_port_deny'', [], [(''token_id'', tid), (''host'', cn_host req), (''port'', itoa (cn_port req))])]))
         | None \<Rightarrow>
             if tc_upstream cfg = [] then
               (case check_host (tc_policy cfg) (te_lookup_check env) (cn_host req) of
                  Some e \<Rightarrow> Inl (ssrf_reject e
                    (off @ [(''tunnel_ssrf_deny'', [], [(''token_id'', tid), (''host'', cn_host req)])]))
                | None \<Rightarrow> Inr off)
             else Inr off)"

text \<open>
  The dial: what was dialled, and the error or the peer as the reply reports it. Through an upstream
  proxy the only dialled address is the proxy's.
\<close>

definition tunnel_dial_target :: "tcfg \<Rightarrow> tenv \<Rightarrow> connect \<Rightarrow> string list \<times> (dial_error + string)" where
  "tunnel_dial_target cfg env req =
     (let addr = join_host_port (cn_host req) (itoa (cn_port req)) in
      if tc_upstream cfg \<noteq> [] then
        (case te_upstream_dial env addr of
           Inl e \<Rightarrow> ([], Inl (Dial_Failed addr e))
         | Inr peer \<Rightarrow>
             ([], Inr (case peer of
                 None \<Rightarrow> ''-''
               | Some a \<Rightarrow> if \<not> is_loopback a then ip_string a else ''-'')))
      else
        (case dial_context (tc_policy cfg) (te_lookup_dial env) (te_connect env) ''tcp'' addr of
           (tried, Inl e) \<Rightarrow> (tried, Inl e)
         | (tried, Inr peer) \<Rightarrow> (tried, Inr (case peer of None \<Rightarrow> ''-'' | Some a \<Rightarrow> ip_string a))))"

fun dial_error_text :: "dial_error \<Rightarrow> string" where
  "dial_error_text (Policy_Refused e) = ssrf_error_string e"
| "dial_error_text (Dial_Failed addr e) = ''dial '' @ addr @ '': '' @ e"

text \<open>
  \<open>handle\<close> up to the copy loops. The second component is the key whose slot the session holds, if it
  holds one when the copy loops start; a slot taken by a run that ends earlier is already released.
\<close>

definition handle :: "tcfg \<Rightarrow> tenv \<Rightarrow> tserver \<Rightarrow> string \<Rightarrow> outcome \<times> string option \<times> tserver" where
  "handle cfg env s input =
     (case tunnel_auth env s input of
        (Inl oc, s1) \<Rightarrow> (oc, None, s1)
      | (Inr (req, tid), s1) \<Rightarrow>
     (case tunnel_policy cfg env s1 req tid of
        Inl oc \<Rightarrow> (oc, None, s1)
      | Inr lg \<Rightarrow>
     (case conc_acquire (sv_conns s1) tid of
        None \<Rightarrow> (reject ''E_BUSY'' ''too many tunnel connections for token''
                  (lg @ [(''tunnel_busy'', [], [(''token_id'', tid)])]) [], None, s1)
      | Some conns \<Rightarrow>
          (let released = s1\<lparr>sv_conns := fst (conc_release conns tid False)\<rparr>;
               proxied = bool_text (tc_upstream cfg \<noteq> []) in
     (case tunnel_dial_target cfg env req of
        (tried, Inl e) \<Rightarrow>
          (reject ''E_UPSTREAM'' ''connect failed''
             (lg @ [(''tunnel_dial_fail'', [], [(''token_id'', tid), (''host'', cn_host req),
                (''port'', itoa (cn_port req)), (''proxied'', proxied), (''error'', dial_error_text e)])]) tried,
           None, released)
      | (tried, Inr resolved) \<Rightarrow>
          (let conn_id = new_conn_id (te_rnd env);
               sent = ok_encode \<lparr>ok_conn_id = conn_id, ok_expires = tc_idle cfg div second, ok_ip = resolved\<rparr> in
           if \<not> te_write_ok env then
             (\<lparr>oc_end = Write_Failed, oc_sent = [], oc_audit = lg, oc_dialled = tried\<rparr>, None, released)
           else
             (\<lparr>oc_end = Tunneled conn_id resolved, oc_sent = sent,
               oc_audit = lg @ [(''tunnel_open'', conn_id, [(''token_id'', tid), (''client_id'', cn_client req),
                 (''host'', cn_host req), (''port'', itoa (cn_port req)), (''resolved_ip'', resolved),
                 (''proxied'', proxied)])],
               oc_dialled = tried\<rparr>, Some tid, s1\<lparr>sv_conns := conns\<rparr>)))))))"

text \<open>The deferred release at the end of the session.\<close>

definition handle_end :: "tserver \<Rightarrow> string option \<Rightarrow> tserver" where
  "handle_end s key = (case key of None \<Rightarrow> s | Some k \<Rightarrow> s\<lparr>sv_conns := fst (conc_release (sv_conns s) k False)\<rparr>)"

section \<open>The copy loops\<close>

text \<open>
  Both pumps add to one counter. One turn reads \<open>n\<close> bytes, at most the buffer, forwards them, adds them
  and stops when the counter exceeds the cap; a pump may also stop on a read or write error, or because
  the handler closed the connections.
\<close>

record pumps =
  pm_total :: int
  pm_up :: bool
  pm_down :: bool

inductive pump_step :: "int \<Rightarrow> int \<Rightarrow> pumps \<Rightarrow> pumps \<Rightarrow> bool" for buf cap where
  up: "pm_up p \<Longrightarrow> 0 < n \<Longrightarrow> n \<le> buf \<Longrightarrow>
    pump_step buf cap p (p\<lparr>pm_total := pm_total p + n, pm_up := \<not> (0 < cap \<and> cap < pm_total p + n)\<rparr>)"
| down: "pm_down p \<Longrightarrow> 0 < n \<Longrightarrow> n \<le> buf \<Longrightarrow>
    pump_step buf cap p (p\<lparr>pm_total := pm_total p + n, pm_down := \<not> (0 < cap \<and> cap < pm_total p + n)\<rparr>)"
| up_stops: "pump_step buf cap p (p\<lparr>pm_up := False\<rparr>)"
| down_stops: "pump_step buf cap p (p\<lparr>pm_down := False\<rparr>)"

inductive_cases pump_stepE: "pump_step buf cap p p'"

definition pumps_start :: pumps where
  "pumps_start = \<lparr>pm_total = 0, pm_up = True, pm_down = True\<rparr>"

section \<open>The listener\<close>

text \<open>
  The accept loop of \<open>Serve\<close>: the connections it starts handlers for and, when it ends, whether with an error. A failed
  \<open>Accept\<close> comes with whether the context is done and whether the listener was closed. \<open>ListenTLS\<close> gives
  whether TLS is spoken, or nothing when the pair cannot be loaded.
\<close>

datatype accepted = Accepted nat | Accept_Failed bool bool

fun serve_listener :: "accepted list \<Rightarrow> nat list \<times> bool option" where
  "serve_listener [] = ([], None)"
| "serve_listener (Accepted c # es) = (let (cs, r) = serve_listener es in (c # cs, r))"
| "serve_listener (Accept_Failed ended shut # es) = ([], Some (\<not> ended \<and> \<not> shut))"

definition listen_tls :: "(string \<Rightarrow> string \<Rightarrow> bool) \<Rightarrow> string \<Rightarrow> string \<Rightarrow> bool option" where
  "listen_tls pair cert key = (if cert = [] \<or> key = [] then Some False else if pair cert key then Some True else None)"

section \<open>The client end\<close>

datatype dial_fail =
    No_Token | Dial_Error string | TLS_Error | Write_Error | Read_Error | Malformed_Response
  | Tunnel_Error err_resp

text \<open>
  What the connection delivers is a list of chunks, one per read of the operating system. \<open>ReadSlice\<close>
  reads whole chunks into the buffer until it sees the newline; the buffered rest stays in the reader.
\<close>

fun fill_line :: "string \<Rightarrow> string list \<Rightarrow> (string \<times> string list) option" where
  "fill_line buf chunks =
     (if newline \<in> set buf then Some (buf, chunks)
      else case chunks of [] \<Rightarrow> None | c # cs \<Rightarrow> fill_line (buf @ c) cs)"

declare fill_line.simps [simp del]

record tunnel_conn =
  tk_ok :: ok_resp
  tk_unread :: "string list"
  tk_dropped :: string

definition dial_request :: "string \<Rightarrow> string \<Rightarrow> string \<Rightarrow> (string \<rightharpoonup> string) \<Rightarrow> string \<Rightarrow> int \<Rightarrow> connect" where
  "dial_request token nonce client flags host port =
     \<lparr>cn_host = host, cn_port = port, cn_token = token, cn_nonce = nonce, cn_client = client, cn_flags = flags\<rparr>"

text \<open>
  \<open>TunnelDial\<close> after the connection is up: the line it wrote and what it makes of the reply. The bytes
  after the reply line that were already read are dropped with the reader.
\<close>

definition dial_reply :: "string list \<Rightarrow> dial_fail + tunnel_conn" where
  "dial_reply chunks =
     (case fill_line [] chunks of
        None \<Rightarrow> Inl Read_Error
      | Some (buf, rest) \<Rightarrow>
     (case read_line (max_line + 1) buf of
        Inl _ \<Rightarrow> Inl Read_Error
      | Inr (line, buffered) \<Rightarrow>
     (case parse_response line of
        Inl _ \<Rightarrow> Inl Malformed_Response
      | Inr (Resp_Err e) \<Rightarrow> Inl (Tunnel_Error e)
      | Inr (Resp_OK r) \<Rightarrow> Inr \<lparr>tk_ok = r, tk_unread = rest, tk_dropped = buffered\<rparr>)))"

definition tunnel_dial ::
    "string \<Rightarrow> string \<Rightarrow> (nat \<Rightarrow> byte list option) \<Rightarrow> (string \<times> string) list \<Rightarrow> string \<Rightarrow> int \<Rightarrow>
     (string + bool) \<Rightarrow> bool \<Rightarrow> (string \<Rightarrow> string list) \<Rightarrow> dial_fail + tunnel_conn" where
  "tunnel_dial token client rnd flags host port dialled write_ok server =
     (if token = [] then Inl No_Token
      else case dialled of
        Inl e \<Rightarrow> Inl (Dial_Error e)
      | Inr tls_ok \<Rightarrow>
          if \<not> tls_ok then Inl TLS_Error
          else if \<not> write_ok then Inl Write_Error
          else dial_reply (server (connect_encode
                 (dial_request token (new_nonce rnd) client (map_of flags) host port) flags)))"

section \<open>What a run of the handler has checked\<close>

lemma tunnel_auth_ok:
  assumes "tunnel_auth env s input = (Inr (req, tid), s1)"
  obtains line rest a toks nonces where
    "read_line (max_line + 1) input = Inr (line, rest)" "parse_connect line = Inr req"
    "validate (te_io env) (te_now_expiry env) (te_now_seen env) (sv_tokens s) (cn_token req) = ((Some a, None), toks)"
    "tid = tr_id (ts_heap toks ! a)"
    "check_and_add (sv_nonces s) (te_now_nonce env) (nonce_key tid (cn_nonce req)) = (True, nonces)"
    "s1 = s\<lparr>sv_tokens := toks, sv_nonces := nonces\<rparr>"
  using assms unfolding tunnel_auth_def
  by (auto simp: Let_def split: sum.splits prod.splits option.splits if_splits)

lemma tunnel_auth_keeps: "tunnel_auth env s input = (r, s1) \<Longrightarrow> sv_conns s1 = sv_conns s \<and> sv_wl s1 = sv_wl s"
  unfolding tunnel_auth_def by (auto simp: Let_def split: sum.splits prod.splits option.splits if_splits)

lemma tunnel_policy_ok:
  "tunnel_policy cfg env s req tid = Inr lg \<Longrightarrow>
     (tc_mode cfg = ''relay_all'' \<or> wl_match (wl_get (sv_wl s)) (cn_host req)) \<and>
     check_port (tc_policy cfg) (cn_port req) = None \<and>
     (tc_upstream cfg = [] \<longrightarrow> check_host (tc_policy cfg) (te_lookup_check env) (cn_host req) = None)"
  unfolding tunnel_policy_def Let_def by (auto split: if_splits option.splits)

lemma tunnel_policy_refusal:
  "tunnel_policy cfg env s req tid = Inl oc \<Longrightarrow> oc_dialled oc = [] \<and> (\<exists>c m. oc_end oc = Rejected c m)"
  unfolding tunnel_policy_def Let_def
  by (auto simp: reject_def ssrf_reject_def split: if_splits option.splits)

lemma tunnel_auth_refusal:
  "tunnel_auth env s input = (Inl oc, s1) \<Longrightarrow> oc_dialled oc = [] \<and> (\<exists>c m. oc_end oc = Rejected c m)"
  unfolding tunnel_auth_def by (auto simp: reject_def Let_def split: sum.splits prod.splits option.splits if_splits)

lemma tunnel_dial_target_ok:
  "tunnel_dial_target cfg env req = (tried, r) \<Longrightarrow> t \<in> set tried \<Longrightarrow> target_ok (tc_policy cfg) t"
  unfolding tunnel_dial_target_def Let_def
  by (auto split: if_splits sum.splits prod.splits intro: guarded.tried_accepted)

lemma handle_cases:
  assumes "handle cfg env s input = (oc, slot, s')"
    and "oc_dialled oc \<noteq> [] \<or> (\<exists>cid r. oc_end oc = Tunneled cid r)"
  obtains req tid s1 lg conns r where
    "tunnel_auth env s input = (Inr (req, tid), s1)" "tunnel_policy cfg env s1 req tid = Inr lg"
    "conc_acquire (sv_conns s1) tid = Some conns" "tunnel_dial_target cfg env req = (oc_dialled oc, r)"
    "\<And>cid res. oc_end oc = Tunneled cid res \<Longrightarrow> r = Inr res \<and> cid = new_conn_id (te_rnd env) \<and> slot = Some tid \<and>
       s' = s1\<lparr>sv_conns := conns\<rparr> \<and>
       oc_sent oc = ok_encode \<lparr>ok_conn_id = cid, ok_expires = tc_idle cfg div second, ok_ip = res\<rparr>"
proof -
  obtain r1 s1 where a: "tunnel_auth env s input = (r1, s1)" by fastforce
  obtain req tid where r1: "r1 = Inr (req, tid)"
    using assms a tunnel_auth_refusal by (cases r1) (fastforce simp: handle_def)+
  obtain lg where p: "tunnel_policy cfg env s1 req tid = Inr lg"
    using assms a r1 tunnel_policy_refusal [of cfg env s1 req tid oc]
    by (cases "tunnel_policy cfg env s1 req tid") (auto simp: handle_def)
  obtain conns where c: "conc_acquire (sv_conns s1) tid = Some conns"
    using assms a r1 p by (cases "conc_acquire (sv_conns s1) tid") (auto simp: handle_def reject_def)
  obtain tried r where d: "tunnel_dial_target cfg env req = (tried, r)" by fastforce
  have "tried = oc_dialled oc"
    using assms(1) a r1 p c d by (auto simp: handle_def reject_def Let_def split: sum.splits if_splits)
  moreover have "\<And>cid res. oc_end oc = Tunneled cid res \<Longrightarrow> r = Inr res \<and> cid = new_conn_id (te_rnd env) \<and> slot = Some tid \<and>
       s' = s1\<lparr>sv_conns := conns\<rparr> \<and>
       oc_sent oc = ok_encode \<lparr>ok_conn_id = cid, ok_expires = tc_idle cfg div second, ok_ip = res\<rparr>"
    using assms(1) a r1 p c d by (auto simp: handle_def reject_def Let_def split: sum.splits if_splits)
  ultimately show ?thesis using that a r1 p c d by blast
qed

lemma validate_id:
  "validate io now now' s token = ((Some a, None), s') \<Longrightarrow> tr_id (ts_heap s' ! a) = tr_id (ts_heap s ! a)"
  by (auto simp: validate_def Let_def nth_upd dest!: save_locked_fields(1)
      split: option.splits if_splits prod.splits)

subsection \<open>Slots\<close>

lemma conc_acquire_release:
  assumes "conc_acquire c key = Some c'" and "0 \<le> conc_cur c key"
  shows "conc_cur (fst (conc_release c' key False)) k = conc_cur c k"
    and "conc_cur c' k = conc_cur c k + (if k = key then 1 else 0)"
  using assms by (auto simp: conc_acquire_def conc_release_def conc_release_body_def Let_def conc_cur_def split: if_splits)

lemma handle_slots:
  assumes "handle cfg env s input = (oc, slot, s')" and "\<And>k. 0 \<le> conc_cur (sv_conns s) k"
  shows "conc_cur (sv_conns (handle_end s' slot)) k = conc_cur (sv_conns s) k \<and>
    conc_cur (sv_conns s') k = conc_cur (sv_conns s) k + (if slot = Some k then 1 else 0)"
proof -
  obtain r1 s1 where a: "tunnel_auth env s input = (r1, s1)" by fastforce
  have k1: "sv_conns s1 = sv_conns s" using tunnel_auth_keeps [OF a] by simp
  show ?thesis
  proof (cases r1)
    case (Inl o1)
    then show ?thesis using assms a k1 by (auto simp: handle_def handle_end_def)
  next
    case (Inr rt)
    obtain req tid where rt: "rt = (req, tid)" by (cases rt)
    show ?thesis
    proof (cases "tunnel_policy cfg env s1 req tid")
      case (Inl o1)
      then show ?thesis using assms a Inr rt k1 by (auto simp: handle_def handle_end_def)
    next
      case (Inr lg)
      note p = Inr
      show ?thesis
      proof (cases "conc_acquire (sv_conns s1) tid")
        case None
        then show ?thesis using assms a \<open>r1 = Inr rt\<close> rt p k1 by (auto simp: handle_def handle_end_def)
      next
        case (Some conns)
        then have q: "conc_acquire (sv_conns s) tid = Some conns" using k1 by simp
        note cr = conc_acquire_release [OF q assms(2)]
        obtain tried r where d: "tunnel_dial_target cfg env req = (tried, r)" by fastforce
        have "(slot = None \<and> sv_conns s' = fst (conc_release conns tid False)) \<or>
          (slot = Some tid \<and> sv_conns s' = conns)"
          using assms(1) a \<open>r1 = Inr rt\<close> rt p Some d
          by (auto simp: handle_def Let_def split: sum.splits if_splits)
        then show ?thesis using cr by (auto simp: handle_end_def)
      qed
    qed
  qed
qed

subsection \<open>The byte cap\<close>

definition stopped :: "pumps \<Rightarrow> int" where
  "stopped p = (if pm_up p then 0 else 1) + (if pm_down p then 0 else 1)"

lemma pump_inv:
  assumes "(pump_step buf cap)\<^sup>*\<^sup>* pumps_start p" and "0 < cap" and "0 \<le> buf"
  shows "0 \<le> pm_total p \<and> pm_total p \<le> cap + buf * stopped p"
  using assms(1)
proof (induction rule: rtranclp_induct)
  case base
  then show ?case using assms by (simp add: pumps_start_def stopped_def)
next
  case (step p q)
  have b: "buf * stopped p \<le> buf * 2" using assms(3) by (intro mult_left_mono) (auto simp: stopped_def)
  from step(2) show ?case
    by (rule pump_stepE) (use step.IH assms(2,3) in \<open>auto simp: stopped_def algebra_simps split: if_splits\<close>)
qed

subsection \<open>Lines and chunks\<close>

lemma newline_not_graphic [simp]: "\<not> graphic newline"
  by (simp add: newline_def graphic_def)

lemma read_line_one:
  assumes "newline \<notin> set w" and "length w < max_line"
  shows "read_line (max_line + 1) (w @ newline # rest) = Inr (w @ [newline], rest)"
proof -
  have "take (max_line + 1) (w @ newline # rest) = w @ newline # take (max_line - length w) rest"
    using assms(2) by (cases "max_line - length w") (auto simp: take_Cons' Suc_diff_le)
  then have "index_byte (take (max_line + 1) (w @ newline # rest)) newline = Some (length w)"
    using index_byte_append [OF assms(1)] by simp
  then show ?thesis using assms(2) by (simp add: read_line_def)
qed

lemma fill_line_here: "newline \<in> set buf \<Longrightarrow> fill_line buf cs = Some (buf, cs)"
  by (simp add: fill_line.simps)

lemma fill_line_first: "newline \<in> set c \<Longrightarrow> fill_line [] (c # cs) = Some (c, cs)"
  by (simp add: fill_line.simps)

lemma ok_encode_line:
  assumes "word_ok cid" and "ip = [] \<or> word_ok ip"
  obtains w where "ok_encode \<lparr>ok_conn_id = cid, ok_expires = e, ok_ip = ip\<rparr> = w @ [newline]"
    "newline \<notin> set w"
proof
  let ?w = "proto @ '' OK '' @ cid @ '' '' @ itoa e @ '' '' @ (if ip = [] then ''-'' else ip)"
  show "ok_encode \<lparr>ok_conn_id = cid, ok_expires = e, ok_ip = ip\<rparr> = ?w @ [newline]" by (simp add: ok_encode_def)
  have ng: "c \<in> set s \<Longrightarrow> \<forall>c \<in> set s. graphic c \<Longrightarrow> c \<noteq> newline" for c s by auto
  have "newline \<notin> set cid" "ip = [] \<or> newline \<notin> set ip" "newline \<notin> set (itoa e)" "newline \<notin> set proto"
    using assms itoa_graphic word_ok_proto newline_not_graphic by blast+
  then show "newline \<notin> set ?w" by (auto simp: newline_def)
qed

lemma dial_reply_ok:
  assumes cid: "valid_token cid 4 64 = None" and e: "0 \<le> e" "e \<le> max_int64"
    and r: "res = ''-'' \<or> (\<exists>a. res = ip_string a \<and> length a \<in> {4, 16})"
    and l: "length (ok_encode \<lparr>ok_conn_id = cid, ok_expires = e, ok_ip = res\<rparr>) \<le> max_line"
  shows "dial_reply ((ok_encode \<lparr>ok_conn_id = cid, ok_expires = e, ok_ip = res\<rparr> @ early) # rest) =
    (if CHR '':'' \<in> set res then Inl Malformed_Response
     else Inr \<lparr>tk_ok = \<lparr>ok_conn_id = cid, ok_expires = e, ok_ip = (if res = ''-'' then [] else res)\<rparr>,
              tk_unread = rest, tk_dropped = early\<rparr>)"
proof -
  let ?line = "ok_encode \<lparr>ok_conn_id = cid, ok_expires = e, ok_ip = res\<rparr>"
  have cw: "word_ok cid" using word_ok_token [OF cid] by simp
  have rw: "word_ok res \<and> (res \<noteq> ''-'' \<longrightarrow> CHR '':'' \<notin> set res \<longrightarrow> valid_token res 3 64 = None)"
  proof (cases "res = ''-''")
    case False
    then obtain a where a: "res = ip_string a" "length a \<in> {4, 16}" using r by blast
    show ?thesis
    proof (cases "to4 a = []")
      case True
      then have "length a = 16" "res = v6_string a" using a by (auto simp: ip_string_def)
      then show ?thesis using v6_string_word by auto
    next
      case n4: False
      then have l4: "length (to4 a) = 4" using to4_cases [of a] by blast
      have ne: "a \<noteq> []" using a(2) by auto
      have "res = v4_string (to4 a)" unfolding a(1) ip_string_def using n4 ne by (simp only: if_False if_True not_False_eq_True)
      then have "valid_token res 3 64 = None" using v4_string_token [OF l4] by simp
      then show ?thesis using word_ok_token [of res 3 64] by auto
    qed
  qed simp
  then have rw1: "res = [] \<or> word_ok res" by blast
  obtain w where w: "?line = w @ [newline]" "newline \<notin> set w" using ok_encode_line [OF cw rw1] by metis
  have "length w < max_line" using l w by simp
  from read_line_one [OF w(2) this, of early] w(1)
  have rl: "read_line (max_line + 1) (?line @ early) = Inr (?line, early)" by simp
  have fl: "fill_line [] ((?line @ early) # rest) = Some (?line @ early, rest)"
    by (rule fill_line_first) (simp add: w(1))
  have "str_fields (trim_right_set ?line crlf_set) = [proto, ''OK'', cid, itoa e, res]"
    using parse_ok_encode_fields [of "\<lparr>ok_conn_id = cid, ok_expires = e, ok_ip = res\<rparr>"] cw rw by simp
  note pr = parse_response_fields [OF this cid e]
  show ?thesis
  proof (cases "res = ''-''")
    case True
    then show ?thesis using fl rl pr by (simp add: dial_reply_def)
  next
    case False
    then show ?thesis
      using fl rl pr rw token_no_colon [of res 3 64] by (auto simp: dial_reply_def split: option.splits)
  qed
qed

lemma connect_encode_line:
  assumes "connect_ok c" and "distinct (map fst fs)" and "cn_flags c = map_of fs"
  obtains w where "connect_encode c fs = w @ [newline]" "newline \<notin> set w"
proof
  let ?ws = "[proto, ''CONNECT'', cn_host c, itoa (cn_port c), cn_token c, cn_nonce c, cn_client c, encode_flags fs]"
  show "connect_encode c fs = join '' '' ?ws @ [newline]" by (rule connect_encode_join)
  have "flags_ok (map_of fs)" using assms by (simp add: connect_ok_def)
  note fw = word_ok_flags [OF assms(2) this]
  have "\<forall>w \<in> set ?ws. \<forall>c \<in> set w. graphic c"
    using assms(1) fw word_ok_host [of "cn_host c"] word_ok_token [of "cn_token c" 8 512] word_ok_token [of "cn_client c" 1 64]
      word_ok_hex [of "cn_nonce c"] word_ok_itoa word_ok_proto
    by (simp add: connect_ok_def) (simp add: graphic_def)
  then have "\<forall>c \<in> set (join '' '' ?ws). graphic c \<or> c = CHR '' ''"
    using set_join [of "'' ''" ?ws] by fastforce
  moreover have "newline \<noteq> CHR '' ''" by (simp add: newline_def)
  ultimately show "newline \<notin> set (join '' '' ?ws)" using newline_not_graphic by blast
qed

lemma tunnel_dial_target_peer:
  assumes "tunnel_dial_target cfg env req = (tried, Inr res)"
    and "\<And>t a. te_connect env t = Inr (Some a) \<Longrightarrow> length a \<in> {4, 16}"
    and "\<And>t a. te_upstream_dial env t = Inr (Some a) \<Longrightarrow> length a \<in> {4, 16}"
  shows "res = ''-'' \<or> (\<exists>a. res = ip_string a \<and> length a \<in> {4, 16})"
proof (cases "tc_upstream cfg = []")
  case True
  let ?addr = "join_host_port (cn_host req) (itoa (cn_port req))"
  obtain peer where d: "dial_context (tc_policy cfg) (te_lookup_dial env) (te_connect env) ''tcp'' ?addr = (tried, Inr peer)"
    and res: "res = (case peer of None \<Rightarrow> ''-'' | Some a \<Rightarrow> ip_string a)"
    using assms(1) True by (auto simp: tunnel_dial_target_def Let_def split: sum.splits prod.splits)
  from dial_context_connected [OF d] res assms(2) show ?thesis by (cases peer) auto
next
  case False
  then show ?thesis
    using assms(1,3) by (auto simp: tunnel_dial_target_def Let_def split: sum.splits option.splits if_splits)
qed

section \<open>A sample run\<close>

definition sample_tokens :: tstore where
  "sample_tokens = load_rec (empty_tstore [] 0)
     \<lparr>tr_id = ''tok_1'', tr_client = ''dev'', tr_hash = hash_token ''dldw_0123'', tr_created = 1,
      tr_expires = zero_time, tr_revoked = zero_time, tr_last_seen = zero_time\<rparr>"

definition sample_server :: tserver where
  "sample_server = \<lparr>sv_tokens = sample_tokens, sv_nonces = \<lparr>ns_ttl = 600, ns_seen = [], ns_max = 9\<rparr>,
     sv_wl = \<lparr>wls_list = wl_parse ''v1'' [''github.com'']\<rparr>, sv_conns = new_conc 2\<rparr>"

definition sample_cfg :: tcfg where
  "sample_cfg = \<lparr>tc_policy = public_policy, tc_upstream = [], tc_mode = ''whitelist_only'', tc_handshake = 10,
     tc_idle = 300000000000, tc_max_conns = 2, tc_max_bytes = 100, tc_copy_buffer = 10\<rparr>"

definition sample_env :: tenv where
  "sample_env = \<lparr>te_io = True, te_now_expiry = 5, te_now_seen = 5, te_now_nonce = 5,
     te_lookup_check = (\<lambda>h. Inr [[140, 82, 112, 3]]), te_lookup_dial = (\<lambda>h. Inr [[140, 82, 112, 3]]),
     te_connect = (\<lambda>t. Inr (Some [140, 82, 112, 3])), te_upstream_dial = (\<lambda>t. Inl ''none''),
     te_rnd = (\<lambda>n. None), te_write_ok = True\<rparr>"

abbreviation sample_flags :: "(string \<times> string) list" where
  "sample_flags \<equiv> [(''v'', ''1''), (''mode'', ''x'')]"

abbreviation sample_line :: string where
  "sample_line \<equiv> connect_encode sample_connect sample_flags"

lemma sample_connect_ok: "connect_ok sample_connect"
  by (simp add: connect_ok_def sample_connect_def valid_host_def host_char_def valid_token_def token_char_def
    char_class_defs flags_ok_def list_all_iff)

lemma sample_flags_map: "distinct (map fst sample_flags)" "cn_flags sample_connect = map_of sample_flags"
  by (simp_all add: sample_connect_def)

lemma nat_str_443: "nat_str 443 = ''443''"
  by (simp add: nat_str.simps)

lemma sample_line_length: "length sample_line \<le> max_line"
  by (simp add: connect_encode_def sample_connect_def proto_def itoa_def nat_str_443 encode_flags_def
    insertion_sort_def max_line_def)

lemma sample_auth:
  "\<exists>s1. tunnel_auth sample_env sample_server sample_line = (Inr (sample_connect, ''tok_1''), s1)"
proof -
  obtain w where w: "sample_line = w @ [newline]" "newline \<notin> set w"
    using connect_encode_line [OF sample_connect_ok sample_flags_map] .
  have "length w < max_line" using sample_line_length w by simp
  from read_line_one [OF w(2) this, of "[]"] w(1)
  have r: "read_line (Suc max_line) sample_line = Inr (sample_line, [])" by simp
  have p: "parse_connect sample_line = Inr sample_connect"
    by (rule parse_connect_encode [OF sample_connect_ok sample_flags_map])
  have v: "\<exists>toks. validate (te_io sample_env) (te_now_expiry sample_env) (te_now_seen sample_env)
      (sv_tokens sample_server) (cn_token sample_connect) = ((Some 0, None), toks) \<and> tr_id (ts_heap toks ! 0) = ''tok_1''"
    by (simp add: sample_server_def sample_tokens_def load_rec_def empty_tstore_def sample_connect_def validate_def Let_def)
  have n: "check_and_add (sv_nonces sample_server) t k = (True, (sv_nonces sample_server)\<lparr>ns_seen := mput k t []\<rparr>)" for t k
    by (simp add: sample_server_def check_and_add_def nonce_evict_def)
  show ?thesis using r p v n by (auto simp: tunnel_auth_def Let_def)
qed

lemma sample_policy:
  "\<exists>lg. tunnel_policy sample_cfg sample_env s1 sample_connect ''tok_1'' = Inr lg"
  if "sv_wl s1 = sv_wl sample_server"
proof -
  have "wl_match (wl_parse ''v1'' [''github.com'']) ''github.com''" by code_simp
  moreover have "parse_ip_literal ''github.com'' = []" by code_simp
  ultimately show ?thesis
    using that
    by (simp add: tunnel_policy_def sample_server_def wl_get_def sample_connect_def sample_cfg_def sample_env_def
      check_port_def public_policy_def allow_all_ports_def allowed_ports_def check_host_def check_ip_def
      blocked_v4_iff ipv4_reserved_def)
qed

lemma sample_dial:
  "tunnel_dial_target sample_cfg sample_env sample_connect = ([''140.82.112.3:443''], Inr ''140.82.112.3'')"
proof -
  have j: "join_host_port ''github.com'' ''443'' = ''github.com:443''" by code_simp
  have s: "split_host_port ''github.com:443'' = Some (''github.com'', ''443'')" "parse_ip_literal ''github.com'' = []"
    by code_simp+
  have q: "check_port public_policy (must_atoi ''443'') = None"
    using sscanf_d_nat_str [of 443]
    by (simp add: check_port_def must_atoi_def public_policy_def allow_all_ports_def allowed_ports_def
      nat_str_443 max_int64_def)
  have i: "check_ip public_policy [140, 82, 112, 3] = None"
    by (simp add: check_ip_def public_policy_def blocked_v4_iff ipv4_reserved_def)
  have t: "ip_string [140, 82, 112, 3] = ''140.82.112.3''" by (simp add: ip_string_def v4_string_def nat_str.simps)
  have jt: "join_host_port ''140.82.112.3'' ''443'' = ''140.82.112.3:443''" by code_simp
  show ?thesis
    by (simp add: tunnel_dial_target_def sample_cfg_def sample_env_def sample_connect_def itoa_def nat_str_443 j
      dial_context_def candidate_ips_def s q i t jt)
qed

lemma sample_handle:
  "\<exists>oc s'. handle sample_cfg sample_env sample_server sample_line = (oc, Some ''tok_1'', s') \<and>
     oc_end oc = Tunneled (''conn_'' @ replicate 12 (CHR ''0'')) ''140.82.112.3'' \<and>
     oc_dialled oc = [''140.82.112.3:443''] \<and> length (oc_sent oc) \<le> max_line"
proof -
  obtain s1 where a: "tunnel_auth sample_env sample_server sample_line = (Inr (sample_connect, ''tok_1''), s1)"
    using sample_auth by blast
  note k = tunnel_auth_keeps [OF a]
  obtain lg where p: "tunnel_policy sample_cfg sample_env s1 sample_connect ''tok_1'' = Inr lg"
    using sample_policy k by blast
  have c: "conc_acquire (sv_conns s1) ''tok_1'' = Some ((new_conc 2)\<lparr>cc_cur := mput ''tok_1'' 1 []\<rparr>)"
    using k by (simp add: sample_server_def conc_acquire_def new_conc_def conc_cur_def)
  have n: "nat_str 300 = ''300''" by (simp add: nat_str.simps)
  show ?thesis
    using a p c sample_dial
    by (simp add: handle_def Let_def sample_env_def new_conn_id_def rand_hex_def ok_encode_def proto_def
      sample_cfg_def second_def itoa_def n max_line_def)
qed

section \<open>Properties\<close>

text \<open>
  C9. The gate of the egress tunnel. A run that dials anything or opens a tunnel has read one
  well-formed request whose token belongs to a record that is neither revoked nor expired, with a nonce
  not used before for it; the host is whitelisted unless the mode is \<open>relay_all\<close>; the port is allowed;
  without an upstream proxy the host passed the address check; a slot was free; and every address
  dialled directly was itself accepted by the policy.
\<close>

theorem tunnel_gate:
  assumes "handle cfg env s input = (oc, slot, s')"
    and "oc_dialled oc \<noteq> [] \<or> (\<exists>cid r. oc_end oc = Tunneled cid r)"
  shows "\<exists>line rest req a. read_line (max_line + 1) input = Inr (line, rest) \<and> parse_connect line = Inr req \<and>
    mget (ts_by_hash (sv_tokens s)) (hash_token (cn_token req)) = Some a \<and>
    time_is_zero (tr_revoked (ts_heap (sv_tokens s) ! a)) \<and>
    (time_is_zero (tr_expires (ts_heap (sv_tokens s) ! a)) \<or> te_now_expiry env \<le> tr_expires (ts_heap (sv_tokens s) ! a)) \<and>
    fst (check_and_add (sv_nonces s) (te_now_nonce env) (nonce_key (tr_id (ts_heap (sv_tokens s) ! a)) (cn_nonce req))) \<and>
    conc_cur (sv_conns s) (tr_id (ts_heap (sv_tokens s) ! a)) < cc_max (sv_conns s) \<and>
    (tc_mode cfg = ''relay_all'' \<or> wl_match (wl_get (sv_wl s)) (cn_host req)) \<and>
    check_port (tc_policy cfg) (cn_port req) = None \<and>
    (tc_upstream cfg = [] \<longrightarrow> check_host (tc_policy cfg) (te_lookup_check env) (cn_host req) = None) \<and>
    (\<forall>t \<in> set (oc_dialled oc). target_ok (tc_policy cfg) t)"
proof -
  from handle_cases [OF assms] obtain req tid s1 lg conns r where
    a: "tunnel_auth env s input = (Inr (req, tid), s1)" and p: "tunnel_policy cfg env s1 req tid = Inr lg"
    and c: "conc_acquire (sv_conns s1) tid = Some conns" and d: "tunnel_dial_target cfg env req = (oc_dialled oc, r)"
    by metis
  from tunnel_auth_ok [OF a] obtain line rest b toks nonces where
    l: "read_line (max_line + 1) input = Inr (line, rest)" "parse_connect line = Inr req"
    and v: "validate (te_io env) (te_now_expiry env) (te_now_seen env) (sv_tokens s) (cn_token req) = ((Some b, None), toks)"
    and tid: "tid = tr_id (ts_heap toks ! b)"
    and n: "check_and_add (sv_nonces s) (te_now_nonce env) (nonce_key tid (cn_nonce req)) = (True, nonces)"
    and s1: "s1 = s\<lparr>sv_tokens := toks, sv_nonces := nonces\<rparr>" by metis
  have "tid = tr_id (ts_heap (sv_tokens s) ! b)"
    using tid validate_id [OF v] by simp
  moreover have "conc_cur (sv_conns s) tid < cc_max (sv_conns s)"
    using c s1 by (auto simp: conc_acquire_def split: if_splits)
  moreover have "fst (check_and_add (sv_nonces s) (te_now_nonce env) (nonce_key tid (cn_nonce req)))" using n by simp
  moreover have "\<forall>t \<in> set (oc_dialled oc). target_ok (tc_policy cfg) t"
    using tunnel_dial_target_ok [OF d] by blast
  moreover have "\<exists>s'. validate (te_io env) (te_now_expiry env) (te_now_seen env) (sv_tokens s) (cn_token req) = ((Some b, None), s')"
    using v by blast
  moreover have "sv_wl s1 = sv_wl s" using s1 by simp
  ultimately show ?thesis
    using l tunnel_policy_ok [OF p] unfolding validate_ok_iff by metis
qed

theorem tunnel_gate_witness:
  "\<exists>oc s'. handle sample_cfg sample_env sample_server sample_line = (oc, Some ''tok_1'', s') \<and>
     (\<forall>t \<in> set (oc_dialled oc). target_ok public_policy t) \<and> oc_dialled oc \<noteq> []"
proof -
  obtain oc s' where h: "handle sample_cfg sample_env sample_server sample_line = (oc, Some ''tok_1'', s')"
    and d: "oc_dialled oc \<noteq> []" using sample_handle by fastforce
  have "\<forall>t \<in> set (oc_dialled oc). target_ok (tc_policy sample_cfg) t"
    using tunnel_gate [OF h] d by blast
  then show ?thesis using h d by (auto simp: sample_cfg_def)
qed

text \<open>
  Slots balance: whatever way a run ends, the counter of every token is what it was before the run
  once the session is over, and while the copy loops run it is one more for that token only.
\<close>

theorem tunnel_slots_balanced:
  assumes "handle cfg env s input = (oc, slot, s')" and "\<And>k. 0 \<le> conc_cur (sv_conns s) k"
  shows "conc_cur (sv_conns (handle_end s' slot)) k = conc_cur (sv_conns s) k \<and>
    conc_cur (sv_conns s') k = conc_cur (sv_conns s) k + (if slot = Some k then 1 else 0)"
  using assms by (rule handle_slots)

theorem tunnel_slots_balanced_witness:
  "\<exists>oc s'. handle sample_cfg sample_env sample_server sample_line = (oc, Some ''tok_1'', s') \<and>
     conc_cur (sv_conns s') ''tok_1'' = 1 \<and> conc_cur (sv_conns (handle_end s' (Some ''tok_1''))) ''tok_1'' = 0"
proof -
  obtain oc s' where h: "handle sample_cfg sample_env sample_server sample_line = (oc, Some ''tok_1'', s')"
    using sample_handle by blast
  have z: "conc_cur (sv_conns sample_server) k = 0" for k
    by (simp add: sample_server_def new_conc_def conc_cur_def)
  have "0 \<le> conc_cur (sv_conns sample_server) k" for k by (simp add: z)
  from tunnel_slots_balanced [OF h this, of "''tok_1''"] h show ?thesis by (simp add: z)
qed

text \<open>
  Both ends together. When the server opens a tunnel for the line a client wrote, its reply reaches
  the client as an OK with the same connection id, unless the target was reached over IPv6: then the
  client reports a malformed response while the server holds the tunnel open. Bytes of the target that
  arrive in the same read as the reply line are dropped by the client.
\<close>

theorem tunnel_end_to_end:
  assumes "connect_ok c" and "distinct (map fst fs)" and "cn_flags c = map_of fs"
    and "length (connect_encode c fs) \<le> max_line"
    and "handle cfg env s (connect_encode c fs) = (oc, slot, s')" and "oc_end oc = Tunneled cid res"
    and "\<And>n b. te_rnd env n = Some b \<Longrightarrow> length b = n"
    and "\<And>t a. te_connect env t = Inr (Some a) \<Longrightarrow> length a \<in> {4, 16}"
    and "\<And>t a. te_upstream_dial env t = Inr (Some a) \<Longrightarrow> length a \<in> {4, 16}"
    and "0 \<le> tc_idle cfg" and "tc_idle cfg \<le> max_int64" and "length (oc_sent oc) \<le> max_line"
  shows "(\<exists>tid. tunnel_auth env s (connect_encode c fs) = (Inr (c, tid), s'\<lparr>sv_conns := sv_conns s\<rparr>) \<and> slot = Some tid) \<and>
    dial_reply ((oc_sent oc @ early) # rest) =
      (if CHR '':'' \<in> set res then Inl Malformed_Response
       else Inr \<lparr>tk_ok = \<lparr>ok_conn_id = cid, ok_expires = tc_idle cfg div second, ok_ip = (if res = ''-'' then [] else res)\<rparr>,
                tk_unread = rest, tk_dropped = early\<rparr>)"
proof -
  have "oc_dialled oc \<noteq> [] \<or> (\<exists>cid r. oc_end oc = Tunneled cid r)" using assms(6) by blast
  from handle_cases [OF assms(5) this] obtain req tid s1 lg conns r where
    a: "tunnel_auth env s (connect_encode c fs) = (Inr (req, tid), s1)"
    and d: "tunnel_dial_target cfg env req = (oc_dialled oc, r)"
    and e: "r = Inr res" "cid = new_conn_id (te_rnd env)" "slot = Some tid" "s' = s1\<lparr>sv_conns := conns\<rparr>"
      "oc_sent oc = ok_encode \<lparr>ok_conn_id = cid, ok_expires = tc_idle cfg div second, ok_ip = res\<rparr>"
    using assms(6) by metis
  obtain w where w: "connect_encode c fs = w @ [newline]" "newline \<notin> set w"
    using connect_encode_line [OF assms(1-3)] .
  have "read_line (max_line + 1) (connect_encode c fs) = Inr (connect_encode c fs, [])"
    using read_line_one [OF w(2), of "[]"] w(1) assms(4) by simp
  then have "parse_connect (connect_encode c fs) = Inr req"
    using tunnel_auth_ok [OF a] by (metis Inr_inject prod.inject)
  then have req: "req = c" using parse_connect_encode [OF assms(1-3)] by simp
  have peer: "res = ''-'' \<or> (\<exists>a. res = ip_string a \<and> length a \<in> {4, 16})"
    using tunnel_dial_target_peer [of cfg env req "oc_dialled oc" res] d e(1) assms(8,9) by simp
  have cid: "valid_token cid 4 64 = None"
    using rand_hex_lower [of "te_rnd env" 6] rand_hex_token [of "te_rnd env" 6] assms(7) unfolding e(2)
    by (simp add: new_conn_id_def valid_token_None_iff) (simp add: token_char_def char_class_defs)
  have exp: "0 \<le> tc_idle cfg div second" "tc_idle cfg div second \<le> max_int64"
    using assms(10,11) by (auto simp: second_def max_int64_def intro: order_trans)
  have "s1 = s'\<lparr>sv_conns := sv_conns s\<rparr>" using e(4) tunnel_auth_keeps [OF a] by simp
  then show ?thesis
    using dial_reply_ok [OF cid exp peer, of early rest] assms(12) e a req by auto
qed

theorem tunnel_end_to_end_witness:
  "\<exists>oc s'. handle sample_cfg sample_env sample_server sample_line = (oc, Some ''tok_1'', s') \<and>
     dial_reply [oc_sent oc @ ''SSH-2.0''] = Inr \<lparr>tk_ok = \<lparr>ok_conn_id = ''conn_'' @ replicate 12 (CHR ''0''),
       ok_expires = 300, ok_ip = ''140.82.112.3''\<rparr>, tk_unread = [], tk_dropped = ''SSH-2.0''\<rparr>"
proof -
  obtain oc s' where h: "handle sample_cfg sample_env sample_server sample_line = (oc, Some ''tok_1'', s')"
    and t: "oc_end oc = Tunneled (''conn_'' @ replicate 12 (CHR ''0'')) ''140.82.112.3''"
    and l: "length (oc_sent oc) \<le> max_line" using sample_handle by blast
  have idle: "0 \<le> tc_idle sample_cfg" "tc_idle sample_cfg \<le> max_int64"
    by (simp_all add: sample_cfg_def max_int64_def)
  have e: "te_rnd sample_env n = Some b \<Longrightarrow> length b = n" "te_connect sample_env u = Inr (Some a) \<Longrightarrow> length a \<in> {4, 16}"
    "te_upstream_dial sample_env u = Inr (Some a) \<Longrightarrow> length a \<in> {4, 16}" for n b u a
    by (auto simp: sample_env_def)
  have x: "tc_idle sample_cfg div second = 300" by (simp add: sample_cfg_def second_def)
  note w = tunnel_end_to_end [OF sample_connect_ok sample_flags_map sample_line_length h t e idle l, where early = "''SSH-2.0''" and rest = "[]"]
  then show ?thesis using h unfolding x by simp
qed

text \<open>
  C10. The byte cap. However the turns of the two copy loops interleave, a tunnel forwards at most the
  cap plus two buffers, and once the counter is above the cap at least one loop has stopped.
\<close>

theorem tunnel_byte_cap:
  assumes "(pump_step buf cap)\<^sup>*\<^sup>* pumps_start p" and "0 < cap" and "0 \<le> buf"
  shows "pm_total p \<le> cap + 2 * buf \<and> (cap < pm_total p \<longrightarrow> \<not> (pm_up p \<and> pm_down p))"
proof -
  note i = pump_inv [OF assms]
  have "buf * stopped p \<le> buf * 2" using assms(3) by (intro mult_left_mono) (auto simp: stopped_def)
  then show ?thesis using i by (auto simp: stopped_def)
qed

theorem tunnel_byte_cap_witness:
  "(pump_step 10 100)\<^sup>*\<^sup>* pumps_start \<lparr>pm_total = 10, pm_up = True, pm_down = True\<rparr> \<and> (10::int) \<le> 100 + 2 * 10"
proof -
  have "pump_step 10 100 pumps_start (pumps_start\<lparr>pm_total := pm_total pumps_start + 10,
      pm_up := \<not> (0 < (100::int) \<and> 100 < pm_total pumps_start + 10)\<rparr>)"
    by (rule pump_step.up) (simp_all add: pumps_start_def)
  then have s: "(pump_step 10 100)\<^sup>*\<^sup>* pumps_start \<lparr>pm_total = 10, pm_up = True, pm_down = True\<rparr>"
    by (intro r_into_rtranclp) (simp add: pumps_start_def)
  from tunnel_byte_cap [OF s] s show ?thesis by simp
qed

end
