(* ===== verification/GoUrl.thy ===== *)
theory GoUrl
  imports GoNet
begin

text \<open>
  What the sources use of \<^verbatim>\<open>net/url\<close>: \<open>Parse\<close> with its scheme, authority and path rules, percent
  decoding, \<open>Hostname\<close> and \<open>Port\<close>. An error of the library is None.
\<close>

section \<open>Percent decoding\<close>

definition is_hex :: "char \<Rightarrow> bool" where
  "is_hex c \<longleftrightarrow> hex_val c \<noteq> None"

definition hex_pair :: "char \<Rightarrow> char \<Rightarrow> char" where
  "hex_pair a b = char_of (16 * the (hex_val a) + the (hex_val b))"

fun unescape_path :: "string \<Rightarrow> string option" where
  "unescape_path [] = Some []"
| "unescape_path (c # s) =
     (if c = CHR ''%'' then
        (case s of
           a # b # r \<Rightarrow>
             if is_hex a \<and> is_hex b then map_option (\<lambda>t. hex_pair a b # t) (unescape_path r) else None
         | _ \<Rightarrow> None)
      else map_option (\<lambda>t. c # t) (unescape_path s))"

text \<open>In a host only non-ASCII bytes and the percent sign itself may be escaped.\<close>

definition host_literal :: "char \<Rightarrow> bool" where
  "host_literal c \<longleftrightarrow> 128 \<le> code c \<or> is_lower c \<or> is_upper c \<or> is_digit c \<or>
     c \<in> set ''-_.~!$&()*+,;=:[]<>'' \<or> c = CHR 0x27 \<or> c = CHR 0x22"

fun unescape_host :: "string \<Rightarrow> string option" where
  "unescape_host [] = Some []"
| "unescape_host (c # s) =
     (if c = CHR ''%'' then
        (case s of
           a # b # r \<Rightarrow>
             if is_hex a \<and> is_hex b \<and> (8 \<le> the (hex_val a) \<or> (a = CHR ''2'' \<and> b = CHR ''5''))
             then map_option (\<lambda>t. hex_pair a b # t) (unescape_host r) else None
         | _ \<Rightarrow> None)
      else if host_literal c then map_option (\<lambda>t. c # t) (unescape_host s) else None)"

lemma unescape_path_plain: "CHR ''%'' \<notin> set s \<Longrightarrow> unescape_path s = Some s"
  by (induction s) auto

lemma unescape_host_plain: "CHR ''%'' \<notin> set s \<Longrightarrow> list_all host_literal s \<Longrightarrow> unescape_host s = Some s"
  by (induction s) auto

section \<open>URLs\<close>

record url =
  u_scheme :: string
  u_opaque :: string
  u_user :: "string option"
  u_host :: string
  u_path :: string
  u_raw_path :: string
  u_force_query :: bool
  u_query :: string
  u_fragment :: string
  u_raw_fragment :: string

definition empty_url :: url where
  "empty_url = \<lparr>u_scheme = [], u_opaque = [], u_user = None, u_host = [], u_path = [], u_raw_path = [],
     u_force_query = False, u_query = [], u_fragment = [], u_raw_fragment = []\<rparr>"

text \<open>\<open>strings.Cut\<close> at a byte: what is before the first one, and what is after it.\<close>

definition cut_byte :: "char \<Rightarrow> string \<Rightarrow> string \<times> string" where
  "cut_byte c s = (takeWhile (\<lambda>d. d \<noteq> c) s, drop 1 (dropWhile (\<lambda>d. d \<noteq> c) s))"

lemma takeWhile_until: "c \<notin> set s \<Longrightarrow> takeWhile (\<lambda>d. d \<noteq> c) (s @ c # t) = s"
  by (induction s) auto

lemma dropWhile_until: "c \<notin> set s \<Longrightarrow> dropWhile (\<lambda>d. d \<noteq> c) (s @ c # t) = c # t"
  by (induction s) auto

lemma takeWhile_absent: "c \<notin> set s \<Longrightarrow> takeWhile (\<lambda>d. d \<noteq> c) s = s"
  by (induction s) auto

lemma dropWhile_absent: "c \<notin> set s \<Longrightarrow> dropWhile (\<lambda>d. d \<noteq> c) s = []"
  by (induction s) auto

lemma cut_byte_append: "c \<notin> set s \<Longrightarrow> cut_byte c (s @ c # t) = (s, t)"
  by (simp add: cut_byte_def takeWhile_until dropWhile_until)

lemma cut_byte_absent: "c \<notin> set s \<Longrightarrow> cut_byte c s = (s, [])"
  by (simp add: cut_byte_def takeWhile_absent dropWhile_absent)

definition scheme_char :: "char \<Rightarrow> bool" where
  "scheme_char c \<longleftrightarrow> is_digit c \<or> c \<in> set ''+-.''"

definition letter :: "char \<Rightarrow> bool" where
  "letter c \<longleftrightarrow> is_lower c \<or> is_upper c"

text \<open>\<open>getScheme\<close>: \<open>pre\<close> is what has been read; None is the missing-scheme error.\<close>

fun get_scheme :: "string \<Rightarrow> string \<Rightarrow> (string \<times> string) option" where
  "get_scheme pre [] = Some ([], pre)"
| "get_scheme pre (c # s) =
     (if letter c then get_scheme (pre @ [c]) s
      else if scheme_char c then (if pre = [] then Some ([], c # s) else get_scheme (pre @ [c]) s)
      else if c = CHR '':'' then (if pre = [] then None else Some (pre, s))
      else Some ([], pre @ c # s))"

lemma get_scheme_letters:
  "list_all letter w \<Longrightarrow> pre @ w \<noteq> [] \<Longrightarrow> get_scheme pre (w @ CHR '':'' # s) = Some (pre @ w, s)"
proof (induction w arbitrary: pre)
  case Nil
  then show ?case by (simp add: letter_def scheme_char_def char_class_defs)
qed simp

text \<open>An optional port: empty, or a colon and digits.\<close>

definition valid_optional_port :: "string \<Rightarrow> bool" where
  "valid_optional_port p \<longleftrightarrow> p = [] \<or> (hd p = CHR '':'' \<and> list_all is_digit (tl p))"

definition parse_host :: "string \<Rightarrow> string option" where
  "parse_host h =
     (if CHR ''['' \<in> set h then
        (case last_index_byte h (CHR '']'') of
           None \<Rightarrow> None
         | Some i \<Rightarrow>
             if \<not> has_prefix h ''['' \<or> \<not> valid_optional_port (drop (Suc i) h) then None
             else if CHR '':'' \<in> set (take (i - 1) (tl h)) \<and> parse_ip (takeWhile (\<lambda>c. c \<noteq> CHR ''%'') (take (i - 1) (tl h))) \<noteq> []
             then Some h else None)
      else
        (case last_index_byte h (CHR '':'') of
           Some i \<Rightarrow> if valid_optional_port (drop i h) then unescape_host h else None
         | None \<Rightarrow> unescape_host h))"

definition userinfo_char :: "char \<Rightarrow> bool" where
  "userinfo_char c \<longleftrightarrow> is_lower c \<or> is_upper c \<or> is_digit c \<or> c \<in> set ''-._:~!$&()*+,;=%@'' \<or> c = CHR 0x27"

definition parse_authority :: "string \<Rightarrow> (string option \<times> string) option" where
  "parse_authority a =
     (case last_index_byte a (CHR ''@'') of
        None \<Rightarrow> map_option (\<lambda>h. (None, h)) (parse_host a)
      | Some i \<Rightarrow>
          (case parse_host (drop (Suc i) a) of
             None \<Rightarrow> None
           | Some h \<Rightarrow>
               if \<not> list_all userinfo_char (take i a) then None
               else if unescape_path (take i a) = None then None else Some (Some (take i a), h)))"

definition ctl_byte :: "char \<Rightarrow> bool" where
  "ctl_byte c \<longleftrightarrow> code c < 32 \<or> code c = 127"

text \<open>The path part: after the authority, when there is one.\<close>

definition set_path :: "url \<Rightarrow> string \<Rightarrow> url option" where
  "set_path u p = map_option (\<lambda>q. u\<lparr>u_path := q, u_raw_path := p\<rparr>) (unescape_path p)"

definition parse_rest :: "url \<Rightarrow> string \<Rightarrow> url option" where
  "parse_rest u rest =
     (if \<not> has_prefix rest ''/'' \<and> u_scheme u \<noteq> [] then Some (u\<lparr>u_opaque := rest\<rparr>)
      else if \<not> has_prefix rest ''/'' \<and> CHR '':'' \<in> set (fst (cut_byte (CHR ''/'') rest)) then None
      else if (u_scheme u \<noteq> [] \<or> \<not> has_prefix rest ''///'') \<and> has_prefix rest ''//'' then
        (let a = takeWhile (\<lambda>c. c \<noteq> CHR ''/'') (drop 2 rest); p = dropWhile (\<lambda>c. c \<noteq> CHR ''/'') (drop 2 rest) in
         case parse_authority a of
           None \<Rightarrow> None
         | Some (user, host) \<Rightarrow> set_path (u\<lparr>u_user := user, u_host := host\<rparr>) p)
      else set_path u rest)"

definition parse_no_fragment :: "string \<Rightarrow> url option" where
  "parse_no_fragment raw =
     (if list_ex ctl_byte raw then None
      else if raw = ''*'' then Some (empty_url\<lparr>u_path := ''*'', u_raw_path := ''*''\<rparr>)
      else case get_scheme [] raw of
        None \<Rightarrow> None
      | Some (sch, rest) \<Rightarrow>
          (let u = empty_url\<lparr>u_scheme := to_lower sch\<rparr> in
           if has_suffix rest ''?'' \<and> count_byte rest (CHR ''?'') = 1
           then parse_rest (u\<lparr>u_force_query := True\<rparr>) (butlast rest)
           else (let (r, q) = cut_byte (CHR ''?'') rest in parse_rest (u\<lparr>u_query := q\<rparr>) r)))"

definition url_parse :: "string \<Rightarrow> url option" where
  "url_parse raw =
     (let (u, frag) = cut_byte (CHR ''#'') raw in
      case parse_no_fragment u of
        None \<Rightarrow> None
      | Some r \<Rightarrow> if frag = [] then Some r else map_option (\<lambda>f. r\<lparr>u_fragment := f, u_raw_fragment := frag\<rparr>) (unescape_path frag))"

section \<open>Host name and port\<close>

text \<open>\<open>splitHostPort\<close> of the URL's host, and the two methods on it.\<close>

definition split_url_host :: "string \<Rightarrow> string \<times> string" where
  "split_url_host hp =
     (let (h, p) = (case last_index_byte hp (CHR '':'') of
          Some i \<Rightarrow> if valid_optional_port (drop i hp) then (take i hp, drop (Suc i) hp) else (hp, [])
        | None \<Rightarrow> (hp, []))
      in if has_prefix h ''['' \<and> has_suffix h '']'' then (butlast (tl h), p) else (h, p))"

definition url_hostname :: "url \<Rightarrow> string" where "url_hostname u = fst (split_url_host (u_host u))"
definition url_port :: "url \<Rightarrow> string" where "url_port u = snd (split_url_host (u_host u))"

section \<open>Plain URLs\<close>

text \<open>A host of letters, digits, dots and dashes; a port; a path and query without special bytes.\<close>

definition name_char :: "char \<Rightarrow> bool" where
  "name_char c \<longleftrightarrow> is_lower c \<or> is_upper c \<or> is_digit c \<or> c = CHR ''.'' \<or> c = CHR ''-''"

definition path_char :: "char \<Rightarrow> bool" where
  "path_char c \<longleftrightarrow> \<not> ctl_byte c \<and> c \<noteq> CHR ''%'' \<and> c \<noteq> CHR ''?'' \<and> c \<noteq> CHR ''#''"

definition query_char :: "char \<Rightarrow> bool" where
  "query_char c \<longleftrightarrow> \<not> ctl_byte c \<and> c \<noteq> CHR ''#''"

definition port_text :: "string option \<Rightarrow> string" where
  "port_text p = (case p of None \<Rightarrow> [] | Some d \<Rightarrow> '':'' @ d)"

definition query_text :: "string \<Rightarrow> string" where
  "query_text q = (if q = [] then [] else ''?'' @ q)"

lemma name_char_facts:
  assumes "name_char c"
  shows "c \<noteq> CHR '':'' \<and> c \<noteq> CHR ''['' \<and> c \<noteq> CHR '']'' \<and> c \<noteq> CHR ''@'' \<and> c \<noteq> CHR ''/'' \<and> c \<noteq> CHR ''?'' \<and>
    c \<noteq> CHR ''%'' \<and> c \<noteq> CHR ''#'' \<and> \<not> ctl_byte c \<and> host_literal c"
  using assms by (auto simp: name_char_def char_class_defs ctl_byte_def host_literal_def)

lemma letter_facts:
  assumes "letter c"
  shows "c \<noteq> CHR ''#'' \<and> \<not> ctl_byte c"
proof -
  have "65 \<le> code c \<and> code c \<le> 122" using assms by (auto simp: letter_def char_class_defs)
  then show ?thesis by (auto simp: ctl_byte_def)
qed

lemma digit_name: "is_digit c \<Longrightarrow> name_char c"
  by (simp add: name_char_def)

lemma valid_port_text: "list_all is_digit d \<Longrightarrow> valid_optional_port ('':'' @ d)"
  by (simp add: valid_optional_port_def)

lemma parse_host_plain:
  assumes "list_all name_char h" and "p = None \<or> (\<exists>d. p = Some d \<and> list_all is_digit d)"
  shows "parse_host (h @ port_text p) = Some (h @ port_text p)"
    and "split_url_host (h @ port_text p) = (h, case p of None \<Rightarrow> [] | Some d \<Rightarrow> d)"
proof -
  have hc: "CHR '':'' \<notin> set h" "CHR ''['' \<notin> set h" "CHR ''%'' \<notin> set h"
    using assms(1) name_char_facts by (force simp: list_all_iff)+
  have hl: "list_all host_literal h" using assms(1) name_char_facts by (auto simp: list_all_iff)
  have pre: "\<not> has_prefix h ''[''" using hc(2) by (cases h) auto
  have "parse_host (h @ port_text p) = Some (h @ port_text p) \<and>
    split_url_host (h @ port_text p) = (h, case p of None \<Rightarrow> [] | Some d \<Rightarrow> d)"
  proof (cases p)
    case None
    then show ?thesis
      using hc hl pre by (simp add: port_text_def parse_host_def split_url_host_def unescape_host_plain
        last_index_byte_None_iff [THEN iffD2])
  next
    case (Some d)
    then have d: "list_all is_digit d" using assms(2) by auto
    then have dn: "list_all name_char d" by (auto simp: list_all_iff digit_name)
    have dc: "CHR '':'' \<notin> set d" "CHR ''['' \<notin> set d" "CHR ''%'' \<notin> set d" "list_all host_literal d"
      using dn name_char_facts by (force simp: list_all_iff)+
    have li: "last_index_byte (h @ CHR '':'' # d) (CHR '':'') = Some (length h)"
      by (rule last_index_byte_append [OF dc(1)])
    have "valid_optional_port (CHR '':'' # d)" using d by (simp add: valid_optional_port_def)
    moreover have "unescape_host (h @ CHR '':'' # d) = Some (h @ CHR '':'' # d)"
      using hc dc hl by (intro unescape_host_plain) (auto simp: host_literal_def)
    ultimately show ?thesis
      using Some hc dc li pre by (simp add: port_text_def parse_host_def split_url_host_def)
  qed
  then show "parse_host (h @ port_text p) = Some (h @ port_text p)"
    "split_url_host (h @ port_text p) = (h, case p of None \<Rightarrow> [] | Some d \<Rightarrow> d)" by blast+
qed

text \<open>
  Parsing a plain URL: \<open>sch://host[:port]path[?query]\<close>, with a fragment that decodes. The scheme is
  lower-cased, the rest is kept.
\<close>

lemma path_char_facts: "path_char c \<Longrightarrow> c \<noteq> CHR ''?'' \<and> c \<noteq> CHR ''%'' \<and> c \<noteq> CHR ''#'' \<and> \<not> ctl_byte c"
  by (simp add: path_char_def)

lemma url_parse_plain:
  assumes sch: "list_all letter sch" "sch \<noteq> []"
    and host: "list_all name_char h" and port: "p = None \<or> (\<exists>d. p = Some d \<and> list_all is_digit d)"
    and path: "list_all path_char pth" "pth = [] \<or> hd pth = CHR ''/''"
    and query: "list_all query_char q"
    and frag: "fr = [] \<or> (\<exists>f g. fr = CHR ''#'' # f \<and> unescape_path f = Some g)"
  shows "\<exists>u. url_parse (sch @ ''://'' @ h @ port_text p @ pth @ query_text q @ fr) = Some u \<and>
    u_scheme u = to_lower sch \<and> u_host u = h @ port_text p \<and> u_path u = pth \<and> u_query u = q \<and>
    u_opaque u = [] \<and> u_user u = None"
proof -
  let ?hp = "h @ port_text p"
  let ?rest = "''//'' @ ?hp @ pth"
  let ?raw = "sch @ ''://'' @ ?hp @ pth @ query_text q"
  have colon: "\<not> ctl_byte (CHR '':'')" by (simp add: ctl_byte_def)
  have qmark: "\<not> ctl_byte (CHR ''?'')" "\<not> ctl_byte (CHR ''/'')" by (simp_all add: ctl_byte_def)
  have nc: "x \<in> set ?hp \<Longrightarrow> name_char x \<or> x = CHR '':''" for x
    using host port digit_name by (cases p) (auto simp: list_all_iff port_text_def)
  have hpc: "x \<in> set ?hp \<Longrightarrow> x \<noteq> CHR ''/'' \<and> x \<noteq> CHR ''?'' \<and> x \<noteq> CHR ''#'' \<and> x \<noteq> CHR ''@'' \<and> \<not> ctl_byte x" for x
    using nc [of x] name_char_facts [of x] colon by auto
  have pc: "x \<in> set pth \<Longrightarrow> x \<noteq> CHR ''?'' \<and> x \<noteq> CHR ''%'' \<and> x \<noteq> CHR ''#'' \<and> \<not> ctl_byte x" for x
    using path(1) path_char_facts by (auto simp: list_all_iff)
  have sc: "x \<in> set sch \<Longrightarrow> x \<noteq> CHR ''#'' \<and> \<not> ctl_byte x" for x
    using sch(1) letter_facts by (auto simp: list_all_iff)
  have qc: "x \<in> set (query_text q) \<Longrightarrow> x \<noteq> CHR ''#'' \<and> \<not> ctl_byte x" for x
    using query qmark by (auto simp: list_all_iff query_char_def query_text_def split: if_splits)
  have nf: "CHR ''#'' \<notin> set ?raw" using hpc pc sc qc by auto
  have nctl: "\<not> list_ex ctl_byte ?raw" using hpc pc sc qc colon qmark by (auto simp: list_ex_iff)
  have gs: "get_scheme [] ?raw = Some (sch, ?rest @ query_text q)"
    using get_scheme_letters [OF sch(1), of "[]" "''//'' @ ?hp @ pth @ query_text q"] sch(2) by simp
  have nq: "CHR ''?'' \<notin> set ?rest" using hpc pc by auto
  have au: "takeWhile (\<lambda>c. c \<noteq> CHR ''/'') (?hp @ pth) = ?hp \<and> dropWhile (\<lambda>c. c \<noteq> CHR ''/'') (?hp @ pth) = pth"
  proof -
    have ns: "CHR ''/'' \<notin> set ?hp" using hpc by blast
    show ?thesis
    proof (cases pth)
      case Nil then show ?thesis using takeWhile_absent [OF ns] dropWhile_absent [OF ns] by simp
    next
      case (Cons c r)
      then have "pth = CHR ''/'' # r" using path(2) by simp
      then show ?thesis using takeWhile_until [OF ns, of r] dropWhile_until [OF ns, of r] by simp
    qed
  qed
  have "CHR ''@'' \<notin> set ?hp" using hpc by blast
  then have pa: "parse_authority ?hp = Some (None, ?hp)"
    using parse_host_plain(1) [OF host port] by (simp add: parse_authority_def last_index_byte_None_iff [THEN iffD2])
  have up: "unescape_path pth = Some pth" using pc by (intro unescape_path_plain) blast
  have pr: "parse_rest u ?rest = Some (u\<lparr>u_user := None, u_host := ?hp, u_path := pth, u_raw_path := pth\<rparr>)" if "u_scheme u \<noteq> []" for u
    using that au pa up by (simp add: parse_rest_def set_path_def Let_def)
  have ls: "to_lower sch \<noteq> []" using sch(2) by (cases sch) auto
  have nstar: "?raw \<noteq> ''*''" using sch by (cases sch) auto
  obtain fq where pnf: "parse_no_fragment ?raw = Some (empty_url\<lparr>u_scheme := to_lower sch, u_force_query := fq,
      u_query := q, u_user := None, u_host := ?hp, u_path := pth, u_raw_path := pth\<rparr>)"
  proof (cases "q = []")
    case True
    have "\<not> has_suffix ?rest ''?''" using nq set_mono_suffix [of "''?''" ?rest] by auto
    then have "parse_no_fragment ?raw = parse_rest (empty_url\<lparr>u_scheme := to_lower sch\<rparr>\<lparr>u_query := []\<rparr>) ?rest"
      using True nctl nstar gs cut_byte_absent [OF nq] by (simp add: parse_no_fragment_def query_text_def Let_def)
    then show ?thesis using that [of False] pr ls True by (simp add: empty_url_def)
  next
    case False
    have "count_byte (?rest @ query_text q) (CHR ''?'') = 1 \<Longrightarrow> \<not> has_suffix (?rest @ query_text q) ''?''"
    proof
      assume c: "count_byte (?rest @ query_text q) (CHR ''?'') = 1" and s: "has_suffix (?rest @ query_text q) ''?''"
      have "last (query_text q) = CHR ''?''" using s False by (simp add: suffix_singleton_iff query_text_def)
      then have "last q = CHR ''?''" using False by (simp add: query_text_def)
      then have "0 < count_byte q (CHR ''?'')" using False by (auto simp: count_byte_def filter_empty_conv) (metis last_in_set)
      then show False using c False by (simp add: query_text_def)
    qed
    then have "parse_no_fragment ?raw = parse_rest (empty_url\<lparr>u_scheme := to_lower sch\<rparr>\<lparr>u_query := q\<rparr>) ?rest"
      using False nctl nstar gs cut_byte_append [OF nq, of q]
      by (auto simp: parse_no_fragment_def query_text_def Let_def)
    then show ?thesis using that [of False] pr ls by (simp add: empty_url_def)
  qed
  show ?thesis
  proof (cases "fr = []")
    case True
    then show ?thesis using pnf cut_byte_absent [OF nf] by (simp add: url_parse_def empty_url_def)
  next
    case False
    then obtain f g where f: "fr = CHR ''#'' # f" "unescape_path f = Some g" using frag by blast
    then show ?thesis using pnf cut_byte_append [OF nf, of f] by (simp add: url_parse_def empty_url_def)
  qed
qed

end
