(* ===== verification/UrlCanon.thy ===== *)
theory UrlCanon
  imports GoUrl Sha256
begin

text \<open>
  \<^verbatim>\<open>internal/urlcanon\<close>: canonical URLs, artifact families and cache keys, shared by client and server.
\<close>

section \<open>Canonical form\<close>

datatype canon_error =
    Empty_URL | URL_Too_Long nat | Invalid_URL | Unsupported_Scheme string | Missing_Host
  | Invalid_Host | Invalid_Port string

text \<open>\<open>net.LookupPort\<close> on the digits a parsed URL can have as its port.\<close>

definition lookup_port :: "string \<Rightarrow> nat option" where
  "lookup_port s = (if digits_val s \<le> 65535 then Some (digits_val s) else None)"

definition contains_any :: "string \<Rightarrow> string \<Rightarrow> bool" where
  "contains_any s cs = list_ex (\<lambda>c. c \<in> set cs) s"

definition canonicalize :: "string \<Rightarrow> canon_error + string" where
  "canonicalize raw =
     (if raw = [] then Inl Empty_URL
      else if 8192 < length raw then Inl (URL_Too_Long (length raw))
      else case url_parse raw of
        None \<Rightarrow> Inl Invalid_URL
      | Some u \<Rightarrow>
          (let scheme = to_lower (u_scheme u) in
           if scheme \<noteq> ''http'' \<and> scheme \<noteq> ''https'' then Inl (Unsupported_Scheme (u_scheme u))
           else if url_hostname u = [] then Inl Missing_Host
           else
             (let host = to_lower (trim_suffix (url_hostname u) ''.'') in
              if contains_any host ('' '' @ [CHR 0x09, CHR 0x0D, CHR 0x0A]) then Inl Invalid_Host
              else
                (let port = (if (scheme = ''http'' \<and> url_port u = ''80'') \<or> (scheme = ''https'' \<and> url_port u = ''443'')
                             then [] else url_port u);
                     tail = (if u_path u = [] then ''/'' else u_path u) @
                            (if u_query u \<noteq> [] then ''?'' @ u_query u else [])
                 in if port \<noteq> [] then
                      (case lookup_port port of
                         None \<Rightarrow> Inl (Invalid_Port port)
                       | Some p \<Rightarrow>
                           if p = 0 then Inl (Invalid_Port port)
                           else Inr (scheme @ ''://'' @ join_host_port host port @ tail))
                    else if CHR '':'' \<in> set host \<and> \<not> has_prefix host ''['' then
                      Inr (scheme @ ''://['' @ host @ '']'' @ tail)
                    else Inr (scheme @ ''://'' @ host @ tail)))))"

definition host_port :: "string \<Rightarrow> (string \<times> string) option" where
  "host_port canonical =
     (case url_parse canonical of
        None \<Rightarrow> None
      | Some u \<Rightarrow> Some (url_hostname u,
          if url_port u = [] then (if u_scheme u = ''https'' then ''443'' else ''80'') else url_port u))"

section \<open>Families and cache keys\<close>

definition cache_key :: "string \<Rightarrow> string \<Rightarrow> string" where
  "cache_key canonical family = bytes_hex (sha256 (str_bytes (family @ [CHR 0x0A] @ canonical)))"

definition family_github_release :: string where "family_github_release = ''github-release''"
definition family_pypi_file :: string where "family_pypi_file = ''pypi-file''"
definition family_npm_tarball :: string where "family_npm_tarball = ''npm-tarball''"
definition family_docker_blob :: string where "family_docker_blob = ''docker-blob''"
definition family_generic_static :: string where "family_generic_static = ''generic-static''"

definition static_exts :: "string list" where
  "static_exts =
     [''.zip'', ''.tar'', ''.tgz'', ''.gz'', ''.xz'', ''.bz2'', ''.7z'', ''.zst'', ''.br'',
      ''.whl'', ''.jar'', ''.war'', ''.deb'', ''.rpm'', ''.apk'', ''.iso'', ''.img'',
      ''.dmg'', ''.pkg'', ''.exe'', ''.msi'', ''.bin'', ''.ova'', ''.vhd'', ''.sqsh'',
      ''.gem'', ''.nupkg'', ''.AppImage'', ''.snap'']"

definition static_family :: "string \<Rightarrow> string" where
  "static_family path =
     (if list_ex (\<lambda>ext. has_suffix (to_lower path) ext) static_exts then family_generic_static else [])"

definition classify_family :: "url \<Rightarrow> string" where
  "classify_family u =
     (let host = to_lower (trim_suffix (url_hostname u) ''.''); path = u_path u in
      if host = ''github.com'' then
        (if contains path ''/releases/download/'' \<or> contains path ''/archive/''
         then family_github_release else static_family path)
      else if host = ''objects.githubusercontent.com'' \<or> host = ''codeload.github.com'' \<or>
              has_suffix host ''.releases.githubusercontent.com'' then family_github_release
      else if host = ''files.pythonhosted.org'' \<or> host = ''pypi.org'' then family_pypi_file
      else if host = ''registry.npmjs.org'' \<or> has_suffix host ''.npmjs.org'' then family_npm_tarball
      else if host = ''registry-1.docker.io'' \<or> host = ''registry.docker.io'' \<or>
              host = ''production.cloudflare.docker.com'' \<or> has_suffix host ''.docker.io'' then family_docker_blob
      else static_family path)"

text \<open>The canonical URL, the family (empty when not cacheable) and the cache key.\<close>

definition family_of_raw :: "string \<Rightarrow> canon_error + string \<times> string \<times> string" where
  "family_of_raw raw =
     (case canonicalize raw of
        Inl e \<Rightarrow> Inl e
      | Inr canonical \<Rightarrow>
          (case url_parse canonical of
             None \<Rightarrow> Inl Invalid_URL
           | Some u \<Rightarrow>
               (let family = classify_family u in
                if family = [] then Inr (canonical, [], [])
                else Inr (canonical, family, cache_key canonical family))))"

section \<open>Canonical form of plain URLs\<close>

lemma name_not_blank: "name_char c \<Longrightarrow> c \<noteq> CHR '' ''"
  by (auto simp: name_char_def char_class_defs)

lemma to_lower_name: "list_all name_char h \<Longrightarrow> list_all name_char (to_lower h)"
proof -
  have "name_char c \<Longrightarrow> name_char (lower_char c)" for c
    using code_upper_lower [of c] by (cases "is_upper c") (auto simp: name_char_def char_class_defs)
  then show "list_all name_char h \<Longrightarrow> list_all name_char (to_lower h)" by (simp add: list_all_iff to_lower_def)
qed

lemma trim_suffix_name: "list_all name_char h \<Longrightarrow> list_all name_char (trim_suffix h x)"
  by (auto simp: trim_suffix_def list_all_iff dest: in_set_takeD)

text \<open>What the port becomes: dropped when it is the scheme's default.\<close>

definition kept_port :: "string \<Rightarrow> string option \<Rightarrow> string option" where
  "kept_port scheme p =
     (case p of None \<Rightarrow> None
      | Some d \<Rightarrow> if d = [] \<or> (scheme = ''http'' \<and> d = ''80'') \<or> (scheme = ''https'' \<and> d = ''443'') then None else Some d)"

definition port_ok :: "string option \<Rightarrow> bool" where
  "port_ok p \<longleftrightarrow> (case p of None \<Rightarrow> True
     | Some d \<Rightarrow> list_all is_digit d \<and> (d \<noteq> [] \<longrightarrow> 0 < digits_val d \<and> digits_val d \<le> 65535))"

lemma canonicalize_plain:
  assumes sch: "to_lower sch \<in> {''http'', ''https''}"
    and host: "list_all name_char h" "h \<noteq> []" and port: "port_ok p"
    and path: "list_all path_char pth" "pth = [] \<or> hd pth = CHR ''/''"
    and query: "list_all query_char q"
    and frag: "fr = [] \<or> (\<exists>f g. fr = CHR ''#'' # f \<and> unescape_path f = Some g)"
    and len: "length (sch @ ''://'' @ h @ port_text p @ pth @ query_text q @ fr) \<le> 8192"
  shows "canonicalize (sch @ ''://'' @ h @ port_text p @ pth @ query_text q @ fr) =
    Inr (to_lower sch @ ''://'' @ to_lower (trim_suffix h ''.'') @ port_text (kept_port (to_lower sch) p) @
         (if pth = [] then ''/'' else pth) @ query_text q)"
proof -
  let ?raw = "sch @ ''://'' @ h @ port_text p @ pth @ query_text q @ fr"
  have letters: "list_all letter sch" "sch \<noteq> []"
  proof -
    have "letter c" if "letter (lower_char c)" for c
      using that code_upper_lower [of c] by (cases "is_upper c") (auto simp: letter_def)
    moreover have "list_all letter (to_lower sch)"
      using sch by (auto simp: letter_def char_class_defs)
    ultimately show "list_all letter sch" by (auto simp: list_all_iff to_lower_def)
    show "sch \<noteq> []" using sch by auto
  qed
  have pd: "p = None \<or> (\<exists>d. p = Some d \<and> list_all is_digit d)" using port by (auto simp: port_ok_def split: option.splits)
  obtain u where u: "url_parse ?raw = Some u" "u_scheme u = to_lower sch" "u_host u = h @ port_text p"
    "u_path u = pth" "u_query u = q"
    using url_parse_plain [OF letters host(1) pd path query frag] by blast
  have hp: "url_hostname u = h" "url_port u = (case p of None \<Rightarrow> [] | Some d \<Rightarrow> d)"
    using parse_host_plain(2) [OF host(1) pd] u(3) by (simp_all add: url_hostname_def url_port_def)
  let ?h = "to_lower (trim_suffix h ''.'')"
  have hn: "list_all name_char ?h" using host by (intro to_lower_name trim_suffix_name)
  have hc: "c \<in> set ?h \<Longrightarrow> c \<noteq> CHR '':'' \<and> \<not> ctl_byte c \<and> c \<noteq> CHR '' ''" for c
    using hn name_char_facts [of c] name_not_blank [of c] by (auto simp: list_all_iff)
  have ca: "\<not> contains_any ?h ('' '' @ [CHR 0x09, CHR 0x0D, CHR 0x0A])"
    using hc by (fastforce simp: contains_any_def list_ex_iff ctl_byte_def)
  have nc: "CHR '':'' \<notin> set ?h" using hc by blast
  have raw: "?raw \<noteq> []" by simp
  show ?thesis
  proof (cases "kept_port (to_lower sch) p")
    case None
    then have "(if (to_lower sch = ''http'' \<and> url_port u = ''80'') \<or> (to_lower sch = ''https'' \<and> url_port u = ''443'')
                then [] else url_port u) = []"
      using hp by (auto simp: kept_port_def split: option.splits if_splits)
    then show ?thesis
      using raw len u hp sch host ca nc None
      by (simp add: canonicalize_def Let_def port_text_def query_text_def)
  next
    case (Some d)
    then have d: "(if (to_lower sch = ''http'' \<and> url_port u = ''80'') \<or> (to_lower sch = ''https'' \<and> url_port u = ''443'')
                then [] else url_port u) = d" "d \<noteq> []" "p = Some d"
      using hp by (auto simp: kept_port_def split: option.splits if_splits)
    then have "lookup_port d = Some (digits_val d)" "digits_val d \<noteq> 0"
      using port by (auto simp: lookup_port_def port_ok_def)
    then show ?thesis
      using raw len u hp sch host ca nc Some d
      by (simp add: canonicalize_def Let_def port_text_def query_text_def join_host_port_def)
  qed
qed

lemma digit_not_empty_text: "port_text (kept_port s p) = (case kept_port s p of None \<Rightarrow> [] | Some d \<Rightarrow> '':'' @ d)"
  by (simp add: port_text_def)

lemma kept_port_idem: "kept_port s (kept_port s p) = kept_port s p"
  by (auto simp: kept_port_def split: option.splits)

lemma kept_port_ok: "port_ok p \<Longrightarrow> port_ok (kept_port s p)"
  by (auto simp: kept_port_def port_ok_def split: option.splits)

section \<open>Properties\<close>

text \<open>
  The canonical form of a plain URL: scheme and host in lower case, one trailing dot of the host, the
  default port and the fragment dropped, an empty path made \<open>/\<close>, path and query kept. So URLs that
  differ only in these points share one cache key.
\<close>

theorem canonical_form:
  assumes "to_lower sch \<in> {''http'', ''https''}" and "list_all name_char h" and "h \<noteq> []" and "port_ok p"
    and "list_all path_char pth" and "pth = [] \<or> hd pth = CHR ''/''" and "list_all query_char q"
    and "fr = [] \<or> (\<exists>f g. fr = CHR ''#'' # f \<and> unescape_path f = Some g)"
    and "length (sch @ ''://'' @ h @ port_text p @ pth @ query_text q @ fr) \<le> 8192"
  shows "canonicalize (sch @ ''://'' @ h @ port_text p @ pth @ query_text q @ fr) =
    Inr (to_lower sch @ ''://'' @ to_lower (trim_suffix h ''.'') @ port_text (kept_port (to_lower sch) p) @
         (if pth = [] then ''/'' else pth) @ query_text q)"
  using assms by (rule canonicalize_plain)

theorem canonical_form_witness:
  "canonicalize ''HTTPS://GitHub.com.:443/a/b.zip?x=1#top'' = Inr ''https://github.com/a/b.zip?x=1''"
  using canonical_form [of "''HTTPS''" "''GitHub.com.''" "Some ''443''" "''/a/b.zip''" "''x=1''" "''#top''"]
  by (simp add: name_char_def path_char_def query_char_def ctl_byte_def char_class_defs port_ok_def digits_val_def
    digit_val_def port_text_def query_text_def kept_port_def trim_suffix_def suffix_to_prefix
    lower_char_def char_of_def bit_0)



text \<open>
  The path is not kept verbatim: it is written decoded. A path with an escaped question mark and the
  same path with a query have one canonical form and one cache key, and a path with an escaped percent
  sign has a canonical form that no longer parses, so the URL cannot be resolved.
\<close>

theorem canonical_decodes_path:
  "canonicalize ''https://h.io/a%3Fb.zip'' = canonicalize ''https://h.io/a?b.zip'' \<and>
   canonicalize ''https://h.io/1%25.zip'' = Inr ''https://h.io/1%.zip'' \<and>
   family_of_raw ''https://h.io/1%25.zip'' = Inl Invalid_URL"
proof -
  have p: "url_parse ''https://h.io/a%3Fb.zip'' = Some (empty_url\<lparr>u_scheme := ''https'', u_host := ''h.io'', u_path := ''/a?b.zip'', u_raw_path := ''/a%3Fb.zip''\<rparr>)"
    "url_parse ''https://h.io/a?b.zip'' = Some (empty_url\<lparr>u_scheme := ''https'', u_host := ''h.io'', u_path := ''/a'', u_raw_path := ''/a'', u_query := ''b.zip''\<rparr>)"
    "url_parse ''https://h.io/1%25.zip'' = Some (empty_url\<lparr>u_scheme := ''https'', u_host := ''h.io'', u_path := ''/1%.zip'', u_raw_path := ''/1%25.zip''\<rparr>)"
    "url_parse ''https://h.io/1%.zip'' = None"
    "split_url_host ''h.io'' = (''h.io'', [])" "to_lower ''h.io'' = ''h.io''" "to_lower ''https'' = ''https''"
    by code_simp+
  show ?thesis
    by (simp add: canonicalize_def family_of_raw_def p url_hostname_def url_port_def Let_def contains_any_def
      empty_url_def trim_suffix_def suffix_to_prefix del: to_lower_Cons)
qed

end
