(* ===== verification/Tasks.thy ===== *)
theory Tasks
  imports Dldw1
begin

text \<open>
  \<^verbatim>\<open>internal/transfer/tasks\<close>: the task states (\<^verbatim>\<open>state.go\<close>), the persistent store (\<^verbatim>\<open>store.go\<close>) and the
  call deduplication (\<^verbatim>\<open>singleflight.go\<close>). Stored tasks are never changed in place, so both maps hold
  values; the file holds the saved tasks and \<open>io\<close> says whether saving succeeds.
\<close>

section \<open>States\<close>

datatype status =
    Queued | Downloading | Downloaded | Uploading | Registering | Ready | Failed | Dead

definition terminal :: "status \<Rightarrow> bool" where
  "terminal s \<longleftrightarrow> s = Ready \<or> s = Dead"

fun transitions :: "status \<Rightarrow> status list" where
  "transitions Queued = [Downloading]"
| "transitions Downloading = [Downloaded, Failed]"
| "transitions Downloaded = [Uploading, Failed]"
| "transitions Uploading = [Registering, Failed]"
| "transitions Registering = [Ready, Failed]"
| "transitions Failed = [Downloading, Dead]"
| "transitions Ready = []"
| "transitions Dead = []"

definition can :: "status \<Rightarrow> status \<Rightarrow> bool" where
  "can s next = list_ex (\<lambda>n. n = next) (transitions s)"

datatype task_error = Not_Found | Conflict | Bad_Task | Illegal_Transition status status | Persist_Failed

definition validate_transition :: "status \<Rightarrow> status \<Rightarrow> task_error option" where
  "validate_transition from to = (if can from to then None else Some (Illegal_Transition from to))"

text \<open>The states in the order a task goes through them.\<close>

fun status_rank :: "status \<Rightarrow> nat" where
  "status_rank Queued = 0"
| "status_rank Downloading = 1"
| "status_rank Downloaded = 2"
| "status_rank Uploading = 3"
| "status_rank Registering = 4"
| "status_rank Failed = 5"
| "status_rank Ready = 6"
| "status_rank Dead = 7"

lemma status_rank_inj: "status_rank s = status_rank t \<Longrightarrow> s = t"
  by (cases s; cases t) simp_all

instantiation status :: linorder
begin

definition less_eq_status :: "status \<Rightarrow> status \<Rightarrow> bool" where
  "less_eq_status s t \<longleftrightarrow> status_rank s \<le> status_rank t"

definition less_status :: "status \<Rightarrow> status \<Rightarrow> bool" where
  "less_status s t \<longleftrightarrow> status_rank s < status_rank t"

instance
  by intro_classes (auto simp: less_eq_status_def less_status_def status_rank_inj)

end

lemma can_forward: "can s t \<Longrightarrow> s < t \<or> (s = Failed \<and> t = Downloading)"
  by (cases s) (auto simp: can_def less_status_def)

lemma terminal_no_edge: "terminal s \<longleftrightarrow> (\<forall>t. \<not> can s t)"
  by (cases s) (auto simp: terminal_def can_def)

section \<open>Tasks\<close>

record artifact =
  ar_size :: int
  ar_sha256 :: string
  ar_etag :: string
  ar_content_type :: string
  ar_storage_key :: string

record task =
  tk_id :: string
  tk_url :: string
  tk_canonical :: string
  tk_cache_key :: string
  tk_family :: string
  tk_status :: status
  tk_progress :: "int \<times> int"
  tk_error :: string
  tk_error_code :: string
  tk_retries :: int
  tk_max_retries :: int
  tk_artifact :: "artifact option"
  tk_created_by :: string
  tk_created_at :: time
  tk_updated_at :: time

definition new_task ::
    "(nat \<Rightarrow> byte list option) \<Rightarrow> time \<Rightarrow> string \<Rightarrow> string \<Rightarrow> string \<Rightarrow> string \<Rightarrow> string \<Rightarrow> int \<Rightarrow> task" where
  "new_task rnd now raw canonical key family by mx =
     \<lparr>tk_id = new_task_id rnd, tk_url = raw, tk_canonical = canonical, tk_cache_key = key, tk_family = family,
      tk_status = Queued, tk_progress = (0, 1), tk_error = [], tk_error_code = [], tk_retries = 0,
      tk_max_retries = mx, tk_artifact = None, tk_created_by = by, tk_created_at = now, tk_updated_at = now\<rparr>"

section \<open>The store\<close>

record task_store =
  st_path :: string
  st_by_id :: "(string, task) gomap"
  st_by_key :: "(string, task) gomap"
  st_disk :: "task list option"

definition empty_store :: "string \<Rightarrow> task_store" where
  "empty_store path = \<lparr>st_path = path, st_by_id = [], st_by_key = [], st_disk = None\<rparr>"

definition load_task :: "task_store \<Rightarrow> task \<Rightarrow> task_store" where
  "load_task s t =
     (let s' = s\<lparr>st_by_id := mput (tk_id t) t (st_by_id s)\<rparr>;
          newer = (case mget (st_by_key s) (tk_cache_key t) of
                     None \<Rightarrow> True | Some prev \<Rightarrow> tk_updated_at prev < tk_updated_at t)
      in if newer then s'\<lparr>st_by_key := mput (tk_cache_key t) t (st_by_key s)\<rparr> else s')"

datatype tasks_file = Task_List "task list" | No_Tasks_File | Tasks_Read_Error | Tasks_Bad_Json

definition new_store :: "string \<Rightarrow> bool \<Rightarrow> tasks_file \<Rightarrow> task_store option" where
  "new_store path mkdir_ok f =
     (let s = empty_store path in
      if path = [] \<or> \<not> mkdir_ok then Some s
      else case f of
        No_Tasks_File \<Rightarrow> Some s
      | Tasks_Read_Error \<Rightarrow> None
      | Tasks_Bad_Json \<Rightarrow> None
      | Task_List ts \<Rightarrow> Some ((foldl load_task s ts)\<lparr>st_disk := Some ts\<rparr>))"

definition persist :: "bool \<Rightarrow> task_store \<Rightarrow> task_error option \<times> task_store" where
  "persist io s =
     (if st_path s = [] then (None, s)
      else if io then (None, s\<lparr>st_disk := Some (map snd (st_by_id s))\<rparr>)
      else (Some Persist_Failed, s))"

definition store_both :: "task \<Rightarrow> task_store \<Rightarrow> task_store" where
  "store_both t s = s\<lparr>st_by_id := mput (tk_id t) t (st_by_id s), st_by_key := mput (tk_cache_key t) t (st_by_key s)\<rparr>"

definition put :: "bool \<Rightarrow> time \<Rightarrow> task_store \<Rightarrow> task \<Rightarrow> task_error option \<times> task_store" where
  "put io now s t =
     (if tk_id t = [] \<or> tk_cache_key t = [] then (Some Bad_Task, s)
      else
        (let cp = t\<lparr>tk_created_at := (if time_is_zero (tk_created_at t) then now else tk_created_at t),
                    tk_updated_at := now\<rparr>;
             store = persist io (store_both cp s)
         in case mget (st_by_id s) (tk_id t) of
              None \<Rightarrow> store
            | Some old \<Rightarrow>
                if \<not> can (tk_status old) (tk_status t) \<and> tk_status old \<noteq> tk_status t
                then (validate_transition (tk_status old) (tk_status t), s)
                else if tk_updated_at t < tk_updated_at old then (None, s)
                else store))"

definition update ::
    "bool \<Rightarrow> time \<Rightarrow> task_store \<Rightarrow> string \<Rightarrow> (task \<Rightarrow> task) \<Rightarrow>
     (task_error + task \<times> task_error option) \<times> task_store" where
  "update io now s tid fn =
     (case mget (st_by_id s) tid of
        None \<Rightarrow> (Inl Not_Found, s)
      | Some t \<Rightarrow>
          (let cp = fn t in
           if \<not> can (tk_status t) (tk_status cp) \<and> tk_status t \<noteq> tk_status cp then (Inl Conflict, s)
           else
             (let cp' = cp\<lparr>tk_updated_at := now\<rparr>; (e, s') = persist io (store_both cp' s)
              in (Inr (cp', e), s'))))"

definition get :: "task_store \<Rightarrow> string \<Rightarrow> task_error + task" where
  "get s tid = (case mget (st_by_id s) tid of None \<Rightarrow> Inl Not_Found | Some t \<Rightarrow> Inr t)"

definition get_by_cache_key :: "task_store \<Rightarrow> string \<Rightarrow> task_error + task" where
  "get_by_cache_key s key = (case mget (st_by_key s) key of None \<Rightarrow> Inl Not_Found | Some t \<Rightarrow> Inr t)"

definition list_tasks :: "task_store \<Rightarrow> task list" where
  "list_tasks s = rev (sort_key tk_created_at (rev (map snd (st_by_id s))))"

definition delete :: "bool \<Rightarrow> task_store \<Rightarrow> string \<Rightarrow> task_error option \<times> task_store" where
  "delete io s tid =
     (case mget (st_by_id s) tid of
        None \<Rightarrow> (Some Not_Found, s)
      | Some t \<Rightarrow>
          (let s1 = s\<lparr>st_by_id := mdel tid (st_by_id s)\<rparr>;
               s2 = (case mget (st_by_key s) (tk_cache_key t) of
                       Some k \<Rightarrow> if tk_id k = tid then s1\<lparr>st_by_key := mdel (tk_cache_key t) (st_by_key s)\<rparr> else s1
                     | None \<Rightarrow> s1)
           in persist io s2))"

section \<open>The invariant\<close>

text \<open>The two maps agree: an entry by key is the entry of its id, under its own key.\<close>

definition store_inv :: "task_store \<Rightarrow> bool" where
  "store_inv s \<longleftrightarrow>
     (\<forall>i t. mget (st_by_id s) i = Some t \<longrightarrow> tk_id t = i) \<and>
     (\<forall>k t. mget (st_by_key s) k = Some t \<longrightarrow> tk_cache_key t = k \<and> mget (st_by_id s) (tk_id t) = Some t)"

text \<open>A change of a task that the callers make: id, key and family stay.\<close>

definition keeps_identity :: "(task \<Rightarrow> task) \<Rightarrow> bool" where
  "keeps_identity fn \<longleftrightarrow> (\<forall>t. tk_id (fn t) = tk_id t \<and> tk_cache_key (fn t) = tk_cache_key t)"

lemma persist_fields:
  assumes "persist io s = (e, s')"
  shows "st_by_id s' = st_by_id s" "st_by_key s' = st_by_key s" "st_path s' = st_path s"
  using assms by (auto simp: persist_def split: if_splits)

lemma store_both_inv:
  assumes "store_inv s" and "\<And>old. mget (st_by_id s) (tk_id t) = Some old \<Longrightarrow> tk_cache_key old = tk_cache_key t"
  shows "store_inv (store_both t s)"
  using assms unfolding store_inv_def store_both_def by (auto split: if_splits)

lemma persist_inv: "persist io s = (e, s') \<Longrightarrow> store_inv s' = store_inv s"
  by (simp add: store_inv_def persist_fields)

lemma put_inv:
  assumes "put io now s t = (e, s')" and "store_inv s"
    and "\<And>old. mget (st_by_id s) (tk_id t) = Some old \<Longrightarrow> tk_cache_key old = tk_cache_key t"
  shows "store_inv s'"
proof -
  let ?cp = "t\<lparr>tk_created_at := (if time_is_zero (tk_created_at t) then now else tk_created_at t), tk_updated_at := now\<rparr>"
  have i: "store_inv (store_both ?cp s)" using assms(2,3) by (intro store_both_inv) auto
  have "s' = s \<or> persist io (store_both ?cp s) = (e, s')"
    using assms(1) by (auto simp: put_def Let_def split: option.splits if_splits)
  then show ?thesis using assms(2) i persist_inv by auto
qed

lemma update_stores:
  assumes "update io now s tid fn = (r, s')" and "store_inv s" and "keeps_identity fn"
  shows "store_inv s'"
proof (cases "mget (st_by_id s) tid")
  case None
  then show ?thesis using assms by (simp add: update_def)
next
  case (Some t)
  let ?cp = "(fn t)\<lparr>tk_updated_at := now\<rparr>"
  have tid: "tk_id t = tid" using assms(2) Some by (simp add: store_inv_def)
  then have "store_inv (store_both ?cp s)"
    using assms(2,3) Some by (intro store_both_inv) (auto simp: keeps_identity_def)
  moreover have "s' = s \<or> (\<exists>e. persist io (store_both ?cp s) = (e, s'))"
    using assms(1) Some by (auto simp: update_def Let_def split: if_splits prod.splits)
  ultimately show ?thesis using assms(2) persist_inv by auto
qed

lemma delete_inv:
  assumes "delete io s tid = (e, s')" and "store_inv s"
  shows "store_inv s'"
proof (cases "mget (st_by_id s) tid")
  case None
  then show ?thesis using assms by (simp add: delete_def)
next
  case (Some t)
  let ?s1 = "s\<lparr>st_by_id := mdel tid (st_by_id s)\<rparr>"
  let ?s2 = "case mget (st_by_key s) (tk_cache_key t) of
      Some k \<Rightarrow> if tk_id k = tid then ?s1\<lparr>st_by_key := mdel (tk_cache_key t) (st_by_key s)\<rparr> else ?s1
    | None \<Rightarrow> ?s1"
  have "store_inv ?s2"
  proof -
    have ids: "tk_id u = i" if "mget (st_by_id s) i = Some u" for i u
      using that assms(2) by (simp add: store_inv_def)
    have keys: "tk_cache_key u = k \<and> mget (st_by_id s) (tk_id u) = Some u" if "mget (st_by_key s) k = Some u" for k u
      using that assms(2) by (simp add: store_inv_def)
    have same: "k = tk_cache_key t" if "mget (st_by_key s) k = Some u" "tk_id u = tid" for k u
      using keys [OF that(1)] that(2) Some by simp
    show ?thesis
    proof (cases "\<exists>u. mget (st_by_key s) (tk_cache_key t) = Some u \<and> tk_id u = tid")
      case True
      then have "?s2 = ?s1\<lparr>st_by_key := mdel (tk_cache_key t) (st_by_key s)\<rparr>" by auto
      then show ?thesis using ids keys same by (auto simp: store_inv_def)
    next
      case False
      then have "?s2 = ?s1" by (auto split: option.splits)
      then show ?thesis using ids keys same False by (auto simp: store_inv_def)
    qed
  qed
  moreover have "persist io ?s2 = (e, s')" using assms(1) Some by (simp add: delete_def Let_def)
  ultimately show ?thesis using persist_inv by simp
qed

lemma load_task_inv:
  assumes "store_inv s" and "mget (st_by_id s) (tk_id t) = None"
  shows "store_inv (load_task s t)"
  using assms unfolding store_inv_def load_task_def Let_def
  by (auto split: option.splits if_splits)

section \<open>Runs of the store\<close>

text \<open>Puts and updates by any number of goroutines; each runs under the store's mutex.\<close>

inductive store_step :: "task_store \<Rightarrow> task_store \<Rightarrow> bool" where
  puts: "put io now s t = (e, s') \<Longrightarrow> store_step s s'"
| updates: "keeps_identity fn \<Longrightarrow> update io now s tid fn = (r, s') \<Longrightarrow> store_step s s'"

inductive_cases store_stepE: "store_step s s'"

lemma put_status:
  assumes "put io now s t = (e, s')" and "mget (st_by_id s) i = Some u"
  shows "\<exists>u'. mget (st_by_id s') i = Some u' \<and> (can (tk_status u) (tk_status u') \<or> tk_status u' = tk_status u)"
proof -
  let ?cp = "t\<lparr>tk_created_at := (if time_is_zero (tk_created_at t) then now else tk_created_at t), tk_updated_at := now\<rparr>"
  have "s' = s \<or> (persist io (store_both ?cp s) = (e, s') \<and>
      (tk_id t = i \<longrightarrow> can (tk_status u) (tk_status t) \<or> tk_status u = tk_status t))"
    using assms by (auto simp: put_def Let_def split: option.splits if_splits)
  then show ?thesis
  proof
    assume "s' = s"
    then show ?thesis using assms(2) by auto
  next
    assume *: "persist io (store_both ?cp s) = (e, s') \<and>
      (tk_id t = i \<longrightarrow> can (tk_status u) (tk_status t) \<or> tk_status u = tk_status t)"
    then have "st_by_id s' = mput (tk_id t) ?cp (st_by_id s)"
      using persist_fields(1) [of io "store_both ?cp s" e s'] by (simp add: store_both_def)
    then show ?thesis using * assms(2) by auto
  qed
qed

lemma update_status:
  assumes "update io now s tid fn = (r, s')" and "keeps_identity fn" and "mget (st_by_id s) i = Some u"
    and "\<And>j v. mget (st_by_id s) j = Some v \<Longrightarrow> tk_id v = j"
  shows "\<exists>u'. mget (st_by_id s') i = Some u' \<and> (can (tk_status u) (tk_status u') \<or> tk_status u' = tk_status u)"
proof (cases "mget (st_by_id s) tid")
  case None
  then show ?thesis using assms by (simp add: update_def)
next
  case (Some t)
  let ?cp = "(fn t)\<lparr>tk_updated_at := now\<rparr>"
  have tid: "tk_id (fn t) = tid" using assms(2,4) Some by (simp add: keeps_identity_def)
  have "s' = s \<or> (\<exists>e. persist io (store_both ?cp s) = (e, s') \<and>
      (can (tk_status t) (tk_status (fn t)) \<or> tk_status t = tk_status (fn t)))"
    using assms(1) Some by (auto simp: update_def Let_def split: if_splits prod.splits)
  then show ?thesis
  proof
    assume "s' = s"
    then show ?thesis using assms(3) by auto
  next
    assume "\<exists>e. persist io (store_both ?cp s) = (e, s') \<and>
      (can (tk_status t) (tk_status (fn t)) \<or> tk_status t = tk_status (fn t))"
    then obtain e where e: "persist io (store_both ?cp s) = (e, s')"
      "can (tk_status t) (tk_status (fn t)) \<or> tk_status t = tk_status (fn t)" by blast
    then have "st_by_id s' = mput tid ?cp (st_by_id s)"
      using persist_fields(1) [OF e(1)] tid by (simp add: store_both_def)
    then show ?thesis using e(2) Some assms(3) by auto
  qed
qed

definition ids_ok :: "task_store \<Rightarrow> bool" where
  "ids_ok s \<longleftrightarrow> mkeys_ok (st_by_id s) \<and> (\<forall>i t. mget (st_by_id s) i = Some t \<longrightarrow> tk_id t = i)"

lemma store_step_ids: "store_step s s' \<Longrightarrow> ids_ok s \<Longrightarrow> ids_ok s'"
proof (erule store_stepE)
  fix io now t e
  assume "put io now s t = (e, s')" "ids_ok s"
  then show "ids_ok s'"
    by (auto simp: put_def Let_def ids_ok_def store_both_def dest!: persist_fields(1) split: option.splits if_splits)
next
  fix fn io now tid r
  assume f: "keeps_identity fn" and u: "update io now s tid fn = (r, s')" and s: "ids_ok s"
  then show "ids_ok s'"
    by (auto simp: update_def Let_def ids_ok_def store_both_def keeps_identity_def dest!: persist_fields(1)
      split: option.splits if_splits prod.splits)
qed

lemma store_steps_status:
  "store_step\<^sup>*\<^sup>* s s' \<Longrightarrow> ids_ok s \<Longrightarrow> mget (st_by_id s) i = Some u \<Longrightarrow>
   ids_ok s' \<and> (\<exists>u'. mget (st_by_id s') i = Some u' \<and> can\<^sup>*\<^sup>* (tk_status u) (tk_status u'))"
proof (induction rule: rtranclp_induct)
  case base
  then show ?case by auto
next
  case (step y z)
  then obtain v where v: "mget (st_by_id y) i = Some v" "can\<^sup>*\<^sup>* (tk_status u) (tk_status v)" and y: "ids_ok y" by blast
  have "\<exists>w. mget (st_by_id z) i = Some w \<and> (can (tk_status v) (tk_status w) \<or> tk_status w = tk_status v)"
    using step(2)
  proof (rule store_stepE)
    fix io now t e assume "put io now y t = (e, z)"
    then show ?thesis using put_status v(1) by blast
  next
    fix fn io now tid r assume "keeps_identity fn" "update io now y tid fn = (r, z)"
    then show ?thesis using update_status [of io now y tid fn r z i v] v(1) y by (simp add: ids_ok_def)
  qed
  then obtain w where "mget (st_by_id z) i = Some w" "can\<^sup>*\<^sup>* (tk_status u) (tk_status w)"
    using v(2) by (auto intro: rtranclp.rtrancl_into_rtrancl)
  then show ?case using store_step_ids [OF step(2) y] by blast
qed

lemma can_terminal: "can\<^sup>*\<^sup>* s t \<Longrightarrow> terminal s \<Longrightarrow> t = s"
  by (induction rule: converse_rtranclp_induct) (auto simp: terminal_no_edge)

subsection \<open>Reloading\<close>

lemma load_tasks_by_id:
  "distinct (map tk_id ts) \<Longrightarrow>
   mget (st_by_id (foldl load_task s ts)) i =
     (case find (\<lambda>t. tk_id t = i) ts of Some t \<Rightarrow> Some t | None \<Rightarrow> mget (st_by_id s) i)"
proof (induction ts arbitrary: s)
  case (Cons t ts)
  have l: "mget (st_by_id (load_task s t)) i = (if tk_id t = i then Some t else mget (st_by_id s) i)"
    by (simp add: load_task_def Let_def)
  have "tk_id t = i \<Longrightarrow> find (\<lambda>u. tk_id u = i) ts = None"
    using Cons.prems by (auto simp: find_None_iff image_iff)
  then show ?case using Cons l by (auto split: option.splits)
qed simp

lemma reload_by_id:
  assumes "ids_ok s"
  shows "mget (st_by_id (foldl load_task (empty_store p) (map snd (st_by_id s)))) i = mget (st_by_id s) i"
proof -
  have ids: "\<forall>(k, t) \<in> set (st_by_id s). tk_id t = k"
    using assms by (auto simp: ids_ok_def mkeys_ok_def)
  then have e: "map tk_id (map snd (st_by_id s)) = map fst (st_by_id s)" by auto
  then have d: "distinct (map tk_id (map snd (st_by_id s)))" using assms by (simp only: ids_ok_def mkeys_ok_def)
  have f: "find (\<lambda>t. tk_id t = i) (map snd m) = mget m i" if "\<forall>(k, t) \<in> set m. tk_id t = k" for m
    using that by (induction m) auto
  show ?thesis
    using load_tasks_by_id [OF d, of "empty_store p" i]
    by (simp only: f [OF ids]) (simp add: empty_store_def split: option.splits)
qed

section \<open>Singleflight\<close>

text \<open>
  The callers of \<open>Do\<close>, at the grain of the mutex: the map from keys to calls (numbered), each call's
  key and result (None while its function runs), and the waiters with the call each waits for. \<open>returned\<close>
  records what callers got: key, call and result.
\<close>

record 'v flight =
  sf_map :: "(string, nat) gomap"
  sf_calls :: "(string \<times> 'v option) list"
  sf_waiters :: "(string \<times> nat) list"
  sf_returned :: "(string \<times> nat \<times> 'v) list"

inductive flight_step :: "'v flight \<Rightarrow> 'v flight \<Rightarrow> bool" where
  starts: "mget (sf_map g) key = None \<Longrightarrow>
    flight_step g (g\<lparr>sf_map := mput key (length (sf_calls g)) (sf_map g), sf_calls := sf_calls g @ [(key, None)]\<rparr>)"
| joins: "mget (sf_map g) key = Some c \<Longrightarrow>
    flight_step g (g\<lparr>sf_waiters := (key, c) # sf_waiters g\<rparr>)"
| finishes: "c < length (sf_calls g) \<Longrightarrow> sf_calls g ! c = (key, None) \<Longrightarrow>
    flight_step g (g\<lparr>sf_calls := (sf_calls g)[c := (key, Some v)], sf_returned := (key, c, v) # sf_returned g\<rparr>)"
| forgets: "c < length (sf_calls g) \<Longrightarrow> sf_calls g ! c = (key, Some v) \<Longrightarrow> mget (sf_map g) key = Some c \<Longrightarrow>
    flight_step g (g\<lparr>sf_map := mdel key (sf_map g)\<rparr>)"
| wakes: "(key, c) \<in> set (sf_waiters g) \<Longrightarrow> sf_calls g ! c = (key', Some v) \<Longrightarrow>
    flight_step g (g\<lparr>sf_waiters := remove1 (key, c) (sf_waiters g), sf_returned := (key, c, v) # sf_returned g\<rparr>)"

inductive_cases flight_stepE: "flight_step g g'"

definition new_flight :: "'v flight" where
  "new_flight = \<lparr>sf_map = [], sf_calls = [], sf_waiters = [], sf_returned = []\<rparr>"

definition in_flight :: "'v flight \<Rightarrow> string \<Rightarrow> bool" where
  "in_flight g key \<longleftrightarrow> mget (sf_map g) key \<noteq> None"

definition flight_inv :: "'v flight \<Rightarrow> bool" where
  "flight_inv g \<longleftrightarrow>
     (\<forall>k c. mget (sf_map g) k = Some c \<longrightarrow> c < length (sf_calls g) \<and> fst (sf_calls g ! c) = k) \<and>
     (\<forall>c < length (sf_calls g). snd (sf_calls g ! c) = None \<longrightarrow> mget (sf_map g) (fst (sf_calls g ! c)) = Some c) \<and>
     (\<forall>(k, c) \<in> set (sf_waiters g). c < length (sf_calls g) \<and> fst (sf_calls g ! c) = k) \<and>
     (\<forall>(k, c, v) \<in> set (sf_returned g). c < length (sf_calls g) \<and> sf_calls g ! c = (k, Some v))"

lemma flight_invI:
  assumes "\<And>k c. mget (sf_map g) k = Some c \<Longrightarrow> c < length (sf_calls g) \<and> fst (sf_calls g ! c) = k"
    and "\<And>c. c < length (sf_calls g) \<Longrightarrow> snd (sf_calls g ! c) = None \<Longrightarrow> mget (sf_map g) (fst (sf_calls g ! c)) = Some c"
    and "\<And>k c. (k, c) \<in> set (sf_waiters g) \<Longrightarrow> c < length (sf_calls g) \<and> fst (sf_calls g ! c) = k"
    and "\<And>k c v. (k, c, v) \<in> set (sf_returned g) \<Longrightarrow> c < length (sf_calls g) \<and> sf_calls g ! c = (k, Some v)"
  shows "flight_inv g"
  using assms unfolding flight_inv_def by blast

lemma flight_invD:
  assumes "flight_inv g"
  shows "mget (sf_map g) k = Some c \<Longrightarrow> c < length (sf_calls g) \<and> fst (sf_calls g ! c) = k"
    and "c < length (sf_calls g) \<Longrightarrow> snd (sf_calls g ! c) = None \<Longrightarrow> mget (sf_map g) (fst (sf_calls g ! c)) = Some c"
    and "(k, c) \<in> set (sf_waiters g) \<Longrightarrow> c < length (sf_calls g) \<and> fst (sf_calls g ! c) = k"
    and "(k, c, v) \<in> set (sf_returned g) \<Longrightarrow> c < length (sf_calls g) \<and> sf_calls g ! c = (k, Some v)"
  using assms unfolding flight_inv_def by blast+

lemma flight_step_inv:
  assumes "flight_step g g'" and "flight_inv g"
  shows "flight_inv g'"
  using assms(1)
proof (rule flight_stepE)
  fix key
  assume n: "mget (sf_map g) key = None"
    and g': "g' = g\<lparr>sf_map := mput key (length (sf_calls g)) (sf_map g), sf_calls := sf_calls g @ [(key, None)]\<rparr>"
  note old = flight_invD [OF assms(2)]
  have l: "(sf_calls g @ [(key, None)]) ! i = (if i < length (sf_calls g) then sf_calls g ! i else (key, None))"
    if "i < Suc (length (sf_calls g))" for i
    using that by (auto simp: nth_append less_Suc_eq)
  show ?thesis
  proof (rule flight_invI, goal_cases)
    case (1 k c)
    then show ?case using old(1) [of k c] l [of c] by (auto simp: g' split: if_splits)
  next
    case (2 c)
    then show ?case using old(2) [of c] l [of c] n by (auto simp: g' split: if_splits)
  next
    case (3 k c)
    then show ?case using old(3) [of k c] l [of c] by (auto simp: g')
  next
    case (4 k c v)
    then show ?case using old(4) [of k c v] l [of c] by (auto simp: g')
  qed
next
  fix key c
  assume g': "g' = g\<lparr>sf_waiters := (key, c) # sf_waiters g\<rparr>" and m: "mget (sf_map g) key = Some c"
  show ?thesis
    by (rule flight_invI) (auto simp: g' dest: flight_invD [OF assms(2)] intro: flight_invD(1) [OF assms(2) m, THEN conjunct1]
      flight_invD(1) [OF assms(2) m, THEN conjunct2])
next
  fix c key v
  assume c: "c < length (sf_calls g)" "sf_calls g ! c = (key, None)"
    and g': "g' = g\<lparr>sf_calls := (sf_calls g)[c := (key, Some v)], sf_returned := (key, c, v) # sf_returned g\<rparr>"
  note old = flight_invD [OF assms(2)]
  have f: "(sf_calls g)[c := (key, Some v)] ! i = (if i = c then (key, Some v) else sf_calls g ! i)" for i
    using c by (simp add: nth_list_update)
  show ?thesis
  proof (rule flight_invI, goal_cases)
    case (1 k i)
    then show ?case using old(1) [of k i] c by (auto simp: g' f)
  next
    case (2 i)
    then show ?case using old(2) [of i] by (auto simp: g' f split: if_splits)
  next
    case (3 k i)
    then show ?case using old(3) [of k i] c by (auto simp: g' f)
  next
    case (4 k i w)
    then show ?case using old(4) [of k i w] c by (auto simp: g' f)
  qed
next
  fix c key v
  assume c: "c < length (sf_calls g)" "sf_calls g ! c = (key, Some v)" "mget (sf_map g) key = Some c"
    and g': "g' = g\<lparr>sf_map := mdel key (sf_map g)\<rparr>"
  note old = flight_invD [OF assms(2)]
  show ?thesis
  proof (rule flight_invI, goal_cases)
    case (1 k i)
    then show ?case using old(1) [of k i] by (auto simp: g' split: if_splits)
  next
    case (2 i)
    then show ?case using old(2) [of i] c by (cases "c = i") (auto simp: g')
  next
    case (3 k i)
    then show ?case using old(3) [of k i] by (simp add: g')
  next
    case (4 k i w)
    then show ?case using old(4) [of k i w] by (simp add: g')
  qed
next
  fix key c key' v
  assume w: "(key, c) \<in> set (sf_waiters g)" and v: "sf_calls g ! c = (key', Some v)"
    and g': "g' = g\<lparr>sf_waiters := remove1 (key, c) (sf_waiters g), sf_returned := (key, c, v) # sf_returned g\<rparr>"
  note old = flight_invD [OF assms(2)]
  have c: "c < length (sf_calls g)" "key' = key" using old(3) [OF w] v by auto
  show ?thesis
  proof (rule flight_invI, goal_cases)
    case (1 k i)
    then show ?case using old(1) [of k i] by (simp add: g')
  next
    case (2 i)
    then show ?case using old(2) [of i] by (simp add: g')
  next
    case (3 k i)
    then have "(k, i) \<in> set (sf_waiters g)" using notin_set_remove1 by (fastforce simp: g')
    then show ?case using old(3) [of k i] by (simp add: g')
  next
    case (4 k i w)
    then show ?case using old(4) [of k i w] c v by (auto simp: g')
  qed
qed

lemma flight_reachable_inv: "flight_step\<^sup>*\<^sup>* new_flight g \<Longrightarrow> flight_inv g"
proof (induction rule: rtranclp_induct)
  case base
  then show ?case by (simp add: flight_inv_def new_flight_def)
next
  case (step y z)
  then show ?case using flight_step_inv by blast
qed

section \<open>Properties\<close>

lemma persist_saves:
  "persist io s = (None, s') \<Longrightarrow> st_path s \<noteq> [] \<Longrightarrow> st_disk s' = Some (map snd (st_by_id s'))"
  by (auto simp: persist_def split: if_splits)

lemma put_saves:
  assumes "put io now s t = (None, s')" and "st_path s \<noteq> []"
  shows "s' = s \<or> st_disk s' = Some (map snd (st_by_id s'))"
  using assms persist_saves
  by (fastforce simp: put_def Let_def store_both_def validate_transition_def split: option.splits if_splits)

lemma update_saves:
  assumes "update io now s tid fn = (Inr (t, None), s')" and "st_path s \<noteq> []"
  shows "st_disk s' = Some (map snd (st_by_id s'))"
  using assms persist_saves
  by (fastforce simp: update_def Let_def store_both_def split: option.splits if_splits prod.splits)

definition sample_task :: "string \<Rightarrow> status \<Rightarrow> time \<Rightarrow> task" where
  "sample_task i st at =
     \<lparr>tk_id = i, tk_url = ''u'', tk_canonical = ''u'', tk_cache_key = ''k'', tk_family = ''generic_static'',
      tk_status = st, tk_progress = (0, 1), tk_error = [], tk_error_code = [], tk_retries = 0,
      tk_max_retries = 3, tk_artifact = None, tk_created_by = [], tk_created_at = at, tk_updated_at = at\<rparr>"



text \<open>
  Restart. When an update of a store with a file reports no error, the server that starts on that file
  finds every task of the store, as it was, under its identifier.
\<close>

theorem update_survives_restart:
  assumes "update io now s tid fn = (Inr (t, None), s')" and "st_path s \<noteq> []" and "ids_ok s"
    and "keeps_identity fn"
  shows "\<exists>ts s2. st_disk s' = Some ts \<and> new_store (st_path s) True (Task_List ts) = Some s2 \<and>
    (\<forall>i. get s2 i = get s' i)"
proof -
  have "ids_ok s'" using assms(1,3,4) store_step_ids store_step.updates by blast
  then show ?thesis
    using update_saves [OF assms(1,2)] reload_by_id [of s' "st_path s"] assms(2)
    by (simp add: new_store_def get_def)
qed

theorem update_survives_restart_witness:
  "\<exists>s' ts s2. st_disk s' = Some ts \<and> new_store ''f'' True (Task_List ts) = Some s2 \<and> (\<forall>i. get s2 i = get s' i)"
proof -
  let ?s = "(empty_store ''f'')\<lparr>st_by_id := [(''t'', sample_task ''t'' Queued 5)]\<rparr>"
  let ?fn = "tk_status_update (\<lambda>_. Downloading)"
  obtain t s' where "update True 9 ?s ''t'' ?fn = (Inr (t, None), s')"
    by (auto simp: update_def Let_def persist_def store_both_def empty_store_def sample_task_def can_def)
  moreover have "ids_ok ?s" by (auto simp: ids_ok_def empty_store_def sample_task_def mkeys_ok_def)
  moreover have "keeps_identity ?fn" by (simp add: keeps_identity_def)
  moreover have "st_path ?s = ''f''" by (simp add: empty_store_def)
  ultimately show ?thesis using update_survives_restart [of True 9 ?s "''t''" ?fn t s'] by auto
qed

text \<open>
  Deduplication. In every interleaving of callers of \<open>Do\<close>, no two calls with the same key run at the
  same time, a key that runs is in flight, and every caller gets the result of one finished call that was
  started with the caller's own key.
\<close>

theorem singleflight_exclusive:
  assumes "flight_step\<^sup>*\<^sup>* new_flight g"
  shows "(\<forall>c d k. c < length (sf_calls g) \<and> d < length (sf_calls g) \<and>
      sf_calls g ! c = (k, None) \<and> sf_calls g ! d = (k, None) \<longrightarrow> c = d) \<and>
    (\<forall>c k. c < length (sf_calls g) \<and> sf_calls g ! c = (k, None) \<longrightarrow> in_flight g k) \<and>
    (\<forall>(k, c, v) \<in> set (sf_returned g). c < length (sf_calls g) \<and> sf_calls g ! c = (k, Some v))"
proof -
  note old = flight_invD [OF flight_reachable_inv [OF assms]]
  have r: "mget (sf_map g) k = Some c" if "c < length (sf_calls g)" "sf_calls g ! c = (k, None)" for c k
    using old(2) [OF that(1)] that(2) by simp
  show ?thesis
  proof (intro conjI allI impI)
    fix c d k
    assume "c < length (sf_calls g) \<and> d < length (sf_calls g) \<and> sf_calls g ! c = (k, None) \<and> sf_calls g ! d = (k, None)"
    then show "c = d" using r [of c k] r [of d k] by simp
  next
    fix c k
    assume "c < length (sf_calls g) \<and> sf_calls g ! c = (k, None)"
    then show "in_flight g k" using r [of c k] by (simp add: in_flight_def)
  next
    show "\<forall>(k, c, v) \<in> set (sf_returned g). c < length (sf_calls g) \<and> sf_calls g ! c = (k, Some v)"
      by (clarify, rule old(4))
  qed
qed

theorem singleflight_exclusive_witness:
  "\<exists>g :: nat flight. length (sf_calls g) = 1 \<and> sf_calls g ! 0 = (''k'', None) \<and> in_flight g ''k''"
proof -
  let ?g = "new_flight\<lparr>sf_map := mput ''k'' (length (sf_calls (new_flight :: nat flight))) (sf_map (new_flight :: nat flight)),
    sf_calls := sf_calls new_flight @ [(''k'', None)]\<rparr> :: nat flight"
  have "flight_step new_flight ?g" by (rule flight_step.starts) (simp add: new_flight_def)
  then have g: "flight_step\<^sup>*\<^sup>* new_flight ?g" by blast
  have c: "length (sf_calls ?g) = 1" "sf_calls ?g ! 0 = (''k'', None)" by (simp_all add: new_flight_def)
  have "0 < length (sf_calls ?g) \<and> sf_calls ?g ! 0 = (''k'', None)" using c by (simp del: One_nat_def)
  then have "in_flight ?g ''k''"
    using singleflight_exclusive [OF g, THEN conjunct2, THEN conjunct1, rule_format, of 0 "''k''"] by blast
  with c show ?thesis by (intro exI [where x = ?g] conjI)
qed

end
