(* ===== verification/GoPath.thy ===== *)
theory GoPath
  imports Prelude
begin

text \<open>
  What the sources use of \<^verbatim>\<open>path/filepath\<close> on a system with the separator \<open>/\<close>: \<open>Clean\<close>, \<open>Join\<close>,
  \<open>Base\<close> and \<open>Dir\<close>.
\<close>

text \<open>The components of a cleaned path; \<open>acc\<close> is reversed. A leading \<open>..\<close> of a rooted path is dropped.\<close>

fun clean_parts :: "bool \<Rightarrow> string list \<Rightarrow> string list \<Rightarrow> string list" where
  "clean_parts rooted acc [] = rev acc"
| "clean_parts rooted acc (c # cs) =
     (if c = [] \<or> c = ''.'' then clean_parts rooted acc cs
      else if c = ''..'' then
        (case acc of
           [] \<Rightarrow> clean_parts rooted (if rooted then [] else [c]) cs
         | a # as \<Rightarrow> if a = ''..'' then clean_parts rooted (c # acc) cs else clean_parts rooted as cs)
      else clean_parts rooted (c # acc) cs)"

definition path_clean :: "string \<Rightarrow> string" where
  "path_clean p =
     (let rooted = has_prefix p ''/'';
          out = (if rooted then ''/'' else []) @ join ''/'' (clean_parts rooted [] (split_byte (CHR ''/'') p))
      in if out = [] then ''.'' else out)"

definition path_join :: "string list \<Rightarrow> string" where
  "path_join es =
     (let fs = dropWhile (\<lambda>e. e = []) es in if fs = [] then [] else path_clean (join ''/'' fs))"

definition path_base :: "string \<Rightarrow> string" where
  "path_base p =
     (if p = [] then ''.''
      else
        (let q = trim_right_set p ''/'' in
         if q = [] then ''/''
         else (case last_index_byte q (CHR ''/'') of None \<Rightarrow> q | Some i \<Rightarrow> drop (Suc i) q)))"

definition path_dir :: "string \<Rightarrow> string" where
  "path_dir p = path_clean (case last_index_byte p (CHR ''/'') of None \<Rightarrow> [] | Some i \<Rightarrow> take (Suc i) p)"

text \<open>A component that \<open>Clean\<close> keeps.\<close>

definition plain_part :: "string \<Rightarrow> bool" where
  "plain_part c \<longleftrightarrow> c \<noteq> [] \<and> c \<noteq> ''.'' \<and> c \<noteq> ''..'' \<and> CHR ''/'' \<notin> set c"

lemma clean_parts_plain:
  "list_all plain_part cs \<Longrightarrow> clean_parts rooted acc cs = rev acc @ cs"
  by (induction cs arbitrary: acc) (auto simp: plain_part_def)

lemma clean_parts_append:
  "clean_parts rooted acc (as @ bs) = clean_parts rooted (rev (clean_parts rooted acc as)) bs"
  by (induction rooted acc as rule: clean_parts.induct) (auto split: list.splits)

lemma join_append_ne: "as \<noteq> [] \<Longrightarrow> bs \<noteq> [] \<Longrightarrow> join s (as @ bs) = join s as @ s @ join s bs"
  by (induction s as rule: join.induct) (auto simp: neq_Nil_conv)

lemma clean_parts_no_dots:
  "''..'' \<notin> set cs \<Longrightarrow> clean_parts rooted acc cs = rev acc @ filter (\<lambda>c. c \<noteq> [] \<and> c \<noteq> ''.'') cs"
  by (induction cs arbitrary: acc) auto

lemma clean_parts_kept:
  "c \<in> set (clean_parts rooted acc cs) \<Longrightarrow> c \<in> set acc \<or> (c \<in> set cs \<and> c \<noteq> [] \<and> c \<noteq> ''.'')"
  by (induction rooted acc cs rule: clean_parts.induct) (auto split: if_splits list.splits)

lemma join_eq_Nil: "\<forall>w \<in> set ws. w \<noteq> [] \<Longrightarrow> join s ws = [] \<longleftrightarrow> ws = []"
  by (induction s ws rule: join.induct) auto

lemma path_base_no_slash: "CHR ''/'' \<notin> set (path_base p) \<or> path_base p = ''/''"
proof (cases "p = [] \<or> trim_right_set p ''/'' = []")
  case True
  then show ?thesis by (auto simp: path_base_def)
next
  case False
  let ?q = "trim_right_set p ''/''"
  show ?thesis
  proof (cases "last_index_byte ?q (CHR ''/'')")
    case None
    then have "path_base p = ?q" using False by (simp add: path_base_def Let_def)
    moreover have "CHR ''/'' \<notin> set ?q" using None last_index_byte_None_iff by blast
    ultimately show ?thesis by simp
  next
    case (Some i)
    then obtain j where j: "index_byte (rev ?q) (CHR ''/'') = Some j" "i = length ?q - 1 - j"
      by (auto simp: last_index_byte_def)
    then have "j < length ?q" "CHR ''/'' \<notin> set (take j (rev ?q))" by (simp_all add: index_byte_Some)
    moreover have "drop (Suc i) ?q = rev (take j (rev ?q))"
    proof -
      have "Suc i = length ?q - j" using j(2) \<open>j < length ?q\<close> by simp
      then show ?thesis by (simp add: rev_take)
    qed
    ultimately have "CHR ''/'' \<notin> set (drop (Suc i) ?q)" by simp
    then show ?thesis using False Some by (simp add: path_base_def Let_def)
  qed
qed

text \<open>Cleaning never makes a path longer, so the directory of a file has a shorter name.\<close>

definition parts_len :: "string list \<Rightarrow> nat" where
  "parts_len ws = sum_list (map (\<lambda>w. Suc (length w)) ws)"

lemma parts_len_simps [simp]: "parts_len [] = 0" "parts_len (w # ws) = Suc (length w + parts_len ws)"
  "parts_len (as @ bs) = parts_len as + parts_len bs" "parts_len (rev as) = parts_len as"
  by (simp_all add: parts_len_def flip: rev_map)

lemma length_join: "length (join [c] ws) = parts_len ws - 1"
proof (induction ws)
  case (Cons w ws)
  then show ?case by (cases ws) auto
qed simp

lemma parts_len_split: "parts_len (split_byte c s) = Suc (length s)"
proof (induction s)
  case (Cons d s)
  then show ?case by (cases "split_byte c s") auto
qed simp

lemma parts_len_clean: "parts_len (clean_parts rooted acc cs) \<le> parts_len acc + parts_len cs"
proof (induction rooted acc cs rule: clean_parts.induct)
  case (2 rooted acc c cs)
  then show ?case by (cases acc) (auto split: if_splits)
qed simp

lemma length_path_clean: "q \<noteq> [] \<Longrightarrow> length (path_clean q) \<le> length q"
proof -
  assume q: "q \<noteq> []"
  let ?r = "has_prefix q ''/''"
  let ?j = "join ''/'' (clean_parts ?r [] (split_byte (CHR ''/'') q))"
  have "length ?j + (if ?r then 1 else 0) \<le> length q"
  proof (cases ?r)
    case True
    then obtain t where t: "q = CHR ''/'' # t" by (auto simp: prefix_def)
    then have "split_byte (CHR ''/'') q = [] # split_byte (CHR ''/'') t" by (cases "split_byte (CHR ''/'') t") auto
    then show ?thesis
      using parts_len_clean [of ?r "[]" "split_byte (CHR ''/'') t"] t by (simp add: length_join parts_len_split)
  next
    case False
    then show ?thesis
      using parts_len_clean [of ?r "[]" "split_byte (CHR ''/'') q"] by (simp add: length_join parts_len_split)
  qed
  then show ?thesis using q by (auto simp: path_clean_def Let_def Suc_le_eq)
qed

lemma dir_shorter:
  assumes "p \<noteq> []" and "last p \<noteq> CHR ''/''" and "CHR ''/'' \<in> set p"
  shows "length (path_dir p) < length p"
proof -
  obtain i where i: "last_index_byte p (CHR ''/'') = Some i"
    using assms(3) last_index_byte_None_iff [of p "CHR ''/''"] by (cases "last_index_byte p (CHR ''/'')") auto
  obtain a b where ab: "p = a @ CHR ''/'' # b" "CHR ''/'' \<notin> set b" using assms(3) by (meson split_list_last)
  then have "i = length a" "b \<noteq> []" using i assms(2) last_index_byte_append [OF ab(2), of a] by auto
  then have "path_dir p = path_clean (a @ ''/'')" using i ab by (simp add: path_dir_def)
  then show ?thesis using length_path_clean [of "a @ ''/''"] ab \<open>b \<noteq> []\<close> by (cases b) auto
qed

end
