(* ===== verification/Storage.thy ===== *)
theory Storage
  imports GoPath GoUrl Sha256
begin

text \<open>
  \<^verbatim>\<open>internal/transfer/storage/storage.go\<close> (object keys and what a backend promises) and
  \<^verbatim>\<open>internal/transfer/presign/presign.go\<close> (signed links). The \<open>Storage\<close> interface is the locale
  \<open>object_store\<close>; the theory \<open>LocalFs\<close> interprets it.
\<close>

section \<open>Keys\<close>

datatype store_error = Obj_Not_Found | Bad_Key | Short_Write | Obj_IO

record obj_info =
  ob_key :: string
  ob_size :: int
  ob_etag :: string
  ob_content_type :: string

definition key_first :: "char \<Rightarrow> bool" where
  "key_first c \<longleftrightarrow> is_lower c \<or> is_digit c"

definition key_char :: "char \<Rightarrow> bool" where
  "key_char c \<longleftrightarrow> is_lower c \<or> is_digit c \<or> c \<in> set ''._/-''"

text \<open>The pattern \<open>^[a-z0-9][a-z0-9._/-]{0,511}$\<close>.\<close>

definition key_re :: "string \<Rightarrow> bool" where
  "key_re k \<longleftrightarrow> k \<noteq> [] \<and> key_first (hd k) \<and> list_all key_char (tl k) \<and> length (tl k) \<le> 511"

definition dots_at :: "string \<Rightarrow> nat \<Rightarrow> bool" where
  "dots_at k i \<longleftrightarrow> k ! i = CHR ''.'' \<and> k ! (i + 1) = CHR ''.'' \<and>
     (i = 0 \<or> k ! (i - 1) = CHR ''/'') \<and> (i + 2 = length k \<or> k ! (i + 2) = CHR ''/'')"

definition sanitize_dots :: "string \<Rightarrow> string" where
  "sanitize_dots k = (if list_ex (dots_at k) [0..<length k - 1] then [] else k)"

definition validate_key :: "string \<Rightarrow> store_error option" where
  "validate_key k = (if \<not> key_re k \<or> k \<noteq> sanitize_dots k then Some Bad_Key else None)"

text \<open>A component of a split string stands between separators.\<close>

lemma split_byte_part_at:
  assumes "w \<in> set (split_byte c s)"
  obtains p q where "s = p @ w @ q" "p = [] \<or> last p = c" "q = [] \<or> hd q = c"
proof -
  obtain as bs where ab: "split_byte c s = as @ w # bs" using assms by (meson split_list)
  have s: "s = join [c] (as @ [w] @ bs)" using join_split [of c s] ab by simp
  have wb: "\<exists>q. join [c] (w # bs) = w @ q \<and> (q = [] \<or> hd q = c)"
    by (cases "bs = []") (auto simp: neq_Nil_conv)
  then obtain q where q: "join [c] (w # bs) = w @ q" "q = [] \<or> hd q = c" by blast
  show ?thesis
  proof (cases "as = []")
    case True
    then show ?thesis using s q that [of "[]" q] by simp
  next
    case False
    then have "s = join [c] as @ [c] @ join [c] (w # bs)" using s join_append_ne [of as "w # bs" "[c]"] by simp
    then show ?thesis using q that [of "join [c] as @ [c]" q] by simp
  qed
qed

text \<open>\<open>sanitizeDots\<close> rejects the keys that have a \<open>..\<close> segment.\<close>

lemma sanitize_no_dots:
  assumes "k \<noteq> []" and "sanitize_dots k = k"
  shows "''..'' \<notin> set (split_byte (CHR ''/'') k)"
proof
  assume "''..'' \<in> set (split_byte (CHR ''/'') k)"
  then obtain p q where k: "k = p @ ''..'' @ q" and p: "p = [] \<or> last p = CHR ''/''" and q: "q = [] \<or> hd q = CHR ''/''"
    by (rule split_byte_part_at)
  let ?i = "length p"
  have "dots_at k ?i"
    using p q by (cases p rule: rev_cases; cases q) (auto simp: dots_at_def k nth_append)
  moreover have "?i < length k - 1" by (simp add: k)
  ultimately have "sanitize_dots k = []" by (auto simp: sanitize_dots_def list_ex_iff)
  then show False using assms by simp
qed

lemma dots_at_part:
  assumes "dots_at k i" and "i < length k - 1"
  shows "''..'' \<in> set (split_byte (CHR ''/'') k)"
proof -
  have i: "i < length k" "Suc i < length k" using assms(2) by simp_all
  have d: "drop i k = ''..'' @ drop (i + 2) k"
    using assms(1) i by (simp add: dots_at_def Cons_nth_drop_Suc [symmetric])
  have pre: "take i k = [] \<or> (\<exists>p. take i k = p @ ''/'')"
  proof (cases i)
    case (Suc j)
    then have "take i k = take j k @ [k ! j]" using i by (simp add: take_Suc_conv_app_nth)
    then show ?thesis using assms(1) Suc by (auto simp: dots_at_def)
  qed simp
  have post: "drop (i + 2) k = [] \<or> (\<exists>q. drop (i + 2) k = CHR ''/'' # q)"
  proof (cases "i + 2 = length k")
    case False
    then have "drop (i + 2) k = k ! (i + 2) # drop (i + 3) k"
      using i by (simp add: Cons_nth_drop_Suc [symmetric] numeral_eq_Suc)
    then show ?thesis using assms(1) False by (auto simp: dots_at_def)
  qed simp
  have tail: "''..'' \<in> set (split_byte (CHR ''/'') (''..'' @ drop (i + 2) k))"
    using post by (auto simp: split_byte_append [of "CHR ''/''" "''..''", simplified])
  have app: "set (split_byte c t) \<subseteq> set (tl (split_byte c (p @ c # t)))" for c t and p :: string
    by (induction p) (auto split: list.splits)
  have tl: "set (tl ws) \<subseteq> set ws" for ws :: "string list" by (cases ws) auto
  have k: "k = take i k @ ''..'' @ drop (i + 2) k" using d by (metis append_take_drop_id)
  show ?thesis
  proof (cases "take i k = []")
    case True
    have "k = ''..'' @ drop (i + 2) k" using k unfolding True append_Nil .
    then show ?thesis by (rule ssubst [where P = "\<lambda>t. ''..'' \<in> set (split_byte (CHR ''/'') t)"]) (rule tail)
  next
    case False
    then obtain p where p: "take i k = p @ ''/''" using pre by blast
    have "k = p @ CHR ''/'' # (''..'' @ drop (i + 2) k)"
      using k unfolding p by (simp only: append_assoc append_Cons append_Nil)
    moreover have "''..'' \<in> set (split_byte (CHR ''/'') (p @ CHR ''/'' # (''..'' @ drop (i + 2) k)))"
      by (rule subsetD [OF tl]) (rule subsetD [OF app tail])
    ultimately show ?thesis by (rule ssubst [where P = "\<lambda>t. ''..'' \<in> set (split_byte (CHR ''/'') t)"])
  qed
qed

lemma sanitize_dots_iff:
  "k \<noteq> [] \<Longrightarrow> sanitize_dots k = k \<longleftrightarrow> ''..'' \<notin> set (split_byte (CHR ''/'') k)"
  using sanitize_no_dots dots_at_part by (auto simp: sanitize_dots_def list_ex_iff)

lemma validate_key_iff:
  "validate_key k = None \<longleftrightarrow> key_re k \<and> ''..'' \<notin> set (split_byte (CHR ''/'') k)"
proof (cases "k = []")
  case True
  then show ?thesis by (simp add: validate_key_def key_re_def)
next
  case False
  from sanitize_dots_iff [OF this] show ?thesis by (auto simp: validate_key_def)
qed

text \<open>Two dots in a row need two dots.\<close>

lemma count_byte_two: "count_byte k c \<le> 1 \<Longrightarrow> i + 1 < length k \<Longrightarrow> k ! i = c \<Longrightarrow> k ! (i + 1) \<noteq> c"
proof
  assume a: "count_byte k c \<le> 1" "i + 1 < length k" "k ! i = c" "k ! (i + 1) = c"
  have "k = take i k @ k ! i # k ! (i + 1) # drop (i + 2) k"
    using a(2) by (metis Cons_nth_drop_Suc Suc_eq_plus1 Suc_lessD add_2_eq_Suc' id_take_nth_drop)
  then have "count_byte k c = count_byte (take i k @ c # c # drop (i + 2) k) c" using a(3,4) by simp
  then show False using a(1) by simp
qed

lemma one_dot_valid: "key_re k \<Longrightarrow> count_byte k (CHR ''.'') \<le> 1 \<Longrightarrow> validate_key k = None"
  using count_byte_two [of k "CHR ''.''"]
  by (force simp: validate_key_def sanitize_dots_def dots_at_def list_ex_iff)

section \<open>Signed links\<close>

datatype presign_error = Presign_Expired | Bad_Signature | Presign_Malformed

definition sign_message :: "string \<Rightarrow> string \<Rightarrow> int \<Rightarrow> string" where
  "sign_message meth key unix = meth @ [CHR 0x0A] @ key @ [CHR 0x0A] @ itoa unix"

definition sign :: "byte list \<Rightarrow> string \<Rightarrow> string \<Rightarrow> time \<Rightarrow> string" where
  "sign secret meth key expires = bytes_hex (hmac_sha256 secret (str_bytes (sign_message meth key (time_unix expires))))"

definition presign_query :: "byte list \<Rightarrow> string \<Rightarrow> string \<Rightarrow> time \<Rightarrow> string" where
  "presign_query secret meth key expires =
     ''exp='' @ itoa (time_unix expires) @ ''&sig='' @ sign secret meth key expires"

definition verify :: "time \<Rightarrow> byte list \<Rightarrow> string \<Rightarrow> string \<Rightarrow> string \<Rightarrow> string \<Rightarrow> presign_error option" where
  "verify now secret meth key expv sig =
     (case atoi expv of
        None \<Rightarrow> Some Presign_Malformed
      | Some unix \<Rightarrow>
          if unix < time_unix now then Some Presign_Expired
          else if sig \<noteq> sign secret meth key (time_of_unix unix) then Some Bad_Signature
          else None)"

text \<open>The signed message determines what it grants.\<close>

lemma sign_message_inj:
  assumes "sign_message m k u = sign_message m' k' u'"
    and "CHR 0x0A \<notin> set m \<union> set k" "CHR 0x0A \<notin> set m' \<union> set k'"
  shows "m = m' \<and> k = k' \<and> u = u'"
proof -
  have g: "CHR 0x0A \<notin> set (itoa u)" "CHR 0x0A \<notin> set (itoa u')"
    using itoa_graphic [of "CHR 0x0A"] by (auto simp: graphic_def)
  have s: "split_byte (CHR 0x0A) (sign_message m k u) = [m, k, itoa u]"
    using assms(2) g by (simp add: sign_message_def split_byte_append split_byte_no_sep)
  have s': "split_byte (CHR 0x0A) (sign_message m' k' u') = [m', k', itoa u']"
    using assms(3) g by (simp add: sign_message_def split_byte_append split_byte_no_sep)
  show ?thesis using s s' assms(1) itoa_inj by simp
qed

text \<open>\<open>url.ParseQuery\<close>: pairs in order, values decoded with \<open>+\<close> as a blank; None when any part is bad.\<close>

definition unescape_query :: "string \<Rightarrow> string option" where
  "unescape_query s = unescape_path (map (\<lambda>c. if c = CHR ''+'' then CHR '' '' else c) s)"

definition parse_pair :: "string \<Rightarrow> (string \<times> string) option" where
  "parse_pair p =
     (if CHR '';'' \<in> set p then None
      else (let (k, v) = cut_byte (CHR ''='') p in
        case (unescape_query k, unescape_query v) of (Some k', Some v') \<Rightarrow> Some (k', v') | _ \<Rightarrow> None))"

definition parse_query :: "string \<Rightarrow> (string \<times> string) list option" where
  "parse_query q =
     (let ps = map parse_pair (filter (\<lambda>p. p \<noteq> []) (split_byte (CHR ''&'') q))
      in if None \<in> set ps then None else Some (map the ps))"

definition query_get :: "(string \<times> string) list \<Rightarrow> string \<Rightarrow> string" where
  "query_get q k = (case map_of q k of None \<Rightarrow> [] | Some v \<Rightarrow> v)"

definition query_safe :: "char \<Rightarrow> bool" where
  "query_safe c \<longleftrightarrow> graphic c \<and> c \<notin> set ''&;=+%''"

lemma unescape_query_safe: "list_all query_safe s \<Longrightarrow> unescape_query s = Some s"
proof -
  assume s: "list_all query_safe s"
  then have m: "map (\<lambda>c. if c = CHR ''+'' then CHR '' '' else c) s = s"
    by (induction s) (auto simp: query_safe_def)
  have "CHR ''%'' \<notin> set s" using s by (auto simp: list_all_iff query_safe_def)
  then have "unescape_path s = Some s" by (rule unescape_path_plain)
  then show ?thesis by (simp only: unescape_query_def m)
qed

lemma digit_query_safe: "is_digit c \<Longrightarrow> query_safe c"
  by (auto simp: is_digit_def query_safe_def graphic_def)

lemma hex_query_safe: "is_hex_lower c \<Longrightarrow> query_safe c"
  by (auto simp: is_hex_lower_def is_digit_def query_safe_def graphic_def)

lemma itoa_query_safe: "list_all query_safe (itoa u)"
proof -
  have "query_safe (CHR ''-'')" by (simp add: query_safe_def graphic_def)
  then show ?thesis
    using nat_str_digits digit_query_safe by (auto simp: itoa_def list_all_iff)
qed

lemma byte_unat: "unat (b :: byte) < 256"
  using unsigned_less [of b] by simp

lemma sign_query_safe: "list_all query_safe (sign secret m k t)"
proof -
  have "list_all is_hex_lower (bytes_hex bs)" for bs
    unfolding bytes_hex_def by (rule hex_encode_lower) (auto simp: byte_unat)
  then show ?thesis using hex_query_safe by (auto simp: sign_def list_all_iff)
qed

lemma parse_pair_safe:
  "list_all query_safe k \<Longrightarrow> list_all query_safe v \<Longrightarrow> parse_pair (k @ CHR ''='' # v) = Some (k, v)"
proof -
  assume kv: "list_all query_safe k" "list_all query_safe v"
  then have "CHR ''='' \<notin> set k" "CHR '';'' \<notin> set (k @ CHR ''='' # v)"
    by (auto simp: list_all_iff query_safe_def)
  then show ?thesis
    using kv by (simp add: parse_pair_def cut_byte_append unescape_query_safe)
qed

text \<open>What \<open>Query\<close> writes is read back.\<close>

lemma parse_presign_query:
  "parse_query (presign_query secret m k t) =
     Some [(''exp'', itoa (time_unix t)), (''sig'', sign secret m k t)]"
proof -
  let ?e = "''exp='' @ itoa (time_unix t)" and ?s = "''sig='' @ sign secret m k t"
  have lit: "list_all query_safe ''exp''" "list_all query_safe ''sig''"
    by (simp_all add: query_safe_def graphic_def)
  have amp: "CHR ''&'' \<notin> set ?e" "CHR ''&'' \<notin> set ?s"
    using itoa_query_safe [of "time_unix t"] sign_query_safe [of secret m k t]
    by (auto simp: list_all_iff query_safe_def)
  have q: "presign_query secret m k t = ?e @ CHR ''&'' # ?s" by (simp add: presign_query_def)
  have "split_byte (CHR ''&'') (presign_query secret m k t) = [?e, ?s]"
    unfolding q by (simp only: split_byte_append [OF amp(1)] split_byte_no_sep [OF amp(2)])
  moreover have "parse_pair ?e = Some (''exp'', itoa (time_unix t))"
    using parse_pair_safe [OF lit(1) itoa_query_safe] by simp
  moreover have "parse_pair ?s = Some (''sig'', sign secret m k t)"
    using parse_pair_safe [OF lit(2) sign_query_safe] by simp
  ultimately show ?thesis by (simp add: parse_query_def)
qed

section \<open>What a backend promises\<close>

text \<open>
  The part of the interface the cache rests on: \<open>view\<close> is the object under a key (contents, type), \<open>apart\<close>
  says which keys do not share files. A successful \<open>put\<close> makes the key hold what was sent and leaves the
  other keys alone; \<open>head\<close> and \<open>get\<close> agree with the view; an invalid key is refused by every operation.
\<close>

locale object_store =
  fixes put_obj :: "'s \<Rightarrow> string \<Rightarrow> byte list \<Rightarrow> int \<Rightarrow> string \<Rightarrow> (store_error + obj_info) \<times> 's"
    and head_obj :: "'s \<Rightarrow> string \<Rightarrow> store_error + obj_info"
    and get_obj :: "'s \<Rightarrow> string \<Rightarrow> store_error + byte list"
    and apart :: "string \<Rightarrow> string \<Rightarrow> bool"
    and inv :: "'s \<Rightarrow> bool"
  assumes put_inv: "inv s \<Longrightarrow> put_obj s k d n ct = (r, s') \<Longrightarrow> inv s'"
    and put_get: "inv s \<Longrightarrow> put_obj s k d n ct = (Inr ob, s') \<Longrightarrow> get_obj s' k = Inr d"
    and put_head: "inv s \<Longrightarrow> put_obj s k d n ct = (Inr ob, s') \<Longrightarrow> head_obj s' k = Inr ob"
    and put_info: "inv s \<Longrightarrow> put_obj s k d n ct = (Inr ob, s') \<Longrightarrow>
      ob_size ob = int (length d) \<and> ob_content_type ob = ct \<and> (0 \<le> n \<longrightarrow> n = int (length d))"
    and put_other: "inv s \<Longrightarrow> put_obj s k d n ct = (r, s') \<Longrightarrow> apart k k' \<Longrightarrow>
      get_obj s' k' = get_obj s k' \<and> head_obj s' k' = head_obj s k'"
    and put_valid: "put_obj s k d n ct = (Inr ob, s') \<Longrightarrow> validate_key k = None"
begin

text \<open>Objects stored under keys that are pairwise apart are all there afterwards.\<close>

fun put_all :: "'s \<Rightarrow> (string \<times> byte list \<times> string) list \<Rightarrow> 's option" where
  "put_all s [] = Some s"
| "put_all s ((k, d, ct) # rest) =
     (case put_obj s k d (int (length d)) ct of (Inr ob, s') \<Rightarrow> put_all s' rest | (Inl e, s') \<Rightarrow> None)"

lemma put_all_inv: "put_all s os = Some s' \<Longrightarrow> inv s \<Longrightarrow> inv s'"
  by (induction s os rule: put_all.induct) (auto split: prod.splits sum.splits dest: put_inv)

lemma put_all_keeps:
  "put_all s os = Some s' \<Longrightarrow> inv s \<Longrightarrow> \<forall>x \<in> set os. apart (fst x) k' \<Longrightarrow> get_obj s' k' = get_obj s k'"
proof (induction s os rule: put_all.induct)
  case (2 s k d ct rest)
  obtain ob s1 where p: "put_obj s k d (int (length d)) ct = (Inr ob, s1)" and r: "put_all s1 rest = Some s'"
    using "2.prems"(1) by (auto split: prod.splits sum.splits)
  have "get_obj s1 k' = get_obj s k'" using put_other [OF "2.prems"(2) p] "2.prems"(3) by simp
  moreover have "get_obj s' k' = get_obj s1 k'"
    using "2.IH" [OF p [symmetric] _ r put_inv [OF "2.prems"(2) p]] "2.prems"(3) by simp
  ultimately show ?case by simp
qed simp

lemma put_all_stores:
  "put_all s os = Some s' \<Longrightarrow> inv s \<Longrightarrow> sorted_wrt (\<lambda>a b. apart (fst b) (fst a)) os \<Longrightarrow>
   \<forall>x \<in> set os. get_obj s' (fst x) = Inr (fst (snd x))"
proof (induction s os rule: put_all.induct)
  case (2 s k d ct rest)
  obtain ob s1 where p: "put_obj s k d (int (length d)) ct = (Inr ob, s1)" and r: "put_all s1 rest = Some s'"
    using "2.prems"(1) by (auto split: prod.splits sum.splits)
  have i: "inv s1" using put_inv "2.prems"(2) p by blast
  have "get_obj s' k = get_obj s1 k" using put_all_keeps [OF r i, of k] "2.prems"(3) by simp
  then have "get_obj s' k = Inr d" using put_get [OF "2.prems"(2) p] by simp
  moreover have "\<forall>x \<in> set rest. get_obj s' (fst x) = Inr (fst (snd x))"
    using "2.IH" [OF p [symmetric] _ r i] "2.prems"(3) by simp
  ultimately show ?case by simp
qed simp

end

end
