(* ===== verification/LocalFs.thy ===== *)
theory LocalFs
  imports Storage
begin

text \<open>
  \<^verbatim>\<open>internal/transfer/storage/localfs/localfs.go\<close>: the storage driver on the local file system. The file
  system has files (contents by cleaned path) and directories; \<open>put_io\<close> says which of the system calls of
  \<open>Put\<close> fail for reasons of their own. The metadata file holds the metadata itself; \<open>json_meta\<close> is the
  decoder applied to uploaded bytes that happen to be read as a metadata file.
\<close>

section \<open>Files and directories\<close>

record object_meta =
  om_size :: int
  om_sha256 :: string
  om_content_type :: string
  om_etag :: string

datatype content = Blob "byte list" | Meta_File object_meta

record fs =
  fs_files :: "(string, content) gomap"
  fs_dirs :: "string list"

datatype fs_entry = File content | Directory | Not_A_Dir | Not_Exist

text \<open>The directories on the way to a path.\<close>

definition ancestors :: "string \<Rightarrow> string list" where
  "ancestors p = map (\<lambda>i. take i p) (filter (\<lambda>i. p ! i = CHR ''/'') [1..<length p])"

definition is_file :: "fs \<Rightarrow> string \<Rightarrow> bool" where
  "is_file f p \<longleftrightarrow> mget (fs_files f) p \<noteq> None"

definition fs_open :: "fs \<Rightarrow> string \<Rightarrow> fs_entry" where
  "fs_open f p =
     (case mget (fs_files f) p of
        Some c \<Rightarrow> File c
      | None \<Rightarrow>
          if p \<in> set (fs_dirs f) then Directory
          else if list_ex (is_file f) (ancestors p) then Not_A_Dir else Not_Exist)"

definition mkdir_all :: "fs \<Rightarrow> string \<Rightarrow> fs option" where
  "mkdir_all f p =
     (if list_ex (is_file f) (ancestors p @ [p]) then None
      else Some (f\<lparr>fs_dirs := remdups (ancestors p @ [p] @ fs_dirs f)\<rparr>))"

definition write_file :: "fs \<Rightarrow> string \<Rightarrow> content \<Rightarrow> fs option" where
  "write_file f p c = (if p \<in> set (fs_dirs f) then None else Some (f\<lparr>fs_files := mput p c (fs_files f)\<rparr>))"

datatype removal = Removed fs | Remove_Missing | Remove_Error

definition fs_remove :: "fs \<Rightarrow> string \<Rightarrow> removal" where
  "fs_remove f p =
     (case fs_open f p of
        File c \<Rightarrow> Removed (f\<lparr>fs_files := mdel p (fs_files f)\<rparr>)
      | Directory \<Rightarrow>
          if list_ex (\<lambda>q. p \<in> set (ancestors q)) (map fst (fs_files f) @ fs_dirs f) then Remove_Error
          else Removed (f\<lparr>fs_dirs := removeAll p (fs_dirs f)\<rparr>)
      | Not_A_Dir \<Rightarrow> Remove_Error
      | Not_Exist \<Rightarrow> Remove_Missing)"

section \<open>The driver\<close>

record local_cfg =
  lf_root :: string
  lf_public_base :: string
  lf_secret :: "byte list"
  lf_expires :: duration

datatype local_new_error = Root_Required | Secret_Too_Short | Root_Not_Created

definition new_local :: "bool \<Rightarrow> local_cfg \<Rightarrow> local_new_error + local_cfg" where
  "new_local mkdir_ok cfg =
     (if lf_root cfg = [] then Inl Root_Required
      else
        (let base = (if lf_public_base cfg = [] then ''http://127.0.0.1:8080'' else lf_public_base cfg);
             cfg1 = cfg\<lparr>lf_public_base := trim_right_set base ''/''\<rparr>
         in if length (lf_secret cfg) < 16 then Inl Secret_Too_Short
            else if \<not> mkdir_ok then Inl Root_Not_Created
            else Inr (if lf_expires cfg \<le> 0 then cfg1\<lparr>lf_expires := 15 * minute\<rparr> else cfg1)))"

definition local_path :: "local_cfg \<Rightarrow> string \<Rightarrow> store_error + string" where
  "local_path d key =
     (case validate_key key of Some e \<Rightarrow> Inl e | None \<Rightarrow> Inr (path_join [lf_root d, key]))"

text \<open>\<open>ctx_base\<close> is the base URL the request context carries, when it does.\<close>

definition local_url ::
    "time \<Rightarrow> local_cfg \<Rightarrow> string option \<Rightarrow> string \<Rightarrow> string \<Rightarrow> duration \<Rightarrow> store_error + string" where
  "local_url now d ctx_base meth key ttl =
     (case local_path d key of
        Inl e \<Rightarrow> Inl e
      | Inr _ \<Rightarrow>
          (let ttl' = (if ttl = 0 then lf_expires d else ttl);
               base = (case ctx_base of
                         Some pb \<Rightarrow> if pb \<noteq> [] then trim_right_set pb ''/'' else lf_public_base d
                       | None \<Rightarrow> lf_public_base d)
           in Inr (base @ ''/files/'' @ key @ ''?'' @ presign_query (lf_secret d) meth key (now + ttl'))))"

definition presign_get :: "time \<Rightarrow> local_cfg \<Rightarrow> string option \<Rightarrow> string \<Rightarrow> duration \<Rightarrow> store_error + string" where
  "presign_get now d ctx_base key expires = local_url now d ctx_base ''GET'' key expires"

definition presign_head :: "time \<Rightarrow> local_cfg \<Rightarrow> string option \<Rightarrow> string \<Rightarrow> duration \<Rightarrow> store_error + string" where
  "presign_head now d ctx_base key expires = local_url now d ctx_base ''GET'' key expires"

definition meta_path :: "string \<Rightarrow> string" where
  "meta_path p = p @ ''.meta.json''"

record put_io =
  io_mkdir :: bool
  io_temp :: bool
  io_copy :: bool
  io_rename :: bool
  io_meta :: bool

definition all_io :: put_io where
  "all_io = \<lparr>io_mkdir = True, io_temp = True, io_copy = True, io_rename = True, io_meta = True\<rparr>"

definition write_meta :: "bool \<Rightarrow> fs \<Rightarrow> string \<Rightarrow> object_meta \<Rightarrow> fs option" where
  "write_meta ok f p m = (if ok then write_file f (meta_path p) (Meta_File m) else None)"

definition put_object ::
    "put_io \<Rightarrow> local_cfg \<Rightarrow> fs \<Rightarrow> string \<Rightarrow> byte list \<Rightarrow> int \<Rightarrow> string \<Rightarrow> (store_error + obj_info) \<times> fs" where
  "put_object io d f key data sz ct =
     (case local_path d key of
        Inl e \<Rightarrow> (Inl e, f)
      | Inr p \<Rightarrow>
          (case (if io_mkdir io then mkdir_all f (path_dir p) else None) of
             None \<Rightarrow> (Inl Obj_IO, f)
           | Some f1 \<Rightarrow>
               if \<not> io_temp io \<or> \<not> io_copy io then (Inl Obj_IO, f1)
               else if 0 \<le> sz \<and> int (length data) \<noteq> sz then (Inl Short_Write, f1)
               else
                 (case (if io_rename io then write_file f1 p (Blob data) else None) of
                    None \<Rightarrow> (Inl Obj_IO, f1)
                  | Some f2 \<Rightarrow>
                      (let sha = bytes_hex (sha256 data);
                           m = \<lparr>om_size = int (length data), om_sha256 = sha, om_content_type = ct,
                                om_etag = [CHR 0x22] @ sha @ [CHR 0x22]\<rparr>
                       in case write_meta (io_meta io) f2 p m of
                            None \<Rightarrow> (Inl Obj_IO, f2)
                          | Some f3 \<Rightarrow>
                              (Inr \<lparr>ob_key = key, ob_size = om_size m, ob_etag = om_etag m,
                                    ob_content_type = ct\<rparr>, f3)))))"

definition read_meta :: "(byte list \<Rightarrow> object_meta option) \<Rightarrow> fs \<Rightarrow> string \<Rightarrow> store_error + object_meta" where
  "read_meta json_meta f p =
     (case fs_open f (meta_path p) of
        File (Meta_File m) \<Rightarrow> Inr m
      | File (Blob b) \<Rightarrow> (case json_meta b of None \<Rightarrow> Inl Obj_IO | Some m \<Rightarrow> Inr m)
      | Directory \<Rightarrow> Inl Obj_IO
      | Not_A_Dir \<Rightarrow> Inl Obj_IO
      | Not_Exist \<Rightarrow> Inl Obj_Not_Found)"

definition head_object ::
    "(byte list \<Rightarrow> object_meta option) \<Rightarrow> local_cfg \<Rightarrow> fs \<Rightarrow> string \<Rightarrow> store_error + obj_info" where
  "head_object json_meta d f key =
     (case local_path d key of
        Inl e \<Rightarrow> Inl e
      | Inr p \<Rightarrow>
          (case read_meta json_meta f p of
             Inl e \<Rightarrow> Inl e
           | Inr m \<Rightarrow> Inr \<lparr>ob_key = key, ob_size = om_size m, ob_etag = om_etag m, ob_content_type = om_content_type m\<rparr>))"

definition object_sha256 ::
    "(byte list \<Rightarrow> object_meta option) \<Rightarrow> local_cfg \<Rightarrow> fs \<Rightarrow> string \<Rightarrow> store_error + string" where
  "object_sha256 json_meta d f key =
     (case local_path d key of
        Inl e \<Rightarrow> Inl e
      | Inr p \<Rightarrow> (case read_meta json_meta f p of Inl e \<Rightarrow> Inl e | Inr m \<Rightarrow> Inr (om_sha256 m)))"

text \<open>
  What a reader gets: a directory opens but cannot be read. \<open>json_text\<close> are the bytes of a metadata file.
\<close>

definition get_object ::
    "(object_meta \<Rightarrow> byte list) \<Rightarrow> local_cfg \<Rightarrow> fs \<Rightarrow> string \<Rightarrow> store_error + byte list" where
  "get_object json_text d f key =
     (case local_path d key of
        Inl e \<Rightarrow> Inl e
      | Inr p \<Rightarrow>
          (case fs_open f p of
             File (Blob b) \<Rightarrow> Inr b
           | File (Meta_File m) \<Rightarrow> Inr (json_text m)
           | Not_Exist \<Rightarrow> Inl Obj_Not_Found
           | _ \<Rightarrow> Inl Obj_IO))"

definition delete_object :: "local_cfg \<Rightarrow> fs \<Rightarrow> string \<Rightarrow> store_error option \<times> fs" where
  "delete_object d f key =
     (case local_path d key of
        Inl e \<Rightarrow> (Some e, f)
      | Inr p \<Rightarrow>
          (let rest = (\<lambda>g. case fs_remove g (meta_path p) of Removed h \<Rightarrow> (None, h) | _ \<Rightarrow> (None, g))
           in case fs_remove f p of
                Removed g \<Rightarrow> rest g
              | Remove_Missing \<Rightarrow> rest f
              | Remove_Error \<Rightarrow> (Some Obj_IO, f)))"

definition ping :: "local_cfg \<Rightarrow> fs \<Rightarrow> bool" where
  "ping d f = (write_file f (path_join [lf_root d, ''.probe'']) (Blob (str_bytes ''ping'')) \<noteq> None)"

definition verify_request :: "time \<Rightarrow> local_cfg \<Rightarrow> string \<Rightarrow> string \<Rightarrow> string \<Rightarrow> presign_error option" where
  "verify_request now d meth key query =
     (case parse_query query of
        None \<Rightarrow> Some Presign_Malformed
      | Some q \<Rightarrow>
          (let expv = query_get q ''exp''; sig = query_get q ''sig'' in
           if expv = [] \<or> sig = [] then Some Presign_Malformed
           else verify now (lf_secret d) (if meth = ''HEAD'' then ''GET'' else meth) key expv sig))"

section \<open>Paths stay below the root\<close>

definition root_parts :: "string \<Rightarrow> string list" where
  "root_parts r = clean_parts (has_prefix r ''/'') [] (split_byte (CHR ''/'') r)"

text \<open>The path of \<open>parts\<close> below a cleaned root.\<close>

definition below :: "string \<Rightarrow> string list \<Rightarrow> string" where
  "below r parts =
     (if r = ''.'' then [] else if r = ''/'' then ''/'' else r @ ''/'') @ join ''/'' parts"

lemma root_parts_kept: "c \<in> set (root_parts r) \<Longrightarrow> c \<noteq> [] \<and> c \<noteq> ''.'' \<and> CHR ''/'' \<notin> set c"
  using clean_parts_kept [of c _ "[]"] split_byte_parts [of c "CHR ''/''" r] by (auto simp: root_parts_def)

lemma path_clean_parts:
  "path_clean r = (let out = (if has_prefix r ''/'' then ''/'' else []) @ join ''/'' (root_parts r)
                   in if out = [] then ''.'' else out)"
  by (simp add: path_clean_def root_parts_def Let_def)

lemma join_dot: "\<forall>w \<in> set ws. w \<noteq> ''.'' \<Longrightarrow> join ''/'' ws \<noteq> ''.''"
proof (cases ws)
  case (Cons w vs)
  assume "\<forall>w \<in> set ws. w \<noteq> ''.''"
  then show ?thesis using Cons by (cases vs; cases w) auto
qed simp

lemma join_slash: "\<forall>w \<in> set ws. w \<noteq> [] \<and> CHR ''/'' \<notin> set w \<Longrightarrow> \<not> has_prefix (join ''/'' ws) ''/''"
proof (cases ws)
  case (Cons w vs)
  assume "\<forall>w \<in> set ws. w \<noteq> [] \<and> CHR ''/'' \<notin> set w"
  then show ?thesis using Cons by (cases vs; cases w) auto
qed simp

lemma clean_below:
  assumes "parts \<noteq> []"
  shows "(if has_prefix r ''/'' then ''/'' else []) @ join ''/'' (root_parts r @ parts) = below (path_clean r) parts"
proof (cases "root_parts r = []")
  case True
  then show ?thesis by (simp add: below_def path_clean_parts)
next
  case False
  have j: "join ''/'' (root_parts r @ parts) = join ''/'' (root_parts r) @ ''/'' @ join ''/'' parts"
    using join_append_ne [OF False assms] by simp
  have ne: "join ''/'' (root_parts r) \<noteq> []"
    using join_eq_Nil [of "root_parts r" "''/''"] root_parts_kept False by blast
  have nd: "join ''/'' (root_parts r) \<noteq> ''.''" using join_dot [of "root_parts r"] root_parts_kept by blast
  have ns: "\<not> has_prefix (join ''/'' (root_parts r)) ''/''" using join_slash [of "root_parts r"] root_parts_kept by blast
  then have "join ''/'' (root_parts r) \<noteq> ''/''" by auto
  then show ?thesis using j ne nd by (simp add: below_def path_clean_parts Let_def)
qed

text \<open>The segments of a key that remain in its path.\<close>

definition key_parts :: "string \<Rightarrow> string list" where
  "key_parts k = filter (\<lambda>c. c \<noteq> [] \<and> c \<noteq> ''.'') (split_byte (CHR ''/'') k)"

lemma key_parts_plain:
  "validate_key k = None \<Longrightarrow> list_all plain_part (key_parts k)"
  using split_byte_parts [of _ "CHR ''/''" k]
  by (auto simp: validate_key_iff key_parts_def plain_part_def list_all_iff)

lemma key_parts_ne: "validate_key k = None \<Longrightarrow> key_parts k \<noteq> []"
proof -
  assume k: "validate_key k = None"
  then obtain c s where c: "k = c # s" "key_first c" by (cases k) (auto simp: validate_key_iff key_re_def)
  then have n: "c \<noteq> CHR ''/''" "c \<noteq> CHR ''.''" by (auto simp: key_first_def is_lower_def is_digit_def)
  obtain w ws where "split_byte (CHR ''/'') s = w # ws" by (cases "split_byte (CHR ''/'') s") auto
  then have "split_byte (CHR ''/'') k = (c # w) # ws" using c n by simp
  then show ?thesis using n by (simp add: key_parts_def)
qed

lemma local_path_below:
  assumes "lf_root d \<noteq> []" and "local_path d key = Inr p"
  shows "p = below (path_clean (lf_root d)) (key_parts key)"
proof -
  let ?r = "lf_root d"
  have v: "validate_key key = None" and p: "p = path_join [?r, key]"
    using assms(2) by (auto simp: local_path_def split: option.splits)
  have "path_join [?r, key] = path_clean (?r @ ''/'' @ key)" using assms(1) by (simp add: path_join_def)
  moreover have "has_prefix (?r @ ''/'' @ key) ''/'' = has_prefix ?r ''/''" using assms(1) by (cases ?r) auto
  moreover have "clean_parts b [] (split_byte (CHR ''/'') (?r @ ''/'' @ key)) =
      clean_parts b [] (split_byte (CHR ''/'') ?r) @ key_parts key" for b
    using v by (simp add: split_byte_append_sep clean_parts_append clean_parts_no_dots key_parts_def validate_key_iff)
  moreover have "join ''/'' (root_parts ?r @ key_parts key) \<noteq> []"
    using join_eq_Nil [of "root_parts ?r @ key_parts key" "''/''"] key_parts_ne [OF v] key_parts_plain [OF v] root_parts_kept
    by (fastforce simp: list_all_iff plain_part_def)
  ultimately show ?thesis
    using clean_below [OF key_parts_ne [OF v], of ?r] p
    by (simp add: path_clean_def [of "?r @ CHR ''/'' # key"] root_parts_def Let_def)
qed

section \<open>The file system keeps files and directories apart\<close>

definition fs_ok :: "fs \<Rightarrow> bool" where
  "fs_ok f \<longleftrightarrow> (\<forall>p \<in> set (fs_dirs f). \<not> is_file f p)"

lemma is_file_mput [simp]: "is_file (f\<lparr>fs_files := mput p c (fs_files f)\<rparr>) q \<longleftrightarrow> p = q \<or> is_file f q"
  by (auto simp: is_file_def)

lemma is_file_dirs [simp]: "is_file (f\<lparr>fs_dirs := ds\<rparr>) q = is_file f q"
  by (simp add: is_file_def)

lemma mkdir_ok: "mkdir_all f p = Some g \<Longrightarrow> fs_ok f \<Longrightarrow> fs_ok g"
  by (auto simp: mkdir_all_def fs_ok_def list_ex_iff split: if_splits)

lemma write_ok: "write_file f p c = Some g \<Longrightarrow> fs_ok f \<Longrightarrow> fs_ok g"
  by (auto simp: write_file_def fs_ok_def split: if_splits)

text \<open>The steps a successful \<open>Put\<close> took.\<close>

lemma put_object_ok:
  assumes "put_object io d f key data sz ct = (Inr ob, g)"
  obtains p f1 f2 where "local_path d key = Inr p" "mkdir_all f (path_dir p) = Some f1"
    "write_file f1 p (Blob data) = Some f2"
    "write_file f2 (meta_path p) (Meta_File \<lparr>om_size = int (length data), om_sha256 = bytes_hex (sha256 data),
       om_content_type = ct, om_etag = ob_etag ob\<rparr>) = Some g"
    "ob_key ob = key" "ob_size ob = int (length data)" "ob_content_type ob = ct"
    "0 \<le> sz \<longrightarrow> sz = int (length data)"
  using assms unfolding put_object_def write_meta_def Let_def
  by (auto split: sum.splits option.splits if_splits)

text \<open>What \<open>Put\<close> may have done, whatever it returned.\<close>

lemma put_object_cases:
  assumes "put_object io d f key data sz ct = (r, g)"
  shows "g = f \<or> (\<exists>p f1. local_path d key = Inr p \<and> mkdir_all f (path_dir p) = Some f1 \<and>
    (g = f1 \<or> (\<exists>f2. write_file f1 p (Blob data) = Some f2 \<and>
      (g = f2 \<or> (\<exists>m. write_file f2 (meta_path p) (Meta_File m) = Some g)))))"
  using assms unfolding put_object_def write_meta_def Let_def
  by (auto split: sum.splits option.splits if_splits)

lemma put_object_fs_ok: "put_object io d f key data sz ct = (r, g) \<Longrightarrow> fs_ok f \<Longrightarrow> fs_ok g"
  using put_object_cases [of io d f key data sz ct r g] mkdir_ok write_ok by metis

lemma put_object_valid: "put_object io d f key data sz ct = (Inr ob, g) \<Longrightarrow> validate_key key = None"
  by (erule put_object_ok) (auto simp: local_path_def split: option.splits)

lemma meta_path_neq [simp]: "meta_path p \<noteq> p" "p \<noteq> meta_path p"
  by (simp_all add: meta_path_def)

lemma write_open: "write_file f p c = Some g \<Longrightarrow> fs_open g p = File c"
  by (auto simp: write_file_def fs_open_def split: if_splits)

lemma write_keeps_file: "write_file f p c = Some g \<Longrightarrow> p \<noteq> q \<Longrightarrow> fs_open f q = File b \<Longrightarrow> fs_open g q = File b"
  by (auto simp: write_file_def fs_open_def split: if_splits option.splits)

lemma put_then_get: "put_object io d f key data sz ct = (Inr ob, g) \<Longrightarrow> get_object jt d g key = Inr data"
proof (erule put_object_ok)
  fix p f1 f2 m
  assume "local_path d key = Inr p" "write_file f1 p (Blob data) = Some f2" "write_file f2 (meta_path p) m = Some g"
  then show "get_object jt d g key = Inr data"
    using write_open [of f1 p "Blob data" f2] write_keeps_file [of f2 "meta_path p" m g p] by (simp add: get_object_def)
qed

lemma put_then_head: "put_object io d f key data sz ct = (Inr ob, g) \<Longrightarrow> head_object jm d g key = Inr ob"
proof (erule put_object_ok)
  fix p f2 m
  let ?m = "\<lparr>om_size = int (length data), om_sha256 = bytes_hex (sha256 data), om_content_type = ct, om_etag = ob_etag ob\<rparr>"
  assume a: "local_path d key = Inr p" "write_file f2 (meta_path p) (Meta_File ?m) = Some g"
    "ob_key ob = key" "ob_size ob = int (length data)" "ob_content_type ob = ct"
  then show "head_object jm d g key = Inr ob"
    using write_open [OF a(2)] by (cases ob) (simp add: head_object_def read_meta_def)
qed

subsection \<open>Keys that do not share files\<close>

text \<open>\<open>clear p q\<close>: creating a file at \<open>p\<close>, with its directories, does not change what \<open>q\<close> opens.\<close>

definition clear :: "string \<Rightarrow> string \<Rightarrow> bool" where
  "clear p q \<longleftrightarrow> p \<noteq> q \<and> p \<notin> set (ancestors q) \<and> q \<notin> set (path_dir p # ancestors (path_dir p))"

definition keys_apart :: "local_cfg \<Rightarrow> string \<Rightarrow> string \<Rightarrow> bool" where
  "keys_apart d k k' =
     (case (local_path d k, local_path d k') of
        (Inr p, Inr q) \<Rightarrow> clear p q \<and> clear p (meta_path q) \<and>
          meta_path p \<noteq> q \<and> meta_path p \<notin> set (ancestors q) \<and> meta_path p \<notin> set (ancestors (meta_path q))
      | _ \<Rightarrow> True)"

lemma mkdir_open: "mkdir_all f p = Some g \<Longrightarrow> q \<notin> set (p # ancestors p) \<Longrightarrow> fs_open g q = fs_open f q"
  by (auto simp: mkdir_all_def fs_open_def is_file_def list_ex_iff split: if_splits option.splits) blast

lemma write_other: "write_file f p c = Some g \<Longrightarrow> p \<noteq> q \<Longrightarrow> p \<notin> set (ancestors q) \<Longrightarrow> fs_open g q = fs_open f q"
  by (auto simp: write_file_def fs_open_def is_file_def list_ex_iff split: if_splits option.splits) blast

lemma put_other_open:
  assumes "put_object io d f key data sz ct = (r, g)" and "\<And>p. local_path d key = Inr p \<Longrightarrow> clear p q \<and> meta_path p \<noteq> q \<and> meta_path p \<notin> set (ancestors q)"
  shows "fs_open g q = fs_open f q"
proof -
  consider "g = f"
    | p f1 where "local_path d key = Inr p" "mkdir_all f (path_dir p) = Some f1" "g = f1"
    | p f1 f2 where "local_path d key = Inr p" "mkdir_all f (path_dir p) = Some f1" "write_file f1 p (Blob data) = Some f2" "g = f2"
    | p f1 f2 m where "local_path d key = Inr p" "mkdir_all f (path_dir p) = Some f1" "write_file f1 p (Blob data) = Some f2"
        "write_file f2 (meta_path p) (Meta_File m) = Some g"
    using put_object_cases [OF assms(1)] by metis
  then show ?thesis
  proof cases
    case 2
    then show ?thesis using mkdir_open [OF 2(2), of q] assms(2) [OF 2(1)] by (simp add: clear_def)
  next
    case 3
    have "fs_open f1 q = fs_open f q" using mkdir_open [OF 3(2)] assms(2) [OF 3(1)] by (simp add: clear_def)
    moreover have "fs_open f2 q = fs_open f1 q" using write_other [OF 3(3)] assms(2) [OF 3(1)] by (simp add: clear_def)
    ultimately show ?thesis using 3(4) by simp
  next
    case 4
    have "fs_open f1 q = fs_open f q" using mkdir_open [OF 4(2)] assms(2) [OF 4(1)] by (simp add: clear_def)
    moreover have "fs_open f2 q = fs_open f1 q" using write_other [OF 4(3)] assms(2) [OF 4(1)] by (simp add: clear_def)
    moreover have "fs_open g q = fs_open f2 q" using write_other [OF 4(4)] assms(2) [OF 4(1)] by simp
    ultimately show ?thesis by simp
  qed simp
qed

lemma put_apart:
  assumes "put_object io d f k data sz ct = (r, g)" and "keys_apart d k k'"
  shows "get_object jt d g k' = get_object jt d f k'" "head_object jm d g k' = head_object jm d f k'"
proof -
  show "get_object jt d g k' = get_object jt d f k'"
  proof (cases "local_path d k'")
    case (Inr q)
    have "fs_open g q = fs_open f q"
      by (rule put_other_open [OF assms(1)]) (use assms(2) Inr in \<open>auto simp: keys_apart_def\<close>)
    then show ?thesis using Inr by (simp add: get_object_def)
  qed (simp add: get_object_def)
  show "head_object jm d g k' = head_object jm d f k'"
  proof (cases "local_path d k'")
    case (Inr q)
    have "fs_open g (meta_path q) = fs_open f (meta_path q)"
      by (rule put_other_open [OF assms(1)])
        (use assms(2) Inr in \<open>auto simp: keys_apart_def clear_def meta_path_def\<close>)
    then show ?thesis using Inr by (simp add: head_object_def read_meta_def)
  qed (simp add: head_object_def)
qed

text \<open>The driver keeps what the storage interface promises.\<close>

interpretation lf: object_store "put_object io d" "head_object jm d" "get_object jt d" "keys_apart d" fs_ok
  for io d jm jt
proof (unfold_locales, goal_cases)
  case (1 s k da n ct r s')
  then show ?case using put_object_fs_ok by blast
next
  case (2 s k da n ct ob s')
  then show ?case using put_then_get by blast
next
  case (3 s k da n ct ob s')
  then show ?case using put_then_head by blast
next
  case (4 s k da n ct ob s')
  from 4(2) show ?case by (rule put_object_ok) simp
next
  case (5 s k da n ct r s' k')
  then show ?case using put_apart [OF 5(2,3)] by blast
next
  case (6 s k da n ct ob s')
  then show ?case using put_object_valid by blast
qed

section \<open>Properties\<close>

definition sample_local :: local_cfg where
  "sample_local = \<lparr>lf_root = ''/srv/dldw/'', lf_public_base = ''http://h'', lf_secret = replicate 16 7,
     lf_expires = 15 * minute\<rparr>"

definition sample_key :: string where "sample_key = ''cache/npm/ab.bin''"

definition empty_fs :: fs where "empty_fs = \<lparr>fs_files = [], fs_dirs = []\<rparr>"

lemma sample_key_valid: "validate_key sample_key = None"
  by code_simp

lemma sample_local_path: "local_path sample_local sample_key = Inr ''/srv/dldw/cache/npm/ab.bin''"
  by code_simp

text \<open>
  No key leaves the root. When the driver accepts a key, the file it opens lies strictly below the
  cleaned root directory: the rest of its path is a non-empty list of plain names, never \<open>..\<close>, so neither
  a crafted key nor a doubled or dotted segment reaches another directory.
\<close>

theorem local_paths_inside:
  assumes "lf_root d \<noteq> []" and "local_path d key = Inr p"
  shows "p = below (path_clean (lf_root d)) (key_parts key) \<and> key_parts key \<noteq> [] \<and>
    list_all plain_part (key_parts key)"
proof -
  have "validate_key key = None" using assms(2) by (auto simp: local_path_def split: option.splits)
  then show ?thesis using local_path_below [OF assms] key_parts_ne key_parts_plain by blast
qed

theorem local_paths_inside_witness:
  "''/srv/dldw/cache/npm/ab.bin'' = below (path_clean ''/srv/dldw/'') (key_parts sample_key) \<and>
   key_parts sample_key \<noteq> [] \<and> list_all plain_part (key_parts sample_key)"
  using local_paths_inside [OF _ sample_local_path] by (simp add: sample_local_def)

definition effective_ttl :: "local_cfg \<Rightarrow> duration \<Rightarrow> duration" where
  "effective_ttl d ttl = (if ttl = 0 then lf_expires d else ttl)"

text \<open>The query the driver signs is accepted for its key until the second of its expiry.\<close>

lemma link_verifies:
  assumes "local_url now d b ''GET'' key ttl = Inr u" and "\<bar>time_unix (now + effective_ttl d ttl)\<bar> \<le> max_int64"
  obtains base q where "u = base @ ''/files/'' @ key @ ''?'' @ q"
    and "\<And>meth now'. meth = ''GET'' \<or> meth = ''HEAD'' \<Longrightarrow> verify_request now' d meth key q =
      (if time_unix (now + effective_ttl d ttl) < time_unix now' then Some Presign_Expired else None)"
proof -
  let ?t = "now + effective_ttl d ttl"
  let ?q = "presign_query (lf_secret d) ''GET'' key ?t"
  obtain base where u: "u = base @ ''/files/'' @ key @ ''?'' @ ?q"
    using assms(1) by (auto simp: local_url_def effective_ttl_def Let_def split: sum.splits)
  have a: "atoi (itoa (time_unix ?t)) = Some (time_unix ?t)"
    using assms(2) by (intro atoi_itoa) (auto simp: min_int64_def max_int64_def)
  have s: "sign (lf_secret d) ''GET'' key (time_of_unix (time_unix ?t)) = sign (lf_secret d) ''GET'' key ?t"
    by (simp add: sign_def)
  have n: "sign (lf_secret d) ''GET'' key ?t \<noteq> []"
    using length_bytes_hex by (metis length_hmac_sha256 list.size(3) mult_eq_0_iff sign_def zero_neq_numeral)
  have "verify_request now' d meth key ?q = (if time_unix ?t < time_unix now' then Some Presign_Expired else None)"
    if "meth = ''GET'' \<or> meth = ''HEAD''" for meth now'
    using that a s n by (auto simp: verify_request_def parse_presign_query query_get_def verify_def)
  then show ?thesis using that u by blast
qed

text \<open>
  A link works until it expires. The URL the driver signs for a key ends in the key and a query that
  the file handler accepts for GET and for HEAD of this key in every second up to the expiry, and refuses
  as expired from the next second on.
\<close>

theorem signed_link_opens:
  assumes "local_url now d b ''GET'' key ttl = Inr u" and "meth = ''GET'' \<or> meth = ''HEAD''"
    and "\<bar>time_unix (now + effective_ttl d ttl)\<bar> \<le> max_int64"
  shows "\<exists>base q. u = base @ ''/files/'' @ key @ ''?'' @ q \<and>
    verify_request now' d meth key q =
      (if time_unix (now + effective_ttl d ttl) < time_unix now' then Some Presign_Expired else None)"
  by (rule link_verifies [OF assms(1,3)]) (use assms(2) in blast)

lemma small_unix: "\<bar>time_unix (time_of_unix 1000)\<bar> \<le> max_int64"
  by (simp add: max_int64_def)

lemma sample_url:
  "local_url 0 sample_local None ''GET'' sample_key (time_of_unix 1000) =
     Inr (''http://h/files/'' @ sample_key @ ''?'' @ presign_query (replicate 16 7) ''GET'' sample_key (time_of_unix 1000))"
  using sample_local_path
  by (simp add: local_url_def sample_local_def time_of_unix_def unix_epoch_def second_def)

theorem signed_link_opens_witness:
  "\<exists>base q. ''http://h/files/'' @ sample_key @ ''?'' @ presign_query (replicate 16 7) ''GET'' sample_key (time_of_unix 1000) =
      base @ ''/files/'' @ sample_key @ ''?'' @ q \<and>
    verify_request (time_of_unix 1000) sample_local ''HEAD'' sample_key q = None"
  using signed_link_opens [OF sample_url, of "''HEAD''" "time_of_unix 1000"] small_unix
  by (simp add: effective_ttl_def time_of_unix_def unix_epoch_def second_def time_unix_def)


lemma sample_request:
  "verify_request 0 sample_local ''GET'' sample_key (presign_query (lf_secret sample_local) ''GET'' sample_key (time_of_unix 1000)) = None"
proof -
  have "atoi (itoa 1000) = Some 1000" by (rule atoi_itoa) (simp_all add: min_int64_def max_int64_def)
  moreover have "sign s m k t \<noteq> []" for s m k t
    using length_bytes_hex by (metis length_hmac_sha256 list.size(3) mult_eq_0_iff sign_def zero_neq_numeral)
  moreover have "time_unix 0 \<le> 1000" by (simp add: time_unix_def unix_epoch_def second_def)
  ultimately show ?thesis
    by (simp add: verify_request_def parse_presign_query query_get_def verify_def)
qed


text \<open>
  C14. The driver implements the storage interface. A successful \<open>Put\<close> makes the key hold exactly the bytes
  sent, with a \<open>Head\<close> that equals the returned object and the announced size; objects whose keys share no
  file with it are untouched, whatever \<open>Put\<close> returns; a refused key or a length that differs from the
  announced one stores nothing.
\<close>

theorem localfs_put:
  assumes "fs_ok f" and "put_object io d f key data sz ct = (r, g)"
  shows "fs_ok g \<and>
    (\<forall>ob. r = Inr ob \<longrightarrow> get_object jt d g key = Inr data \<and> head_object jm d g key = Inr ob \<and>
      ob_size ob = int (length data) \<and> (0 \<le> sz \<longrightarrow> sz = ob_size ob)) \<and>
    (\<forall>k. keys_apart d key k \<longrightarrow> get_object jt d g k = get_object jt d f k \<and> head_object jm d g k = head_object jm d f k) \<and>
    (r = Inl Short_Write \<or> r = Inl Bad_Key \<longrightarrow> fs_files g = fs_files f)"
proof (intro conjI allI impI)
  show "fs_ok g" using lf.put_inv [OF assms] .
next
  fix ob assume r: "r = Inr ob"
  show "get_object jt d g key = Inr data" using lf.put_get [OF assms(1) assms(2) [unfolded r]] .
  show "head_object jm d g key = Inr ob" using lf.put_head [OF assms(1) assms(2) [unfolded r]] .
  show "ob_size ob = int (length data)" using lf.put_info [OF assms(1) assms(2) [unfolded r]] by simp
  show "sz = ob_size ob" if "0 \<le> sz" using lf.put_info [OF assms(1) assms(2) [unfolded r]] that by simp
next
  fix k assume "keys_apart d key k"
  then show "get_object jt d g k = get_object jt d f k" "head_object jm d g k = head_object jm d f k"
    using lf.put_other [OF assms] by blast+
next
  assume "r = Inl Short_Write \<or> r = Inl Bad_Key"
  then show "fs_files g = fs_files f"
    using assms(2) by (auto simp: put_object_def mkdir_all_def Let_def split: sum.splits option.splits if_splits)
qed

theorem localfs_put_witness:
  "let g = snd (put_object all_io sample_local empty_fs sample_key [1, 2] 2 ''t'') in
   fs_ok g \<and> get_object (\<lambda>_. []) sample_local g sample_key = Inr [1, 2]"
proof -
  let ?r = "put_object all_io sample_local empty_fs sample_key [1, 2] 2 ''t''"
  have d: "path_dir ''/srv/dldw/cache/npm/ab.bin'' = ''/srv/dldw/cache/npm''" by code_simp
  obtain ob g where p: "?r = (Inr ob, g)"
    by (auto simp: put_object_def sample_local_path all_io_def mkdir_all_def write_file_def write_meta_def Let_def
      empty_fs_def is_file_def list_ex_iff d ancestors_def meta_path_def)
  have "fs_ok empty_fs" by (simp add: fs_ok_def empty_fs_def)
  from localfs_put [OF this p, of "\<lambda>_. []"] p show ?thesis by (simp add: Let_def)
qed

section \<open>Storing into an empty directory\<close>

lemma ancestors_shorter: "a \<in> set (ancestors p) \<Longrightarrow> length a < length p"
  by (auto simp: ancestors_def)

lemma last_join: "w \<noteq> [] \<Longrightarrow> join s (ws @ [w]) \<noteq> [] \<and> last (join s (ws @ [w])) = last w"
  by (cases "ws = []") (simp_all add: join_append_ne)

lemma last_local_path:
  assumes "lf_root d \<noteq> []" and "local_path d key = Inr p"
  shows "p \<noteq> [] \<and> last p \<noteq> CHR ''/''"
proof -
  have v: "validate_key key = None" using assms(2) by (auto simp: local_path_def split: option.splits)
  have p: "p = below (path_clean (lf_root d)) (key_parts key)" by (rule local_path_below [OF assms])
  obtain ws w where w: "key_parts key = ws @ [w]" using key_parts_ne [OF v] by (cases "key_parts key" rule: rev_cases) auto
  then have "plain_part w" using key_parts_plain [OF v] by simp
  then have "w \<noteq> []" "last w \<noteq> CHR ''/''" by (metis last_in_set plain_part_def)+
  then have "join ''/'' (key_parts key) \<noteq> [] \<and> last (join ''/'' (key_parts key)) \<noteq> CHR ''/''"
    using last_join [of w "''/''" ws] w by simp
  then show ?thesis by (simp add: p below_def)
qed

lemma put_into_empty:
  assumes "lf_root d = CHR ''/'' # r" and "validate_key key = None"
  shows "\<exists>ob g. put_object all_io d empty_fs key data (int (length data)) ct = (Inr ob, g)"
proof -
  obtain p where p: "local_path d key = Inr p" using assms(2) by (simp add: local_path_def)
  have "p = below (path_clean (lf_root d)) (key_parts key)" using local_path_below [OF _ p] assms(1) by simp
  moreover have "CHR ''/'' \<in> set (path_clean (lf_root d))" using assms(1) by (simp add: path_clean_def Let_def)
  ultimately have "CHR ''/'' \<in> set p" by (auto simp: below_def)
  then have "length (path_dir p) < length p" using dir_shorter last_local_path [OF _ p] assms(1) by simp
  then have "p \<noteq> path_dir p" "p \<notin> set (ancestors (path_dir p))" using ancestors_shorter [of p "path_dir p"] by auto
  moreover have "meta_path p \<noteq> path_dir p" "meta_path p \<notin> set (ancestors (path_dir p))"
    using ancestors_shorter [of "meta_path p" "path_dir p"] \<open>length (path_dir p) < length p\<close>
    by (auto simp: meta_path_def dest: arg_cong [where f = length])
  ultimately show ?thesis
    using p by (auto simp: put_object_def all_io_def mkdir_all_def write_file_def write_meta_def Let_def empty_fs_def is_file_def list_ex_iff)
qed

end
