(* ===== verification/Engine.thy ===== *)
theory Engine
  imports Tasks UrlCanon LocalFs
begin

text \<open>
  \<^verbatim>\<open>internal/transfer/tasks/engine.go\<close>: resolving a URL to a cached artifact or a task, and the loop that
  drives a task through the state machine. The executor and the storage are seen through what each
  attempt of the loop gets from them (\<open>attempt\<close>); \<open>env\<close> gives the clock and the fate of each save of the
  store, numbered by the updates the loop has made.
\<close>

section \<open>Configuration and names\<close>

record engine_cfg =
  ec_tmp_dir :: string
  ec_presign_ttl :: duration
  ec_max_retries :: int
  ec_retry_backoff :: duration
  ec_gc_age :: duration

definition engine_defaults :: "string \<Rightarrow> engine_cfg \<Rightarrow> engine_cfg" where
  "engine_defaults tmp c =
     \<lparr>ec_tmp_dir = (if ec_tmp_dir c = [] then path_join [tmp, ''dldw-tasks''] else ec_tmp_dir c),
      ec_presign_ttl = (if ec_presign_ttl c \<le> 0 then 15 * minute else ec_presign_ttl c),
      ec_max_retries = (if ec_max_retries c < 0 then 3 else ec_max_retries c),
      ec_retry_backoff = (if ec_retry_backoff c \<le> 0 then 2 * second else ec_retry_backoff c),
      ec_gc_age = (if ec_gc_age c \<le> 0 then hour else ec_gc_age c)\<rparr>"

definition storage_key_for :: "string \<Rightarrow> string \<Rightarrow> string" where
  "storage_key_for family key =
     (if length key < 4 then ''cache/'' @ family @ ''/'' @ key @ ''.bin''
      else ''cache/'' @ family @ ''/'' @ take 2 key @ ''/'' @ take 2 (drop 2 key) @ ''/'' @ key @ ''.bin'')"

definition storage_key :: "task \<Rightarrow> string" where
  "storage_key t = storage_key_for (tk_family t) (tk_cache_key t)"

definition hint_name :: "string \<Rightarrow> string" where
  "hint_name canonical =
     (let p = fst (cut_byte (CHR ''?'') canonical);
          base = path_base (map (\<lambda>c. if c = CHR 0x5C then CHR ''/'' else c) p)
      in if base = [] \<or> base = ''/'' \<or> base = ''.'' then ''artifact.bin'' else base)"

definition status_str :: "status \<Rightarrow> string" where
  "status_str s =
     (case s of Queued \<Rightarrow> ''queued'' | Downloading \<Rightarrow> ''downloading'' | Downloaded \<Rightarrow> ''downloaded''
      | Uploading \<Rightarrow> ''uploading'' | Registering \<Rightarrow> ''registering'' | Ready \<Rightarrow> ''ready''
      | Failed \<Rightarrow> ''failed'' | Dead \<Rightarrow> ''dead'')"

section \<open>Processing a task\<close>

record fetched =
  fr_local_path :: string
  fr_size :: int
  fr_sha256 :: string
  fr_etag :: string
  fr_content_type :: string

text \<open>What one turn of the loop gets: from \<open>Fetch\<close>, from opening the file, from the storage's \<open>Put\<close>.\<close>

datatype attempt =
    Fetch_Fails string
  | Open_Fails fetched string
  | Upload_Fails fetched string
  | Uploaded fetched obj_info

record proc_env =
  pe_now :: "nat \<Rightarrow> time"
  pe_io :: "nat \<Rightarrow> bool"

text \<open>Where a turn ends: the loop returns (with the task it holds, and whether \<open>EndFetch\<close> was called), or goes on.\<close>

datatype turn = Stops task_store "task option" bool | Again nat task_store task

definition pe_update ::
    "proc_env \<Rightarrow> nat \<Rightarrow> task_store \<Rightarrow> string \<Rightarrow> (task \<Rightarrow> task) \<Rightarrow>
     (task_error + task \<times> task_error option) \<times> task_store" where
  "pe_update env n s tid fn = update (pe_io env n) (pe_now env n) s tid fn"

text \<open>One \<open>Update\<close> of the loop: an error ends it, otherwise \<open>k\<close> goes on with the new task.\<close>

definition advance ::
    "proc_env \<Rightarrow> nat \<Rightarrow> task_store \<Rightarrow> string \<Rightarrow> (task \<Rightarrow> task) \<Rightarrow>
     (nat \<Rightarrow> task_store \<Rightarrow> task \<Rightarrow> turn) \<Rightarrow> turn" where
  "advance env n s tid fn k =
     (case pe_update env n s tid fn of
        (Inl _, s') \<Rightarrow> Stops s' None False
      | (Inr (t, Some _), s') \<Rightarrow> Stops s' (Some t) False
      | (Inr (t, None), s') \<Rightarrow> k (Suc n) s' t)"

definition start_fetch :: "task \<Rightarrow> task" where
  "start_fetch x = x\<lparr>tk_status := Downloading, tk_error := [], tk_progress := (5, 100)\<rparr>"

definition mark_failed :: "string \<Rightarrow> int \<Rightarrow> task \<Rightarrow> task" where
  "mark_failed msg retries x =
     x\<lparr>tk_status := Failed, tk_error := msg, tk_error_code := ''E_TASK_FAILED'', tk_retries := retries\<rparr>"

definition mark :: "status \<Rightarrow> int \<times> int \<Rightarrow> task \<Rightarrow> task" where
  "mark st p x = x\<lparr>tk_status := st, tk_progress := p\<rparr>"

definition register_artifact :: "artifact \<Rightarrow> task \<Rightarrow> task" where
  "register_artifact a x = x\<lparr>tk_artifact := Some a, tk_status := Ready, tk_progress := (1, 1)\<rparr>"

text \<open>\<open>fail\<close>, followed by the check of the loop: an error or a dead task ends it.\<close>

definition fail :: "proc_env \<Rightarrow> nat \<Rightarrow> task_store \<Rightarrow> task \<Rightarrow> string \<Rightarrow> turn" where
  "fail env n s t msg =
     (let retries = tk_retries t + 1 in
      case pe_update env n s (tk_id t) (mark_failed msg retries) of
        (Inl _, s') \<Rightarrow> Stops s' None False
      | (Inr (_, Some _), s') \<Rightarrow> Stops s' None False
      | (Inr (nt, None), s') \<Rightarrow>
          if tk_max_retries t < retries then
            (case pe_update env (Suc n) s' (tk_id t) (\<lambda>x. x\<lparr>tk_status := Dead\<rparr>) of
               (Inl _, s2) \<Rightarrow> Stops s2 None False
             | (Inr (d, _), s2) \<Rightarrow> Stops s2 (Some d) False)
          else Again (Suc n) s' nt)"

definition artifact_of :: "string \<Rightarrow> fetched \<Rightarrow> obj_info \<Rightarrow> artifact" where
  "artifact_of key res ob =
     \<lparr>ar_size = ob_size ob, ar_sha256 = fr_sha256 res, ar_etag = ob_etag ob,
      ar_content_type = fr_content_type res, ar_storage_key = key\<rparr>"

text \<open>The body of the loop after the task is downloading.\<close>

definition fetch_and_store :: "proc_env \<Rightarrow> attempt \<Rightarrow> nat \<Rightarrow> task_store \<Rightarrow> task \<Rightarrow> turn" where
  "fetch_and_store env att n s t =
     (let stored = (\<lambda>rest. advance env n s (tk_id t) (mark Downloaded (50, 100)) (\<lambda>n s t.
            advance env n s (tk_id t) (mark Uploading (60, 100)) rest))
      in case att of
           Fetch_Fails e \<Rightarrow> fail env n s t e
         | Open_Fails res e \<Rightarrow> stored (\<lambda>n s t. fail env n s t e)
         | Upload_Fails res e \<Rightarrow> stored (\<lambda>n s t. fail env n s t (''upload: '' @ e))
         | Uploaded res ob \<Rightarrow>
             stored (\<lambda>n s t.
               advance env n s (tk_id t) (mark Registering (90, 100)) (\<lambda>n s t.
                 advance env n s (tk_id t) (register_artifact (artifact_of (storage_key t) res ob)) (\<lambda>n s t.
                   Stops s (Some t) True))))"

definition turn_of :: "proc_env \<Rightarrow> attempt \<Rightarrow> nat \<Rightarrow> task_store \<Rightarrow> task \<Rightarrow> turn" where
  "turn_of env att n s t =
     (if tk_status t = Queued \<or> tk_status t = Failed
      then advance env n s (tk_id t) start_fetch (fetch_and_store env att)
      else if tk_status t \<noteq> Downloading then Stops s (Some t) False
      else fetch_and_store env att n s t)"

text \<open>The loop, over what its turns will get; None when they run out before it returns.\<close>

fun process_loop :: "proc_env \<Rightarrow> attempt list \<Rightarrow> nat \<Rightarrow> task_store \<Rightarrow> task \<Rightarrow> (task_store \<times> task option \<times> bool) option" where
  "process_loop env [] n s t = None"
| "process_loop env (att # atts) n s t =
     (case turn_of env att n s t of
        Stops s' ot ended \<Rightarrow> Some (s', ot, ended)
      | Again n' s' t' \<Rightarrow> process_loop env atts n' s' t')"

text \<open>
  \<open>process\<close>: a task already being processed is left alone. The result says whether the temporary directory
  of the task is removed.
\<close>

record proc_result =
  pr_store :: task_store
  pr_removed_dir :: bool
  pr_end_fetch :: bool

definition process ::
    "proc_env \<Rightarrow> attempt list \<Rightarrow> string list \<Rightarrow> task_store \<Rightarrow> string \<Rightarrow> proc_result option" where
  "process env atts processing s tid =
     (if tid \<in> set processing then Some \<lparr>pr_store = s, pr_removed_dir = False, pr_end_fetch = False\<rparr>
      else case get s tid of
        Inl _ \<Rightarrow> Some \<lparr>pr_store = s, pr_removed_dir = False, pr_end_fetch = False\<rparr>
      | Inr t \<Rightarrow>
          (case process_loop env atts 0 s t of
             None \<Rightarrow> None
           | Some (s', ot, ended) \<Rightarrow>
               Some \<lparr>pr_store = s',
                     pr_removed_dir = (case ot of None \<Rightarrow> False | Some u \<Rightarrow> tk_status u = Ready \<or> tk_status u = Dead),
                     pr_end_fetch = ended\<rparr>))"

section \<open>Resolving\<close>

datatype resolve_error =
    Canon_Error canon_error | Not_Cacheable | Presign_Error store_error | Store_Error task_error | Not_Ready
  | Resolve_Panic

record download =
  dl_mode :: string
  dl_urls :: "string list"
  dl_expires_at :: time
  dl_supports_range :: bool

record resolve_result =
  rr_status :: string
  rr_cache_key :: string
  rr_artifact :: "artifact option"
  rr_download :: "download option"
  rr_task :: "task option"

text \<open>\<open>presign\<close> is the storage's \<open>PresignGet\<close>. Reading the storage key of a missing artifact panics.\<close>

definition ready_result ::
    "(string \<Rightarrow> duration \<Rightarrow> store_error + string) \<Rightarrow> time \<Rightarrow> engine_cfg \<Rightarrow> task \<Rightarrow> resolve_error + resolve_result" where
  "ready_result presign now cfg t =
     (case presign (storage_key t) (ec_presign_ttl cfg) of
        Inl e \<Rightarrow> Inl (Presign_Error e)
      | Inr u \<Rightarrow>
          (case tk_artifact t of
             None \<Rightarrow> Inl Resolve_Panic
           | Some a \<Rightarrow>
               Inr \<lparr>rr_status = ''cached'', rr_cache_key = tk_cache_key t, rr_artifact = Some a,
                    rr_download = Some \<lparr>dl_mode = ''presigned'', dl_urls = [u],
                      dl_expires_at = now + ec_presign_ttl cfg, dl_supports_range = True\<rparr>,
                    rr_task = Some t\<rparr>))"

definition task_result :: "string \<Rightarrow> string \<Rightarrow> task \<Rightarrow> resolve_result" where
  "task_result st key t =
     \<lparr>rr_status = st, rr_cache_key = key, rr_artifact = None, rr_download = None, rr_task = Some t\<rparr>"

definition restart :: "task \<Rightarrow> task" where
  "restart x = x\<lparr>tk_status := Downloading, tk_error := [], tk_progress := (2, 100)\<rparr>"

text \<open>A fresh task for the key; the last component is the task whose processing starts.\<close>

definition fresh_task ::
    "(nat \<Rightarrow> byte list option) \<Rightarrow> time \<Rightarrow> bool \<Rightarrow> engine_cfg \<Rightarrow> task_store \<Rightarrow> string \<Rightarrow> string \<Rightarrow> string \<Rightarrow> string \<Rightarrow> string \<Rightarrow>
     (resolve_error + resolve_result) \<times> task_store \<times> string option" where
  "fresh_task rnd now io cfg s raw canonical key family by =
     (let t = new_task rnd now raw canonical key family by (ec_max_retries cfg) in
      case put io now s t of
        (Some e, s') \<Rightarrow> (Inl (Store_Error e), s', None)
      | (None, s') \<Rightarrow> (Inr (task_result ''queued'' key t), s', Some (tk_id t)))"

text \<open>The function run under the singleflight of the cache key.\<close>

definition resolve_key ::
    "(string \<Rightarrow> duration \<Rightarrow> store_error + string) \<Rightarrow> (nat \<Rightarrow> byte list option) \<Rightarrow> time \<Rightarrow> bool \<Rightarrow> engine_cfg \<Rightarrow>
     task_store \<Rightarrow> string \<Rightarrow> string \<Rightarrow> string \<Rightarrow> string \<Rightarrow> string \<Rightarrow>
     (resolve_error + resolve_result) \<times> task_store \<times> string option" where
  "resolve_key presign rnd now io cfg s raw canonical key family by =
     (let fresh = (\<lambda>s'. fresh_task rnd now io cfg s' raw canonical key family by) in
      case get_by_cache_key s key of
        Inl _ \<Rightarrow> fresh s
      | Inr t \<Rightarrow>
          if tk_status t = Ready then (ready_result presign now cfg t, s, None)
          else if tk_status t = Dead then fresh s
          else if tk_status t = Failed then
            (if tk_retries t < tk_max_retries t then
               (case update io now s (tk_id t) restart of
                  (Inr (nt, None), s') \<Rightarrow> (Inr (task_result ''downloading'' key nt), s', Some (tk_id nt))
                | (_, s') \<Rightarrow> fresh s')
             else fresh s)
          else (Inr (task_result (status_str (tk_status t)) key t), s, None))"

definition resolve ::
    "(string \<Rightarrow> duration \<Rightarrow> store_error + string) \<Rightarrow> (nat \<Rightarrow> byte list option) \<Rightarrow> time \<Rightarrow> bool \<Rightarrow> engine_cfg \<Rightarrow>
     task_store \<Rightarrow> string \<Rightarrow> string \<Rightarrow> (resolve_error + resolve_result) \<times> task_store \<times> string option" where
  "resolve presign rnd now io cfg s raw by =
     (case family_of_raw raw of
        Inl e \<Rightarrow> (Inl (Canon_Error e), s, None)
      | Inr (canonical, family, key) \<Rightarrow>
          if family = [] then (Inl Not_Cacheable, s, None)
          else resolve_key presign rnd now io cfg s raw canonical key family by)"

definition refresh_link ::
    "(string \<Rightarrow> duration \<Rightarrow> store_error + string) \<Rightarrow> time \<Rightarrow> engine_cfg \<Rightarrow> task_store \<Rightarrow> string \<Rightarrow>
     resolve_error + resolve_result" where
  "refresh_link presign now cfg s tid =
     (case get s tid of
        Inl e \<Rightarrow> Inl (Store_Error e)
      | Inr t \<Rightarrow>
          if tk_status t \<noteq> Ready \<or> tk_artifact t = None then Inl Not_Ready
          else ready_result presign now cfg t)"

section \<open>Garbage collection\<close>

text \<open>\<open>dirs\<close>: the entries of the temporary directory with their modification time, when it can be read, and whether removing works.\<close>

definition gc_files :: "time \<Rightarrow> engine_cfg \<Rightarrow> (string \<times> time option \<times> bool) list \<Rightarrow> string list" where
  "gc_files now cfg dirs =
     map fst (filter (\<lambda>(nm, mt, ok). (case mt of Some m \<Rightarrow> m < now - ec_gc_age cfg | None \<Rightarrow> False) \<and> ok) dirs)"

definition gc_expired :: "time \<Rightarrow> task \<Rightarrow> bool" where
  "gc_expired now t \<longleftrightarrow> (tk_status t = Dead \<or> tk_status t = Failed) \<and> 24 * hour < time_sub now (tk_updated_at t)"

definition gc_task :: "time \<Rightarrow> (string \<Rightarrow> bool) \<Rightarrow> task_store \<times> nat \<Rightarrow> task \<Rightarrow> task_store \<times> nat" where
  "gc_task now io acc t =
     (if gc_expired now t then
        (case delete (io (tk_id t)) (fst acc) (tk_id t) of
           (None, s') \<Rightarrow> (s', Suc (snd acc))
         | (Some _, s') \<Rightarrow> (s', snd acc))
      else acc)"

definition gc ::
    "time \<Rightarrow> engine_cfg \<Rightarrow> (string \<Rightarrow> bool) \<Rightarrow> (string \<times> time option \<times> bool) list \<Rightarrow> task_store \<Rightarrow>
     nat \<times> nat \<times> task_store" where
  "gc now cfg io dirs s =
     (let (s', n) = foldl (gc_task now io) (s, 0) (list_tasks s) in (length (gc_files now cfg dirs), n, s'))"

section \<open>The loop runs to an end\<close>

definition stored :: "task_store \<Rightarrow> task \<Rightarrow> bool" where
  "stored s t \<longleftrightarrow> mget (st_by_id s) (tk_id t) = Some t"

definition saves :: "proc_env \<Rightarrow> bool" where
  "saves env \<longleftrightarrow> (\<forall>n. pe_io env n)"

text \<open>What the loop never changes of a task.\<close>

definition same_job :: "task \<Rightarrow> task \<Rightarrow> bool" where
  "same_job t u \<longleftrightarrow> tk_id u = tk_id t \<and> tk_cache_key u = tk_cache_key t \<and> tk_family u = tk_family t \<and>
     tk_max_retries u = tk_max_retries t"

lemma same_job_refl [simp]: "same_job t t"
  by (simp add: same_job_def)

lemma same_job_trans: "same_job t u \<Longrightarrow> same_job u v \<Longrightarrow> same_job t v"
  by (simp add: same_job_def)

named_theorems job_changes "the changes the loop makes to a task"

lemmas [job_changes] = start_fetch_def mark_failed_def mark_def register_artifact_def same_job_def

lemma pe_update_ok:
  assumes "saves env" and "stored s t" and "tk_id (fn t) = tk_id t"
    and "can (tk_status t) (tk_status (fn t)) \<or> tk_status t = tk_status (fn t)"
  obtains s' where "pe_update env n s (tk_id t) fn = (Inr ((fn t)\<lparr>tk_updated_at := pe_now env n\<rparr>, None), s')"
    "stored s' ((fn t)\<lparr>tk_updated_at := pe_now env n\<rparr>)"
proof -
  let ?t' = "(fn t)\<lparr>tk_updated_at := pe_now env n\<rparr>"
  have "fst (persist True (store_both ?t' s)) = None" by (simp add: persist_def)
  then obtain s' where p: "persist True (store_both ?t' s) = (None, s')" by (cases "persist True (store_both ?t' s)") auto
  have "pe_update env n s (tk_id t) fn = (Inr (?t', None), s')"
    using assms p by (auto simp: pe_update_def update_def stored_def saves_def Let_def)
  moreover have "stored s' ?t'"
    using persist_fields(1) [OF p] assms(3) by (simp add: stored_def store_both_def)
  ultimately show ?thesis using that by blast
qed

lemma advance_ok:
  assumes "saves env" and "stored s t" and "tk_id (fn t) = tk_id t"
    and "can (tk_status t) (tk_status (fn t)) \<or> tk_status t = tk_status (fn t)"
  obtains s' where "advance env n s (tk_id t) fn k = k (Suc n) s' ((fn t)\<lparr>tk_updated_at := pe_now env n\<rparr>)"
    "stored s' ((fn t)\<lparr>tk_updated_at := pe_now env n\<rparr>)"
proof -
  obtain s' where "pe_update env n s (tk_id t) fn = (Inr ((fn t)\<lparr>tk_updated_at := pe_now env n\<rparr>, None), s')"
    "stored s' ((fn t)\<lparr>tk_updated_at := pe_now env n\<rparr>)"
    using pe_update_ok [of env s t fn n] assms by blast
  then show ?thesis using that by (simp add: advance_def)
qed

text \<open>How a failed turn ends: dead once the retries are used up, otherwise failed with one more retry.\<close>

definition failed_turn :: "task \<Rightarrow> turn \<Rightarrow> bool" where
  "failed_turn t r \<longleftrightarrow>
     (if tk_retries t + 1 \<le> tk_max_retries t
      then (\<exists>n' s' u. r = Again n' s' u \<and> stored s' u \<and> same_job t u \<and> tk_status u = Failed \<and>
        tk_retries u = tk_retries t + 1)
      else (\<exists>s' u. r = Stops s' (Some u) False \<and> stored s' u \<and> same_job t u \<and> tk_status u = Dead))"

lemma fail_turn:
  assumes "saves env" and "stored s t" and "can (tk_status t) Failed"
  shows "failed_turn t (fail env n s t msg)"
proof -
  let ?fn = "mark_failed msg (tk_retries t + 1)"
  let ?u = "(?fn t)\<lparr>tk_updated_at := pe_now env n\<rparr>"
  obtain s' where s': "pe_update env n s (tk_id t) ?fn = (Inr (?u, None), s')" "stored s' ?u"
    using pe_update_ok [OF assms(1,2), of ?fn n] assms(3) by (auto simp: mark_failed_def)
  have u: "same_job t ?u" "tk_status ?u = Failed" "tk_retries ?u = tk_retries t + 1" "tk_id ?u = tk_id t"
    by (simp_all add: job_changes)
  show ?thesis
  proof (cases "tk_retries t + 1 \<le> tk_max_retries t")
    case True
    then show ?thesis using s' u by (simp add: failed_turn_def fail_def)
  next
    case False
    let ?dead = "\<lambda>x. x\<lparr>tk_status := Dead\<rparr>"
    let ?v = "(?dead ?u)\<lparr>tk_updated_at := pe_now env (Suc n)\<rparr>"
    obtain s2 where s2: "pe_update env (Suc n) s' (tk_id ?u) ?dead = (Inr (?v, None), s2)" "stored s2 ?v"
      using pe_update_ok [OF assms(1) s'(2), of ?dead "Suc n"] u(2) by (auto simp: can_def)
    have "same_job t ?v" using u(1) by (simp add: same_job_def)
    then show ?thesis using False s' s2 u(4) by (simp add: failed_turn_def fail_def)
  qed
qed

lemma failed_turn_job: "same_job t u \<Longrightarrow> tk_retries u = tk_retries t \<Longrightarrow> failed_turn u r \<Longrightarrow> failed_turn t r"
  unfolding failed_turn_def same_job_def by (auto split: if_splits)

text \<open>How a turn that stores the artifact ends.\<close>

definition ready_turn :: "task \<Rightarrow> fetched \<Rightarrow> obj_info \<Rightarrow> turn \<Rightarrow> bool" where
  "ready_turn t res ob r \<longleftrightarrow>
     (\<exists>s' u. r = Stops s' (Some u) True \<and> stored s' u \<and> same_job t u \<and> tk_status u = Ready \<and>
       tk_artifact u = Some (artifact_of (storage_key t) res ob))"

lemma ready_turn_job: "same_job t u \<Longrightarrow> ready_turn u res ob r \<Longrightarrow> ready_turn t res ob r"
  unfolding ready_turn_def same_job_def by (auto simp: storage_key_def)

lemma advance_rule:
  assumes "saves env" and "stored s t" and "can (tk_status t) (tk_status (fn t)) \<or> tk_status t = tk_status (fn t)"
    and "same_job t (fn t)" and "tk_retries (fn t) = tk_retries t"
    and "\<And>n s u. stored s u \<Longrightarrow> same_job t u \<Longrightarrow> tk_retries u = tk_retries t \<Longrightarrow> tk_status u = tk_status (fn t) \<Longrightarrow>
      tk_artifact u = tk_artifact (fn t) \<Longrightarrow> P (k n s u)"
  shows "P (advance env n s (tk_id t) fn k)"
proof -
  have "tk_id (fn t) = tk_id t" using assms(4) by (simp add: same_job_def)
  then obtain s' where s': "advance env n s (tk_id t) fn k = k (Suc n) s' ((fn t)\<lparr>tk_updated_at := pe_now env n\<rparr>)"
    "stored s' ((fn t)\<lparr>tk_updated_at := pe_now env n\<rparr>)"
    using advance_ok [of env s t fn n k] assms(1-3) by blast
  have "P (k (Suc n) s' ((fn t)\<lparr>tk_updated_at := pe_now env n\<rparr>))"
    using s'(2) assms(4,5) by (intro assms(6)) (simp_all add: same_job_def)
  then show ?thesis using s'(1) by simp
qed

definition succeeds :: "attempt \<Rightarrow> bool" where
  "succeeds att = (case att of Uploaded _ _ \<Rightarrow> True | _ \<Rightarrow> False)"

definition turn_good :: "attempt \<Rightarrow> task \<Rightarrow> turn \<Rightarrow> bool" where
  "turn_good att t r = (case att of Uploaded res ob \<Rightarrow> ready_turn t res ob r | _ \<Rightarrow> failed_turn t r)"

lemma turn_good_job: "same_job t u \<Longrightarrow> tk_retries u = tk_retries t \<Longrightarrow> turn_good att u r \<Longrightarrow> turn_good att t r"
  using failed_turn_job ready_turn_job by (auto simp: turn_good_def split: attempt.splits)

lemma stored_then:
  assumes "saves env" and "stored s t" and "tk_status t = Downloading"
    and "\<And>n s u. stored s u \<Longrightarrow> same_job t u \<Longrightarrow> tk_retries u = tk_retries t \<Longrightarrow> tk_status u = Uploading \<Longrightarrow> P (k n s u)"
  shows "P (advance env n s (tk_id t) (mark Downloaded (50, 100)) (\<lambda>n s t.
            advance env n s (tk_id t) (mark Uploading (60, 100)) k))"
proof (rule advance_rule [OF assms(1,2)])
  fix n s u
  assume u: "stored s u" "same_job t u" "tk_retries u = tk_retries t" "tk_status u = tk_status (mark Downloaded (50, 100) t)"
  show "P (advance env n s (tk_id u) (mark Uploading (60, 100)) k)"
  proof (rule advance_rule [OF assms(1) u(1)])
    fix n s v
    assume v: "stored s v" "same_job u v" "tk_retries v = tk_retries u" "tk_status v = tk_status (mark Uploading (60, 100) u)"
    have "same_job t v" using same_job_trans [OF u(2) v(2)] .
    then show "P (k n s v)" using u v by (intro assms(4)) (simp_all add: mark_def)
  qed (use u in \<open>simp_all add: job_changes can_def\<close>)
qed (use assms(3) in \<open>simp_all add: job_changes can_def\<close>)

lemma stored_then_fail:
  assumes "saves env" and "stored s t" and "tk_status t = Downloading"
  shows "failed_turn t (advance env n s (tk_id t) (mark Downloaded (50, 100)) (\<lambda>n s t.
            advance env n s (tk_id t) (mark Uploading (60, 100)) (\<lambda>n s t. fail env n s t e)))"
proof (rule stored_then [OF assms])
  fix n s u
  assume u: "stored s u" "same_job t u" "tk_retries u = tk_retries t" "tk_status u = Uploading"
  have "failed_turn u (fail env n s u e)" by (rule fail_turn [OF assms(1) u(1)]) (simp add: u(4) can_def)
  then show "failed_turn t (fail env n s u e)" by (rule failed_turn_job [OF u(2,3)])
qed

lemma fetch_and_store_good:
  assumes "saves env" and "stored s t" and "tk_status t = Downloading"
  shows "turn_good att t (fetch_and_store env att n s t)"
proof (cases att)
  case (Fetch_Fails e)
  have "failed_turn t (fail env n s t e)" using assms by (intro fail_turn) (simp_all add: can_def)
  then show ?thesis using Fetch_Fails by (simp add: turn_good_def fetch_and_store_def)
next
  case (Open_Fails res e)
  show ?thesis using stored_then_fail [OF assms] Open_Fails by (simp add: turn_good_def fetch_and_store_def)
next
  case (Upload_Fails res e)
  show ?thesis using stored_then_fail [OF assms] Upload_Fails by (simp add: turn_good_def fetch_and_store_def)
next
  case (Uploaded res ob)
  let ?reg = "\<lambda>n s t. advance env n s (tk_id t) (register_artifact (artifact_of (storage_key t) res ob)) (\<lambda>n s t. Stops s (Some t) True)"
  have reg: "ready_turn u res ob (?reg n s u)" if "stored s u" "tk_status u = Registering" for n s u
    by (rule advance_rule [OF assms(1) that(1)])
      (use that in \<open>auto simp: job_changes can_def ready_turn_def\<close>)
  have up: "ready_turn u res ob (advance env n s (tk_id u) (mark Registering (90, 100)) ?reg)"
    if u: "stored s u" "tk_status u = Uploading" for n s u
  proof (rule advance_rule [OF assms(1) u(1)])
    fix n s v
    assume v: "stored s v" "same_job u v" "tk_status v = tk_status (mark Registering (90, 100) u)"
    then have "ready_turn v res ob (?reg n s v)" using reg by (simp add: mark_def)
    then show "ready_turn u res ob (?reg n s v)" by (rule ready_turn_job [OF v(2)])
  qed (use u in \<open>simp_all add: job_changes can_def\<close>)
  have "ready_turn t res ob (advance env n s (tk_id t) (mark Downloaded (50, 100)) (\<lambda>n s t.
            advance env n s (tk_id t) (mark Uploading (60, 100)) (\<lambda>n s t.
              advance env n s (tk_id t) (mark Registering (90, 100)) ?reg)))"
  proof (rule stored_then [OF assms])
    fix n s u
    assume u: "stored s u" "same_job t u" "tk_status u = Uploading"
    show "ready_turn t res ob (advance env n s (tk_id u) (mark Registering (90, 100)) ?reg)"
      by (rule ready_turn_job [OF u(2) up [OF u(1,3)]])
  qed
  then show ?thesis using Uploaded by (simp add: turn_good_def fetch_and_store_def)
qed

lemma turn_of_good:
  assumes "saves env" and "stored s t" and "tk_status t = Queued \<or> tk_status t = Failed \<or> tk_status t = Downloading"
  shows "turn_good att t (turn_of env att n s t)"
proof (cases "tk_status t = Downloading")
  case True
  then show ?thesis using fetch_and_store_good [OF assms(1,2)] by (simp add: turn_of_def)
next
  case False
  have "turn_good att t (advance env n s (tk_id t) start_fetch (fetch_and_store env att))"
  proof (rule advance_rule [OF assms(1,2)])
    fix n s u
    assume u: "stored s u" "same_job t u" "tk_retries u = tk_retries t" "tk_status u = tk_status (start_fetch t)"
    then have "turn_good att u (fetch_and_store env att n s u)"
      by (intro fetch_and_store_good [OF assms(1)]) (simp_all add: start_fetch_def)
    then show "turn_good att t (fetch_and_store env att n s u)" using turn_good_job u by blast
  qed (use assms(3) in \<open>auto simp: job_changes can_def\<close>)
  then show ?thesis using False assms(3) by (auto simp: turn_of_def)
qed

text \<open>The loop, given one attempt more than the retries that are left.\<close>

definition budget_left :: "task \<Rightarrow> nat" where
  "budget_left t = Suc (nat (tk_max_retries t - tk_retries t))"

definition loop_outcome :: "task \<Rightarrow> attempt option \<Rightarrow> task_store \<Rightarrow> task \<Rightarrow> bool \<Rightarrow> bool" where
  "loop_outcome t first s' u ended \<longleftrightarrow> stored s' u \<and> same_job t u \<and>
     (case first of
        None \<Rightarrow> tk_status u = Dead \<and> \<not> ended
      | Some a \<Rightarrow> (\<exists>res ob. a = Uploaded res ob \<and> tk_status u = Ready \<and> ended \<and>
          tk_artifact u = Some (artifact_of (storage_key t) res ob)))"

lemma loop_outcome_job: "same_job t v \<Longrightarrow> loop_outcome v a s' u b \<Longrightarrow> loop_outcome t a s' u b"
  unfolding loop_outcome_def same_job_def by (auto simp: storage_key_def split: option.splits)

lemma process_loop_ends:
  assumes "saves env"
  shows "stored s t \<Longrightarrow> tk_status t = Queued \<or> tk_status t = Failed \<or> tk_status t = Downloading \<Longrightarrow>
    budget_left t \<le> length atts \<Longrightarrow>
    \<exists>s' u b. process_loop env atts n s t = Some (s', Some u, b) \<and>
      loop_outcome t (find succeeds (take (budget_left t) atts)) s' u b"
proof (induction atts arbitrary: n s t)
  case Nil
  then show ?case by (simp add: budget_left_def)
next
  case (Cons att atts)
  have good: "turn_good att t (turn_of env att n s t)" using turn_of_good [OF assms Cons.prems(1,2)] .
  show ?case
  proof (cases "succeeds att")
    case True
    then obtain res ob where att: "att = Uploaded res ob" by (auto simp: succeeds_def split: attempt.splits)
    then have "ready_turn t res ob (turn_of env att n s t)" using good by (simp add: turn_good_def)
    moreover have "find succeeds (take (budget_left t) (att # atts)) = Some att"
      using True by (simp add: budget_left_def)
    ultimately show ?thesis using att by (auto simp: ready_turn_def loop_outcome_def)
  next
    case False
    then have f: "failed_turn t (turn_of env att n s t)"
      using good by (auto simp: turn_good_def succeeds_def split: attempt.splits)
    have nf: "find succeeds (take (budget_left t) (att # atts)) = find succeeds (take (nat (tk_max_retries t - tk_retries t)) atts)"
      using False by (simp add: budget_left_def)
    show ?thesis
    proof (cases "tk_retries t + 1 \<le> tk_max_retries t")
      case True
      then obtain n' s' u where u: "turn_of env att n s t = Again n' s' u" "stored s' u" "same_job t u"
        "tk_status u = Failed" "tk_retries u = tk_retries t + 1"
        using f by (auto simp: failed_turn_def)
      have b: "budget_left u = nat (tk_max_retries t - tk_retries t)"
        using u(3,5) True by (simp add: budget_left_def same_job_def)
      then have "budget_left u \<le> length atts" using Cons.prems(3) by (simp add: budget_left_def)
      from Cons.IH [OF u(2) _ this, of n'] u(4) obtain s2 v c where
        "process_loop env atts n' s' u = Some (s2, Some v, c)"
        "loop_outcome u (find succeeds (take (budget_left u) atts)) s2 v c" by blast
      then show ?thesis using u(1) nf b loop_outcome_job [OF u(3)] by auto
    next
      case False
      then obtain s' u where "turn_of env att n s t = Stops s' (Some u) False" "stored s' u" "same_job t u" "tk_status u = Dead"
        using f by (auto simp: failed_turn_def)
      then show ?thesis using nf False by (auto simp: loop_outcome_def)
    qed
  qed
qed

section \<open>Resolve and the store\<close>

definition in_progress :: "status \<Rightarrow> bool" where
  "in_progress st \<longleftrightarrow> st \<notin> {Ready, Failed, Dead}"

lemma fresh_task_stored:
  assumes "fresh_task rnd now io cfg s raw canonical key family by = (r, s', Some i)"
    and "mget (st_by_id s) (new_task_id rnd) = None"
  shows "\<exists>t. mget (st_by_id s') i = Some t \<and> mget (st_by_key s') key = Some t \<and> tk_status t = Queued \<and> tk_cache_key t = key"
proof -
  let ?t = "new_task rnd now raw canonical key family by (ec_max_retries cfg)"
  let ?u = "?t\<lparr>tk_created_at := (if time_is_zero (tk_created_at ?t) then now else tk_created_at ?t), tk_updated_at := now\<rparr>"
  have p: "put io now s ?t = (None, s')" and i: "i = tk_id ?t"
    using assms(1) by (auto simp: fresh_task_def Let_def split: prod.splits option.splits)
  have "persist io (store_both ?u s) = (None, s')"
    using p assms(2) by (auto simp: put_def Let_def new_task_def split: if_splits)
  then have "st_by_id s' = mput (tk_id ?u) ?u (st_by_id s)" "st_by_key s' = mput (tk_cache_key ?u) ?u (st_by_key s)"
    using persist_fields by (simp_all add: store_both_def)
  then show ?thesis using i by (auto simp: new_task_def)
qed

lemma restart_stored:
  assumes "update io now s (tk_id t) restart = (Inr (nt, None), s')" and "mget (st_by_id s) (tk_id t) = Some t"
  shows "mget (st_by_id s') (tk_id nt) = Some nt \<and> mget (st_by_key s') (tk_cache_key nt) = Some nt \<and>
    tk_status nt = Downloading \<and> tk_cache_key nt = tk_cache_key t"
proof -
  let ?u = "(restart t)\<lparr>tk_updated_at := now\<rparr>"
  have "nt = ?u" "persist io (store_both ?u s) = (None, s')"
    using assms by (auto simp: update_def Let_def split: if_splits prod.splits)
  then show ?thesis
    using persist_fields(1,2) [of io "store_both ?u s" None s'] by (simp add: store_both_def restart_def)
qed

text \<open>What a resolve starts after a failed or dead task.\<close>

definition started_for :: "string \<Rightarrow> task_store \<Rightarrow> string \<Rightarrow> bool" where
  "started_for key s' i \<longleftrightarrow>
     (\<exists>u. mget (st_by_id s') i = Some u \<and> get_by_cache_key s' key = Inr u \<and> in_progress (tk_status u))"

lemma fresh_task_starts:
  assumes "fresh_task rnd now io cfg s raw canonical key family by = (r, s', Some i)"
    and "mget (st_by_id s) (new_task_id rnd) = None"
  shows "started_for key s' i"
  using fresh_task_stored [OF assms] by (auto simp: started_for_def get_by_cache_key_def in_progress_def)

lemma update_keeps_other:
  assumes "update io now s tid fn = (res, s')" and "keeps_identity fn" and "ids_ok s" and "mget (st_by_id s) j = None"
  shows "mget (st_by_id s') j = None"
proof (cases "mget (st_by_id s) tid")
  case None
  then show ?thesis using assms by (simp add: update_def)
next
  case (Some t)
  then have "tk_id (fn t) = tid" "tid \<noteq> j" using assms(2-4) by (auto simp: ids_ok_def keeps_identity_def)
  then show ?thesis
    using assms(1,4) Some persist_fields(1) by (fastforce simp: update_def Let_def store_both_def split: if_splits prod.splits)
qed

lemma resolve_after_failure:
  assumes "resolve_key presign rnd now io cfg s raw canonical key family by = (r, s', Some i)"
    and "get_by_cache_key s key = Inr t" and "tk_status t = Dead \<or> tk_status t = Failed"
    and "store_inv s" and "mkeys_ok (st_by_id s)" and "mget (st_by_id s) (new_task_id rnd) = None"
  shows "started_for key s' i"
proof -
  have key: "tk_cache_key t = key" "mget (st_by_id s) (tk_id t) = Some t"
    using assms(2,4) by (auto simp: store_inv_def get_by_cache_key_def split: option.splits)
  show ?thesis
  proof (cases "tk_status t = Failed \<and> tk_retries t < tk_max_retries t")
    case True
    obtain res s1 where up: "update io now s (tk_id t) restart = (res, s1)" by (cases "update io now s (tk_id t) restart")
    have "keeps_identity restart" "ids_ok s" using assms(4,5) by (auto simp: keeps_identity_def restart_def ids_ok_def store_inv_def)
    then have s1: "mget (st_by_id s1) (new_task_id rnd) = None" using update_keeps_other [OF up] assms(6) by blast
    show ?thesis
    proof (cases "\<exists>nt. res = Inr (nt, None)")
      case True
      then obtain nt where nt: "res = Inr (nt, None)" by blast
      then have "s' = s1" "i = tk_id nt"
        using assms(1,2) up \<open>tk_status t = Failed \<and> tk_retries t < tk_max_retries t\<close> by (auto simp: resolve_key_def)
      then show ?thesis
        using restart_stored [of io now s t nt s1] up nt key
        by (auto simp: started_for_def get_by_cache_key_def in_progress_def)
    next
      case False
      then have "fresh_task rnd now io cfg s1 raw canonical key family by = (r, s', Some i)"
        using assms(1,2) up \<open>tk_status t = Failed \<and> tk_retries t < tk_max_retries t\<close>
        by (auto simp: resolve_key_def split: sum.splits option.splits prod.splits)
      then show ?thesis using fresh_task_starts s1 by blast
    qed
  next
    case False
    then have "fresh_task rnd now io cfg s raw canonical key family by = (r, s', Some i)"
      using assms(1-3) by (auto simp: resolve_key_def)
    then show ?thesis using fresh_task_starts assms(6) by blast
  qed
qed

section \<open>Properties\<close>

text \<open>
  C15. Every started task ends. Once processing of a queued, failed or downloading task starts, and saves
  succeed, the loop returns after at most one attempt more than the retries left: the task is then ready,
  with the artifact of the first attempt that succeeded under its storage key, or dead when all failed; its
  temporary directory is removed in both cases. The progress tracker is told that the fetch ended only when
  it succeeded.
\<close>

theorem process_ends:
  assumes "saves env" and "ids_ok s" and "get s tid = Inr t" and "tid \<notin> set processing"
    and "tk_status t = Queued \<or> tk_status t = Failed \<or> tk_status t = Downloading"
    and "budget_left t \<le> length atts"
  shows "\<exists>r u. process env atts processing s tid = Some r \<and> get (pr_store r) tid = Inr u \<and> same_job t u \<and>
    pr_removed_dir r \<and>
    (case find succeeds (take (budget_left t) atts) of
       None \<Rightarrow> tk_status u = Dead \<and> \<not> pr_end_fetch r
     | Some a \<Rightarrow> (\<exists>res ob. a = Uploaded res ob \<and> tk_status u = Ready \<and> pr_end_fetch r \<and>
         tk_artifact u = Some (artifact_of (storage_key t) res ob)))"
proof -
  have m: "mget (st_by_id s) tid = Some t" using assms(3) by (simp add: get_def split: option.splits)
  then have tid: "tk_id t = tid" using assms(2) by (simp add: ids_ok_def)
  then have "stored s t" using m by (simp add: stored_def)
  from process_loop_ends [OF assms(1) this assms(5,6), of 0]
  obtain s' u b where l: "process_loop env atts 0 s t = Some (s', Some u, b)"
    and o: "loop_outcome t (find succeeds (take (budget_left t) atts)) s' u b" by blast
  have "mget (st_by_id s') (tk_id u) = Some u" "tk_id u = tid"
    using o tid by (auto simp: loop_outcome_def stored_def same_job_def)
  then have "get s' tid = Inr u" by (simp add: get_def)
  then show ?thesis
    using l o assms(3,4) by (auto simp: process_def loop_outcome_def split: option.splits)
qed

definition sample_env :: proc_env where
  "sample_env = \<lparr>pe_now = (\<lambda>n. int n), pe_io = (\<lambda>_. True)\<rparr>"

definition sample_store :: "status \<Rightarrow> task_store" where
  "sample_store st = (empty_store [])\<lparr>st_by_id := [(''t'', sample_task ''t'' st 5)], st_by_key := [(''k'', sample_task ''t'' st 5)]\<rparr>"

lemma sample_store_ids: "ids_ok (sample_store st)"
  by (simp add: ids_ok_def sample_store_def sample_task_def mkeys_ok_def empty_store_def)

theorem process_ends_witness:
  "\<exists>r u. process sample_env [Fetch_Fails ''e'', Fetch_Fails ''e'', Fetch_Fails ''e'', Fetch_Fails ''e''] [] (sample_store Queued) ''t'' = Some r \<and>
     get (pr_store r) ''t'' = Inr u \<and> tk_status u = Dead \<and> \<not> pr_end_fetch r"
proof -
  have g: "get (sample_store Queued) ''t'' = Inr (sample_task ''t'' Queued 5)"
    by (simp add: get_def sample_store_def)
  have s: "saves sample_env" by (simp add: saves_def sample_env_def)
  have b: "budget_left (sample_task ''t'' Queued 5) = 4" by (simp add: budget_left_def sample_task_def)
  have q: "tk_status (sample_task ''t'' Queued 5) = Queued" by (simp add: sample_task_def)
  show ?thesis
    using process_ends [OF s sample_store_ids g, of "[]" "[Fetch_Fails ''e'', Fetch_Fails ''e'', Fetch_Fails ''e'', Fetch_Fails ''e'']"]
    unfolding b q by (auto simp: succeeds_def)
qed



section \<open>What garbage collection keeps\<close>

lemma delete_keeps: "delete io s j = (e, s') \<Longrightarrow> i \<noteq> j \<Longrightarrow> mget (st_by_id s') i = mget (st_by_id s) i"
  by (auto simp: delete_def Let_def dest!: persist_fields(1) split: option.splits if_splits)

lemma gc_task_keeps:
  assumes "\<forall>t \<in> set ts. gc_expired now t \<longrightarrow> tk_id t \<noteq> i"
  shows "mget (st_by_id (fst (foldl (gc_task now io) acc ts))) i = mget (st_by_id (fst acc)) i"
  using assms
proof (induction ts arbitrary: acc)
  case (Cons t ts)
  have "mget (st_by_id (fst (gc_task now io acc t))) i = mget (st_by_id (fst acc)) i"
    using Cons.prems delete_keeps [of "io (tk_id t)" "fst acc" "tk_id t" _ _ i]
    by (auto simp: gc_task_def split: prod.splits option.splits)
  then show ?case using Cons by simp
qed simp

lemma gc_keeps:
  assumes "ids_ok s" and "mget (st_by_id s) i = Some t" and "\<not> gc_expired now t" and "gc now cfg io dirs s = (nf, nt, s')"
  shows "mget (st_by_id s') i = Some t"
proof -
  have "tk_id u \<noteq> i" if u: "u \<in> set (list_tasks s)" "gc_expired now u" for u
  proof -
    have "u \<in> snd ` set (st_by_id s)" using u(1) by (simp add: list_tasks_def)
    then obtain j where j: "(j, u) \<in> set (st_by_id s)" by auto
    then have "mget (st_by_id s) j = Some u" using assms(1) by (simp add: ids_ok_def mkeys_ok_def)
    then show ?thesis using assms u(2) by (auto simp: ids_ok_def)
  qed
  then show ?thesis
    using gc_task_keeps [of "list_tasks s" now i io "(s, 0)"] assms(2,4) by (auto simp: gc_def split: prod.splits)
qed

text \<open>
  While the loop waits for its last retry, the task is failed with no retry left in the eyes of \<open>Resolve\<close>:
  a resolve then creates a second task for the key and starts processing it.
\<close>

theorem last_retry_resolved_twice:
  assumes "saves env" and "stored s t" and "tk_status t = Downloading" and "tk_retries t + 1 = tk_max_retries t"
    and "\<not> succeeds att"
  shows "\<exists>n' s' u. turn_of env att n s t = Again n' s' u \<and> stored s' u \<and> same_job t u \<and>
    (get_by_cache_key s' (tk_cache_key u) = Inr u \<longrightarrow>
      resolve_key presign rnd now io cfg s' raw canonical (tk_cache_key u) family by =
      fresh_task rnd now io cfg s' raw canonical (tk_cache_key u) family by)"
proof -
  have "failed_turn t (turn_of env att n s t)"
    using turn_of_good [OF assms(1,2), of att n] assms(3,5) by (auto simp: turn_good_def succeeds_def split: attempt.splits)
  then obtain n' s' u where u: "turn_of env att n s t = Again n' s' u" "stored s' u" "same_job t u" "tk_status u = Failed"
    "tk_retries u = tk_retries t + 1"
    using assms(4) by (auto simp: failed_turn_def)
  have "\<not> tk_retries u < tk_max_retries u" using u(3,5) assms(4) by (simp add: same_job_def)
  then show ?thesis using u by (auto simp: resolve_key_def)
qed

theorem last_retry_resolved_twice_witness:
  "\<exists>n' s' u. turn_of sample_env (Fetch_Fails ''e'') 0
      ((empty_store [])\<lparr>st_by_id := [(''t'', (sample_task ''t'' Downloading 5)\<lparr>tk_retries := 2\<rparr>)]\<rparr>)
      ((sample_task ''t'' Downloading 5)\<lparr>tk_retries := 2\<rparr>) = Again n' s' u \<and> stored s' u"
proof -
  let ?t = "(sample_task ''t'' Downloading 5)\<lparr>tk_retries := 2\<rparr>"
  let ?s = "(empty_store [])\<lparr>st_by_id := [(''t'', ?t)]\<rparr>"
  have "saves sample_env" by (simp add: saves_def sample_env_def)
  moreover have "stored ?s ?t" by (simp add: stored_def sample_task_def)
  moreover have "tk_status ?t = Downloading" "tk_retries ?t + 1 = tk_max_retries ?t" by (simp_all add: sample_task_def)
  moreover have "\<not> succeeds (Fetch_Fails ''e'')" by (simp add: succeeds_def)
  ultimately show ?thesis using last_retry_resolved_twice [of sample_env ?s ?t "Fetch_Fails ''e''" 0] by blast
qed

end
