(* ===== verification/Chunk.thy ===== *)
theory Chunk
  imports GoNet
begin

text \<open>
  \<^verbatim>\<open>internal/client/downloader/chunk.go\<close>: the ranged parallel download. The pool of workers, the
  publisher and the waiting main goroutine of \<^verbatim>\<open>runChunked\<close> are a state with actions (\<open>pool_act\<close>), so that
  every interleaving is a list of actions. Channels are as Go has them: \<open>jobs\<close> is unbuffered (a hand-over
  needs both sides), \<open>workerErr\<close> has room for every worker's error, and \<open>abort\<close> is closed at most once.
\<close>

section \<open>Plans\<close>

record chunk_plan =
  cp_url :: string
  cp_size :: int
  cp_chunk_size :: int
  cp_chunks :: nat
  cp_sha256 :: string
  cp_etag :: string

record part_meta =
  pm_version :: int
  pm_url :: string
  pm_size :: int
  pm_chunk_size :: int
  pm_sha256 :: string
  pm_etag :: string
  pm_done :: "bool list"

definition part_meta_version :: int where "part_meta_version = 1"

definition chunk_count :: "int \<Rightarrow> int \<Rightarrow> nat" where
  "chunk_count sz chunk =
     (if sz \<le> 0 \<or> chunk \<le> 0 then 0
      else nat (if sz mod chunk \<noteq> 0 then sz div chunk + 1 else sz div chunk))"

definition chunk_start :: "chunk_plan \<Rightarrow> nat \<Rightarrow> int" where
  "chunk_start plan i = int i * cp_chunk_size plan"

definition chunk_len :: "chunk_plan \<Rightarrow> nat \<Rightarrow> int" where
  "chunk_len plan i =
     (if cp_chunk_size plan \<le> cp_size plan - chunk_start plan i then cp_chunk_size plan
      else cp_size plan - chunk_start plan i)"

text \<open>The \<open>Range\<close> header of a chunk: first and last offset.\<close>

definition chunk_range :: "chunk_plan \<Rightarrow> nat \<Rightarrow> string" where
  "chunk_range plan i =
     ''bytes='' @ itoa (chunk_start plan i) @ ''-'' @ itoa (chunk_start plan i + chunk_len plan i - 1)"

text \<open>Reading the metadata: None when the file is missing, is not JSON, or has another version.\<close>

definition load_part_meta :: "part_meta option \<Rightarrow> part_meta option" where
  "load_part_meta f = (case f of None \<Rightarrow> None | Some m \<Rightarrow> if pm_version m \<noteq> part_meta_version then None else Some m)"

definition resume_meta :: "chunk_plan \<Rightarrow> part_meta option \<Rightarrow> part_meta" where
  "resume_meta plan f =
     (let fresh = \<lparr>pm_version = part_meta_version, pm_url = cp_url plan, pm_size = cp_size plan,
                   pm_chunk_size = cp_chunk_size plan, pm_sha256 = cp_sha256 plan, pm_etag = cp_etag plan,
                   pm_done = replicate (cp_chunks plan) False\<rparr>;
          m = (case load_part_meta f of
                 None \<Rightarrow> fresh
               | Some m \<Rightarrow>
                   if pm_size m \<noteq> cp_size plan \<or> pm_chunk_size m \<noteq> cp_chunk_size plan \<or>
                      length (pm_done m) \<noteq> cp_chunks plan then fresh else m)
      in m\<lparr>pm_url := cp_url plan, pm_sha256 := cp_sha256 plan, pm_etag := cp_etag plan\<rparr>)"

definition done_count :: "bool list \<Rightarrow> nat" where
  "done_count ds = length (filter (\<lambda>d. d) ds)"

definition done_bytes :: "chunk_plan \<Rightarrow> bool list \<Rightarrow> int" where
  "done_bytes plan ds = sum_list (map (\<lambda>i. if ds ! i then chunk_len plan i else 0) [0..<length ds])"

section \<open>The part file\<close>

definition truncate_to :: "nat \<Rightarrow> byte list \<Rightarrow> byte list" where
  "truncate_to n f = take n f @ replicate (n - length f) 0"

definition write_at :: "byte list \<Rightarrow> nat \<Rightarrow> byte list \<Rightarrow> byte list" where
  "write_at f off d = take off (f @ replicate (off - length f) 0) @ d @ drop (off + length d) f"

section \<open>The worker pool\<close>

datatype chunk_error =
    Ctx_Done | Bad_Request | Net_Error | Presign_Expired_Refresh | Presign_Retry | Chunk_HTTP nat int
  | Chunk_Copy nat | Meta_Save

text \<open>What one attempt of a worker meets.\<close>

datatype chunk_attempt =
    A_Bad_Request
  | A_Net_Error
  | A_Status int "string option" \<comment> \<open>the status; what a refresh of the URL returns\<close>
  | A_Body "byte list" bool bool \<comment> \<open>status 206: the bytes, whether copying them worked, whether the metadata is saved\<close>

datatype worker =
    W_Idle                           \<comment> \<open>waiting for a job\<close>
  | W_Got nat                        \<comment> \<open>received a chunk\<close>
  | W_Try nat nat chunk_error        \<comment> \<open>chunk, attempts made, last error\<close>
  | W_Fail chunk_error               \<comment> \<open>about to report a fatal error\<close>
  | W_Give_Up chunk_error            \<comment> \<open>about to report the last error, or to see the abort\<close>
  | W_Check                          \<comment> \<open>\<open>closeOnce\<close>: about to look at the channel\<close>
  | W_Close                          \<comment> \<open>\<open>closeOnce\<close>: found it open\<close>
  | W_Exited

datatype publisher = Publishing nat | Pub_Closed | Pub_Aborted

datatype main_state = M_Wait | M_Check chunk_error | M_Close chunk_error | M_Drain chunk_error | M_Returned "chunk_error option"

record pool =
  pl_meta :: part_meta
  pl_url :: string
  pl_file :: "byte list"
  pl_progress :: int
  pl_workers :: "worker list"
  pl_pub :: publisher
  pl_abort :: bool
  pl_errs :: "chunk_error list"
  pl_ctx_done :: bool
  pl_main :: main_state
  pl_panicked :: bool

datatype chunk_begin = Invalid_Plan | Already_Done | Open_Failed | Begin pool

text \<open>The part of \<open>runChunked\<close> before the goroutines start; \<open>file\<close> is None when the part file cannot be opened.\<close>

definition chunk_begin_of :: "chunk_plan \<Rightarrow> part_meta option \<Rightarrow> byte list option \<Rightarrow> int \<Rightarrow> chunk_begin" where
  "chunk_begin_of plan f file concurrency =
     (if cp_size plan \<le> 0 \<or> cp_chunk_size plan \<le> 0 \<or> cp_chunks plan = 0 then Invalid_Plan
      else
        (let m = resume_meta plan f; n = (if concurrency < 1 then 1 else nat concurrency) in
         if done_count (pm_done m) = cp_chunks plan then Already_Done
         else case file of
           None \<Rightarrow> Open_Failed
         | Some b \<Rightarrow>
             Begin \<lparr>pl_meta = m, pl_url = pm_url m, pl_file = truncate_to (nat (cp_size plan)) b,
                    pl_progress = done_bytes plan (pm_done m), pl_workers = replicate n W_Idle,
                    pl_pub = Publishing 0, pl_abort = False, pl_errs = [], pl_ctx_done = False,
                    pl_main = M_Wait, pl_panicked = False\<rparr>))"

definition set_worker :: "nat \<Rightarrow> worker \<Rightarrow> pool \<Rightarrow> pool" where
  "set_worker i w s = s\<lparr>pl_workers := (pl_workers s)[i := w]\<rparr>"

text \<open>The body of an attempt of worker \<open>i\<close> on chunk \<open>c\<close> (attempts are counted from 0).\<close>

definition attempt_step :: "chunk_plan \<Rightarrow> nat \<Rightarrow> nat \<Rightarrow> nat \<Rightarrow> chunk_attempt \<Rightarrow> pool \<Rightarrow> pool" where
  "attempt_step plan i c a att s =
     (case att of
        A_Bad_Request \<Rightarrow> set_worker i (W_Fail Bad_Request) s
      | A_Net_Error \<Rightarrow> set_worker i (W_Try c (Suc a) Net_Error) s
      | A_Status st refreshed \<Rightarrow>
          if st = 403 \<or> st = 401 \<or> st = 410 then
            (case refreshed of
               None \<Rightarrow> set_worker i (W_Try c (Suc a) Presign_Expired_Refresh) s
             | Some u \<Rightarrow>
                 (set_worker i (W_Try c (Suc a) Presign_Retry) s)
                   \<lparr>pl_url := u, pl_meta := (pl_meta s)\<lparr>pm_url := u\<rparr>\<rparr>)
          else if 500 \<le> st \<or> st = 429 then set_worker i (W_Try c (Suc a) (Chunk_HTTP c st)) s
          else set_worker i (W_Fail (Chunk_HTTP c st)) s
      | A_Body d ok saved \<Rightarrow>
          (let s1 = s\<lparr>pl_file := write_at (pl_file s) (nat (chunk_start plan c)) d\<rparr> in
           if \<not> ok \<or> int (length d) \<noteq> chunk_len plan c then set_worker i (W_Try c (Suc a) (Chunk_Copy c)) s1
           else
             (let s2 = s1\<lparr>pl_meta := (pl_meta s)\<lparr>pm_done := (pm_done (pl_meta s))[c := True]\<rparr>,
                          pl_progress := pl_progress s + chunk_len plan c\<rparr>
              in set_worker i (if saved then W_Idle else W_Fail Meta_Save) s2)))"

datatype act =
    Hand_Over nat          \<comment> \<open>the publisher hands its chunk to a worker\<close>
  | Skip_Done              \<comment> \<open>the publisher skips a chunk that is done\<close>
  | Close_Jobs | Pub_Abort
  | Work nat chunk_attempt       \<comment> \<open>a worker goes on; the attempt matters only when it makes one\<close>
  | Give_Up_Quiet nat      \<comment> \<open>a worker's select takes the abort instead of sending its error\<close>
  | Main_Error | Main_Ctx | Main_Close
  | Main_Finished bool     \<comment> \<open>all workers have ended; whether the last save works\<close>
  | Cancel

definition work :: "chunk_plan \<Rightarrow> nat \<Rightarrow> chunk_attempt \<Rightarrow> pool \<Rightarrow> pool option" where
  "work plan i att s =
     (case pl_workers s ! i of
        W_Idle \<Rightarrow> (if pl_pub s = Pub_Closed then Some (set_worker i W_Exited s) else None)
      | W_Got c \<Rightarrow> Some (set_worker i (if pl_abort s then W_Exited else W_Try c 0 Net_Error) s)
      | W_Try c a e \<Rightarrow>
          if 4 \<le> a then Some (set_worker i (W_Give_Up e) s)
          else if pl_ctx_done s then Some (set_worker i (W_Fail Ctx_Done) s)
          else Some (attempt_step plan i c a att s)
      | W_Fail e \<Rightarrow> Some ((set_worker i W_Check s)\<lparr>pl_errs := pl_errs s @ [e]\<rparr>)
      | W_Give_Up e \<Rightarrow> Some ((set_worker i W_Check s)\<lparr>pl_errs := pl_errs s @ [e]\<rparr>)
      | W_Check \<Rightarrow> Some (set_worker i (if pl_abort s then W_Exited else W_Close) s)
      | W_Close \<Rightarrow>
          if pl_abort s then Some (s\<lparr>pl_panicked := True\<rparr>)
          else Some ((set_worker i W_Exited s)\<lparr>pl_abort := True\<rparr>)
      | W_Exited \<Rightarrow> None)"

definition all_exited :: "pool \<Rightarrow> bool" where
  "all_exited s = list_all (\<lambda>w. w = W_Exited) (pl_workers s)"

text \<open>The waiting loop of the main goroutine.\<close>

definition main_step :: "act \<Rightarrow> pool \<Rightarrow> pool option" where
  "main_step a s =
     (case (a, pl_main s) of
        (Main_Error, M_Wait) \<Rightarrow>
          (case pl_errs s of [] \<Rightarrow> None | e # es \<Rightarrow> Some (s\<lparr>pl_errs := es, pl_main := M_Check e\<rparr>))
      | (Main_Ctx, M_Wait) \<Rightarrow> if pl_ctx_done s then Some (s\<lparr>pl_main := M_Check Ctx_Done\<rparr>) else None
      | (Main_Finished ok, M_Wait) \<Rightarrow>
          if all_exited s then Some (s\<lparr>pl_main := M_Returned (if ok then None else Some Meta_Save)\<rparr>) else None
      | (Main_Close, M_Check e) \<Rightarrow> Some (s\<lparr>pl_main := (if pl_abort s then M_Drain e else M_Close e)\<rparr>)
      | (Main_Close, M_Close e) \<Rightarrow>
          if pl_abort s then Some (s\<lparr>pl_panicked := True\<rparr>)
          else Some (s\<lparr>pl_abort := True, pl_main := M_Drain e\<rparr>)
      | (Main_Finished ok, M_Drain e) \<Rightarrow> if all_exited s then Some (s\<lparr>pl_main := M_Returned (Some e)\<rparr>) else None
      | _ \<Rightarrow> None)"

definition giving_up :: "worker \<Rightarrow> bool" where
  "giving_up w = (case w of W_Give_Up _ \<Rightarrow> True | _ \<Rightarrow> False)"

definition pool_act :: "chunk_plan \<Rightarrow> act \<Rightarrow> pool \<Rightarrow> pool option" where
  "pool_act plan a s =
     (if pl_panicked s then None
      else case a of
        Hand_Over i \<Rightarrow>
          (case pl_pub s of
             Publishing c \<Rightarrow>
               if i < length (pl_workers s) \<and> pl_workers s ! i = W_Idle \<and> c < cp_chunks plan \<and> \<not> pm_done (pl_meta s) ! c
               then Some ((set_worker i (W_Got c) s)\<lparr>pl_pub := Publishing (Suc c)\<rparr>) else None
           | _ \<Rightarrow> None)
      | Skip_Done \<Rightarrow>
          (case pl_pub s of
             Publishing c \<Rightarrow> if c < cp_chunks plan \<and> pm_done (pl_meta s) ! c then Some (s\<lparr>pl_pub := Publishing (Suc c)\<rparr>) else None
           | _ \<Rightarrow> None)
      | Close_Jobs \<Rightarrow>
          (case pl_pub s of Publishing c \<Rightarrow> if cp_chunks plan \<le> c then Some (s\<lparr>pl_pub := Pub_Closed\<rparr>) else None | _ \<Rightarrow> None)
      | Pub_Abort \<Rightarrow>
          (case pl_pub s of
             Publishing c \<Rightarrow> if pl_abort s \<and> c < cp_chunks plan \<and> \<not> pm_done (pl_meta s) ! c then Some (s\<lparr>pl_pub := Pub_Aborted\<rparr>) else None
           | _ \<Rightarrow> None)
      | Work i att \<Rightarrow> if i < length (pl_workers s) then work plan i att s else None
      | Give_Up_Quiet i \<Rightarrow>
          if i < length (pl_workers s) \<and> pl_abort s \<and> giving_up (pl_workers s ! i)
          then Some (set_worker i W_Check s) else None
      | Cancel \<Rightarrow> if pl_ctx_done s then None else Some (s\<lparr>pl_ctx_done := True\<rparr>)
      | _ \<Rightarrow> main_step a s)"

fun pool_run :: "chunk_plan \<Rightarrow> act list \<Rightarrow> pool \<Rightarrow> pool option" where
  "pool_run plan [] s = Some s"
| "pool_run plan (a # as) s = (case pool_act plan a s of None \<Rightarrow> None | Some s' \<Rightarrow> pool_run plan as s')"

section \<open>The chunks of a plan\<close>

definition plan_ok :: "chunk_plan \<Rightarrow> bool" where
  "plan_ok plan \<longleftrightarrow> 0 < cp_size plan \<and> 0 < cp_chunk_size plan \<and>
     cp_chunks plan = chunk_count (cp_size plan) (cp_chunk_size plan)"

lemma mult_less_div:
  fixes c q r i :: int
  assumes "0 < c" and "0 \<le> r" and "r < c"
  shows "i * c < c * q + r \<longleftrightarrow> i < (if r \<noteq> 0 then q + 1 else q)"
proof (cases "i \<le> q")
  case True
  then have "i * c \<le> q * c" using assms(1) by (simp add: mult_right_mono)
  moreover have "q * c = c * q" by (rule mult.commute)
  ultimately have le: "i * c \<le> c * q" by linarith
  show ?thesis
  proof (cases "r = 0")
    case True
    then show ?thesis using assms(1) by (simp add: mult.commute)
  next
    case False
    then have "i * c < c * q + r" using le assms(2) by linarith
    then show ?thesis using False \<open>i \<le> q\<close> by simp
  qed
next
  case False
  then have "(q + 1) * c \<le> i * c" using assms(1) by (intro mult_right_mono) auto
  then show ?thesis using False assms by (auto simp: algebra_simps)
qed

lemma chunk_index:
  assumes "plan_ok plan"
  shows "i < cp_chunks plan \<longleftrightarrow> chunk_start plan i < cp_size plan"
proof -
  let ?s = "cp_size plan" and ?c = "cp_chunk_size plan"
  have c: "0 < ?c" "0 < ?s" using assms by (simp_all add: plan_ok_def)
  have "int i * ?c < ?c * (?s div ?c) + ?s mod ?c \<longleftrightarrow>
      int i < (if ?s mod ?c \<noteq> 0 then ?s div ?c + 1 else ?s div ?c)"
    using c by (intro mult_less_div) simp_all
  then have "int i * ?c < ?s \<longleftrightarrow> int i < (if ?s mod ?c \<noteq> 0 then ?s div ?c + 1 else ?s div ?c)"
    by (simp only: mult_div_mod_eq)
  then show ?thesis
    using assms c by (simp add: plan_ok_def chunk_count_def chunk_start_def zless_nat_eq_int_zless split: if_splits)
qed

lemma chunk_len_bounds:
  assumes "plan_ok plan" and "i < cp_chunks plan"
  shows "0 < chunk_len plan i \<and> chunk_len plan i \<le> cp_chunk_size plan \<and> chunk_start plan i + chunk_len plan i \<le> cp_size plan"
  using assms chunk_index [OF assms(1), of i] by (auto simp: chunk_len_def plan_ok_def)

lemma chunk_of_offset:
  assumes "plan_ok plan" and "0 \<le> b" and "b < cp_size plan"
  shows "i < cp_chunks plan \<and> chunk_start plan i \<le> b \<and> b < chunk_start plan i + chunk_len plan i
    \<longleftrightarrow> i = nat (b div cp_chunk_size plan)"
proof -
  let ?c = "cp_chunk_size plan"
  have c: "0 < ?c" using assms(1) by (simp add: plan_ok_def)
  have e: "True" "0 \<le> b mod ?c" "b mod ?c < ?c" "0 \<le> b div ?c"
    using c assms(2) by (simp_all add: pos_imp_zdiv_nonneg_iff)
  show ?thesis
  proof
    assume i: "i < cp_chunks plan \<and> chunk_start plan i \<le> b \<and> b < chunk_start plan i + chunk_len plan i"
    then have "int i * ?c \<le> b" "b < int i * ?c + ?c"
      using chunk_len_bounds [OF assms(1), of i] by (auto simp: chunk_start_def)
    then have "b div ?c = int i"
      using c by (intro int_div_pos_eq [of b ?c "int i" "b - ?c * int i"]) (auto simp: algebra_simps)
    then show "i = nat (b div ?c)" by simp
  next
    assume i: "i = nat (b div ?c)"
    then have s: "chunk_start plan i = b - b mod ?c"
      using e(4) by (simp add: chunk_start_def minus_mod_eq_mult_div mult.commute)
    then have "chunk_start plan i \<le> b" "b < chunk_start plan i + chunk_len plan i"
      using e assms(3) by (auto simp: chunk_len_def)
    moreover have "i < cp_chunks plan" using chunk_index [OF assms(1), of i] s e assms(3) by simp
    ultimately show "i < cp_chunks plan \<and> chunk_start plan i \<le> b \<and> b < chunk_start plan i + chunk_len plan i" by blast
  qed
qed

section \<open>What is in the part file\<close>

lemma write_at_nth:
  assumes "off + length d \<le> length f"
  shows "length (write_at f off d) = length f"
    and "k < length f \<Longrightarrow> write_at f off d ! k = (if off \<le> k \<and> k < off + length d then d ! (k - off) else f ! k)"
  using assms by (auto simp: write_at_def nth_append min_def)

definition chunk_ok :: "chunk_plan \<Rightarrow> byte list \<Rightarrow> byte list \<Rightarrow> nat \<Rightarrow> bool" where
  "chunk_ok plan content f i \<longleftrightarrow>
     (\<forall>k. chunk_start plan i \<le> int k \<and> int k < chunk_start plan i + chunk_len plan i \<longrightarrow> f ! k = content ! k)"

text \<open>The bytes of the chunks marked as done are those of \<open>content\<close>.\<close>

definition data_inv :: "chunk_plan \<Rightarrow> byte list \<Rightarrow> pool \<Rightarrow> bool" where
  "data_inv plan content s \<longleftrightarrow>
     length (pl_file s) = nat (cp_size plan) \<and> length (pm_done (pl_meta s)) = cp_chunks plan \<and>
     (\<forall>i < cp_chunks plan. pm_done (pl_meta s) ! i \<longrightarrow> chunk_ok plan content (pl_file s) i)"

text \<open>An honest server answers the range request of a chunk with bytes of that chunk, possibly too few.\<close>

definition honest_body :: "chunk_plan \<Rightarrow> byte list \<Rightarrow> nat \<Rightarrow> byte list \<Rightarrow> bool" where
  "honest_body plan content c d \<longleftrightarrow>
     int (length d) \<le> chunk_len plan c \<and> (\<forall>k < length d. d ! k = content ! (nat (chunk_start plan c) + k))"

definition honest :: "chunk_plan \<Rightarrow> byte list \<Rightarrow> pool \<Rightarrow> act \<Rightarrow> bool" where
  "honest plan content s a =
     (case a of
        Work i (A_Body d _ _) \<Rightarrow>
          (case pl_workers s ! i of W_Try c _ _ \<Rightarrow> honest_body plan content c d | _ \<Rightarrow> True)
      | _ \<Rightarrow> True)"

fun honest_run :: "chunk_plan \<Rightarrow> byte list \<Rightarrow> act list \<Rightarrow> pool \<Rightarrow> bool" where
  "honest_run plan content [] s = True"
| "honest_run plan content (a # as) s =
     (honest plan content s a \<and>
      (case pool_act plan a s of None \<Rightarrow> True | Some s' \<Rightarrow> honest_run plan content as s'))"

lemma chunk_start_nonneg: "plan_ok plan \<Longrightarrow> 0 \<le> chunk_start plan i"
  by (simp add: plan_ok_def chunk_start_def)

lemma write_chunk:
  assumes "plan_ok plan" and "c < cp_chunks plan" and "honest_body plan content c d" and "length f = nat (cp_size plan)"
  shows "length (write_at f (nat (chunk_start plan c)) d) = nat (cp_size plan)"
    and "i < cp_chunks plan \<Longrightarrow> chunk_ok plan content f i \<Longrightarrow> chunk_ok plan content (write_at f (nat (chunk_start plan c)) d) i"
    and "int (length d) = chunk_len plan c \<Longrightarrow> chunk_ok plan content (write_at f (nat (chunk_start plan c)) d) c"
proof -
  let ?o = "nat (chunk_start plan c)"
  have o: "int ?o = chunk_start plan c" using chunk_start_nonneg [OF assms(1), of c] by simp
  have d: "int (length d) \<le> chunk_len plan c" "\<forall>k < length d. d ! k = content ! (?o + k)"
    using assms(3) by (simp_all add: honest_body_def)
  have b: "?o + length d \<le> length f" using o d chunk_len_bounds [OF assms(1,2)] assms(4) by linarith
  show l: "length (write_at f ?o d) = nat (cp_size plan)" using write_at_nth(1) [OF b] assms(4) by simp
  have w: "write_at f ?o d ! k = (if ?o \<le> k \<and> k < ?o + length d then content ! k else f ! k)" if "k < length f" for k
    using write_at_nth(2) [OF b that] d(2) by (auto simp: le_add_diff_inverse)
  show "chunk_ok plan content (write_at f ?o d) i" if i: "i < cp_chunks plan" "chunk_ok plan content f i"
    unfolding chunk_ok_def
  proof (intro allI impI)
    fix k assume k: "chunk_start plan i \<le> int k \<and> int k < chunk_start plan i + chunk_len plan i"
    then have "k < length f" using chunk_len_bounds [OF assms(1) i(1)] assms(4) by linarith
    then show "write_at f ?o d ! k = content ! k" using w i(2) k by (auto simp: chunk_ok_def)
  qed
  show "chunk_ok plan content (write_at f ?o d) c" if "int (length d) = chunk_len plan c"
    unfolding chunk_ok_def
  proof (intro allI impI)
    fix k assume k: "chunk_start plan c \<le> int k \<and> int k < chunk_start plan c + chunk_len plan c"
    then have "k < length f" "?o \<le> k" "k < ?o + length d"
      using chunk_len_bounds [OF assms(1,2)] assms(4) o that by linarith+
    then show "write_at f ?o d ! k = content ! k" using w by simp
  qed
qed

lemma set_worker_fields [simp]:
  "pl_meta (set_worker i w s) = pl_meta s" "pl_file (set_worker i w s) = pl_file s" "pl_url (set_worker i w s) = pl_url s"
  "pl_pub (set_worker i w s) = pl_pub s" "pl_abort (set_worker i w s) = pl_abort s" "pl_errs (set_worker i w s) = pl_errs s"
  "pl_main (set_worker i w s) = pl_main s" "pl_workers (set_worker i w s) = (pl_workers s)[i := w]"
  "pl_ctx_done (set_worker i w s) = pl_ctx_done s" "pl_panicked (set_worker i w s) = pl_panicked s"
  by (simp_all add: set_worker_def)

text \<open>The chunk a worker has been given.\<close>

definition held :: "worker \<Rightarrow> nat option" where
  "held w = (case w of W_Got c \<Rightarrow> Some c | W_Try c _ _ \<Rightarrow> Some c | _ \<Rightarrow> None)"

lemma held_simps [simp]:
  "held W_Idle = None" "held (W_Got c) = Some c" "held (W_Try c a e) = Some c" "held (W_Fail e) = None"
  "held (W_Give_Up e) = None" "held W_Check = None" "held W_Close = None" "held W_Exited = None"
  by (simp_all add: held_def)

definition helds_ok :: "chunk_plan \<Rightarrow> pool \<Rightarrow> bool" where
  "helds_ok plan s \<longleftrightarrow> (\<forall>w \<in> set (pl_workers s). \<forall>c. held w = Some c \<longrightarrow> c < cp_chunks plan)"

lemma helds_ok_upd:
  "helds_ok plan s \<Longrightarrow> (\<forall>c. held w = Some c \<longrightarrow> c < cp_chunks plan) \<Longrightarrow> helds_ok plan (set_worker i w s)"
  unfolding helds_ok_def using set_update_subset_insert [of "pl_workers s" i w] by fastforce

section \<open>What one action changes\<close>

definition failing :: "worker \<Rightarrow> bool" where
  "failing w = (case w of W_Fail _ \<Rightarrow> True | W_Give_Up _ \<Rightarrow> True | W_Check \<Rightarrow> True | W_Close \<Rightarrow> True | _ \<Rightarrow> False)"

lemma failing_simps [simp]:
  "\<not> failing W_Idle" "\<not> failing (W_Got c)" "\<not> failing (W_Try c a e)" "failing (W_Fail e)"
  "failing (W_Give_Up e)" "failing W_Check" "failing W_Close" "\<not> failing W_Exited"
  by (simp_all add: failing_def)

abbreviation dones :: "pool \<Rightarrow> bool list" where
  "dones s \<equiv> pm_done (pl_meta s)"

text \<open>A write to the part file: the body of worker \<open>i\<close>'s response, and the chunk is done when it is complete.\<close>

definition body_written :: "chunk_plan \<Rightarrow> nat \<Rightarrow> chunk_attempt \<Rightarrow> pool \<Rightarrow> pool \<Rightarrow> bool" where
  "body_written plan c att s s' \<longleftrightarrow>
     (\<exists>d ok sv. att = A_Body d ok sv \<and> pl_file s' = write_at (pl_file s) (nat (chunk_start plan c)) d \<and>
       (dones s' = dones s \<or> dones s' = (dones s)[c := True] \<and> int (length d) = chunk_len plan c))"

lemma attempt_step_effect:
  "i < length (pl_workers s) \<Longrightarrow> pl_workers s ! i = W_Try c a e \<Longrightarrow>
   \<exists>w. pl_workers (attempt_step plan i c a att s) = (pl_workers s)[i := w] \<and>
     (held w = Some c \<or> failing w \<or> (held w = None \<and> w = W_Idle \<and> dones (attempt_step plan i c a att s) = (dones s)[c := True])) \<and>
     (\<forall>d. held w = Some d \<longrightarrow> d = c) \<and> w \<noteq> W_Check \<and> w \<noteq> W_Close \<and> w \<noteq> W_Exited \<and>
     (pl_file (attempt_step plan i c a att s) = pl_file s \<and> dones (attempt_step plan i c a att s) = dones s \<or>
      body_written plan c att s (attempt_step plan i c a att s))"
  unfolding attempt_step_def body_written_def set_worker_def Let_def
  by (cases att) (auto split: option.splits if_splits)

lemma attempt_step_fields [simp]:
  "pl_pub (attempt_step plan i c a att s) = pl_pub s" "pl_abort (attempt_step plan i c a att s) = pl_abort s"
  "pl_errs (attempt_step plan i c a att s) = pl_errs s" "pl_main (attempt_step plan i c a att s) = pl_main s"
  "pl_panicked (attempt_step plan i c a att s) = pl_panicked s"
  by (auto simp: attempt_step_def Let_def split: chunk_attempt.splits option.splits)

text \<open>What a worker's action does to the worker and around it.\<close>

definition worker_step :: "chunk_plan \<Rightarrow> nat \<Rightarrow> chunk_attempt \<Rightarrow> pool \<Rightarrow> pool \<Rightarrow> worker \<Rightarrow> worker \<Rightarrow> bool" where
  "worker_step plan i att s s' w w' \<longleftrightarrow>
     pl_workers s' = (pl_workers s)[i := w'] \<and> pl_pub s' = pl_pub s \<and> pl_main s' = pl_main s \<and>
     (\<forall>c. held w = Some c \<longrightarrow> held w' = Some c \<or> dones s' = (dones s)[c := True] \<or> failing w' \<or> pl_abort s') \<and>
     (\<forall>c. held w' = Some c \<longrightarrow> held w = Some c) \<and>
     (failing w \<longrightarrow> failing w' \<or> pl_abort s') \<and> (pl_abort s \<longrightarrow> pl_abort s') \<and> (pl_abort s' \<longrightarrow> pl_abort s \<or> w = W_Close) \<and>
     (w' = W_Check \<longrightarrow> pl_errs s' \<noteq> [] \<or> pl_abort s) \<and> (w' = W_Close \<longrightarrow> w = W_Check) \<and>
     (pl_errs s' = pl_errs s \<or> pl_errs s' \<noteq> []) \<and>
     (w' = W_Exited \<longrightarrow> pl_pub s = Pub_Closed \<or> pl_abort s') \<and> w \<noteq> W_Exited \<and>
     (pl_file s' = pl_file s \<and> dones s' = dones s \<or>
      (\<exists>c a e. w = W_Try c a e \<and> body_written plan c att s s'))"

lemma work_step:
  assumes "work plan i att s = Some s'" and "i < length (pl_workers s)" and "\<not> pl_panicked s'"
  obtains w' where "worker_step plan i att s s' (pl_workers s ! i) w'"
proof (cases "\<exists>c a e. pl_workers s ! i = W_Try c a e \<and> a < 4 \<and> \<not> pl_ctx_done s")
  case True
  then obtain c a e where w: "pl_workers s ! i = W_Try c a e" "a < 4" "\<not> pl_ctx_done s" by blast
  then have s': "s' = attempt_step plan i c a att s" using assms(1) by (simp add: work_def)
  let ?s = "attempt_step plan i c a att s"
  obtain w' where e: "pl_workers ?s = (pl_workers s)[i := w']"
    "held w' = Some c \<or> failing w' \<or> (held w' = None \<and> w' = W_Idle \<and> dones ?s = (dones s)[c := True])"
    "\<forall>d. held w' = Some d \<longrightarrow> d = c" "w' \<noteq> W_Check" "w' \<noteq> W_Close" "w' \<noteq> W_Exited"
    "pl_file ?s = pl_file s \<and> dones ?s = dones s \<or> body_written plan c att s ?s"
    using attempt_step_effect [OF assms(2) w(1), of plan att] by blast
  have "worker_step plan i att s ?s (W_Try c a e) w'"
    unfolding worker_step_def using e by (simp add: e(1)) blast
  then show ?thesis using that w(1) s' by simp
next
  case False
  define w' where "w' = pl_workers s' ! i"
  have "worker_step plan i att s s' (pl_workers s ! i) w'"
    using assms False unfolding work_def worker_step_def w'_def
    by (auto split: worker.splits if_splits)
  then show ?thesis using that by blast
qed

section \<open>The data invariant\<close>

lemma main_step_data: "main_step a s = Some s' \<Longrightarrow>
    pl_file s' = pl_file s \<and> pl_meta s' = pl_meta s \<and> pl_workers s' = pl_workers s \<and> pl_pub s' = pl_pub s"
  by (auto simp: main_step_def split: act.splits main_state.splits list.splits if_splits)

text \<open>The actions of the publisher and of the main goroutine, and the two that only set flags.\<close>

lemma pool_act_cases:
  assumes "pool_act plan a s = Some s'"
  obtains (worker) i att where "a = Work i att" "i < length (pl_workers s)" "work plan i att s = Some s'"
    | (hand) i c where "pl_pub s = Publishing c" "i < length (pl_workers s)" "pl_workers s ! i = W_Idle" "c < cp_chunks plan"
        "s' = (set_worker i (W_Got c) s)\<lparr>pl_pub := Publishing (Suc c)\<rparr>"
    | (skip) c where "pl_pub s = Publishing c" "c < cp_chunks plan" "dones s ! c" "s' = s\<lparr>pl_pub := Publishing (Suc c)\<rparr>"
    | (close) c where "pl_pub s = Publishing c" "cp_chunks plan \<le> c" "s' = s\<lparr>pl_pub := Pub_Closed\<rparr>"
    | (stop) c where "pl_pub s = Publishing c" "pl_abort s" "s' = s\<lparr>pl_pub := Pub_Aborted\<rparr>"
    | (quiet) i where "i < length (pl_workers s)" "giving_up (pl_workers s ! i)" "pl_abort s" "s' = set_worker i W_Check s"
    | (cancel) "s' = s\<lparr>pl_ctx_done := True\<rparr>"
    | (main) "main_step a s = Some s'" "\<And>i att. a \<noteq> Work i att"
proof (cases a)
  case (Hand_Over i)
  then show ?thesis using assms hand by (auto simp: pool_act_def split: if_splits publisher.splits)
next
  case Skip_Done
  then show ?thesis using assms skip by (auto simp: pool_act_def split: if_splits publisher.splits)
next
  case Close_Jobs
  then show ?thesis using assms close by (auto simp: pool_act_def split: if_splits publisher.splits)
next
  case Pub_Abort
  then show ?thesis using assms stop by (auto simp: pool_act_def split: if_splits publisher.splits)
next
  case (Work i att)
  then show ?thesis using assms worker by (auto simp: pool_act_def split: if_splits)
next
  case (Give_Up_Quiet i)
  then show ?thesis using assms quiet by (auto simp: pool_act_def split: if_splits)
next
  case Cancel
  then show ?thesis using assms cancel by (auto simp: pool_act_def split: if_splits)
qed (use assms main in \<open>auto simp: pool_act_def split: if_splits\<close>)

lemma data_inv_act:
  assumes "plan_ok plan" and "pool_act plan a s = Some s'" and "honest plan content s a"
    and "data_inv plan content s" and "helds_ok plan s"
  shows "data_inv plan content s' \<and> helds_ok plan s'"
  using assms(2)
proof (cases rule: pool_act_cases)
  case (worker i att)
  show ?thesis
  proof (cases "pl_panicked s'")
    case True
    then have "pl_file s' = pl_file s \<and> pl_meta s' = pl_meta s \<and> pl_workers s' = pl_workers s"
    proof -
      have "\<not> pl_panicked s" using assms(2) by (auto simp: pool_act_def split: if_splits)
      then show ?thesis using True worker(3) by (auto simp: work_def split: worker.splits if_splits)
    qed
    then show ?thesis using assms(4,5) by (simp add: data_inv_def helds_ok_def)
  next
    case False
    obtain w' where w': "worker_step plan i att s s' (pl_workers s ! i) w'"
      using work_step [OF worker(3,2) False] .
    have h: "helds_ok plan s'"
    proof -
      have "\<forall>c. held w' = Some c \<longrightarrow> held (pl_workers s ! i) = Some c" using w' unfolding worker_step_def by blast
      then have "\<forall>c. held w' = Some c \<longrightarrow> c < cp_chunks plan"
        using assms(5) nth_mem [OF worker(2)] unfolding helds_ok_def by blast
      then have "helds_ok plan (set_worker i w' s)" by (rule helds_ok_upd [OF assms(5)])
      then show ?thesis using w' by (simp add: helds_ok_def worker_step_def)
    qed
    have d: "data_inv plan content s'"
    proof (cases "pl_file s' = pl_file s \<and> dones s' = dones s")
      case True
      then show ?thesis using assms(4) by (simp add: data_inv_def)
    next
      case False
      then obtain c k e where w: "pl_workers s ! i = W_Try c k e" "body_written plan c att s s'"
        using w' unfolding worker_step_def by blast
      then obtain d ok sv where b: "pl_workers s ! i = W_Try c k e" "att = A_Body d ok sv"
        "pl_file s' = write_at (pl_file s) (nat (chunk_start plan c)) d"
        "dones s' = dones s \<or> dones s' = (dones s)[c := True] \<and> int (length d) = chunk_len plan c"
        unfolding body_written_def by blast
      have hb: "honest_body plan content c d" using assms(3) worker(1) b(1,2) by (simp add: honest_def)
      have c: "c < cp_chunks plan" using assms(5) b(1) worker(2) nth_mem [OF worker(2)] by (force simp: helds_ok_def)
      note inv = assms(4) [unfolded data_inv_def]
      note wc = write_chunk [OF assms(1) c hb conjunct1 [OF inv]]
      show ?thesis
        unfolding data_inv_def b(3)
      proof (intro conjI allI impI)
        show "length (write_at (pl_file s) (nat (chunk_start plan c)) d) = nat (cp_size plan)" by (rule wc(1))
        show "length (dones s') = cp_chunks plan" using b(4) inv by auto
        fix j assume j: "j < cp_chunks plan" "dones s' ! j"
        show "chunk_ok plan content (write_at (pl_file s) (nat (chunk_start plan c)) d) j"
        proof (cases "dones s ! j")
          case True
          then show ?thesis using wc(2) [OF j(1)] inv j(1) by blast
        next
          case False
          then have "j = c" "int (length d) = chunk_len plan c"
            using j b(4) by (cases "c = j"; auto)+
          then show ?thesis using wc(3) by simp
        qed
      qed
    qed
    show ?thesis using d h by blast
  qed
next
  case (hand i c)
  have "helds_ok plan (set_worker i (W_Got c) s)" using hand by (intro helds_ok_upd [OF assms(5)]) simp
  then show ?thesis using hand assms(4) by (simp add: data_inv_def helds_ok_def)
next
  case (quiet i)
  have "helds_ok plan (set_worker i W_Check s)" by (intro helds_ok_upd [OF assms(5)]) simp
  then show ?thesis using quiet assms(4) by (simp add: data_inv_def)
next
  case main
  then show ?thesis using main_step_data [OF main(1)] assms(4,5) by (simp add: data_inv_def helds_ok_def)
qed (use assms(4,5) in \<open>simp_all add: data_inv_def helds_ok_def\<close>)

section \<open>The control invariant\<close>

definition pub_index :: "chunk_plan \<Rightarrow> publisher \<Rightarrow> nat" where
  "pub_index plan p = (case p of Publishing c \<Rightarrow> c | Pub_Closed \<Rightarrow> cp_chunks plan | Pub_Aborted \<Rightarrow> 0)"

definition worker_is :: "(worker \<Rightarrow> bool) \<Rightarrow> pool \<Rightarrow> bool" where
  "worker_is P s \<longleftrightarrow> (\<exists>j < length (pl_workers s). P (pl_workers s ! j))"

text \<open>A published chunk is done, or held by a worker, or something has failed.\<close>

definition chunk_tracked :: "pool \<Rightarrow> nat \<Rightarrow> bool" where
  "chunk_tracked s c \<longleftrightarrow> dones s ! c \<or> worker_is (\<lambda>w. held w = Some c) s \<or> pl_abort s \<or> worker_is failing s"

definition waiting :: "main_state \<Rightarrow> bool" where
  "waiting m \<longleftrightarrow> m = M_Wait \<or> m = M_Returned None"

definition ctl_inv :: "chunk_plan \<Rightarrow> pool \<Rightarrow> bool" where
  "ctl_inv plan s \<longleftrightarrow>
     pub_index plan (pl_pub s) \<le> cp_chunks plan \<and>
     length (dones s) = cp_chunks plan \<and>
     (\<forall>c < pub_index plan (pl_pub s). chunk_tracked s c) \<and>
     (waiting (pl_main s) \<longrightarrow> pl_abort s \<or> worker_is (\<lambda>w. w = W_Check \<or> w = W_Close) s \<longrightarrow> pl_errs s \<noteq> []) \<and>
     (pl_main s = M_Returned None \<longrightarrow> all_exited s) \<and>
     (worker_is (\<lambda>w. w = W_Exited) s \<longrightarrow> pl_pub s = Pub_Closed \<or> pl_abort s) \<and>
     pl_workers s \<noteq> []"

lemma worker_is_upd:
  assumes "i < length (pl_workers s)" and "pl_workers s' = (pl_workers s)[i := w]"
  shows "worker_is P s' \<longleftrightarrow> P w \<or> (\<exists>j < length (pl_workers s). j \<noteq> i \<and> P (pl_workers s ! j))"
  using assms by (auto simp: worker_is_def nth_list_update)

lemma worker_is_split:
  assumes "i < length (pl_workers s)"
  shows "worker_is P s \<longleftrightarrow> P (pl_workers s ! i) \<or> (\<exists>j < length (pl_workers s). j \<noteq> i \<and> P (pl_workers s ! j))"
  using assms by (auto simp: worker_is_def)

lemma worker_step_tracked:
  assumes "worker_step plan i att s s' (pl_workers s ! i) w'" and "i < length (pl_workers s)"
    and "chunk_tracked s c" and "c < length (dones s)"
  shows "chunk_tracked s' c"
proof -
  let ?w = "pl_workers s ! i"
  have ws: "pl_workers s' = (pl_workers s)[i := w']" and
    h: "held ?w = Some c \<Longrightarrow> held w' = Some c \<or> dones s' = (dones s)[c := True] \<or> failing w' \<or> pl_abort s'" and
    f: "failing ?w \<Longrightarrow> failing w' \<or> pl_abort s'" and a: "pl_abort s \<Longrightarrow> pl_abort s'" and
    d: "dones s' = dones s \<or> (\<exists>c. dones s' = (dones s)[c := True])"
    using assms(1) unfolding worker_step_def body_written_def by blast+
  note u = worker_is_upd [OF assms(2) ws] worker_is_split [OF assms(2)]
  have keep: "dones s ! c \<Longrightarrow> dones s' ! c"
    using d by (metis nth_list_update_eq nth_list_update_neq assms(4))
  show ?thesis
  proof (cases "dones s ! c \<or> pl_abort s")
    case True
    then show ?thesis using keep a by (auto simp: chunk_tracked_def)
  next
    case False
    then have "worker_is (\<lambda>w. held w = Some c) s \<or> worker_is failing s" using assms(3) by (simp add: chunk_tracked_def)
    then show ?thesis
      unfolding chunk_tracked_def u using h f assms(4) by (metis nth_list_update_eq)
  qed
qed

lemma ctl_inv_worker:
  assumes "ctl_inv plan s" and "worker_step plan i att s s' (pl_workers s ! i) w'" and i: "i < length (pl_workers s)"
  shows "ctl_inv plan s'"
proof -
  let ?w = "pl_workers s ! i"
  have ws: "pl_workers s' = (pl_workers s)[i := w']" "pl_pub s' = pl_pub s" "pl_main s' = pl_main s"
    and a: "pl_abort s \<Longrightarrow> pl_abort s'" "pl_abort s' \<Longrightarrow> pl_abort s \<or> ?w = W_Close"
    and e: "pl_errs s' = pl_errs s \<or> pl_errs s' \<noteq> []" "w' = W_Check \<Longrightarrow> pl_errs s' \<noteq> [] \<or> pl_abort s" "w' = W_Close \<Longrightarrow> ?w = W_Check"
    and x: "w' = W_Exited \<Longrightarrow> pl_pub s = Pub_Closed \<or> pl_abort s'" "?w \<noteq> W_Exited"
    and d: "dones s' = dones s \<or> (\<exists>c. dones s' = (dones s)[c := True])"
    using assms(2) unfolding worker_step_def body_written_def by blast+
  note u = worker_is_upd [OF i ws(1)] worker_is_split [OF i]
  note inv = assms(1) [unfolded ctl_inv_def]
  have len: "length (dones s') = cp_chunks plan" using d inv by auto
  have m: "pl_main s \<noteq> M_Returned None"
  proof
    assume "pl_main s = M_Returned None"
    then have "all_exited s" using inv by blast
    then show False using x(2) i by (auto simp: all_exited_def list_all_length)
  qed
  have t: "chunk_tracked s' c" if "c < pub_index plan (pl_pub s')" for c
    using that inv ws(2) by (intro worker_step_tracked [OF assms(2) i]) auto
  have w: "pl_errs s' \<noteq> []" if "waiting (pl_main s')" "pl_abort s' \<or> worker_is (\<lambda>w. w = W_Check \<or> w = W_Close) s'"
  proof -
    have wt: "waiting (pl_main s)" using that(1) ws(3) by simp
    have "pl_errs s' \<noteq> [] \<or> pl_abort s \<or> worker_is (\<lambda>w. w = W_Check \<or> w = W_Close) s"
      using that(2) a(2) e(2,3) unfolding u by metis
    then show ?thesis using inv wt e(1) by metis
  qed
  have ex: "pl_pub s' = Pub_Closed \<or> pl_abort s'" if "worker_is (\<lambda>w. w = W_Exited) s'"
    using that x(1) inv a(1) ws(2) unfolding u by metis
  show ?thesis
    unfolding ctl_inv_def using len t w ex inv ws m by (metis length_0_conv length_list_update)
qed

lemma worker_is_same: "pl_workers s' = pl_workers s \<Longrightarrow> worker_is P s' = worker_is P s"
  by (simp add: worker_is_def)

text \<open>Actions that leave the workers, the errors and the abort alone.\<close>

lemma ctl_inv_same:
  assumes "ctl_inv plan s" and "pl_workers s' = pl_workers s" and "pl_abort s' = pl_abort s" and "pl_errs s' = pl_errs s"
    and "dones s' = dones s" and "pl_main s' = pl_main s"
    and "pub_index plan (pl_pub s') \<le> cp_chunks plan" and "pl_pub s = Pub_Closed \<Longrightarrow> pl_pub s' = Pub_Closed"
    and "\<And>c. c < pub_index plan (pl_pub s') \<Longrightarrow> c < pub_index plan (pl_pub s) \<or> dones s ! c"
  shows "ctl_inv plan s'"
proof -
  note w = worker_is_same [OF assms(2)]
  have "chunk_tracked s' c" if "c < pub_index plan (pl_pub s')" for c
    using assms(9) [OF that] assms(1,3,5) w by (auto simp: ctl_inv_def chunk_tracked_def)
  then show ?thesis
    using assms(1-8) w by (auto simp: ctl_inv_def all_exited_def)
qed

lemma ctl_inv_main:
  assumes "main_step a s = Some s'" and "ctl_inv plan s"
  shows "ctl_inv plan s'"
proof -
  have same: "pl_workers s' = pl_workers s" "pl_pub s' = pl_pub s" "pl_meta s' = pl_meta s"
    using main_step_data [OF assms(1)] by simp_all
  have abort: "pl_abort s \<Longrightarrow> pl_abort s'"
    and ret: "waiting (pl_main s') \<Longrightarrow> pl_errs s' = pl_errs s \<and> pl_abort s' = pl_abort s \<and> waiting (pl_main s)"
    and fin: "pl_main s' = M_Returned None \<Longrightarrow> all_exited s"
    using assms by (auto simp: main_step_def waiting_def ctl_inv_def split: act.splits main_state.splits list.splits if_splits)
  note w = worker_is_same [OF same(1)]
  have "chunk_tracked s' c" if "chunk_tracked s c" for c
    using that abort same w by (auto simp: chunk_tracked_def)
  then show ?thesis
    using assms(2) same abort ret fin w unfolding ctl_inv_def all_exited_def by auto
qed

lemma ctl_inv_act:
  assumes "pool_act plan a s = Some s'" and "ctl_inv plan s"
  shows "ctl_inv plan s'"
  using assms(1)
proof (cases rule: pool_act_cases)
  case (worker i att)
  show ?thesis
  proof (cases "pl_panicked s'")
    case True
    have "\<not> pl_panicked s" using assms(1) by (auto simp: pool_act_def split: if_splits)
    then have "s' = s\<lparr>pl_panicked := True\<rparr>"
      using True worker(3) by (auto simp: work_def split: worker.splits if_splits)
    then show ?thesis using assms(2) by (intro ctl_inv_same [OF assms(2)]) (auto simp: ctl_inv_def)
  next
    case False
    obtain w' where "worker_step plan i att s s' (pl_workers s ! i) w'" using work_step [OF worker(3,2) False] .
    then show ?thesis by (rule ctl_inv_worker [OF assms(2) _ worker(2)])
  qed
next
  case (hand i c)
  have ws: "pl_workers s' = (pl_workers s)[i := W_Got c]" using hand(5) by simp
  note u = worker_is_upd [OF hand(2) ws] worker_is_split [OF hand(2)]
  note inv = assms(2) [unfolded ctl_inv_def]
  have "\<not> all_exited s" using hand(2,3) by (auto simp: all_exited_def list_all_length)
  then have m: "pl_main s' \<noteq> M_Returned None" using inv hand(5) by auto
  have t: "chunk_tracked s' d" if "d < Suc c" for d
  proof (cases "d = c")
    case True
    then show ?thesis unfolding chunk_tracked_def u by simp
  next
    case False
    then have "chunk_tracked s d" using that inv hand(1) by (auto simp: pub_index_def)
    then show ?thesis unfolding chunk_tracked_def u using hand(3,5) by auto
  qed
  have e: "pl_errs s' = pl_errs s" "pl_abort s' = pl_abort s" "pl_main s' = pl_main s" "dones s' = dones s"
    "pl_pub s' = Publishing (Suc c)" using hand(5) by simp_all
  have k: "worker_is (\<lambda>w. w = W_Check \<or> w = W_Close) s' \<Longrightarrow> worker_is (\<lambda>w. w = W_Check \<or> w = W_Close) s"
    "worker_is (\<lambda>w. w = W_Exited) s' \<Longrightarrow> worker_is (\<lambda>w. w = W_Exited) s"
    unfolding u by auto
  show ?thesis
    unfolding ctl_inv_def using inv t m e k hand(1,4) ws by (auto simp: pub_index_def)
next
  case (skip c)
  show ?thesis
    by (rule ctl_inv_same [OF assms(2)]) (use skip in \<open>auto simp: pub_index_def less_Suc_eq\<close>)
next
  case (close c)
  have "c \<le> cp_chunks plan" using assms(2) close(1) by (simp add: ctl_inv_def pub_index_def)
  then have "c = cp_chunks plan" using close(2) by simp
  then show ?thesis
    by (intro ctl_inv_same [OF assms(2)]) (use close in \<open>auto simp: pub_index_def\<close>)
next
  case (stop c)
  show ?thesis
    by (rule ctl_inv_same [OF assms(2)]) (use stop in \<open>auto simp: pub_index_def\<close>)
next
  case (quiet i)
  obtain e where w: "pl_workers s ! i = W_Give_Up e"
    using quiet(2) by (cases "pl_workers s ! i") (auto simp: giving_up_def)
  have "worker_step plan i A_Net_Error s s' (pl_workers s ! i) W_Check"
    using quiet(3) unfolding quiet(4) w worker_step_def by simp
  then show ?thesis by (rule ctl_inv_worker [OF assms(2) _ quiet(1)])
next
  case cancel
  show ?thesis
    by (rule ctl_inv_same [OF assms(2)]) (use cancel assms(2) in \<open>auto simp: ctl_inv_def\<close>)
next
  case main
  then show ?thesis using ctl_inv_main assms(2) by blast
qed

section \<open>Properties\<close>

definition resume_ok :: "chunk_plan \<Rightarrow> byte list \<Rightarrow> pool \<Rightarrow> bool" where
  "resume_ok plan content s \<longleftrightarrow> (\<forall>i < cp_chunks plan. dones s ! i \<longrightarrow> chunk_ok plan content (pl_file s) i)"

lemma resume_meta_length: "length (pm_done (resume_meta plan f)) = cp_chunks plan"
  by (simp add: resume_meta_def Let_def split: option.splits)

lemma chunk_begin_inv:
  assumes "chunk_begin_of plan f file conc = Begin s" and "resume_ok plan content s"
  shows "data_inv plan content s" "helds_ok plan s" "ctl_inv plan s"
proof -
  have s: "length (pl_file s) = nat (cp_size plan)" "dones s = pm_done (resume_meta plan f)" "pl_pub s = Publishing 0"
    "pl_main s = M_Wait" "\<not> pl_abort s" "list_all (\<lambda>w. w = W_Idle) (pl_workers s)" "pl_workers s \<noteq> []"
    using assms(1) by (auto simp: chunk_begin_of_def Let_def truncate_to_def list_all_iff split: if_splits option.splits)
  show "data_inv plan content s" using s assms(2) resume_meta_length by (simp add: data_inv_def resume_ok_def)
  show "helds_ok plan s" using s(6) by (auto simp: helds_ok_def list_all_iff)
  show "ctl_inv plan s"
    using s resume_meta_length by (auto simp: ctl_inv_def pub_index_def worker_is_def list_all_length)
qed

lemma pool_run_inv:
  assumes "plan_ok plan"
  shows "pool_run plan as s = Some s' \<Longrightarrow> honest_run plan content as s \<Longrightarrow> data_inv plan content s \<Longrightarrow>
    helds_ok plan s \<Longrightarrow> ctl_inv plan s \<Longrightarrow> data_inv plan content s' \<and> ctl_inv plan s'"
proof (induction as arbitrary: s)
  case (Cons a as)
  obtain s1 where s1: "pool_act plan a s = Some s1" "pool_run plan as s1 = Some s'"
    using Cons.prems(1) by (auto split: option.splits)
  have h: "honest plan content s a" "honest_run plan content as s1" using Cons.prems(2) s1(1) by simp_all
  have d: "data_inv plan content s1 \<and> helds_ok plan s1"
    using data_inv_act [OF assms s1(1) h(1) Cons.prems(3,4)] .
  have "ctl_inv plan s1" using ctl_inv_act [OF s1(1) Cons.prems(5)] .
  then show ?case using Cons.IH [OF s1(2) h(2)] d by blast
qed simp

lemma all_done_content:
  assumes "plan_ok plan" and "data_inv plan content s" and "\<forall>i < cp_chunks plan. dones s ! i"
    and "length content = nat (cp_size plan)"
  shows "pl_file s = content"
proof (rule nth_equalityI)
  show l: "length (pl_file s) = length content" using assms(2,4) by (simp add: data_inv_def)
  fix k assume "k < length (pl_file s)"
  then have k: "int k < cp_size plan" using l assms(4) by linarith
  let ?i = "nat (int k div cp_chunk_size plan)"
  have i: "?i < cp_chunks plan \<and> chunk_start plan ?i \<le> int k \<and> int k < chunk_start plan ?i + chunk_len plan ?i"
    using chunk_of_offset [OF assms(1) _ k, of ?i] by simp
  then have "chunk_ok plan content (pl_file s) ?i" using assms(2,3) by (simp add: data_inv_def)
  then show "pl_file s ! k = content ! k" using i by (simp add: chunk_ok_def)
qed

text \<open>
  C17. The chunks are a partition. For a plan with the number of chunks \<open>chunkCount\<close> gives, every offset of
  the file lies in exactly one chunk, and each chunk is non-empty, no longer than the chunk size and inside
  the file: the byte ranges requested are disjoint and cover the file.
\<close>

theorem chunks_partition:
  assumes "plan_ok plan" and "0 \<le> b" and "b < cp_size plan"
  shows "\<exists>!i. i < cp_chunks plan \<and> chunk_start plan i \<le> b \<and> b < chunk_start plan i + chunk_len plan i \<and>
    0 < chunk_len plan i \<and> chunk_len plan i \<le> cp_chunk_size plan \<and>
    chunk_start plan i + chunk_len plan i \<le> cp_size plan"
proof (rule ex1I [of _ "nat (b div cp_chunk_size plan)"])
  show "nat (b div cp_chunk_size plan) < cp_chunks plan \<and>
      chunk_start plan (nat (b div cp_chunk_size plan)) \<le> b \<and>
      b < chunk_start plan (nat (b div cp_chunk_size plan)) + chunk_len plan (nat (b div cp_chunk_size plan)) \<and>
      0 < chunk_len plan (nat (b div cp_chunk_size plan)) \<and>
      chunk_len plan (nat (b div cp_chunk_size plan)) \<le> cp_chunk_size plan \<and>
      chunk_start plan (nat (b div cp_chunk_size plan)) + chunk_len plan (nat (b div cp_chunk_size plan)) \<le> cp_size plan"
    using chunk_of_offset [OF assms, of "nat (b div cp_chunk_size plan)"] chunk_len_bounds [OF assms(1)] by blast
next
  fix i
  assume "i < cp_chunks plan \<and> chunk_start plan i \<le> b \<and> b < chunk_start plan i + chunk_len plan i \<and>
    0 < chunk_len plan i \<and> chunk_len plan i \<le> cp_chunk_size plan \<and> chunk_start plan i + chunk_len plan i \<le> cp_size plan"
  then show "i = nat (b div cp_chunk_size plan)" using chunk_of_offset [OF assms, of i] by blast
qed

definition sample_plan :: "int \<Rightarrow> int \<Rightarrow> chunk_plan" where
  "sample_plan n c =
     \<lparr>cp_url = ''u'', cp_size = n, cp_chunk_size = c, cp_chunks = chunk_count n c, cp_sha256 = [], cp_etag = ''e''\<rparr>"

lemma sample_plan_ok: "0 < n \<Longrightarrow> 0 < c \<Longrightarrow> plan_ok (sample_plan n c)"
  by (simp add: plan_ok_def sample_plan_def)

theorem chunks_partition_witness:
  "\<exists>!i. i < cp_chunks (sample_plan 5 2) \<and> chunk_start (sample_plan 5 2) i \<le> 4 \<and>
     4 < chunk_start (sample_plan 5 2) i + chunk_len (sample_plan 5 2) i \<and> 0 < chunk_len (sample_plan 5 2) i \<and>
     chunk_len (sample_plan 5 2) i \<le> cp_chunk_size (sample_plan 5 2) \<and>
     chunk_start (sample_plan 5 2) i + chunk_len (sample_plan 5 2) i \<le> cp_size (sample_plan 5 2)"
  using chunks_partition [OF sample_plan_ok, of 5 2 4] by (simp add: sample_plan_def)

text \<open>
  C18. A download that reports success is the file. However the workers, the publisher and the main
  goroutine interleave and whatever attempts fail, when \<open>runChunked\<close> returns without an error and no
  worker's error is left unread in the channel, every chunk is done and the part file holds exactly the
  bytes of the content, as long as the server answers each range with bytes of that range and the chunks
  that were done before held the right bytes.
\<close>

theorem chunked_download_correct:
  assumes "plan_ok plan" and "chunk_begin_of plan f file conc = Begin s0" and "length content = nat (cp_size plan)"
    and "resume_ok plan content s0" and "honest_run plan content acts s0" and "pool_run plan acts s0 = Some s"
    and "pl_main s = M_Returned None" and "pl_errs s = []"
  shows "pl_file s = content \<and> (\<forall>i < cp_chunks plan. pm_done (pl_meta s) ! i)"
proof -
  have d: "data_inv plan content s" and c: "ctl_inv plan s"
    using pool_run_inv [OF assms(1,6,5)] chunk_begin_inv [OF assms(2,4)] by blast+
  note inv = c [unfolded ctl_inv_def]
  have ex: "all_exited s" using inv assms(7) by blast
  have na: "\<not> pl_abort s" using inv assms(7,8) by (auto simp: waiting_def)
  have e: "\<not> worker_is P s" if "\<not> P W_Exited" for P
    using ex that by (auto simp: worker_is_def all_exited_def list_all_length)
  have "worker_is (\<lambda>w. w = W_Exited) s"
    using ex inv by (auto simp: worker_is_def all_exited_def list_all_length)
  then have "pl_pub s = Pub_Closed" using inv na by blast
  then have "chunk_tracked s i" if "i < cp_chunks plan" for i using inv that by (simp add: pub_index_def)
  then have "\<forall>i < cp_chunks plan. dones s ! i"
    using na e [of failing] e [of "\<lambda>w. held w = Some _"] by (auto simp: chunk_tracked_def)
  then show ?thesis using all_done_content [OF assms(1) d _ assms(3)] by blast
qed

definition sample_pool :: "nat \<Rightarrow> pool" where
  "sample_pool n =
     \<lparr>pl_meta = resume_meta (sample_plan 2 1) None, pl_url = ''u'', pl_file = [0, 0], pl_progress = 0,
      pl_workers = replicate n W_Idle, pl_pub = Publishing 0, pl_abort = False, pl_errs = [], pl_ctx_done = False,
      pl_main = M_Wait, pl_panicked = False\<rparr>"

lemmas pool_eval = pool_act_def work_def attempt_step_def main_step_def set_worker_def sample_pool_def resume_meta_def
  load_part_meta_def sample_plan_def chunk_count_def chunk_start_def chunk_len_def write_at_def all_exited_def
  giving_up_def part_meta_version_def done_count_def Let_def

lemma sample_begin:
  "chunk_begin_of (sample_plan 2 1) None (Some []) 1 = Begin (sample_pool 1)"
  "chunk_begin_of (sample_plan 2 1) None (Some []) 2 = Begin (sample_pool 2)"
  by (simp_all add: chunk_begin_of_def done_bytes_def truncate_to_def pool_eval numeral_2_eq_2)

definition good_acts :: "act list" where
  "good_acts = [Hand_Over 0, Work 0 A_Net_Error, Work 0 (A_Body [7] True True), Hand_Over 0, Work 0 A_Net_Error,
     Work 0 (A_Body [8] True True), Close_Jobs, Work 0 A_Net_Error, Main_Finished True]"

lemma good_run:
  "\<exists>s. pool_run (sample_plan 2 1) good_acts (sample_pool 1) = Some s \<and> pl_main s = M_Returned None \<and> pl_errs s = [] \<and>
     honest_run (sample_plan 2 1) [7, 8] good_acts (sample_pool 1)"
  by (simp add: good_acts_def pool_eval honest_def honest_body_def numeral_2_eq_2)

theorem chunked_download_correct_witness:
  "\<exists>s. pool_run (sample_plan 2 1) good_acts (sample_pool 1) = Some s \<and> pl_file s = [7, 8]"
proof -
  obtain s where s: "pool_run (sample_plan 2 1) good_acts (sample_pool 1) = Some s" "pl_main s = M_Returned None" "pl_errs s = []"
    "honest_run (sample_plan 2 1) [7, 8] good_acts (sample_pool 1)"
    using good_run by blast
  have r: "resume_ok (sample_plan 2 1) [7, 8] (sample_pool 1)"
    by (auto simp: resume_ok_def pool_eval less_Suc_eq numeral_2_eq_2)
  have l: "length [7, 8 :: byte] = nat (cp_size (sample_plan 2 1))" by (simp add: sample_plan_def)
  have o: "plan_ok (sample_plan 2 1)" by (rule sample_plan_ok) simp_all
  show ?thesis using chunked_download_correct [OF o sample_begin(1) l r s(4,1,2,3)] s(1) by blast
qed

text \<open>One worker: its fatal error and the end of all workers are there at the same time.\<close>

definition race_acts :: "act list" where
  "race_acts = [Hand_Over 0, Work 0 A_Net_Error, Work 0 (A_Status 404 None), Work 0 A_Net_Error, Work 0 A_Net_Error,
     Work 0 A_Net_Error, Main_Finished True]"

text \<open>Two workers: one fails while the other waits for a job.\<close>

definition stuck_acts :: "act list" where
  "stuck_acts = [Hand_Over 0, Work 0 A_Net_Error, Work 0 (A_Status 404 None), Work 0 A_Net_Error, Work 0 A_Net_Error,
     Work 0 A_Net_Error, Pub_Abort, Main_Error, Main_Close, Cancel]"

text \<open>Two workers fail and both find \<open>abort\<close> open.\<close>

definition panic_acts :: "act list" where
  "panic_acts = [Hand_Over 0, Hand_Over 1, Work 0 A_Net_Error, Work 1 A_Net_Error, Work 0 (A_Status 404 None),
     Work 1 (A_Status 404 None), Work 0 A_Net_Error, Work 1 A_Net_Error, Work 0 A_Net_Error, Work 1 A_Net_Error,
     Work 0 A_Net_Error, Work 1 A_Net_Error]"

definition stale_meta :: part_meta where
  "stale_meta = \<lparr>pm_version = 1, pm_url = ''old'', pm_size = 2, pm_chunk_size = 1, pm_sha256 = ''s'', pm_etag = ''old'',
     pm_done = [True, True]\<rparr>"

text \<open>
  What can go wrong with an error. There are interleavings in which \<open>runChunked\<close> reports success though
  a chunk is missing (the error is still in the channel when all workers have ended); in which it waits
  forever, no goroutine able to move, because the publisher gave up without closing the job channel; and in
  which two workers close \<open>abort\<close> and the program panics. And the metadata of an earlier download with
  another entity tag counts as complete when the sizes agree.
\<close>

theorem chunked_download_hazards:
  "(\<exists>s. pool_run (sample_plan 2 1) race_acts (sample_pool 1) = Some s \<and> pl_main s = M_Returned None \<and>
      \<not> pm_done (pl_meta s) ! 0) \<and>
   (\<exists>s. pool_run (sample_plan 2 1) stuck_acts (sample_pool 2) = Some s \<and> (\<exists>e. pl_main s = M_Drain e) \<and>
      (\<forall>a. pool_act (sample_plan 2 1) a s = None)) \<and>
   (\<exists>s. pool_run (sample_plan 2 1) panic_acts (sample_pool 2) = Some s \<and> pl_panicked s) \<and>
   chunk_begin_of (sample_plan 2 1) (Some stale_meta) None 1 = Already_Done \<and> pm_etag stale_meta \<noteq> cp_etag (sample_plan 2 1)"
proof (intro conjI)
  show "\<exists>s. pool_run (sample_plan 2 1) race_acts (sample_pool 1) = Some s \<and> pl_main s = M_Returned None \<and> \<not> dones s ! 0"
    by (simp add: race_acts_def pool_eval numeral_2_eq_2)
  show "\<exists>s. pool_run (sample_plan 2 1) panic_acts (sample_pool 2) = Some s \<and> pl_panicked s"
    by (simp add: panic_acts_def pool_eval numeral_2_eq_2)
  show "chunk_begin_of (sample_plan 2 1) (Some stale_meta) None 1 = Already_Done" "pm_etag stale_meta \<noteq> cp_etag (sample_plan 2 1)"
    by (simp_all add: chunk_begin_of_def stale_meta_def pool_eval numeral_2_eq_2)
  have "\<exists>s. pool_run (sample_plan 2 1) stuck_acts (sample_pool 2) = Some s \<and> (\<exists>e. pl_main s = M_Drain e) \<and>
      pl_workers s = [W_Exited, W_Idle] \<and> pl_pub s = Pub_Aborted \<and> pl_ctx_done s"
    by (simp add: stuck_acts_def pool_eval numeral_2_eq_2)
  then obtain s e where s: "pool_run (sample_plan 2 1) stuck_acts (sample_pool 2) = Some s" "pl_main s = M_Drain e"
    "pl_workers s = [W_Exited, W_Idle]" "pl_pub s = Pub_Aborted" "pl_ctx_done s" by blast
  have "pool_act (sample_plan 2 1) a s = None" for a
  proof (cases a)
    case (Work i att)
    then show ?thesis using s by (cases i) (auto simp: pool_act_def work_def less_Suc_eq split: if_splits)
  next
    case (Give_Up_Quiet i)
    then show ?thesis using s by (cases i) (auto simp: pool_act_def giving_up_def less_Suc_eq split: if_splits)
  qed (use s in \<open>auto simp: pool_act_def main_step_def all_exited_def\<close>)
  then show "\<exists>s. pool_run (sample_plan 2 1) stuck_acts (sample_pool 2) = Some s \<and> (\<exists>e. pl_main s = M_Drain e) \<and>
      (\<forall>a. pool_act (sample_plan 2 1) a s = None)" using s by blast
qed

end
