(* ===== verification/Downloader.thy ===== *)
theory Downloader
  imports Chunk GoUrl GoPath Sha256
begin

text \<open>
  The rest of the client's download path: naming and checking files (end of
  \<^verbatim>\<open>internal/client/downloader/chunk.go\<close>), the routes of \<^verbatim>\<open>downloader.go\<close> and the requests of
  \<^verbatim>\<open>client.go\<close>. Files are contents by path; the answers of servers are arguments.
\<close>

section \<open>Names of output files\<close>

definition name_safe :: "char \<Rightarrow> bool" where
  "name_safe c \<longleftrightarrow> is_lower c \<or> is_upper c \<or> is_digit c \<or> c \<in> set ''.-_%+''"

definition safe_name :: "string \<Rightarrow> string" where
  "safe_name s = clean_runes name_safe s"

definition url_path_part :: "string \<Rightarrow> string" where
  "url_path_part raw = (case url_parse raw of Some u \<Rightarrow> u_path u | None \<Rightarrow> fst (cut_byte (CHR ''?'') raw))"

definition last_segment :: "string \<Rightarrow> string" where
  "last_segment p =
     (case find (\<lambda>s. s \<noteq> []) (rev (split_byte (CHR ''/'') (map (\<lambda>c. if c = CHR 0x5C then CHR ''/'' else c) p))) of
        None \<Rightarrow> [] | Some s \<Rightarrow> s)"

definition output_name :: "string \<Rightarrow> string \<Rightarrow> string" where
  "output_name raw explicit =
     (if explicit \<noteq> [] then explicit
      else
        (let base = trim_left_set (last_segment (url_path_part raw)) ''.'' in
         if base = [] \<or> 128 < length base then ''download.bin''
         else (let out = safe_name base in if out = [] \<or> out = ''.'' then ''download.bin'' else out)))"

definition split_query :: "string \<Rightarrow> string" where
  "split_query raw = fst (cut_byte (CHR ''?'') raw)"

definition abs_output :: "string \<Rightarrow> string option \<Rightarrow> string" where
  "abs_output out cwd =
     (if out = [] \<or> has_prefix out ''/'' then out
      else case cwd of None \<Rightarrow> out | Some d \<Rightarrow> path_join [d, out])"

lemma safe_name_chars: "list_all name_safe (safe_name s)"
  by (simp add: safe_name_def clean_runes_chars name_safe_def)

lemma safe_name_length: "length (safe_name s) \<le> length s"
  by (simp add: safe_name_def clean_runes_length)

lemma safe_name_hd: "s \<noteq> [] \<Longrightarrow> safe_name s \<noteq> [] \<and> hd (safe_name s) = (if name_safe (hd s) then hd s else CHR ''_'')"
  by (simp add: safe_name_def clean_runes_hd)

section \<open>Files\<close>

type_synonym files = "(string, byte list) gomap"

definition bytes_str :: "byte list \<Rightarrow> string" where
  "bytes_str bs = map (\<lambda>b. char_of (unat b)) bs"

datatype dl_error =
    Checksum_Mismatch | File_Error | Output_Exists | Presign_Gone | Dl_HTTP int | Dl_Net | Dl_Ctx | Dl_Bad_Request
  | Direct_Failed dl_error | No_Last_Error
  | Chunk_Err chunk_error | Invalid_Chunk_Plan

definition verify_sha256 :: "files \<Rightarrow> string \<Rightarrow> string \<Rightarrow> dl_error option" where
  "verify_sha256 fs part want =
     (if want = [] then None
      else case mget fs part of
        None \<Rightarrow> Some File_Error
      | Some d \<Rightarrow> if equal_fold (bytes_hex (sha256 d)) want then None else Some Checksum_Mismatch)"

definition sha_file :: "string \<Rightarrow> string" where
  "sha_file p = p @ ''.sha256''"

definition compute_and_store_sha :: "bool \<Rightarrow> files \<Rightarrow> string \<Rightarrow> dl_error option \<times> files" where
  "compute_and_store_sha io fs path =
     (case mget fs path of
        None \<Rightarrow> (Some File_Error, fs)
      | Some d \<Rightarrow>
          if io then (None, mput (sha_file path) (str_bytes (bytes_hex (sha256 d))) fs) else (Some File_Error, fs))"

text \<open>\<open>io_side\<close> and \<open>io_rename\<close>: whether the side file and the renaming work.\<close>

definition finish_file ::
    "bool \<Rightarrow> bool \<Rightarrow> files \<Rightarrow> string \<Rightarrow> string \<Rightarrow> string \<Rightarrow> string \<Rightarrow> bool \<Rightarrow> dl_error option \<times> files" where
  "finish_file io_side io_rename fs part out meta want overwrite =
     (let got = (case mget fs (sha_file part) of None \<Rightarrow> [] | Some d \<Rightarrow> trim_space (bytes_str d));
          fs1 = mdel (sha_file part) fs;
          drop_parts = (\<lambda>f. mdel meta (mdel part f))
      in case verify_sha256 fs1 part want of
           Some e \<Rightarrow> (Some e, drop_parts fs1)
         | None \<Rightarrow>
             (let fs2 = (if want = [] \<and> got \<noteq> [] \<and> io_side
                         then mput (sha_file out) (str_bytes (''sha256:'' @ got)) fs1 else fs1)
              in if \<not> overwrite \<and> mget fs2 out \<noteq> None then (Some Output_Exists, drop_parts fs2)
                 else case (if io_rename then mget fs2 part else None) of
                   None \<Rightarrow> (Some File_Error, fs2)
                 | Some d \<Rightarrow> (None, mdel meta (mput out d (mdel part fs2)))))"

definition resume_state :: "files \<Rightarrow> string \<Rightarrow> bool \<times> int" where
  "resume_state fs out =
     (case mget fs (out @ ''.part'') of None \<Rightarrow> (False, 0) | Some d \<Rightarrow> (True, int (length d)))"

section \<open>Streaming\<close>

text \<open>What one attempt of \<open>downloadStream\<close> meets.\<close>

datatype stream_event =
    S_Ctx_Done                           \<comment> \<open>the context ends while it waits before the attempt\<close>
  | S_Bad_Request
  | S_Net
  | S_Status int "string option"         \<comment> \<open>the status; what refreshing the URL returns\<close>
  | S_No_File                            \<comment> \<open>the part file cannot be created\<close>
  | S_Body "byte list" bool bool         \<comment> \<open>a 2xx body: what was read, whether it ended without an error, whether the side file is written\<close>

fun stream_attempts :: "nat \<Rightarrow> dl_error \<Rightarrow> string \<Rightarrow> string \<Rightarrow> stream_event list \<Rightarrow> files \<Rightarrow> (dl_error option \<times> files) option" where
  "stream_attempts n e url part [] fs = (if 3 \<le> n then Some (Some (Direct_Failed e), fs) else None)"
| "stream_attempts n e url part (ev # evs) fs =
     (if 3 \<le> n then Some (Some (Direct_Failed e), fs)
      else case ev of
        S_Ctx_Done \<Rightarrow> if n = 0 then stream_attempts n e url part evs fs else Some (Some Dl_Ctx, fs)
      | S_Bad_Request \<Rightarrow> Some (Some Dl_Bad_Request, fs)
      | S_Net \<Rightarrow> stream_attempts (Suc n) Dl_Net url part evs fs
      | S_Status st refreshed \<Rightarrow>
          if st = 403 \<or> st = 401 \<or> st = 410 then
            stream_attempts (Suc n) Presign_Gone (case refreshed of Some u \<Rightarrow> u | None \<Rightarrow> url) part evs fs
          else if st < 500 \<and> st \<noteq> 429 then Some (Some (Dl_HTTP st), fs)
          else stream_attempts (Suc n) (Dl_HTTP st) url part evs fs
      | S_No_File \<Rightarrow> Some (Some File_Error, fs)
      | S_Body d ok side \<Rightarrow>
          if \<not> ok then stream_attempts (Suc n) Dl_Net url part evs (mdel part fs)
          else
            (let fs1 = mput part d fs in
             if side then Some (None, mput (sha_file part) (str_bytes (bytes_hex (sha256 d))) fs1)
             else Some (Some File_Error, fs1)))"

definition download_stream :: "string \<Rightarrow> string \<Rightarrow> stream_event list \<Rightarrow> files \<Rightarrow> (dl_error option \<times> files) option" where
  "download_stream url part evs fs = stream_attempts 0 No_Last_Error url part evs fs"

section \<open>The control API as the client sees it\<close>

record api_error =
  ae_status :: int
  ae_code :: string
  ae_message :: string
  ae_request_id :: string

datatype client_error = Api_Error api_error | Api_Unreachable | Api_Read_Error | Api_Bad_JSON | Api_Bad_Request

definition is_code :: "client_error \<Rightarrow> string \<Rightarrow> bool" where
  "is_code e cd = (case e of Api_Error a \<Rightarrow> ae_code a = cd | _ \<Rightarrow> False)"

record client =
  cl_base :: string
  cl_token :: string
  cl_client_id :: string
  cl_skip_verify :: bool

definition new_api_client :: "string \<Rightarrow> string \<Rightarrow> string \<Rightarrow> bool \<Rightarrow> client option" where
  "new_api_client base token cid skip =
     (if base = [] then None
      else case url_parse base of
        None \<Rightarrow> None
      | Some u \<Rightarrow>
          if u_scheme u = [] \<or> u_host u = [] then None
          else Some \<lparr>cl_base = trim_right_set base ''/'', cl_token = token, cl_client_id = cid, cl_skip_verify = skip\<rparr>)"

text \<open>A request of the API; the body is what is encoded as JSON.\<close>

datatype api_body =
    No_Body
  | Resolve_Body string string     \<comment> \<open>URL, client id; range, concurrent and SHA-256 capabilities set\<close>
  | Register_Body string           \<comment> \<open>client id; the action is register\<close>

record api_request =
  rq_method :: string
  rq_url :: string
  rq_body :: api_body
  rq_headers :: "(string \<times> string) list"

definition api_request_of :: "client \<Rightarrow> string \<Rightarrow> string \<Rightarrow> api_body \<Rightarrow> api_request" where
  "api_request_of c meth path body =
     \<lparr>rq_method = meth, rq_url = cl_base c @ path, rq_body = body,
      rq_headers = (if body \<noteq> No_Body then [(''Content-Type'', ''application/json'')] else []) @
                   (if cl_token c \<noteq> [] then [(''Authorization'', ''Bearer '' @ cl_token c)] else [])\<rparr>"

definition req_resolve :: "client \<Rightarrow> string \<Rightarrow> api_request" where
  "req_resolve c raw = api_request_of c ''POST'' ''/api/v1/resolve'' (Resolve_Body raw (cl_client_id c))"
definition req_task :: "client \<Rightarrow> string \<Rightarrow> api_request" where
  "req_task c tid = api_request_of c ''GET'' (''/api/v1/tasks/'' @ tid) No_Body"
definition req_refresh :: "client \<Rightarrow> string \<Rightarrow> api_request" where
  "req_refresh c tid = api_request_of c ''POST'' (''/api/v1/tasks/'' @ tid @ ''/refresh'') No_Body"
definition req_whitelist :: "client \<Rightarrow> api_request" where
  "req_whitelist c = api_request_of c ''GET'' ''/api/v1/whitelist'' No_Body"
definition req_introspect :: "client \<Rightarrow> api_request" where
  "req_introspect c = api_request_of c ''POST'' ''/api/v1/introspect'' No_Body"
definition req_health :: "client \<Rightarrow> api_request" where
  "req_health c = api_request_of c ''GET'' ''/healthz'' No_Body"
definition req_register :: "client \<Rightarrow> string \<Rightarrow> api_request" where
  "req_register c cid = api_request_of c ''POST'' ''/api/v1/token'' (Register_Body cid)"
definition req_capabilities :: "client \<Rightarrow> api_request" where
  "req_capabilities c = api_request_of c ''GET'' ''/api/v1/capabilities'' No_Body"

text \<open>
  The answer to a request: \<open>Answer\<close> has the status, the request id header, the error envelope of the body
  (code and message) when there is one, and the decoded body when it decodes.
\<close>

datatype 'a api_answer =
    Cannot_Build | Unreachable | Read_Fails
  | Answer int string "(string \<times> string) option" "'a option"

definition api_do :: "'a api_answer \<Rightarrow> client_error + 'a" where
  "api_do ans =
     (case ans of
        Cannot_Build \<Rightarrow> Inl Api_Bad_Request
      | Unreachable \<Rightarrow> Inl Api_Unreachable
      | Read_Fails \<Rightarrow> Inl Api_Read_Error
      | Answer st rid envelope body \<Rightarrow>
          if 400 \<le> st then
            (case envelope of
               Some (cd, msg) \<Rightarrow> Inl (Api_Error \<lparr>ae_status = st, ae_code = cd, ae_message = msg, ae_request_id = rid\<rparr>)
             | None \<Rightarrow> Inl (Api_Error \<lparr>ae_status = st, ae_code = [], ae_message = [], ae_request_id = rid\<rparr>))
          else (case body of None \<Rightarrow> Inl Api_Bad_JSON | Some b \<Rightarrow> Inr b))"

record artifact_view =
  av_size :: int
  av_sha256 :: string
  av_etag :: string
  av_content_type :: string

record plan_view =
  pv_mode :: string
  pv_urls :: "string list"
  pv_expires_at :: time
  pv_supports_range :: bool

text \<open>The progress is a fraction of integers.\<close>

record task_view =
  tv_id :: string
  tv_url :: string
  tv_status :: string
  tv_progress :: "int \<times> int"
  tv_error :: string
  tv_error_code :: string
  tv_retries :: int
  tv_artifact :: "artifact_view option"
  tv_created_at :: time
  tv_updated_at :: time

record resolve_response =
  rp_request_id :: string
  rp_status :: string
  rp_cache_key :: string
  rp_artifact :: "artifact_view option"
  rp_download :: "plan_view option"
  rp_task :: "task_view option"

section \<open>Waiting for a task\<close>

record dl_opts =
  op_concurrency :: int
  op_chunk_size :: int
  op_output :: string
  op_overwrite :: bool
  op_task_timeout :: duration
  op_poll_wait :: duration
  op_fallback :: string

definition fallback_allowed :: "string \<Rightarrow> bool" where
  "fallback_allowed policy \<longleftrightarrow> policy = ''always''"

definition poll_deadline :: "time \<Rightarrow> dl_opts \<Rightarrow> time" where
  "poll_deadline now os =
     (if time_is_zero (now + op_task_timeout os) \<or> op_task_timeout os \<le> 0 then now + 10 * minute
      else now + op_task_timeout os)"

datatype poll_end =
    Poll_Error client_error | Poll_Ready | Poll_Dead string | Poll_Failed string | Poll_Timeout string | Poll_Ctx_Done
  | Poll_Panic

text \<open>One round: what \<open>Task\<close> returned (a response may lack its task), the clock after it, whether the context ends while waiting.\<close>

type_synonym poll_round = "(client_error + task_view option) \<times> time \<times> bool"

fun poll_task :: "time \<Rightarrow> poll_round list \<Rightarrow> poll_end option" where
  "poll_task deadline [] = None"
| "poll_task deadline ((r, now, ctx_done) # rounds) =
     (case r of
        Inl e \<Rightarrow> Some (Poll_Error e)
      | Inr None \<Rightarrow> Some Poll_Panic
      | Inr (Some t) \<Rightarrow>
          if tv_status t = ''ready'' then Some Poll_Ready
          else if tv_status t = ''dead'' then Some (Poll_Dead (tv_error t))
          else if tv_status t = ''failed'' \<and> 8 < tv_retries t then Some (Poll_Failed (tv_error t))
          else if deadline < now then Some (Poll_Timeout (tv_status t))
          else if ctx_done then Some Poll_Ctx_Done
          else poll_task deadline rounds)"

section \<open>Routes\<close>

datatype route =
    Route_Fails string            \<comment> \<open>the error code (or text) reported\<close>
  | Route_Presigned resolve_response
  | Route_Direct
  | Route_Panic

definition opts_defaults :: "dl_opts \<Rightarrow> dl_opts" where
  "opts_defaults os =
     os\<lparr>op_chunk_size := (if op_chunk_size os \<le> 0 then 16 * 2 ^ 20 else op_chunk_size os),
       op_concurrency := (if op_concurrency os \<le> 0 then 8 else op_concurrency os)\<rparr>"

text \<open>
  \<open>Download\<close> up to the transfer: \<open>api\<close> is what \<open>Resolve\<close> returned, when there is an API; \<open>polled\<close> what
  waiting for the task gave, with the answer of the \<open>Refresh\<close> that ends a wait for a ready task.
\<close>

definition download_route ::
    "dl_opts \<Rightarrow> (client_error + resolve_response) option \<Rightarrow> (string \<Rightarrow> poll_end \<times> (client_error + resolve_response)) \<Rightarrow> route" where
  "download_route os api polled =
     (case api of
        None \<Rightarrow> Route_Direct
      | Some (Inl e) \<Rightarrow>
          if is_code e ''E_RESOLVE_AUTH'' then Route_Fails ''E_RESOLVE_AUTH''
          else if \<not> fallback_allowed (op_fallback os) then Route_Fails ''E_RESOLVE_FAILED''
          else Route_Direct
      | Some (Inr res) \<Rightarrow>
          if rp_status res = ''cached'' then
            (case rp_download res of
               None \<Rightarrow> Route_Fails ''E_RESOLVE_FAILED''
             | Some d \<Rightarrow> if pv_urls d = [] then Route_Fails ''E_RESOLVE_FAILED'' else Route_Presigned res)
          else
            (let tid = (case rp_task res of Some t \<Rightarrow> tv_id t | None \<Rightarrow> []) in
             if tid = [] then Route_Fails ''E_RESOLVE_FAILED''
             else
               (case polled tid of
                  (Poll_Ready, Inr res2) \<Rightarrow> Route_Presigned res2
                | (Poll_Panic, _) \<Rightarrow> Route_Panic
                | _ \<Rightarrow> if fallback_allowed (op_fallback os) then Route_Direct else Route_Fails ''E_TASK'')))"

text \<open>\<open>head\<close>: the length, the \<open>Accept-Ranges\<close> and \<open>ETag\<close> headers; None on an error or a status from 400 on.\<close>

record head_info =
  hi_length :: int
  hi_ranges :: string
  hi_etag :: string

definition head_of :: "(int \<times> head_info) option \<Rightarrow> head_info option" where
  "head_of r = (case r of None \<Rightarrow> None | Some (st, h) \<Rightarrow> if 400 \<le> st then None else Some h)"

datatype transfer = T_Chunked chunk_plan | T_Stream string int | T_Panic

definition mk_plan :: "string \<Rightarrow> int \<Rightarrow> int \<Rightarrow> string \<Rightarrow> string \<Rightarrow> chunk_plan" where
  "mk_plan u sz chunk sha etag =
     \<lparr>cp_url = u, cp_size = sz, cp_chunk_size = chunk, cp_chunks = chunk_count sz chunk, cp_sha256 = sha, cp_etag = etag\<rparr>"

text \<open>\<open>fetchPresigned\<close>: how the artifact is transferred. The first URL of a missing plan, and the tag of a missing artifact, panic.\<close>

definition presigned_transfer :: "dl_opts \<Rightarrow> resolve_response \<Rightarrow> (string \<Rightarrow> head_info option) \<Rightarrow> transfer" where
  "presigned_transfer os res probe =
     (case rp_download res of
        None \<Rightarrow> T_Panic
      | Some d \<Rightarrow>
          (case pv_urls d of
             [] \<Rightarrow> T_Panic
           | u # _ \<Rightarrow>
               (let sz0 = (case rp_artifact res of Some a \<Rightarrow> av_size a | None \<Rightarrow> -1);
                    sz = (if sz0 < 0
                          then (case probe u of Some h \<Rightarrow> if 0 < hi_length h then hi_length h else sz0 | None \<Rightarrow> sz0)
                          else sz0)
                in if pv_supports_range d \<and> 2 * op_chunk_size os < sz \<and> 0 < sz then
                     (case rp_artifact res of
                        None \<Rightarrow> T_Panic
                      | Some a \<Rightarrow> T_Chunked (mk_plan u sz (op_chunk_size os) (av_sha256 a) (av_etag a)))
                   else T_Stream u sz)))"

definition direct_transfer :: "dl_opts \<Rightarrow> string \<Rightarrow> head_info option \<Rightarrow> transfer" where
  "direct_transfer os raw h =
     (let (sz, ranges, etag) =
        (case h of Some i \<Rightarrow> (hi_length i, equal_fold (hi_ranges i) ''bytes'', hi_etag i) | None \<Rightarrow> (-1, False, []))
      in if ranges \<and> 2 * op_chunk_size os < sz \<and> 0 < sz then T_Chunked (mk_plan raw sz (op_chunk_size os) [] etag)
         else T_Stream raw sz)"

text \<open>The rest of both functions: the part file is complete (\<open>ok\<close>) or the transfer failed.\<close>

definition finish_presigned ::
    "bool \<Rightarrow> bool \<Rightarrow> dl_opts \<Rightarrow> string \<Rightarrow> resolve_response \<Rightarrow> dl_error option \<Rightarrow> files \<Rightarrow> dl_error option \<times> files" where
  "finish_presigned io_side io_rename os raw res e fs =
     (let out = output_name raw (op_output os);
          sha = (case rp_artifact res of Some a \<Rightarrow> av_sha256 a | None \<Rightarrow> [])
      in case e of
           Some x \<Rightarrow> (Some x, fs)
         | None \<Rightarrow> finish_file io_side io_rename fs (out @ ''.part'') out (out @ ''.part.meta.json'') sha (op_overwrite os))"

definition finish_direct ::
    "bool \<Rightarrow> bool \<Rightarrow> bool \<Rightarrow> dl_opts \<Rightarrow> string \<Rightarrow> bool \<Rightarrow> dl_error option \<Rightarrow> files \<Rightarrow> dl_error option \<times> files" where
  "finish_direct io_sha io_side io_rename os raw chunked e fs =
     (let out = output_name raw (op_output os);
          fin = (\<lambda>f. finish_file io_side io_rename f (out @ ''.part'') out (out @ ''.part.meta.json'') [] (op_overwrite os))
      in case e of
           Some x \<Rightarrow> (Some x, fs)
         | None \<Rightarrow>
             if chunked then
               (case compute_and_store_sha io_sha fs (out @ ''.part'') of
                  (Some x, fs') \<Rightarrow> (Some x, fs')
                | (None, fs') \<Rightarrow> fin fs')
             else fin fs)"

section \<open>Properties\<close>

text \<open>
  A derived file name stays in the working directory. Whatever URL is downloaded, the name \<open>outputName\<close>
  derives from it is not empty, has at most 128 bytes, consists of letters, digits and \<open>._-%+\<close>, so it has no
  path separator, and does not start with a dot: it names a visible file of the current directory.
\<close>

theorem output_name_safe:
  "output_name raw [] \<noteq> [] \<and> length (output_name raw []) \<le> 128 \<and> list_all name_safe (output_name raw []) \<and>
   CHR ''/'' \<notin> set (output_name raw []) \<and> hd (output_name raw []) \<noteq> CHR ''.''"
proof -
  let ?base = "trim_left_set (last_segment (url_path_part raw)) ''.''"
  have slash: "CHR ''/'' \<notin> set n" if "list_all name_safe n" for n
    using that by (auto simp: list_all_iff name_safe_def is_lower_def is_upper_def is_digit_def)
  have "n \<noteq> [] \<and> length n \<le> 128 \<and> list_all name_safe n \<and> hd n \<noteq> CHR ''.''"
    if n: "output_name raw [] = n" for n
  proof (cases "n = ''download.bin''")
    case True
    then show ?thesis by (simp add: name_safe_def char_class_defs)
  next
    case False
    then have b: "?base \<noteq> []" "length ?base \<le> 128" "n = safe_name ?base" "n \<noteq> []"
      using n by (auto simp: output_name_def Let_def split: if_splits)
    have "hd ?base \<noteq> CHR ''.''" using trim_left_hd [OF b(1)] by simp
    then have "hd n \<noteq> CHR ''.''" using safe_name_hd [OF b(1)] b(3) by (auto split: if_splits)
    then show ?thesis using b safe_name_chars safe_name_length [of ?base] by auto
  qed
  then show ?thesis using slash by blast
qed

text \<open>
  C19. What is moved into place is what was verified. When \<open>finishFile\<close> succeeds, the output holds the bytes of
  the part file, their SHA-256 is the wanted one when there is one, an existing file was replaced only with
  the overwrite option, and the part file and its metadata are gone; when it fails, the output is as before.
  A refused download nevertheless replaces the recorded hash of the existing file.
\<close>

theorem finish_file_verified:
  assumes "finish_file io_side io_rename fs (out @ ''.part'') out (out @ ''.part.meta.json'') want ow = (r, fs')"
  shows "(r = None \<longrightarrow> (\<exists>d. mget fs (out @ ''.part'') = Some d \<and> mget fs' out = Some d \<and>
      (want \<noteq> [] \<longrightarrow> equal_fold (bytes_hex (sha256 d)) want) \<and> (ow \<or> mget fs out = None) \<and>
      mget fs' (out @ ''.part'') = None \<and> mget fs' (out @ ''.part.meta.json'') = None)) \<and>
    (r \<noteq> None \<longrightarrow> mget fs' out = mget fs out) \<and>
    (r = Some Output_Exists \<and> want = [] \<and> io_side \<longrightarrow>
      (\<forall>h. mget fs (sha_file (out @ ''.part'')) = Some h \<and> trim_space (bytes_str h) \<noteq> [] \<longrightarrow>
        mget fs' (sha_file out) = Some (str_bytes (''sha256:'' @ trim_space (bytes_str h)))))"
proof -
  have ne: "out @ ''.part'' \<noteq> out" "out @ ''.part.meta.json'' \<noteq> out" "sha_file (out @ ''.part'') \<noteq> out" "sha_file out \<noteq> out"
    "out @ ''.part.meta.json'' \<noteq> out @ ''.part''" "sha_file (out @ ''.part'') \<noteq> out @ ''.part''"
    "sha_file out \<noteq> out @ ''.part''" "sha_file (out @ ''.part'') \<noteq> sha_file out"
    "out @ ''.part.meta.json'' \<noteq> sha_file out"
    by (simp_all add: sha_file_def)
  define fs1 where "fs1 = mdel (sha_file (out @ ''.part'')) fs"
  define got where "got = (case mget fs (sha_file (out @ ''.part'')) of None \<Rightarrow> [] | Some d \<Rightarrow> trim_space (bytes_str d))"
  define fs2 where "fs2 = (if want = [] \<and> got \<noteq> [] \<and> io_side then mput (sha_file out) (str_bytes (''sha256:'' @ got)) fs1 else fs1)"
  have o1: "mget fs1 out = mget fs out" "mget fs1 (out @ ''.part'') = mget fs (out @ ''.part'')"
    using ne by (simp_all add: fs1_def)
  have o2: "mget fs2 out = mget fs out" "mget fs2 (out @ ''.part'') = mget fs (out @ ''.part'')"
    using ne o1 by (simp_all add: fs2_def)
  have side: "mget fs2 (sha_file out) = Some (str_bytes (''sha256:'' @ trim_space (bytes_str h)))"
    if "want = []" "io_side" "mget fs (sha_file (out @ ''.part'')) = Some h" "trim_space (bytes_str h) \<noteq> []" for h
    using that by (simp add: fs2_def got_def)
  show ?thesis
  proof (cases "verify_sha256 fs1 (out @ ''.part'') want")
    case (Some e)
    then have "r = Some e" "fs' = mdel (out @ ''.part.meta.json'') (mdel (out @ ''.part'') fs1)"
      using assms by (simp_all add: finish_file_def Let_def fs1_def)
    moreover have "e \<noteq> Output_Exists" using Some by (auto simp: verify_sha256_def split: option.splits if_splits)
    ultimately show ?thesis using ne o1 by simp
  next
    case None
    then have v: "want \<noteq> [] \<longrightarrow> (\<exists>d. mget fs (out @ ''.part'') = Some d \<and> equal_fold (bytes_hex (sha256 d)) want)"
      unfolding verify_sha256_def o1(2) by (auto split: option.splits if_splits)
    have f: "(if \<not> ow \<and> mget fs2 out \<noteq> None then (Some Output_Exists, mdel (out @ ''.part.meta.json'') (mdel (out @ ''.part'') fs2))
        else case (if io_rename then mget fs2 (out @ ''.part'') else None) of
          None \<Rightarrow> (Some File_Error, fs2)
        | Some d \<Rightarrow> (None, mdel (out @ ''.part.meta.json'') (mput out d (mdel (out @ ''.part'') fs2)))) = (r, fs')"
      using assms None unfolding finish_file_def Let_def fs2_def got_def fs1_def by simp
    show ?thesis
    proof (cases "\<not> ow \<and> mget fs out \<noteq> None")
      case True
      then have "r = Some Output_Exists" "fs' = mdel (out @ ''.part.meta.json'') (mdel (out @ ''.part'') fs2)"
        using f o2 by simp_all
      then show ?thesis using ne o2 side by simp
    next
      case False
      then show ?thesis using f o2 ne v by (auto split: option.splits if_splits)
    qed
  qed
qed

theorem finish_file_verified_witness:
  "mget (snd (finish_file True True [(''a.part'', [1])] ''a.part'' ''a'' ''a.part.meta.json'' [] False)) ''a'' = Some [1]"
proof -
  let ?r = "finish_file True True [(''a.part'', [1])] (''a'' @ ''.part'') ''a'' (''a'' @ ''.part.meta.json'') [] False"
  have "fst ?r = None" by (simp add: finish_file_def verify_sha256_def sha_file_def mdel_def)
  then obtain fs' where "?r = (None, fs')" by (cases ?r) auto
  from finish_file_verified [OF this] this show ?thesis by auto
qed


definition sample_opts :: dl_opts where
  "sample_opts = \<lparr>op_concurrency = 0, op_chunk_size = 0, op_output = [], op_overwrite = False, op_task_timeout = 0,
     op_poll_wait = 0, op_fallback = ''always''\<rparr>"


end
