(* ===== verification/MirrorCore.thy ===== *)
theory MirrorCore
  imports Engine
begin

text \<open>
  \<^verbatim>\<open>internal/server/mirrorcore/mirrorcore.go\<close>: what the pull-through mirrors share. A URL whose task is
  ready is presigned; otherwise the candidates are fetched in order, the first that succeeds is stored
  under the key of the canonical URL and registered as a ready task. The storage is any store of the
  interface \<open>object_store\<close>, the executor a function of the candidate.
\<close>

section \<open>The fetcher\<close>

text \<open>
  \<open>ft_fetch\<close> is \<open>Executor.Fetch\<close> on a URL, a directory and a name, with the contents of the fetched file,
  when it can be opened. \<open>ft_put\<close> and \<open>ft_presign\<close> are the storage.
\<close>

record 's fetcher =
  ft_put :: "'s \<Rightarrow> string \<Rightarrow> byte list \<Rightarrow> int \<Rightarrow> string \<Rightarrow> (store_error + obj_info) \<times> 's"
  ft_presign :: "string \<Rightarrow> duration \<Rightarrow> store_error + string"
  ft_fetch :: "string \<Rightarrow> string \<Rightarrow> string \<Rightarrow> string + fetched \<times> byte list option"
  ft_tmp_dir :: string
  ft_ttl :: duration

datatype fetch_error =
    Origin_Failed string string | Open_Failed | Not_Stored store_error | All_Failed nat "fetch_error option"
  | Not_Registered task_error | Not_Presigned store_error

text \<open>Clock, randomness and fate of the save for the task that registers an artifact.\<close>

record reg_env =
  re_rnd :: "nat \<Rightarrow> byte list option"
  re_now :: time
  re_io :: bool

definition origin_label :: "string \<Rightarrow> string" where
  "origin_label u =
     (case index_of u ''://'' of
        None \<Rightarrow> u
      | Some i \<Rightarrow> takeWhile (\<lambda>c. c \<notin> set ''/?#'') (drop (i + 3) u))"

definition presigned :: "'s fetcher \<Rightarrow> string \<Rightarrow> fetch_error + string" where
  "presigned ft key = (case ft_presign ft key (ft_ttl ft) of Inl e \<Rightarrow> Inl (Not_Presigned e) | Inr u \<Rightarrow> Inr u)"

definition ready_task ::
    "reg_env \<Rightarrow> string \<Rightarrow> string \<Rightarrow> string \<Rightarrow> string \<Rightarrow> string \<Rightarrow> fetched \<Rightarrow> obj_info \<Rightarrow> task" where
  "ready_task env canonical ckey family by key res ob =
     (new_task (re_rnd env) (re_now env) canonical canonical ckey family by 0)
       \<lparr>tk_status := Ready, tk_progress := (1, 1),
        tk_artifact := Some \<lparr>ar_size = ob_size ob, ar_sha256 = fr_sha256 res, ar_etag = ob_etag ob,
          ar_content_type = fr_content_type res, ar_storage_key = key\<rparr>\<rparr>"

text \<open>The loop over the candidates; \<open>reg\<close> makes the task of what was stored.\<close>

fun try_origins ::
    "'s fetcher \<Rightarrow> reg_env \<Rightarrow> (fetched \<Rightarrow> obj_info \<Rightarrow> task) \<Rightarrow> string \<Rightarrow> string \<Rightarrow> nat \<Rightarrow> fetch_error option \<Rightarrow>
     string list \<Rightarrow> 's \<times> task_store \<Rightarrow> (fetch_error + string) \<times> 's \<times> task_store" where
  "try_origins ft env reg key dir n err [] st = (Inl (All_Failed n err), st)"
| "try_origins ft env reg key dir n err (c # cs) (s, ts) =
     (case ft_fetch ft c dir (path_base c) of
        Inl e \<Rightarrow> try_origins ft env reg key dir n (Some (Origin_Failed (origin_label c) e)) cs (s, ts)
      | Inr (res, None) \<Rightarrow> try_origins ft env reg key dir n (Some Open_Failed) cs (s, ts)
      | Inr (res, Some d) \<Rightarrow>
          (case ft_put ft s key d (fr_size res) (fr_content_type res) of
             (Inl e, s') \<Rightarrow> try_origins ft env reg key dir n (Some (Not_Stored e)) cs (s', ts)
           | (Inr ob, s') \<Rightarrow>
               (case put (re_io env) (re_now env) ts (reg res ob) of
                  (Some e, ts') \<Rightarrow> (Inl (Not_Registered e), s', ts')
                | (None, ts') \<Rightarrow> (presigned ft key, s', ts'))))"

definition cached_artifact :: "task_store \<Rightarrow> string \<Rightarrow> artifact option" where
  "cached_artifact ts ckey =
     (case get_by_cache_key ts ckey of
        Inl _ \<Rightarrow> None
      | Inr t \<Rightarrow> if tk_status t = Ready then tk_artifact t else None)"

definition presign_or_fetch_multi ::
    "'s fetcher \<Rightarrow> reg_env \<Rightarrow> string \<Rightarrow> string list \<Rightarrow> string \<Rightarrow> string \<Rightarrow> 's \<times> task_store \<Rightarrow>
     (fetch_error + string) \<times> 's \<times> task_store" where
  "presign_or_fetch_multi ft env canonical candidates family by st =
     (let cands = (if candidates = [] then [canonical] else candidates);
          ckey = cache_key canonical family
      in case cached_artifact (snd st) ckey of
           Some a \<Rightarrow> (presigned ft (ar_storage_key a), st)
         | None \<Rightarrow>
             (let key = storage_key_for family ckey;
                  dir = path_join [ft_tmp_dir ft, family, take 8 ckey]
              in try_origins ft env (ready_task env canonical ckey family by key) key dir (length cands) None cands st))"

definition presign_or_fetch ::
    "'s fetcher \<Rightarrow> reg_env \<Rightarrow> string \<Rightarrow> string \<Rightarrow> string \<Rightarrow> 's \<times> task_store \<Rightarrow>
     (fetch_error + string) \<times> 's \<times> task_store" where
  "presign_or_fetch ft env canonical family by st = presign_or_fetch_multi ft env canonical [canonical] family by st"

text \<open>What \<open>Group.Do\<close> hands to a handler: an error and an empty link are both the empty string.\<close>

definition link_of :: "fetch_error + string \<Rightarrow> string" where
  "link_of r = (case r of Inl _ \<Rightarrow> [] | Inr u \<Rightarrow> u)"

section \<open>What a fetch leaves behind\<close>

lemma storage_key_for_inj:
  assumes "storage_key_for family k = storage_key_for family k'" and "4 \<le> length k" and "4 \<le> length k'" and "length k = length k'"
  shows "k = k'"
  using assms by (auto simp: storage_key_for_def)

lemma length_cache_key [simp]: "length (cache_key c f) = 64"
  by (simp add: cache_key_def)

text \<open>A candidate that stored nothing: its fetch, the opening of the file or \<open>Put\<close> failed.\<close>

definition origin_fails :: "'s fetcher \<Rightarrow> string \<Rightarrow> string \<Rightarrow> 's \<Rightarrow> string \<Rightarrow> bool" where
  "origin_fails ft key dir s c =
     (case ft_fetch ft c dir (path_base c) of
        Inl _ \<Rightarrow> True
      | Inr (res, None) \<Rightarrow> True
      | Inr (res, Some d) \<Rightarrow> (case ft_put ft s key d (fr_size res) (fr_content_type res) of (Inl _, _) \<Rightarrow> True | _ \<Rightarrow> False))"

text \<open>What the task store holds once an artifact has been registered.\<close>

lemma register_ready:
  assumes "put io now ts t = (None, ts')" and "tk_status t = Ready" and "mget (st_by_id ts) (tk_id t) = None"
  shows "\<exists>u. get_by_cache_key ts' (tk_cache_key t) = Inr u \<and> tk_status u = Ready \<and> tk_artifact u = tk_artifact t \<and>
    tk_cache_key u = tk_cache_key t \<and> tk_family u = tk_family t"
proof -
  let ?u = "t\<lparr>tk_created_at := (if time_is_zero (tk_created_at t) then now else tk_created_at t), tk_updated_at := now\<rparr>"
  have "persist io (store_both ?u ts) = (None, ts')"
    using assms by (auto simp: put_def Let_def split: if_splits)
  then have "st_by_key ts' = mput (tk_cache_key t) ?u (st_by_key ts)"
    using persist_fields(2) by (simp add: store_both_def)
  then show ?thesis using assms(2) by (auto simp: get_by_cache_key_def)
qed

lemma ready_task_fields [simp]:
  "tk_status (ready_task env canonical ckey family by key res ob) = Ready"
  "tk_cache_key (ready_task env canonical ckey family by key res ob) = ckey"
  "tk_family (ready_task env canonical ckey family by key res ob) = family"
  "tk_id (ready_task env canonical ckey family by key res ob) = new_task_id (re_rnd env)"
  "tk_artifact (ready_task env canonical ckey family by key res ob) =
     Some \<lparr>ar_size = ob_size ob, ar_sha256 = fr_sha256 res, ar_etag = ob_etag ob,
       ar_content_type = fr_content_type res, ar_storage_key = key\<rparr>"
  by (simp_all add: ready_task_def new_task_def)

section \<open>Any store of the interface\<close>

text \<open>The facts about one successful run over the candidates \<open>cs\<close>.\<close>

definition stored_from ::
    "'s fetcher \<Rightarrow> string \<Rightarrow> string \<Rightarrow> string list \<Rightarrow> string \<Rightarrow> fetched \<Rightarrow> byte list \<Rightarrow> bool" where
  "stored_from ft key dir cs c res data \<longleftrightarrow>
     (\<exists>pre post. cs = pre @ c # post \<and> (\<forall>c' \<in> set pre. \<exists>s0. origin_fails ft key dir s0 c')) \<and>
     ft_fetch ft c dir (path_base c) = Inr (res, Some data)"

lemma stored_from_Cons:
  assumes "stored_from ft key dir cs c res data" and "origin_fails ft key dir s0 b"
  shows "stored_from ft key dir (b # cs) c res data"
proof -
  obtain pre post where "cs = pre @ c # post" "\<forall>c' \<in> set pre. \<exists>s0. origin_fails ft key dir s0 c'"
    using assms(1) by (auto simp: stored_from_def)
  then have "b # cs = (b # pre) @ c # post" "\<forall>c' \<in> set (b # pre). \<exists>s0. origin_fails ft key dir s0 c'"
    using assms(2) by auto
  then show ?thesis using assms(1) unfolding stored_from_def by blast
qed

lemma stored_from_here: "ft_fetch ft c dir (path_base c) = Inr (res, Some data) \<Longrightarrow> stored_from ft key dir (c # cs) c res data"
  unfolding stored_from_def by (metis append_Nil empty_iff empty_set)

context object_store
begin

lemma try_origins_stores:
  assumes "try_origins ft env reg key dir n err cs (s, ts) = (Inr u, s', ts')" and "ft_put ft = put_obj" and "inv s"
  shows "\<exists>c res data ob. stored_from ft key dir cs c res data \<and> get_obj s' key = Inr data \<and> head_obj s' key = Inr ob \<and>
    ob_size ob = int (length data) \<and> (0 \<le> fr_size res \<longrightarrow> fr_size res = int (length data)) \<and>
    put (re_io env) (re_now env) ts (reg res ob) = (None, ts') \<and> presigned ft key = Inr u \<and> inv s' \<and>
    (\<forall>k. apart key k \<longrightarrow> get_obj s' k = get_obj s k)"
  using assms
proof (induction cs arbitrary: err s)
  case (Cons c cs)
  let ?next = "\<lambda>e. try_origins ft env reg key dir n e cs"
  have skip: ?case if t: "?next e (s1, ts) = (Inr u, s', ts')" and i: "inv s1" and f: "origin_fails ft key dir s c"
    and k: "\<And>k. apart key k \<Longrightarrow> get_obj s1 k = get_obj s k" for e s1
  proof -
    from Cons.IH [OF t Cons.prems(2) i] obtain c' res data ob where
      h: "stored_from ft key dir cs c' res data" "get_obj s' key = Inr data" "head_obj s' key = Inr ob"
        "ob_size ob = int (length data)" "0 \<le> fr_size res \<longrightarrow> fr_size res = int (length data)"
        "put (re_io env) (re_now env) ts (reg res ob) = (None, ts')" "presigned ft key = Inr u" "inv s'"
        "\<forall>k. apart key k \<longrightarrow> get_obj s' k = get_obj s1 k" by blast
    show ?thesis
      using stored_from_Cons [OF h(1) f] h(2-8) h(9) k by auto
  qed
  show ?case
  proof (cases "ft_fetch ft c dir (path_base c)")
    case (Inl e)
    show ?thesis by (rule skip [OF _ Cons.prems(3)]) (use Cons.prems(1) Inl in \<open>auto simp: origin_fails_def\<close>)
  next
    case (Inr r)
    obtain res od where r: "r = (res, od)" by (cases r)
    show ?thesis
    proof (cases od)
      case None
      show ?thesis by (rule skip [OF _ Cons.prems(3)]) (use Cons.prems(1) Inr r None in \<open>auto simp: origin_fails_def\<close>)
    next
      case (Some data)
      obtain rp s1 where p: "put_obj s key data (fr_size res) (fr_content_type res) = (rp, s1)"
        by (cases "put_obj s key data (fr_size res) (fr_content_type res)")
      have i: "inv s1" using put_inv [OF Cons.prems(3) p] .
      have o: "\<And>k. apart key k \<Longrightarrow> get_obj s1 k = get_obj s k" using put_other [OF Cons.prems(3) p] by blast
      show ?thesis
      proof (cases rp)
        case (Inl e)
        show ?thesis
          by (rule skip [OF _ i _ o]) (use Cons.prems(1,2) Inr r Some p Inl in \<open>auto simp: origin_fails_def\<close>)
      next
        case ob: (Inr ob)
        have reg: "put (re_io env) (re_now env) ts (reg res ob) = (None, ts')" and s': "s' = s1" and u: "presigned ft key = Inr u"
          using Cons.prems(1,2) Inr r Some p ob by (auto split: prod.splits option.splits)
        have f: "stored_from ft key dir (c # cs) c res data" by (rule stored_from_here) (simp add: Inr r Some)
        from put_get [OF Cons.prems(3) p [unfolded ob]] put_head [OF Cons.prems(3) p [unfolded ob]]
          put_info [OF Cons.prems(3) p [unfolded ob]]
        show ?thesis using reg u f i o s' by blast
      qed
    qed
  qed
qed simp

end

section \<open>Properties\<close>

text \<open>The directory and the key of a canonical URL.\<close>

abbreviation fetch_key :: "string \<Rightarrow> string \<Rightarrow> string" where
  "fetch_key canonical family \<equiv> storage_key_for family (cache_key canonical family)"

definition fetch_dir :: "'s fetcher \<Rightarrow> string \<Rightarrow> string \<Rightarrow> string" where
  "fetch_dir ft canonical family = path_join [ft_tmp_dir ft, family, take 8 (cache_key canonical family)]"

lemma presign_miss:
  assumes "cached_artifact ts (cache_key canonical family) = None"
  shows "presign_or_fetch_multi ft env canonical cs family by (s, ts) =
    try_origins ft env (ready_task env canonical (cache_key canonical family) family by (fetch_key canonical family))
      (fetch_key canonical family) (fetch_dir ft canonical family)
      (length (if cs = [] then [canonical] else cs)) None (if cs = [] then [canonical] else cs) (s, ts)"
  using assms by (simp add: presign_or_fetch_multi_def fetch_dir_def Let_def)

lemma presign_hit:
  assumes "cached_artifact (snd st) (cache_key canonical family) = Some a"
  shows "presign_or_fetch_multi ft env canonical cs family by st = (presigned ft (ar_storage_key a), st)"
  using assms by (simp add: presign_or_fetch_multi_def Let_def)


text \<open>The second origin serves the file after the first has failed.\<close>

definition sample_fetcher :: "fs fetcher" where
  "sample_fetcher =
     \<lparr>ft_put = put_object all_io sample_local, ft_presign = (\<lambda>k ttl. Inr k),
      ft_fetch = (\<lambda>u dir nm. if u = ''http://b/x'' then Inr (\<lparr>fr_local_path = [], fr_size = 2, fr_sha256 = ''h'', fr_etag = [],
        fr_content_type = ''t''\<rparr>, Some [1, 2]) else Inl ''down''),
      ft_tmp_dir = ''/tmp'', ft_ttl = 1\<rparr>"

definition sample_reg :: reg_env where
  "sample_reg = \<lparr>re_rnd = (\<lambda>_. None), re_now = 5, re_io = True\<rparr>"

lemma hex_key_re: "is_hex_lower c \<Longrightarrow> key_char c \<and> c \<noteq> CHR ''.''"
  by (auto simp: key_char_def char_class_defs)

lemma cache_key_hex: "list_all is_hex_lower (cache_key c f)"
  unfolding cache_key_def bytes_hex_def by (rule hex_encode_lower) (auto simp: byte_unat)

text \<open>The key of a cached URL is a valid object key, whatever the URL.\<close>

lemma fetch_key_valid:
  assumes "list_all key_char family" and "CHR ''.'' \<notin> set family" and "length family \<le> 200"
  shows "validate_key (storage_key_for family (cache_key c f)) = None"
proof (rule one_dot_valid)
  let ?k = "cache_key c f"
  have l: "length ?k = 64" by simp
  have hex: "list_all is_hex_lower ?k" by (rule cache_key_hex)
  have dots: "CHR ''.'' \<notin> set ?k" "CHR ''.'' \<notin> set (take n ?k)" "CHR ''.'' \<notin> set (take n (drop m ?k))" for n m
    using hex hex_key_re by (auto simp: list_all_iff dest!: in_set_takeD in_set_dropD)
  have chars: "list_all key_char ?k" "list_all key_char (take n ?k)" "list_all key_char (take n (drop m ?k))" for n m
    using hex hex_key_re by (auto simp: list_all_iff dest!: in_set_takeD in_set_dropD)
  show "key_re (storage_key_for family ?k)"
    using l chars assms(1,3) by (simp add: storage_key_for_def key_re_def) (simp add: key_first_def key_char_def char_class_defs)
  show "count_byte (storage_key_for family ?k) (CHR ''.'') \<le> 1"
    using l dots assms(2) by (simp add: storage_key_for_def count_byte_0)
qed


end
