(* ===== verification/GoHttp.thy ===== *)
theory GoHttp
  imports GoUrl
begin

text \<open>
  What the handlers use of \<^verbatim>\<open>net/http\<close>: headers with canonical names, requests as a handler sees them,
  responses as a handler leaves them, \<open>http.Error\<close>, and the answers of an upstream server.
\<close>

section \<open>Headers\<close>

definition tchar :: "char \<Rightarrow> bool" where
  "tchar c \<longleftrightarrow> is_lower c \<or> is_upper c \<or> is_digit c \<or> c \<in> set ''!#$%&*+-.^_`|~'' \<or> c = CHR 0x27"

fun canon_key :: "bool \<Rightarrow> string \<Rightarrow> string" where
  "canon_key up [] = []"
| "canon_key up (c # s) = (if up then upper_char c else lower_char c) # canon_key (c = CHR ''-'') s"

text \<open>\<open>CanonicalHeaderKey\<close>: a capital after every hyphen, and only there.\<close>

definition canonical_key :: "string \<Rightarrow> string" where
  "canonical_key k = (if list_all tchar k then canon_key True k else k)"

type_synonym header = "(string \<times> string) list"

text \<open>A header is the list of its lines; a key stands once per value. \<open>Get\<close> is the first value or empty.\<close>

definition hget :: "header \<Rightarrow> string \<Rightarrow> string" where
  "hget h k = (case map_of h (canonical_key k) of None \<Rightarrow> [] | Some v \<Rightarrow> v)"

definition hdel :: "string \<Rightarrow> header \<Rightarrow> header" where
  "hdel k h = filter (\<lambda>(a, _). a \<noteq> canonical_key k) h"

definition hset :: "string \<Rightarrow> string \<Rightarrow> header \<Rightarrow> header" where
  "hset k v h = hdel k h @ [(canonical_key k, v)]"

definition hadd :: "string \<Rightarrow> string \<Rightarrow> header \<Rightarrow> header" where
  "hadd k v h = h @ [(canonical_key k, v)]"

text \<open>The keys of a header that came over the wire are canonical.\<close>

definition header_ok :: "header \<Rightarrow> bool" where
  "header_ok h \<longleftrightarrow> (\<forall>(k, v) \<in> set h. canonical_key k = k)"

lemma map_of_hdel: "map_of (hdel k h) a = (if a = canonical_key k then None else map_of h a)"
  by (induction h) (auto simp: hdel_def)

lemma hget_hset [simp]: "hget (hset k v h) a = (if canonical_key a = canonical_key k then v else hget h a)"
proof -
  have "map_of (hdel k h @ [(canonical_key k, v)]) x = (if x = canonical_key k then Some v else map_of h x)" for x
    by (auto simp: map_add_def map_of_hdel split: option.splits)
  then show ?thesis by (simp add: hget_def hset_def)
qed

text \<open>The loops that copy a list of header fields when they are present.\<close>

fun copy_headers :: "string list \<Rightarrow> header \<Rightarrow> header \<Rightarrow> header" where
  "copy_headers [] src dst = dst"
| "copy_headers (k # ks) src dst =
     copy_headers ks src (if hget src k \<noteq> [] then hset k (hget src k) dst else dst)"

lemma hget_copy_headers:
  "hget (copy_headers ks src dst) a =
     (if canonical_key a \<in> canonical_key ` set ks \<and> hget src a \<noteq> [] then hget src a else hget dst a)"
proof (induction ks arbitrary: dst)
  case (Cons k ks)
  have "hget src a = hget src k" if "canonical_key a = canonical_key k" using that by (simp add: hget_def)
  then show ?case using Cons by auto
qed simp

section \<open>Requests and responses\<close>

record request =
  rq_method :: string
  rq_path :: string
  rq_escaped :: string
  rq_query :: string
  rq_header :: header
  rq_remote :: string

text \<open>The text of an error of the standard library stays abstract.\<close>

datatype body = Body string | Library_Error

record http_response =
  rs_status :: nat
  rs_header :: header
  rs_body :: body

definition http_error :: "string \<Rightarrow> nat \<Rightarrow> http_response" where
  "http_error msg st =
     \<lparr>rs_status = st,
      rs_header = [(''Content-Type'', ''text/plain; charset=utf-8''), (''X-Content-Type-Options'', ''nosniff'')],
      rs_body = Body (msg @ [CHR 0x0A])\<rparr>"

definition library_error :: "nat \<Rightarrow> http_response" where
  "library_error st = (http_error [] st)\<lparr>rs_body := Library_Error\<rparr>"

definition not_found :: http_response where
  "not_found = http_error ''404 page not found'' 404"

definition found :: "header \<Rightarrow> string \<Rightarrow> http_response" where
  "found h target = \<lparr>rs_status = 302, rs_header = hset ''Location'' target h, rs_body = Body []\<rparr>"

lemma http_error_simps [simp]:
  "rs_status (http_error m c) = c" "rs_status (library_error c) = c" "rs_status not_found = 404"
  "rs_status (found h t) = 302"
  by (simp_all add: http_error_def library_error_def not_found_def found_def)

section \<open>Upstream servers\<close>

text \<open>
  A request the server makes, and the answer of \<open>Client.Do\<close>: an error with its text, or a response
  whose body may break off (\<open>ua_ok\<close>).
\<close>

record out_request =
  or_method :: string
  or_url :: string
  or_header :: header

record upstream_answer =
  ua_status :: nat
  ua_header :: header
  ua_body :: string
  ua_ok :: bool

type_synonym upstream = "out_request \<Rightarrow> string + upstream_answer"

text \<open>\<open>NewRequest\<close> fails when the URL does not parse.\<close>

definition new_request :: "string \<Rightarrow> string \<Rightarrow> out_request option" where
  "new_request meth u = (if url_parse u = None then None else Some \<lparr>or_method = meth, or_url = u, or_header = []\<rparr>)"

definition add_headers :: "(header \<Rightarrow> header) \<Rightarrow> out_request \<Rightarrow> out_request" where
  "add_headers f q = q\<lparr>or_header := f (or_header q)\<rparr>"

lemma new_request_url: "new_request meth u = Some q \<Longrightarrow> or_url q = u \<and> or_method q = meth"
  by (auto simp: new_request_def split: if_splits)

lemma add_headers_url [simp]: "or_url (add_headers f q) = or_url q" "or_method (add_headers f q) = or_method q"
  by (simp_all add: add_headers_def)

text \<open>\<open>io.ReadAll\<close> of a body cut at \<open>n\<close> bytes: a break-off behind the limit is not seen.\<close>

definition read_limited :: "nat \<Rightarrow> upstream_answer \<Rightarrow> string option" where
  "read_limited n a = (if ua_ok a \<or> n \<le> length (ua_body a) then Some (take n (ua_body a)) else None)"

text \<open>A response written by streaming the upstream body; a HEAD request gets none.\<close>

definition stream_back :: "string \<Rightarrow> header \<Rightarrow> upstream_answer \<Rightarrow> http_response" where
  "stream_back meth h a =
     \<lparr>rs_status = ua_status a, rs_header = h, rs_body = Body (if meth = ''HEAD'' then [] else ua_body a)\<rparr>"

text \<open>
  The pass-through of the mirrors: the request is built from the method and the URL, some headers are
  added, and the answer is streamed back with the headers \<open>back\<close> selects.
\<close>

definition pass_through ::
    "upstream \<Rightarrow> (header \<Rightarrow> header) \<Rightarrow> (header \<Rightarrow> header) \<Rightarrow> string \<Rightarrow> string \<Rightarrow> http_response" where
  "pass_through up hdrs back meth u =
     (case new_request meth u of
        None \<Rightarrow> library_error 400
      | Some q \<Rightarrow>
          (case up (add_headers hdrs q) of
             Inl e \<Rightarrow> http_error (''upstream unreachable: '' @ e) 502
           | Inr a \<Rightarrow> stream_back meth (back (ua_header a)) a))"

section \<open>Query escaping, base64 and basic authentication\<close>

definition query_unreserved :: "char \<Rightarrow> bool" where
  "query_unreserved c \<longleftrightarrow> is_lower c \<or> is_upper c \<or> is_digit c \<or> c \<in> set ''-_.~''"

definition query_escape :: "string \<Rightarrow> string" where
  "query_escape s =
     concat (map (\<lambda>c. if query_unreserved c then [c] else if c = CHR '' '' then ''+''
                      else CHR ''%'' # to_upper (hex_byte (code c))) s)"

definition b64_alphabet :: string where
  "b64_alphabet = ''ABCDEFGHIJKLMNOPQRSTUVWXYZabcdefghijklmnopqrstuvwxyz0123456789+/''"

fun base64_encode :: "string \<Rightarrow> string" where
  "base64_encode [] = []"
| "base64_encode [a] =
     (let n = code a * 16 in [b64_alphabet ! (n div 64), b64_alphabet ! (n mod 64), CHR ''='', CHR ''=''])"
| "base64_encode [a, b] =
     (let n = (code a * 256 + code b) * 4 in
      [b64_alphabet ! (n div 4096), b64_alphabet ! (n div 64 mod 64), b64_alphabet ! (n mod 64), CHR ''=''])"
| "base64_encode (a # b # c # s) =
     (let n = (code a * 256 + code b) * 256 + code c in
      b64_alphabet ! (n div 262144) # b64_alphabet ! (n div 4096 mod 64) # b64_alphabet ! (n div 64 mod 64) #
      b64_alphabet ! (n mod 64) # base64_encode s)"

definition b64_val :: "char \<Rightarrow> nat option" where
  "b64_val c = index_byte b64_alphabet c"

text \<open>The standard decoder: groups of four, padding only at the end, line breaks ignored.\<close>

fun b64_groups :: "string \<Rightarrow> string option" where
  "b64_groups [] = Some []"
| "b64_groups [a, b, c, d] =
     (case (b64_val a, b64_val b) of
        (Some x, Some y) \<Rightarrow>
          (if c = CHR ''='' \<and> d = CHR ''='' then Some [char_of ((x * 64 + y) div 16)]
           else case b64_val c of
             None \<Rightarrow> None
           | Some z \<Rightarrow>
               (let n = (x * 64 + y) * 64 + z in
                if d = CHR ''='' then Some [char_of (n div 1024), char_of (n div 4 mod 256)]
                else case b64_val d of
                  None \<Rightarrow> None
                | Some w \<Rightarrow> (let m = n * 64 + w in
                    Some [char_of (m div 65536), char_of (m div 256 mod 256), char_of (m mod 256)])))
      | _ \<Rightarrow> None)"
| "b64_groups (a # b # c # d # s) =
     (case (b64_val a, b64_val b, b64_val c, b64_val d, b64_groups s) of
        (Some x, Some y, Some z, Some w, Some r) \<Rightarrow>
          (let m = ((x * 64 + y) * 64 + z) * 64 + w in
           Some (char_of (m div 65536) # char_of (m div 256 mod 256) # char_of (m mod 256) # r))
      | _ \<Rightarrow> None)"
| "b64_groups _ = None"

definition base64_decode :: "string \<Rightarrow> string option" where
  "base64_decode s = b64_groups (filter (\<lambda>c. c \<noteq> CHR 0x0A \<and> c \<noteq> CHR 0x0D) s)"

definition basic_auth_value :: "string \<Rightarrow> string \<Rightarrow> string" where
  "basic_auth_value user pass = ''Basic '' @ base64_encode (user @ '':'' @ pass)"

text \<open>\<open>Request.BasicAuth\<close>.\<close>

definition basic_auth :: "header \<Rightarrow> (string \<times> string) option" where
  "basic_auth h =
     (let a = hget h ''Authorization'' in
      if length a < 6 \<or> \<not> equal_fold (take 6 a) ''Basic '' then None
      else case base64_decode (drop 6 a) of
        None \<Rightarrow> None
      | Some cs \<Rightarrow> if CHR '':'' \<in> set cs then Some (cut_byte (CHR '':'') cs) else None)"

end
