(* ===== verification/Mirrors.thy ===== *)
theory Mirrors
  imports MirrorCore GoHttp
begin

text \<open>
  Three pull-through mirrors over the shared core: \<^verbatim>\<open>internal/server/gomod/mirror.go\<close> (Go modules),
  \<^verbatim>\<open>internal/server/webmirror/mirror.go\<close> (static files of any host) and
  \<^verbatim>\<open>internal/server/hfmirror/mirror.go\<close> (Hugging Face). Each handler decides whether a path is immutable:
  then it is presigned or fetched, otherwise the request is passed through to the origin. A handler that
  panics has no http_response (None).
\<close>

abbreviation mirror_methods :: "string list" where
  "mirror_methods \<equiv> [''GET'', ''HEAD'']"

text \<open>The state a mirror changes: the storage and the task store.\<close>

type_synonym 's cache = "'s \<times> task_store"

text \<open>A cached file is a redirect to its link; without a link the fetch has failed.\<close>

definition redirect_or_502 :: "string \<Rightarrow> http_response" where
  "redirect_or_502 target = (if target = [] then http_error ''origin fetch failed'' 502 else found [] target)"

definition serve_link :: "(fetch_error + string) \<times> 's cache \<Rightarrow> http_response option \<times> 's cache" where
  "serve_link r = (Some (redirect_or_502 (link_of (fst r))), snd r)"

section \<open>Go modules\<close>

text \<open>The origins of \<open>New\<close>; \<open>lst\<close> is the configured list, None when it is absent.\<close>

definition gomod_origins :: "string \<Rightarrow> string list option \<Rightarrow> string list" where
  "gomod_origins origin lst =
     map (\<lambda>u. trim_right_set u ''/'')
       (case lst of Some os \<Rightarrow> os | None \<Rightarrow> filter (\<lambda>s. s \<noteq> []) [origin, ''https://proxy.golang.org''])"

definition is_immutable :: "string \<Rightarrow> bool" where
  "is_immutable p \<longleftrightarrow> contains p ''/@v/'' \<and> list_ex (\<lambda>ext. has_suffix p ext) [''.zip'', ''.mod'', ''.info'']"

definition gomod_passthrough :: "upstream \<Rightarrow> request \<Rightarrow> string \<Rightarrow> http_response" where
  "gomod_passthrough up r u =
     pass_through up (copy_headers [''Accept'', ''If-Modified-Since'', ''If-None-Match''] (rq_header r))
       (\<lambda>h. copy_headers [''Content-Type'', ''Content-Length'', ''ETag'', ''Last-Modified''] h []) (rq_method r) u"

definition family_go_mod :: string where "family_go_mod = ''go-module''"

definition gomod_serve ::
    "upstream \<Rightarrow> 's fetcher \<Rightarrow> reg_env \<Rightarrow> string list \<Rightarrow> request \<Rightarrow> 's cache \<Rightarrow> http_response option \<times> 's cache" where
  "gomod_serve up ft env origins r st =
     (if rq_method r \<notin> set mirror_methods then (Some (http_error ''GET/HEAD only'' 405), st)
      else
        (let p = trim_set (trim_prefix (rq_escaped r) ''/gomod/'') ''/'' in
         if p = [] \<or> contains p ''..'' then (Some (http_error ''bad path'' 400), st)
         else case origins of
           [] \<Rightarrow> (None, st)
         | o1 # _ \<Rightarrow>
             if is_immutable p then
               serve_link (presign_or_fetch_multi ft env (o1 @ ''/'' @ p) (map (\<lambda>u. u @ ''/'' @ p) origins)
                 family_go_mod ''gomod-mirror'' st)
             else (Some (gomod_passthrough up r (o1 @ ''/'' @ p)), st)))"

section \<open>Static files\<close>

definition clean_hosts :: "string list \<Rightarrow> string list" where
  "clean_hosts hs = map (\<lambda>h. to_lower (trim_space h)) hs"

definition contains_host :: "string list \<Rightarrow> string \<Rightarrow> bool" where
  "contains_host hs h = list_ex (\<lambda>x. x = h \<or> has_suffix h (''.'' @ x)) hs"

text \<open>The checks on \<open>/mirror/{scheme}/{host}/{path}\<close>; an accepted request has an upstream URL.\<close>

definition web_accept :: "string list \<Rightarrow> string \<Rightarrow> string \<Rightarrow> string \<Rightarrow> string \<Rightarrow> http_response + string" where
  "web_accept allowed meth pv_scheme pv_host p =
     (if meth \<notin> set mirror_methods then Inl (http_error ''GET/HEAD only'' 405)
      else
        (let scheme = to_lower pv_scheme; host = to_lower pv_host in
         if (scheme \<noteq> ''http'' \<and> scheme \<noteq> ''https'') \<or> host = [] \<or> p = [] \<or> contains p ''..'' then
           Inl (http_error ''bad mirror path'' 400)
         else if host = ''127.0.0.1'' \<or> host = ''localhost'' \<or> contains host ''/'' then Inl (http_error ''bad host'' 400)
         else if allowed \<noteq> [] \<and> \<not> contains_host allowed host then Inl (http_error ''host not allowed'' 403)
         else Inr (scheme @ ''://'' @ host @ ''/'' @ p)))"

definition strip_exts :: "string \<Rightarrow> string" where
  "strip_exts b = foldl (\<lambda>s ext. trim_suffix s ext) b [''.gz'', ''.xz'', ''.bz2'', ''.zst'', ''.gpg'', ''.sig'']"

definition is_repo_metadata :: "string \<Rightarrow> bool" where
  "is_repo_metadata path =
     (if contains path ''/repodata/'' then True
      else
        (let b = strip_exts (case last_index_byte path (CHR ''/'') of Some i \<Rightarrow> drop (Suc i) path | None \<Rightarrow> path) in
         b = ''Packages'' \<or> has_prefix b ''Packages.'' \<or> b = ''Sources'' \<or> has_prefix b ''Sources.'' \<or>
         b = ''Release'' \<or> b = ''InRelease'' \<or> b = ''Contents'' \<or> has_prefix b ''Contents.'' \<or>
         b = ''repomd'' \<or> has_prefix b ''repomd.'' \<or> has_prefix b ''MD5SUMS'' \<or> has_prefix b ''SHA256SUMS''))"

text \<open>The canonical URL and the family under which it is cached; no family when it is passed through.\<close>

definition classify :: "string \<Rightarrow> string \<times> string" where
  "classify u =
     (case url_parse u of
        None \<Rightarrow> ([], [])
      | Some v \<Rightarrow>
          (case canonicalize u of
             Inl _ \<Rightarrow> ([], [])
           | Inr canonical \<Rightarrow>
               if contains (u_path v) ''/by-hash/'' then (canonical, ''generic-static'')
               else if is_repo_metadata (u_path v) then (canonical, [])
               else (case family_of_raw u of
                       Inl _ \<Rightarrow> (canonical, [])
                     | Inr (_, family, _) \<Rightarrow> if family = [] then (canonical, []) else (canonical, family))))"

definition web_passthrough :: "upstream \<Rightarrow> request \<Rightarrow> string \<Rightarrow> http_response" where
  "web_passthrough up r u =
     pass_through up
       (\<lambda>h. hset ''User-Agent'' ''dldw-mirror/1.0''
          (copy_headers [''Range'', ''If-Modified-Since'', ''If-None-Match'', ''Accept''] (rq_header r) h))
       (\<lambda>h. copy_headers [''Content-Type'', ''Content-Length'', ''ETag'', ''Last-Modified'', ''Location'', ''Accept-Ranges'',
          ''Content-Range''] h []) (rq_method r) u"

definition web_serve ::
    "upstream \<Rightarrow> 's fetcher \<Rightarrow> reg_env \<Rightarrow> string list \<Rightarrow> string \<Rightarrow> string \<Rightarrow> string \<Rightarrow> request \<Rightarrow> 's cache \<Rightarrow>
     http_response option \<times> 's cache" where
  "web_serve up ft env allowed pv_scheme pv_host p r st =
     (case web_accept allowed (rq_method r) pv_scheme pv_host p of
        Inl resp \<Rightarrow> (Some resp, st)
      | Inr u \<Rightarrow>
          (let (canonical, family) = classify u in
           if family \<noteq> [] then serve_link (presign_or_fetch ft env canonical family ''web-mirror'' st)
           else (Some (web_passthrough up r u), st)))"

section \<open>Hugging Face\<close>

definition hf_origin :: "string \<Rightarrow> string" where
  "hf_origin origin = trim_right_set (if origin = [] then ''https://huggingface.co'' else origin) ''/''"

definition resolve_revision :: "string \<Rightarrow> string option" where
  "resolve_revision p =
     (case index_of p ''/resolve/'' of
        None \<Rightarrow> None
      | Some i \<Rightarrow>
          (let rest = drop (i + 9) p in
           case index_byte rest (CHR ''/'') of
             Some j \<Rightarrow> if 0 < j then Some (take j rest) else None
           | None \<Rightarrow> None))"

definition is_commit_sha :: "string \<Rightarrow> bool" where
  "is_commit_sha s \<longleftrightarrow> length s = 40 \<and> list_all is_hex_lower s"

text \<open>The loop over the map of http_response headers compares the keys as they are, that is canonical.\<close>

definition hf_back :: "header \<Rightarrow> header" where
  "hf_back h = filter (\<lambda>(k, _). has_prefix k ''X-'' \<or>
     k \<in> {''Content-Type'', ''Content-Length'', ''ETag'', ''Location'', ''Accept-Ranges'', ''Content-Range''}) h"

definition hf_request_headers :: "request \<Rightarrow> header \<Rightarrow> header" where
  "hf_request_headers r h =
     hset ''User-Agent'' ''dldw-hf-mirror/1.0''
       (copy_headers [''Accept'', ''Range'', ''If-None-Match'', ''If-Modified-Since'', ''Authorization''] (rq_header r) h)"

definition hf_passthrough :: "upstream \<Rightarrow> request \<Rightarrow> string \<Rightarrow> http_response" where
  "hf_passthrough up r u =
     pass_through up (hf_request_headers r) hf_back (rq_method r) u"

definition family_hf_file :: string where "family_hf_file = ''huggingface-file''"

definition hf_serve ::
    "upstream \<Rightarrow> 's fetcher \<Rightarrow> reg_env \<Rightarrow> string \<Rightarrow> request \<Rightarrow> 's cache \<Rightarrow> http_response option \<times> 's cache" where
  "hf_serve up ft env origin r st =
     (if rq_method r \<notin> set mirror_methods then (Some (http_error ''GET/HEAD only'' 405), st)
      else
        (let p = trim_set (trim_prefix (rq_path r) ''/hf'') ''/'' in
         if p = [] \<or> contains p ''..'' then (Some (http_error ''bad path'' 400), st)
         else
           (let u = origin @ ''/'' @ p; pass = (Some (hf_passthrough up r u), st) in
            case resolve_revision p of
              None \<Rightarrow> pass
            | Some rv \<Rightarrow>
                if is_commit_sha rv then
                  (case canonicalize u of
                     Inl _ \<Rightarrow> pass
                   | Inr canonical \<Rightarrow>
                       serve_link (presign_or_fetch_multi ft env canonical [canonical] family_hf_file ''hf-mirror'' st))
                else pass)))"

lemma serve_link_state: "serve_link x = (resp, st') \<Longrightarrow> st' = snd x"
  by (simp add: serve_link_def)

lemma classify_family_cases:
  assumes "snd (classify u) \<noteq> []"
  shows "\<exists>v. url_parse u = Some v \<and> (contains (u_path v) ''/by-hash/'' \<or> \<not> is_repo_metadata (u_path v))"
  using assms by (auto simp: classify_def split: option.splits sum.splits if_splits)

section \<open>Properties\<close>

text \<open>
  Only immutable paths enter the cache. If a request to one of the mirrors changes the storage or the
  task store, then its path is a versioned file of a module, a file at a commit of a repository, or a file
  with a cacheable family that is not repository metadata unless it is addressed by its hash. Every other
  request leaves the cache alone, whatever the upstream answers.
\<close>

theorem mirrors_cache_immutable:
  "(\<forall>st'. gomod_serve up ft env origins r st = (resp, st') \<and> st' \<noteq> st \<longrightarrow>
      (\<exists>p. p = trim_set (trim_prefix (rq_escaped r) ''/gomod/'') ''/'' \<and> contains p ''/@v/'' \<and>
        (has_suffix p ''.zip'' \<or> has_suffix p ''.mod'' \<or> has_suffix p ''.info''))) \<and>
   (\<forall>st'. hf_serve up ft env origin r st = (resp, st') \<and> st' \<noteq> st \<longrightarrow>
      (\<exists>rv. resolve_revision (trim_set (trim_prefix (rq_path r) ''/hf'') ''/'') = Some rv \<and>
        length rv = 40 \<and> list_all is_hex_lower rv)) \<and>
   (\<forall>st'. web_serve up ft env allowed sch host pth r st = (resp, st') \<and> st' \<noteq> st \<longrightarrow>
      (\<exists>u v. web_accept allowed (rq_method r) sch host pth = Inr u \<and> snd (classify u) \<noteq> [] \<and> url_parse u = Some v \<and>
        (contains (u_path v) ''/by-hash/'' \<or> \<not> is_repo_metadata (u_path v))))"
proof (intro conjI allI impI; elim conjE)
  fix st' assume "gomod_serve up ft env origins r st = (resp, st')" "st' \<noteq> st"
  then have "is_immutable (trim_set (trim_prefix (rq_escaped r) ''/gomod/'') ''/'')"
    by (auto simp: gomod_serve_def Let_def split: if_splits list.splits)
  then show "(\<exists>p. p = trim_set (trim_prefix (rq_escaped r) ''/gomod/'') ''/'' \<and> contains p ''/@v/'' \<and>
      (has_suffix p ''.zip'' \<or> has_suffix p ''.mod'' \<or> has_suffix p ''.info''))"
    by (simp add: is_immutable_def)
next
  fix st' assume "hf_serve up ft env origin r st = (resp, st')" "st' \<noteq> st"
  then show "\<exists>rv. resolve_revision (trim_set (trim_prefix (rq_path r) ''/hf'') ''/'') = Some rv \<and>
      length rv = 40 \<and> list_all is_hex_lower rv"
    by (auto simp: hf_serve_def is_commit_sha_def Let_def split: if_splits option.splits)
next
  fix st' assume a: "web_serve up ft env allowed sch host pth r st = (resp, st')" "st' \<noteq> st"
  then obtain u where u: "web_accept allowed (rq_method r) sch host pth = Inr u" "snd (classify u) \<noteq> []"
    by (auto simp: web_serve_def split: sum.splits prod.splits if_splits)
  with classify_family_cases [OF u(2)] show "\<exists>u v. web_accept allowed (rq_method r) sch host pth = Inr u \<and>
      snd (classify u) \<noteq> [] \<and> url_parse u = Some v \<and>
      (contains (u_path v) ''/by-hash/'' \<or> \<not> is_repo_metadata (u_path v))" by blast
qed

definition count_fetcher :: "nat fetcher" where
  "count_fetcher =
     \<lparr>ft_put = (\<lambda>s k d n ct. (Inr \<lparr>ob_key = k, ob_size = n, ob_etag = [], ob_content_type = ct\<rparr>, Suc s)),
      ft_presign = (\<lambda>k ttl. Inr k),
      ft_fetch = (\<lambda>u dir nm. Inr (\<lparr>fr_local_path = [], fr_size = 1, fr_sha256 = ''h'', fr_etag = [], fr_content_type = ''t''\<rparr>, Some [1])),
      ft_tmp_dir = [], ft_ttl = 1\<rparr>"

definition sample_request :: "string \<Rightarrow> request" where
  "sample_request p = \<lparr>rq_method = ''GET'', rq_path = p, rq_escaped = p, rq_query = [], rq_header = [], rq_remote = []\<rparr>"

theorem mirrors_cache_immutable_witness:
  "\<exists>resp st'. gomod_serve (\<lambda>_. Inl []) count_fetcher sample_reg [''http://p''] (sample_request ''/gomod/m/@v/v1.zip'') (0, empty_store [])
      = (resp, st') \<and> st' \<noteq> (0, empty_store []) \<and>
    (\<exists>p. p = trim_set (trim_prefix (rq_escaped (sample_request ''/gomod/m/@v/v1.zip'')) ''/gomod/'') ''/'' \<and>
      contains p ''/@v/'' \<and> (has_suffix p ''.zip'' \<or> has_suffix p ''.mod'' \<or> has_suffix p ''.info''))"
proof -
  let ?r = "sample_request ''/gomod/m/@v/v1.zip''" and ?st = "(0 :: nat, empty_store [])"
  have t: "trim_set (trim_prefix ''/gomod/m/@v/v1.zip'' ''/gomod/'') ''/'' = ''m/@v/v1.zip''" "contains ''m/@v/v1.zip'' ''..'' = False"
    "is_immutable ''m/@v/v1.zip'' = True"
    by code_simp+
  obtain resp st' where g: "gomod_serve (\<lambda>_. Inl []) count_fetcher sample_reg [''http://p''] ?r ?st = (resp, st')"
    by (cases "gomod_serve (\<lambda>_. Inl []) count_fetcher sample_reg [''http://p''] ?r ?st")
  have c: "cached_artifact (empty_store []) k = None" for k
    by (simp add: cached_artifact_def get_by_cache_key_def empty_store_def)
  have "fst st' = 1"
    using g t by (auto simp: gomod_serve_def sample_request_def serve_link_def presign_miss [OF c] count_fetcher_def Let_def
      split: prod.splits option.splits)
  then have n: "st' \<noteq> ?st" by auto
  show ?thesis
    using mirrors_cache_immutable [of "\<lambda>_. Inl []" count_fetcher sample_reg "[''http://p'']" ?r ?st resp,
        THEN conjunct1, rule_format, OF conjI [OF g n]] g n by (intro exI [of _ resp] exI [of _ st'] conjI)
qed

text \<open>
  Where a request to the static mirror goes. For a host of letters, digits, dots and dashes, the upstream
  URL of an accepted request has that host, is http or https, keeps the path, and the host is not local and,
  when hosts are configured, one of them or below one. The check is on the text, though: a host with an
  escaped question mark passes as a name below an allowed host while the URL goes to another server.
\<close>

theorem web_mirror_target:
  "(web_accept allowed meth sch host p = Inr u \<and> list_all name_char host \<and> list_all path_char p \<longrightarrow>
     (\<exists>v. url_parse u = Some v \<and> u_scheme v \<in> {''http'', ''https''} \<and> url_hostname v = to_lower host \<and> u_path v = ''/'' @ p \<and>
        to_lower host \<notin> {''localhost'', ''127.0.0.1''} \<and>
        (allowed = [] \<or> (\<exists>x \<in> set allowed. to_lower host = x \<or> has_suffix (to_lower host) (''.'' @ x))))) \<and>
   (\<exists>v. web_accept [''good.com''] ''GET'' ''https'' ''evil.io?.good.com'' ''a.zip'' = Inr ''https://evil.io?.good.com/a.zip'' \<and>
      url_parse ''https://evil.io?.good.com/a.zip'' = Some v \<and> url_hostname v = ''evil.io'')"
proof (intro conjI impI)
  assume a: "web_accept allowed meth sch host p = Inr u \<and> list_all name_char host \<and> list_all path_char p"
  let ?h = "to_lower host"
  have u: "u = to_lower sch @ ''://'' @ ?h @ port_text None @ (''/'' @ p) @ query_text [] @ []"
    and s: "to_lower sch = ''http'' \<or> to_lower sch = ''https''" and l: "?h \<notin> {''localhost'', ''127.0.0.1''}"
    and al: "allowed = [] \<or> contains_host allowed ?h"
    using a by (auto simp: web_accept_def Let_def port_text_def query_text_def split: if_splits)
  have sl: "list_all letter (to_lower sch)" "to_lower sch \<noteq> []" using s by (auto simp: letter_def char_class_defs)
  have h: "list_all name_char ?h" using a by (intro to_lower_name) simp
  have p: "list_all path_char (''/'' @ p)" using a by (simp add: path_char_def ctl_byte_def)
  from url_parse_plain [OF sl h _ p, of None "[]" "[]"] obtain v where
    v: "url_parse u = Some v" "u_scheme v = to_lower (to_lower sch)" "u_host v = ?h @ port_text None" "u_path v = ''/'' @ p"
    unfolding u by auto
  have "url_hostname v = ?h" using v(3) parse_host_plain(2) [OF h, of None] by (simp add: url_hostname_def)
  moreover have "u_scheme v \<in> {''http'', ''https''}" using v(2) s by auto
  moreover have "allowed = [] \<or> (\<exists>x \<in> set allowed. ?h = x \<or> has_suffix ?h (''.'' @ x))"
    using al by (auto simp: contains_host_def list_ex_iff)
  ultimately show "\<exists>v. url_parse u = Some v \<and> u_scheme v \<in> {''http'', ''https''} \<and> url_hostname v = ?h \<and> u_path v = ''/'' @ p \<and>
      ?h \<notin> {''localhost'', ''127.0.0.1''} \<and> (allowed = [] \<or> (\<exists>x \<in> set allowed. ?h = x \<or> has_suffix ?h (''.'' @ x)))"
    using v l by blast
next
  have "web_accept [''good.com''] ''GET'' ''https'' ''evil.io?.good.com'' ''a.zip'' = Inr ''https://evil.io?.good.com/a.zip''"
    "map_option url_hostname (url_parse ''https://evil.io?.good.com/a.zip'') = Some ''evil.io''"
    by code_simp+
  then show "\<exists>v. web_accept [''good.com''] ''GET'' ''https'' ''evil.io?.good.com'' ''a.zip'' = Inr ''https://evil.io?.good.com/a.zip'' \<and>
      url_parse ''https://evil.io?.good.com/a.zip'' = Some v \<and> url_hostname v = ''evil.io''" by auto
qed

theorem web_mirror_target_witness:
  "\<exists>v. url_parse ''http://deb.org/a.deb'' = Some v \<and> url_hostname v = ''deb.org''"
proof -
  have "web_accept [''deb.org''] ''GET'' ''HTTP'' ''deb.org'' ''a.deb'' = Inr ''http://deb.org/a.deb''" "to_lower ''deb.org'' = ''deb.org''"
    "list_all name_char ''deb.org''" "list_all path_char ''a.deb''"
    by code_simp+
  then show ?thesis
    using web_mirror_target [of "[''deb.org'']" "''GET''" "''HTTP''" "''deb.org''" "''a.deb''" "''http://deb.org/a.deb''"]
    by (simp del: to_lower_Cons) metis
qed

text \<open>
  What the Hugging Face mirror forwards. The credentials of a request go on to the upstream server as
  they are, the device token of an authenticated mirror among them; and of the headers that come back, an
  entity tag is never forwarded: its key is compared with \<open>ETag\<close>, but keys are canonical (\<open>Etag\<close>).
\<close>

theorem hf_forwarded_headers:
  "hget (hf_request_headers r h) ''Authorization'' =
      (if hget (rq_header r) ''Authorization'' = [] then hget h ''Authorization'' else hget (rq_header r) ''Authorization'') \<and>
   hget (hf_back back) ''ETag'' = []"
proof
  have k: "canonical_key ''User-Agent'' = ''User-Agent''" "canonical_key ''Authorization'' = ''Authorization''"
    "canonical_key ''ETag'' = ''Etag''" "canonical_key ''Accept'' = ''Accept''" by code_simp+
  let ?l = "[''Accept'', ''Range'', ''If-None-Match'', ''If-Modified-Since'', ''Authorization'']"
  have "hget (hf_request_headers r h) ''Authorization'' = hget (copy_headers ?l (rq_header r) h) ''Authorization''"
    unfolding hf_request_headers_def hget_hset k by simp
  also have "\<dots> = (if hget (rq_header r) ''Authorization'' \<noteq> [] then hget (rq_header r) ''Authorization'' else hget h ''Authorization'')"
  proof -
    have "canonical_key ''Authorization'' \<in> canonical_key ` set ?l" by (rule imageI) simp
    then show ?thesis unfolding hget_copy_headers by presburger
  qed
  finally show "hget (hf_request_headers r h) ''Authorization'' =
      (if hget (rq_header r) ''Authorization'' = [] then hget h ''Authorization'' else hget (rq_header r) ''Authorization'')"
    by presburger
  have "kv \<in> set (hf_back back) \<Longrightarrow> fst kv \<noteq> ''Etag''" for kv by (auto simp: hf_back_def)
  then have "''Etag'' \<notin> fst ` set (hf_back back)" by force
  then have "map_of (hf_back back) ''Etag'' = None" by (rule map_of_eq_None_iff [THEN iffD2])
  then show "hget (hf_back back) ''ETag'' = []" by (simp add: hget_def k)
qed

end
