(* ===== verification/Registries.thy ===== *)
theory Registries
  imports Mirrors
begin

text \<open>
  The package registries: \<^verbatim>\<open>internal/server/pypi/mirror.go\<close> and \<^verbatim>\<open>internal/server/npm/mirror.go\<close>. An index page is
  fetched from the first origin that answers, its links are rewritten to the mirror, and it is kept in
  memory for a while; a file goes through the shared cache. Bodies are byte strings; \<open>now\<close> and \<open>now'\<close> are
  the clock at the check and at the store.
\<close>

section \<open>Shared by both registries\<close>

record idx_entry =
  ie_body :: string
  ie_type :: string
  ie_at :: time

type_synonym idx_cache = "(string, idx_entry) gomap"

definition non_empty :: "string list \<Rightarrow> string list" where
  "non_empty ss = filter (\<lambda>s. s \<noteq> []) ss"

datatype index_answer = Index_Body string string | Index_Reply http_response | Index_Bad_Request | Index_None

text \<open>The loop over the origins: unreachable, broken, failing and rate-limited ones are skipped.\<close>

fun ask_origins :: "upstream \<Rightarrow> nat \<Rightarrow> string \<Rightarrow> string list \<Rightarrow> index_answer" where
  "ask_origins up lim accept [] = Index_None"
| "ask_origins up lim accept (u # us) =
     (case new_request ''GET'' u of
        None \<Rightarrow> Index_Bad_Request
      | Some q \<Rightarrow>
          (case up (add_headers (hset ''Accept'' accept) q) of
             Inl _ \<Rightarrow> ask_origins up lim accept us
           | Inr a \<Rightarrow>
               (case read_limited lim a of
                  None \<Rightarrow> ask_origins up lim accept us
                | Some b \<Rightarrow>
                    if ua_status a = 200 then Index_Body b (hget (ua_header a) ''Content-Type'')
                    else if 500 \<le> ua_status a \<or> ua_status a = 429 then ask_origins up lim accept us
                    else Index_Reply \<lparr>rs_status = ua_status a,
                           rs_header = [(''Content-Type'', hget (ua_header a) ''Content-Type'')], rs_body = Body b\<rparr>)))"

definition index_reply :: "string \<Rightarrow> string \<Rightarrow> string \<Rightarrow> http_response" where
  "index_reply cached ctype b =
     \<lparr>rs_status = 200, rs_header = [(''Content-Type'', ctype), (''X-Dldw-Cache'', cached)], rs_body = Body b\<rparr>"

definition fresh_entry :: "time \<Rightarrow> duration \<Rightarrow> idx_cache \<Rightarrow> string \<Rightarrow> idx_entry option" where
  "fresh_entry now ttl idx pkg =
     (case mget idx pkg of
        None \<Rightarrow> None
      | Some e \<Rightarrow> if ttl < time_sub now (ie_at e) then None else Some e)"

text \<open>What an index handler does with the answer of the origins.\<close>

definition store_index ::
    "time \<Rightarrow> string \<Rightarrow> string \<Rightarrow> (string \<Rightarrow> string) \<Rightarrow> string \<Rightarrow> index_answer \<Rightarrow> idx_cache \<Rightarrow> http_response \<times> idx_cache" where
  "store_index now' none_text def_type rewrite pkg ans idx =
     (case ans of
        Index_Bad_Request \<Rightarrow> (library_error 500, idx)
      | Index_Reply r \<Rightarrow> (r, idx)
      | Index_None \<Rightarrow> (http_error none_text 502, idx)
      | Index_Body b ct \<Rightarrow>
          (let ctype = (if ct = [] then def_type else ct);
               e = \<lparr>ie_body = rewrite b, ie_type = ctype, ie_at = now'\<rparr>
           in (index_reply ''miss'' ctype (rewrite b), mput pkg e idx)))"

text \<open>The status for a failed file: the text of the error decides.\<close>

definition fail_status :: "string list \<Rightarrow> string \<Rightarrow> nat" where
  "fail_status marks txt = (if list_ex (contains txt) marks then 404 else 502)"

section \<open>PyPI\<close>

record pypi_cfg =
  py_index_origin :: string
  py_index_origins :: "string list option"
  py_files_origin :: string
  py_files_origins :: "string list option"
  py_public_base :: string
  py_index_ttl :: duration

definition some_list :: "'a list option \<Rightarrow> 'a list" where
  "some_list l = (case l of None \<Rightarrow> [] | Some xs \<Rightarrow> xs)"

definition pypi_defaults :: "pypi_cfg \<Rightarrow> pypi_cfg" where
  "pypi_defaults c =
     (let io = (case py_index_origins c of Some l \<Rightarrow> l | None \<Rightarrow> non_empty [py_index_origin c, ''https://pypi.org'']);
          fo = (case py_files_origins c of Some l \<Rightarrow> l | None \<Rightarrow> non_empty [py_files_origin c, ''https://files.pythonhosted.org''])
      in c\<lparr>py_index_origins := Some (map (\<lambda>u. trim_right_set u ''/'') io),
           py_files_origins := Some (map (\<lambda>u. trim_right_set u ''/'') fo),
           py_index_ttl := (if py_index_ttl c \<le> 0 then 10 * minute else py_index_ttl c)\<rparr>)"

definition pkg_char :: "char \<Rightarrow> bool" where
  "pkg_char c \<longleftrightarrow> is_lower c \<or> is_upper c \<or> is_digit c"

definition pypi_name :: "string \<Rightarrow> bool" where
  "pypi_name s \<longleftrightarrow> s \<noteq> [] \<and> pkg_char (hd s) \<and> list_all (\<lambda>c. pkg_char c \<or> c \<in> set ''._-'') (tl s)"

definition pypi_accept :: string where
  "pypi_accept = ''application/vnd.pypi.simple.v1+json, application/vnd.pypi.simple.v1+html; q=0.1, text/html; q=0.01''"

text \<open>Links to any of the file origins become links to the mirror.\<close>

definition pypi_rewrite :: "pypi_cfg \<Rightarrow> string \<Rightarrow> string" where
  "pypi_rewrite c b =
     foldl (\<lambda>s fo. replace_all s (fo @ ''/packages/'') (py_public_base c @ ''/pypi/packages/'')) b
       (some_list (py_files_origins c))"

definition serve_simple ::
    "upstream \<Rightarrow> time \<Rightarrow> time \<Rightarrow> pypi_cfg \<Rightarrow> string \<Rightarrow> idx_cache \<Rightarrow> http_response \<times> idx_cache" where
  "serve_simple up now now' c pv_pkg idx =
     (let pkg = trim_set (to_lower pv_pkg) ''/'' in
      if pkg = [] \<or> \<not> pypi_name pkg then (http_error ''invalid package name'' 400, idx)
      else case fresh_entry now (py_index_ttl c) idx pkg of
        Some e \<Rightarrow> (index_reply ''hit'' (ie_type e) (ie_body e), idx)
      | None \<Rightarrow>
          store_index now' ''all index origins unreachable'' ''text/html; charset=utf-8'' (pypi_rewrite c) pkg
            (ask_origins up (16 * 2 ^ 20) pypi_accept
              (map (\<lambda>origin. origin @ ''/simple/'' @ pkg @ ''/'') (some_list (py_index_origins c)))) idx)"

definition path_after_packages :: "string \<Rightarrow> string" where
  "path_after_packages canonical =
     (case index_of canonical ''/packages/'' of
        Some i \<Rightarrow> drop i canonical
      | None \<Rightarrow> ''/packages/'' @ path_base canonical)"

definition right_values :: "('a + 'b) list \<Rightarrow> 'b list" where
  "right_values xs = concat (map (\<lambda>x. case x of Inl _ \<Rightarrow> [] | Inr y \<Rightarrow> [y]) xs)"

text \<open>\<open>etext\<close> renders an error of \<open>Canonicalize\<close>. The result is a link or the text of the error.\<close>

definition serve_wheel ::
    "(canon_error \<Rightarrow> string) \<Rightarrow> 's fetcher \<Rightarrow> reg_env \<Rightarrow> pypi_cfg \<Rightarrow> string \<Rightarrow> 's cache \<Rightarrow> (string + string) \<times> 's cache" where
  "serve_wheel etext ft env c raw st =
     (case canonicalize raw of
        Inl e \<Rightarrow> (Inl (etext e), st)
      | Inr canonical \<Rightarrow>
          (let cands = right_values (map (\<lambda>fo. canonicalize (fo @ path_after_packages canonical)) (some_list (py_files_origins c)));
               (r, st') = presign_or_fetch_multi ft env canonical cands family_pypi_file ''pypi-mirror'' st
           in (if link_of r = [] then Inl ''cache error'' else Inr (link_of r), st')))"

definition serve_package ::
    "(canon_error \<Rightarrow> string) \<Rightarrow> 's fetcher \<Rightarrow> reg_env \<Rightarrow> pypi_cfg \<Rightarrow> request \<Rightarrow> 's cache \<Rightarrow> http_response \<times> 's cache" where
  "serve_package etext ft env c r st =
     (let p = trim_set (trim_prefix (rq_path r) ''/pypi/packages/'') ''/'' in
      if p = [] \<or> contains p ''..'' then (http_error ''bad path'' 400, st)
      else case serve_wheel etext ft env c (py_files_origin c @ ''/packages/'' @ p) st of
        (Inl txt, st') \<Rightarrow> (http_error txt (fail_status [''E_UPSTREAM'', ''HTTP 4''] txt), st')
      | (Inr target, st') \<Rightarrow> (found [] target, st'))"

section \<open>npm\<close>

record npm_cfg =
  np_origin :: string
  np_origins :: "string list option"
  np_public_base :: string
  np_index_ttl :: duration

definition npm_defaults :: "npm_cfg \<Rightarrow> npm_cfg" where
  "npm_defaults c =
     (let os = (case np_origins c of Some l \<Rightarrow> l | None \<Rightarrow> filter (\<lambda>s. s \<noteq> []) [np_origin c, ''https://registry.npmjs.org''])
      in c\<lparr>np_origins := Some (map (\<lambda>u. trim_right_set u ''/'') os),
           np_index_ttl := (if np_index_ttl c \<le> 0 then 2 * minute else np_index_ttl c)\<rparr>)"

definition npm_name :: "string \<Rightarrow> bool" where
  "npm_name s =
     (let t = replace_all s ''%2F'' ''/'' in
      t \<noteq> [] \<and> \<not> has_prefix t ''-'' \<and> \<not> contains t ''..'' \<and>
      list_all (\<lambda>c. pkg_char c \<or> c \<in> set ''.-_@/'') t)"

definition npm_rewrite :: "npm_cfg \<Rightarrow> string \<Rightarrow> string \<Rightarrow> string" where
  "npm_rewrite c pkg b =
     foldl (\<lambda>s origin. replace_all s (origin @ ''/'' @ pkg @ ''/-/'') (np_public_base c @ ''/npm/tarball/'' @ pkg @ ''/-/'')) b
       (some_list (np_origins c))"

definition serve_metadata ::
    "upstream \<Rightarrow> time \<Rightarrow> time \<Rightarrow> npm_cfg \<Rightarrow> string \<Rightarrow> request \<Rightarrow> idx_cache \<Rightarrow> http_response \<times> idx_cache" where
  "serve_metadata up now now' c pv_pkg r idx =
     (let pkg = trim_set pv_pkg ''/'' in
      if \<not> npm_name pkg then (http_error ''invalid package name'' 400, idx)
      else
        (let norm = replace_all pkg ''%2F'' ''/'' in
         case fresh_entry now (np_index_ttl c) idx norm of
           Some e \<Rightarrow> (index_reply ''hit'' (ie_type e) (ie_body e), idx)
         | None \<Rightarrow>
             store_index now' ''all registry origins unreachable'' ''application/json'' (npm_rewrite c pkg) norm
               (ask_origins up (32 * 2 ^ 20) (hget (rq_header r) ''Accept'')
                 (map (\<lambda>origin. origin @ ''/'' @ pkg) (some_list (np_origins c)))) idx))"

definition tarball_path_of :: "string \<Rightarrow> string" where
  "tarball_path_of u =
     (let s = (case index_of u ''://'' of Some i \<Rightarrow> drop (i + 3) u | None \<Rightarrow> u) in
      case index_byte s (CHR ''/'') of Some j \<Rightarrow> drop (Suc j) s | None \<Rightarrow> s)"

definition serve_tarball_url ::
    "(canon_error \<Rightarrow> string) \<Rightarrow> 's fetcher \<Rightarrow> reg_env \<Rightarrow> npm_cfg \<Rightarrow> string \<Rightarrow> 's cache \<Rightarrow> (string + string) \<times> 's cache" where
  "serve_tarball_url etext ft env c raw st =
     (case canonicalize raw of
        Inl e \<Rightarrow> (Inl (etext e), st)
      | Inr canonical \<Rightarrow>
          (let cands = (if contains raw ''/-/''
                        then right_values (map (\<lambda>o1. canonicalize (o1 @ ''/'' @ tarball_path_of raw)) (some_list (np_origins c)))
                        else []);
               (r, st') = presign_or_fetch_multi ft env canonical (if cands = [] then [canonical] else cands)
                 family_npm_tarball ''npm-mirror'' st
           in (if link_of r = [] then Inl ''cache error'' else Inr (link_of r), st')))"

definition serve_tarball ::
    "(canon_error \<Rightarrow> string) \<Rightarrow> 's fetcher \<Rightarrow> reg_env \<Rightarrow> npm_cfg \<Rightarrow> request \<Rightarrow> 's cache \<Rightarrow> http_response option \<times> 's cache" where
  "serve_tarball etext ft env c r st =
     (let p = trim_set (trim_prefix (rq_path r) ''/npm/tarball/'') ''/'' in
      if p = [] \<or> \<not> contains p ''/-/'' \<or> contains p ''..'' then (Some (http_error ''bad path'' 400), st)
      else case some_list (np_origins c) of
        [] \<Rightarrow> (None, st)
      | o1 # _ \<Rightarrow>
          (case serve_tarball_url etext ft env c (o1 @ ''/'' @ p) st of
             (Inl txt, st') \<Rightarrow> (Some (http_error txt (fail_status [''HTTP 4''] txt)), st')
           | (Inr target, st') \<Rightarrow> (Some (found [] target), st')))"

section \<open>What the origins answered\<close>

text \<open>The answer an origin gives to the request the loop sends it.\<close>

definition asked :: "upstream \<Rightarrow> string \<Rightarrow> string \<Rightarrow> string + upstream_answer" where
  "asked up accept u = up \<lparr>or_method = ''GET'', or_url = u, or_header = [(''Accept'', accept)]\<rparr>"

definition passed_over :: "upstream \<Rightarrow> nat \<Rightarrow> string \<Rightarrow> string \<Rightarrow> bool" where
  "passed_over up lim accept u =
     (case asked up accept u of
        Inl _ \<Rightarrow> True
      | Inr a \<Rightarrow> read_limited lim a = None \<or> 500 \<le> ua_status a \<or> ua_status a = 429)"

lemma canonical_accept: "canonical_key ''Accept'' = ''Accept''"
  by code_simp

lemma asked_request: "new_request ''GET'' u = Some q \<Longrightarrow> up (add_headers (hset ''Accept'' accept) q) = asked up accept u"
  by (auto simp: new_request_def asked_def add_headers_def hset_def hdel_def canonical_accept split: if_splits)

lemma ask_origins_body:
  "ask_origins up lim accept us = Index_Body b ct \<Longrightarrow>
   \<exists>pre u post a. us = pre @ u # post \<and> (\<forall>v \<in> set pre. passed_over up lim accept v) \<and> asked up accept u = Inr a \<and>
     ua_status a = 200 \<and> read_limited lim a = Some b \<and> ct = hget (ua_header a) ''Content-Type''"
proof (induction us)
  case (Cons u us)
  obtain q where q: "new_request ''GET'' u = Some q" using Cons.prems by (auto split: option.splits)
  note r = asked_request [OF q]
  show ?case
  proof (cases "passed_over up lim accept u \<and> ask_origins up lim accept us = Index_Body b ct")
    case True
    with Cons.IH obtain pre v post a where h: "us = pre @ v # post" "\<forall>v \<in> set pre. passed_over up lim accept v"
      "asked up accept v = Inr a" "ua_status a = 200" "read_limited lim a = Some b" "ct = hget (ua_header a) ''Content-Type''"
      by blast
    then have "u # us = (u # pre) @ v # post" "\<forall>v \<in> set (u # pre). passed_over up lim accept v" using True by auto
    then show ?thesis using h(3-6) by blast
  next
    case False
    then obtain a where "asked up accept u = Inr a" "ua_status a = 200" "read_limited lim a = Some b"
      "ct = hget (ua_header a) ''Content-Type''"
      using Cons.prems q r by (auto simp: passed_over_def split: sum.splits option.splits if_splits)
    then show ?thesis by (metis append_Nil empty_iff empty_set)
  qed
qed simp

lemma ask_origins_reply: "ask_origins up lim accept us = Index_Reply r \<Longrightarrow> rs_status r \<noteq> 200"
  by (induction us) (auto split: option.splits sum.splits if_splits)

text \<open>A page that has just been fetched: from the first origin that did not fail, rewritten and stored.\<close>

definition page_from ::
    "upstream \<Rightarrow> nat \<Rightarrow> string \<Rightarrow> (string \<Rightarrow> string) \<Rightarrow> string list \<Rightarrow> (string \<Rightarrow> string) \<Rightarrow> string \<Rightarrow> bool" where
  "page_from up lim accept url origins rewrite page \<longleftrightarrow>
     (\<exists>pre o1 post a b. origins = pre @ o1 # post \<and> (\<forall>v \<in> set pre. passed_over up lim accept (url v)) \<and>
       asked up accept (url o1) = Inr a \<and> ua_status a = 200 \<and> read_limited lim a = Some b \<and> page = rewrite b)"

lemma map_split: "map f xs = ys @ z # zs \<Longrightarrow> \<exists>as x bs. xs = as @ x # bs \<and> map f as = ys \<and> f x = z"
  by (auto simp: map_eq_append_conv)

lemma store_index_ok:
  assumes "store_index now' none_text def_type rewrite pkg (ask_origins up lim accept (map url origins)) idx = (resp, idx')"
    and "rs_status resp = 200"
  shows "\<exists>e. rs_body resp = Body (ie_body e) \<and> page_from up lim accept url origins rewrite (ie_body e) \<and>
    idx' = mput pkg e idx \<and> ie_at e = now'"
proof -
  obtain b ct where b: "ask_origins up lim accept (map url origins) = Index_Body b ct"
    using assms ask_origins_reply
    by (cases "ask_origins up lim accept (map url origins)") (auto simp: store_index_def)
  from ask_origins_body [OF b] obtain pre u post a where
    h: "map url origins = pre @ u # post" "\<forall>v \<in> set pre. passed_over up lim accept v" "asked up accept u = Inr a"
      "ua_status a = 200" "read_limited lim a = Some b" by blast
  from map_split [OF h(1)] obtain os o1 rest where
    os: "origins = os @ o1 # rest" "map url os = pre" "url o1 = u" by blast
  have "\<forall>v \<in> set os. passed_over up lim accept (url v)" using h(2) os(2) by auto
  then have "page_from up lim accept url origins rewrite (rewrite b)"
    unfolding page_from_def using os h by blast
  moreover obtain e where "idx' = mput pkg e idx" "rs_body resp = Body (ie_body e)" "ie_body e = rewrite b" "ie_at e = now'"
    using assms(1) b by (auto simp: store_index_def Let_def index_reply_def)
  ultimately show ?thesis by metis
qed

section \<open>Properties\<close>

text \<open>The entry a hit was served from.\<close>

definition served_fresh :: "time \<Rightarrow> duration \<Rightarrow> idx_cache \<Rightarrow> string \<Rightarrow> http_response \<Rightarrow> bool" where
  "served_fresh now ttl idx pkg resp \<longleftrightarrow>
     (\<exists>e. mget idx pkg = Some e \<and> time_sub now (ie_at e) \<le> ttl \<and> rs_body resp = Body (ie_body e))"

lemma fresh_entry_served:
  "fresh_entry now ttl idx pkg = Some e \<Longrightarrow> served_fresh now ttl idx pkg (index_reply m (ie_type e) (ie_body e))"
  by (auto simp: fresh_entry_def served_fresh_def index_reply_def split: option.splits if_splits)

text \<open>
  What a served page is: an entry no older than \<open>ttl\<close>, with nothing changed, or the page of the first origin
  that answered, which is then stored with the time of its arrival.
\<close>

definition index_outcome ::
    "time \<Rightarrow> time \<Rightarrow> duration \<Rightarrow> string \<Rightarrow> (string \<Rightarrow> bool) \<Rightarrow> idx_cache \<Rightarrow> http_response \<Rightarrow> idx_cache \<Rightarrow> bool" where
  "index_outcome now now' ttl pkg page idx resp idx' \<longleftrightarrow>
     (idx' = idx \<and> served_fresh now ttl idx pkg resp) \<or>
     (\<exists>e. rs_body resp = Body (ie_body e) \<and> idx' = mput pkg e idx \<and> ie_at e = now' \<and> page (ie_body e))"

lemma index_outcome_cases:
  assumes "(case fresh_entry now ttl idx pkg of
      Some e \<Rightarrow> (index_reply ''hit'' (ie_type e) (ie_body e), idx)
    | None \<Rightarrow> store_index now' none_text def_type rewrite pkg (ask_origins up lim accept (map url origins)) idx) = (resp, idx')"
    and "rs_status resp = 200"
  shows "index_outcome now now' ttl pkg (page_from up lim accept url origins rewrite) idx resp idx'"
proof (cases "fresh_entry now ttl idx pkg")
  case None
  then show ?thesis using assms store_index_ok unfolding index_outcome_def by (simp only: option.case) blast
next
  case (Some e)
  then show ?thesis using assms fresh_entry_served [OF Some] unfolding index_outcome_def by auto
qed

text \<open>
  Where an index page comes from. A page that the PyPI or the npm mirror serves is either an entry of its
  memory no older than the configured time, and nothing changes, or it is the page of the first origin that
  was neither unreachable nor broken nor failing nor rate-limiting, with its links rewritten, and exactly
  that page is stored with the time of its arrival.
\<close>

theorem index_page_source:
  "(serve_simple up now now' c pv idx = (resp, idx') \<and> rs_status resp = 200 \<longrightarrow>
     (let pkg = trim_set (to_lower pv) ''/'' in
      index_outcome now now' (py_index_ttl c) pkg
        (page_from up (16 * 2 ^ 20) pypi_accept (\<lambda>u. u @ ''/simple/'' @ pkg @ ''/'') (some_list (py_index_origins c)) (pypi_rewrite c))
        idx resp idx')) \<and>
   (serve_metadata up now now' n pv r idx = (resp, idx') \<and> rs_status resp = 200 \<longrightarrow>
     (let pkg = trim_set pv ''/'' in
      index_outcome now now' (np_index_ttl n) (replace_all pkg ''%2F'' ''/'')
        (page_from up (32 * 2 ^ 20) (hget (rq_header r) ''Accept'') (\<lambda>u. u @ ''/'' @ pkg) (some_list (np_origins n)) (npm_rewrite n pkg))
        idx resp idx'))"
proof (intro conjI impI; elim conjE)
  assume a: "serve_simple up now now' c pv idx = (resp, idx')" "rs_status resp = 200"
  show "let pkg = trim_set (to_lower pv) ''/'' in
      index_outcome now now' (py_index_ttl c) pkg
        (page_from up (16 * 2 ^ 20) pypi_accept (\<lambda>u. u @ ''/simple/'' @ pkg @ ''/'') (some_list (py_index_origins c)) (pypi_rewrite c))
        idx resp idx'"
  proof (cases "trim_set (to_lower pv) ''/'' = [] \<or> \<not> pypi_name (trim_set (to_lower pv) ''/'')")
    case False
    from a(1) [unfolded serve_simple_def Let_def if_not_P [OF False]] a(2) show ?thesis
      unfolding Let_def by (rule index_outcome_cases)
  qed (use a in \<open>auto simp: serve_simple_def Let_def\<close>)
next
  assume a: "serve_metadata up now now' n pv r idx = (resp, idx')" "rs_status resp = 200"
  show "let pkg = trim_set pv ''/'' in
      index_outcome now now' (np_index_ttl n) (replace_all pkg ''%2F'' ''/'')
        (page_from up (32 * 2 ^ 20) (hget (rq_header r) ''Accept'') (\<lambda>u. u @ ''/'' @ pkg) (some_list (np_origins n)) (npm_rewrite n pkg))
        idx resp idx'"
  proof (cases "\<not> npm_name (trim_set pv ''/'')")
    case False
    from a(1) [unfolded serve_metadata_def Let_def if_not_P [OF False]] a(2) show ?thesis
      unfolding Let_def by (rule index_outcome_cases)
  qed (use a in \<open>auto simp: serve_metadata_def Let_def\<close>)
qed

definition sample_pypi :: pypi_cfg where
  "sample_pypi = pypi_defaults \<lparr>py_index_origin = [], py_index_origins = None, py_files_origin = [], py_files_origins = None,
     py_public_base = ''http://m'', py_index_ttl = 0\<rparr>"

definition sample_upstream :: upstream where
  "sample_upstream q = Inr \<lparr>ua_status = 200, ua_header = [(''Content-Type'', ''text/html'')], ua_body = ''page'', ua_ok = True\<rparr>"

theorem index_page_source_witness:
  "\<exists>resp idx'. serve_simple sample_upstream 0 1 sample_pypi ''Pip'' [] = (resp, idx') \<and> rs_status resp = 200 \<and>
     index_outcome 0 1 (10 * minute) ''pip''
       (page_from sample_upstream (16 * 2 ^ 20) pypi_accept (\<lambda>u. u @ ''/simple/'' @ ''pip'' @ ''/'') [''https://pypi.org''] (pypi_rewrite sample_pypi))
       [] resp idx'"
proof -
  have t: "trim_set (to_lower ''Pip'') ''/'' = ''pip''" "pypi_name ''pip''" "url_parse ''https://pypi.org/simple/pip/'' \<noteq> None"
    "trim_right_set ''https://pypi.org'' ''/'' = ''https://pypi.org''"
    by code_simp+
  have c: "some_list (py_index_origins sample_pypi) = [''https://pypi.org'']" "py_index_ttl sample_pypi = 10 * minute"
    using t(4) by (simp_all add: sample_pypi_def pypi_defaults_def Let_def non_empty_def some_list_def)
  obtain resp idx' where r: "serve_simple sample_upstream 0 1 sample_pypi ''Pip'' [] = (resp, idx')"
    by (cases "serve_simple sample_upstream 0 1 sample_pypi ''Pip'' []")
  have "rs_status resp = 200"
    using r t c(1) unfolding serve_simple_def
    by (auto simp: Let_def fresh_entry_def store_index_def new_request_def sample_upstream_def read_limited_def index_reply_def
      simp del: to_lower_Cons)
  then show ?thesis
    using index_page_source [of sample_upstream 0 1 sample_pypi "''Pip''" "[]" resp idx'] r t(1) c by (auto simp: Let_def)
qed

section \<open>Which URL a file is fetched from\<close>

lemma parse_rest_scheme: "parse_rest u r = Some v \<Longrightarrow> u_scheme v = u_scheme u"
  by (auto simp: parse_rest_def set_path_def Let_def split: if_splits option.splits)

text \<open>A URL that starts with a slash has no scheme, so it has no canonical form.\<close>

lemma canonicalize_relative: "\<exists>e. canonicalize (CHR ''/'' # s) = Inl e"
proof (cases "url_parse (CHR ''/'' # s)")
  case None
  then show ?thesis by (simp add: canonicalize_def)
next
  case (Some v)
  obtain t where t: "fst (cut_byte (CHR ''#'') (CHR ''/'' # s)) = CHR ''/'' # t" by (simp add: cut_byte_def)
  have g: "get_scheme [] (CHR ''/'' # t) = Some ([], CHR ''/'' # t)"
    by (simp add: letter_def scheme_char_def char_class_defs)
  obtain w where w: "parse_no_fragment (CHR ''/'' # t) = Some w" "u_scheme v = u_scheme w"
    using Some t by (auto simp: url_parse_def split: prod.splits option.splits if_splits)
  have "u_scheme w = []"
    using w(1) g parse_rest_scheme
    by (fastforce simp: parse_no_fragment_def Let_def empty_url_def split: if_splits prod.splits)
  then show ?thesis using Some w(2) by (simp add: canonicalize_def)
qed

lemma pypi_defaults_files_origin [simp]: "py_files_origin (pypi_defaults c) = py_files_origin c"
  by (simp add: pypi_defaults_def Let_def)

lemma tarball_path_plain:
  assumes "CHR '':'' \<notin> set sch" and "CHR ''/'' \<notin> set h"
  shows "tarball_path_of (sch @ ''://'' @ h @ ''/'' @ p) = p"
proof -
  have "index_of (sch @ ''://'' @ h @ ''/'' @ p) ''://'' = Some (length sch)"
    using assms(1) by (induction sch) auto
  moreover have "index_byte (h @ CHR ''/'' # p) (CHR ''/'') = Some (length h)" by (rule index_byte_append [OF assms(2)])
  ultimately show ?thesis by (simp add: tarball_path_of_def)
qed

text \<open>
  Which URL a file is fetched from. With the default configuration, or whenever only the list of file
  origins is set, no PyPI file can be served: the URL is built from the single origin, which is empty, and
  every request ends in an error without changing anything. A tarball is looked up at every registry under
  the path behind the host of the first one, so a registry below a path is asked for that path twice.
\<close>

theorem registry_file_urls:
  "(py_files_origin c = [] \<longrightarrow>
     (\<exists>resp. serve_package etext ft env (pypi_defaults c) r st = (resp, st) \<and> rs_status resp \<in> {400, 404, 502})) \<and>
   (CHR '':'' \<notin> set sch \<and> CHR ''/'' \<notin> set h \<longrightarrow>
     tarball_path_of ((sch @ ''://'' @ h) @ ''/'' @ p) = p \<and>
     tarball_path_of ((sch @ ''://'' @ h @ ''/'' @ dir) @ ''/'' @ p) = dir @ ''/'' @ p)"
proof (intro conjI impI; (elim conjE)?)
  assume c: "py_files_origin c = []"
  let ?p = "trim_set (trim_prefix (rq_path r) ''/pypi/packages/'') ''/''"
  obtain e where e: "canonicalize (''/packages/'' @ ?p) = Inl e" using canonicalize_relative [of "''packages/'' @ ?p"] by auto
  show "\<exists>resp. serve_package etext ft env (pypi_defaults c) r st = (resp, st) \<and> rs_status resp \<in> {400, 404, 502}"
  proof (cases "?p = [] \<or> contains ?p ''..''")
    case True
    then show ?thesis by (simp add: serve_package_def Let_def)
  next
    case False
    then show ?thesis using c e by (simp add: serve_package_def serve_wheel_def Let_def fail_status_def)
  qed
next
  assume h: "CHR '':'' \<notin> set sch" "CHR ''/'' \<notin> set h"
  show "tarball_path_of ((sch @ ''://'' @ h) @ ''/'' @ p) = p" using tarball_path_plain [OF h, of p] by simp
  show "tarball_path_of ((sch @ ''://'' @ h @ ''/'' @ dir) @ ''/'' @ p) = dir @ ''/'' @ p"
    using tarball_path_plain [OF h, of "dir @ ''/'' @ p"] by simp
qed

theorem registry_file_urls_witness:
  "(\<exists>resp. serve_package (\<lambda>_. []) count_fetcher sample_reg sample_pypi (sample_request ''/pypi/packages/ab/x.whl'') (0, empty_store [])
      = (resp, (0, empty_store [])) \<and> rs_status resp \<in> {400, 404, 502}) \<and>
   tarball_path_of ''https://h.cn/npm/left-pad/-/left-pad-1.tgz'' = ''npm/left-pad/-/left-pad-1.tgz''"
  using registry_file_urls [of "\<lparr>py_index_origin = [], py_index_origins = None, py_files_origin = [], py_files_origins = None,
      py_public_base = ''http://m'', py_index_ttl = 0\<rparr>" "\<lambda>_. []" count_fetcher sample_reg
      "sample_request ''/pypi/packages/ab/x.whl''" "(0, empty_store [])" "''https''" "''h.cn''"
      "''left-pad/-/left-pad-1.tgz''" "''npm''"]
  unfolding sample_pypi_def by simp

end
