(* ===== verification/DockerMirror.thy ===== *)
theory DockerMirror
  imports Mirrors
begin

text \<open>
  \<^verbatim>\<open>internal/server/registrymirror/mirror.go\<close>: the Docker registry mirror. Tokens of the upstream registry and
  manifests are kept in memory, layers are fetched with a token, compared with their digest and stored like
  every other artifact. \<open>json_token\<close> reads the token of an answer of the token server.
\<close>

section \<open>State\<close>

record docker_cfg =
  dk_origin :: string
  dk_auth_url :: string
  dk_username :: string
  dk_password :: string
  dk_manifest_ttl :: duration

definition docker_defaults :: "docker_cfg \<Rightarrow> docker_cfg" where
  "docker_defaults c =
     c\<lparr>dk_origin := trim_right_set (if dk_origin c = [] then ''https://registry-1.docker.io'' else dk_origin c) ''/'',
       dk_auth_url := (if dk_auth_url c = [] then ''https://auth.docker.io/token'' else dk_auth_url c),
       dk_manifest_ttl := (if dk_manifest_ttl c \<le> 0 then 60 * second else dk_manifest_ttl c)\<rparr>"

record tok_entry =
  te_token :: string
  te_at :: time

record mf_entry =
  mf_body :: string
  mf_type :: string
  mf_at :: time
  mf_immutable :: bool

record docker =
  dm_toks :: "(string, tok_entry) gomap"
  dm_mfs :: "(string, mf_entry) gomap"

definition new_docker :: docker where
  "new_docker = \<lparr>dm_toks = [], dm_mfs = []\<rparr>"

text \<open>The repository and the reference around the marker.\<close>

definition split_repo_ref :: "string \<Rightarrow> string \<Rightarrow> (string \<times> string) option" where
  "split_repo_ref rest marker =
     (case index_of rest (''/'' @ marker @ ''/'') of
        None \<Rightarrow> None
      | Some i \<Rightarrow> if i = 0 then None else Some (take i rest, drop (i + length marker + 2) rest))"

section \<open>Upstream tokens\<close>

definition token_request :: "docker_cfg \<Rightarrow> string \<Rightarrow> out_request option" where
  "token_request cfg repo =
     map_option (add_headers (\<lambda>h. if dk_username cfg = [] then h
                   else hset ''Authorization'' (basic_auth_value (dk_username cfg) (dk_password cfg)) h))
       (new_request ''GET'' (dk_auth_url cfg @ ''?service=registry.docker.io&scope='' @
          query_escape (''repository:'' @ repo @ '':pull'')))"

definition truncated :: "string \<Rightarrow> nat \<Rightarrow> string" where
  "truncated b n = (if n < length b then take n b else b)"

text \<open>A token no older than four minutes is reused. A left result is the error of the library or its text.\<close>

definition docker_token ::
    "upstream \<Rightarrow> (string \<Rightarrow> string option) \<Rightarrow> time \<Rightarrow> time \<Rightarrow> docker_cfg \<Rightarrow> string \<Rightarrow> docker \<Rightarrow>
     (body + string) \<times> docker" where
  "docker_token up json_token now now' cfg repo m =
     (let ask = (case token_request cfg repo of
            None \<Rightarrow> (Inl Library_Error, m)
          | Some q \<Rightarrow>
              (case up q of
                 Inl e \<Rightarrow> (Inl (Body (''registry auth: '' @ e)), m)
               | Inr a \<Rightarrow>
                   (let b = take (2 ^ 20) (ua_body a) in
                    if ua_status a \<noteq> 200 then
                      (Inl (Body (''registry auth: HTTP '' @ itoa (int (ua_status a)) @ '' ('' @ truncated b 200 @ '')'')), m)
                    else case json_token b of
                      None \<Rightarrow> (Inl (Body ''registry auth: bad token http_response''), m)
                    | Some t \<Rightarrow>
                        if t = [] then (Inl (Body ''registry auth: bad token http_response''), m)
                        else (Inr t, m\<lparr>dm_toks := mput repo \<lparr>te_token = t, te_at = now'\<rparr> (dm_toks m)\<rparr>))))
      in case mget (dm_toks m) repo of
           Some e \<Rightarrow> if time_sub now (te_at e) < 4 * minute then (Inr (te_token e), m) else ask
         | None \<Rightarrow> ask)"

text \<open>\<open>http.Error\<close> with the text of an error.\<close>

definition error_body :: "body \<Rightarrow> nat \<Rightarrow> http_response" where
  "error_body b st = (case b of Body t \<Rightarrow> http_error t st | Library_Error \<Rightarrow> library_error st)"

lemma rs_status_error_body [simp]: "rs_status (error_body b st) = st"
  by (simp add: error_body_def split: body.splits)

section \<open>Requests passed on\<close>

definition with_token :: "string \<Rightarrow> string \<Rightarrow> out_request \<Rightarrow> out_request" where
  "with_token tok accept =
     add_headers (\<lambda>h. (if accept \<noteq> [] then hset ''Accept'' accept else (\<lambda>x. x)) (hset ''Authorization'' (''Bearer '' @ tok) h))"

definition proxy_upstream ::
    "upstream \<Rightarrow> (string \<Rightarrow> string option) \<Rightarrow> time \<Rightarrow> time \<Rightarrow> docker_cfg \<Rightarrow> request \<Rightarrow> string \<Rightarrow> string \<Rightarrow> docker \<Rightarrow>
     http_response \<times> docker" where
  "proxy_upstream up json_token now now' cfg r repo path m =
     (case docker_token up json_token now now' cfg repo m of
        (Inl e, m') \<Rightarrow> (error_body e 502, m')
      | (Inr tok, m') \<Rightarrow>
          (case new_request (rq_method r) (dk_origin cfg @ path) of
             None \<Rightarrow> (library_error 400, m')
           | Some q \<Rightarrow>
               (case up (with_token tok (hget (rq_header r) ''Accept'') q) of
                  Inl e \<Rightarrow> (http_error (''upstream: '' @ e) 502, m')
                | Inr a \<Rightarrow>
                    (\<lparr>rs_status = ua_status a,
                      rs_header = copy_headers [''Content-Type'', ''Content-Length'', ''Docker-Content-Digest'', ''ETag''] (ua_header a) [],
                      rs_body = Body []\<rparr>, m'))))"

section \<open>Manifests\<close>

definition write_manifest :: "header \<Rightarrow> mf_entry \<Rightarrow> http_response" where
  "write_manifest h e =
     \<lparr>rs_status = 200,
      rs_header = hset ''X-Dldw-Cache'' ''hit'' (hset ''Content-Length'' (itoa (int (length (mf_body e))))
        (hset ''Content-Type'' (mf_type e) h)),
      rs_body = Body (mf_body e)\<rparr>"

definition cached_manifest :: "time \<Rightarrow> docker_cfg \<Rightarrow> docker \<Rightarrow> string \<Rightarrow> mf_entry option" where
  "cached_manifest now cfg m key =
     (case mget (dm_mfs m) key of
        None \<Rightarrow> None
      | Some e \<Rightarrow> if \<not> mf_immutable e \<and> dk_manifest_ttl cfg < time_sub now (mf_at e) then None else Some e)"

definition manifest_types :: string where
  "manifest_types =
     ''application/vnd.docker.distribution.manifest.v2+json, '' @
     ''application/vnd.docker.distribution.manifest.list.v2+json, '' @
     ''application/vnd.oci.image.manifest.v1+json, '' @ ''application/vnd.oci.image.index.v1+json''"

text \<open>\<open>ask_manifest\<close>: a manifest that is not in memory.\<close>

definition ask_manifest ::
    "upstream \<Rightarrow> (string \<Rightarrow> string option) \<Rightarrow> time \<Rightarrow> time \<Rightarrow> docker_cfg \<Rightarrow> request \<Rightarrow> string \<Rightarrow> string \<Rightarrow> docker \<Rightarrow>
     http_response \<times> docker" where
  "ask_manifest up json_token now now' cfg r name ref m =
     (case new_request ''GET'' (dk_origin cfg @ ''/v2/'' @ name @ ''/manifests/'' @ ref) of
        None \<Rightarrow> (library_error 400, m)
      | Some q \<Rightarrow>
          (case docker_token up json_token now now' cfg name m of
             (Inl e, m') \<Rightarrow> (error_body e 502, m')
           | (Inr tok, m') \<Rightarrow>
               (let accept = hget (rq_header r) ''Accept'' in
                case up (with_token tok (if accept \<noteq> [] then accept else manifest_types) q) of
                  Inl e \<Rightarrow> (http_error (''upstream: '' @ e) 502, m')
                | Inr a \<Rightarrow>
                    if \<not> ua_ok a \<and> length (ua_body a) < 8 * 2 ^ 20 then ((library_error 502), m')
                    else
                      (let b = take (8 * 2 ^ 20) (ua_body a) in
                       if ua_status a \<noteq> 200 then
                         (\<lparr>rs_status = ua_status a,
                           rs_header = copy_headers [''Content-Type'', ''Docker-Content-Digest''] (ua_header a) [],
                           rs_body = Body b\<rparr>, m')
                       else
                         (let ct = hget (ua_header a) ''Content-Type'';
                              e = \<lparr>mf_body = b,
                                   mf_type = (if ct = [] then ''application/vnd.docker.distribution.manifest.v2+json'' else ct),
                                   mf_at = now', mf_immutable = has_prefix ref ''sha256:''\<rparr>
                          in (write_manifest (copy_headers [''Docker-Content-Digest''] (ua_header a) []) e,
                              m'\<lparr>dm_mfs := mput (name @ ''/'' @ ref) e (dm_mfs m')\<rparr>))))))"

definition serve_manifest ::
    "upstream \<Rightarrow> (string \<Rightarrow> string option) \<Rightarrow> time \<Rightarrow> time \<Rightarrow> docker_cfg \<Rightarrow> request \<Rightarrow> string \<Rightarrow> docker \<Rightarrow>
     http_response \<times> docker" where
  "serve_manifest up json_token now now' cfg r rest m =
     (case split_repo_ref rest ''manifests'' of
        None \<Rightarrow> (not_found, m)
      | Some (name, ref) \<Rightarrow>
          if name = [] \<or> ref = [] then (not_found, m)
          else if rq_method r = ''HEAD'' then proxy_upstream up json_token now now' cfg r name rest m
          else
            (case (if has_prefix ref ''sha256:'' then None else cached_manifest now cfg m (name @ ''/'' @ ref)) of
               Some e \<Rightarrow> (write_manifest [] e, m)
             | None \<Rightarrow> ask_manifest up json_token now now' cfg r name ref m))"

section \<open>Layers\<close>

text \<open>The file operations around a fetch.\<close>

record blob_io =
  bi_mkdir :: bool
  bi_temp :: bool
  bi_close :: bool
  bi_open :: bool

datatype blob_error =
    Blob_No_Token body | Blob_Request | Blob_File | Blob_Unreachable string | Blob_HTTP nat | Blob_Copy
  | Digest_Mismatch string string | Blob_Not_Stored store_error | Blob_Not_Registered task_error | Blob_Not_Presigned store_error

definition blob_task :: "reg_env \<Rightarrow> string \<Rightarrow> string \<Rightarrow> string \<Rightarrow> obj_info \<Rightarrow> string \<Rightarrow> task" where
  "blob_task env canonical ckey key ob sha =
     (new_task (re_rnd env) (re_now env) canonical canonical ckey family_docker_blob ''registry-mirror'' 0)
       \<lparr>tk_status := Ready, tk_progress := (1, 1),
        tk_artifact := Some \<lparr>ar_size = ob_size ob, ar_sha256 = sha, ar_etag = ob_etag ob, ar_content_type = [],
          ar_storage_key = key\<rparr>\<rparr>"

definition blob_presigned :: "(string \<Rightarrow> duration \<Rightarrow> store_error + string) \<Rightarrow> duration \<Rightarrow> string \<Rightarrow> blob_error + string" where
  "blob_presigned presign ttl key = (case presign key ttl of Inl e \<Rightarrow> Inl (Blob_Not_Presigned e) | Inr u \<Rightarrow> Inr u)"

text \<open>The download: status, copy, close, then the digest.\<close>

definition fetch_blob :: "upstream \<Rightarrow> blob_io \<Rightarrow> string \<Rightarrow> string \<Rightarrow> string \<Rightarrow> blob_error + byte list" where
  "fetch_blob up io canonical tok digest =
     (case new_request ''GET'' canonical of
        None \<Rightarrow> Inl Blob_Request
      | Some q \<Rightarrow>
          if \<not> bi_mkdir io \<or> \<not> bi_temp io then Inl Blob_File
          else case up (with_token tok [] q) of
            Inl e \<Rightarrow> Inl (Blob_Unreachable e)
          | Inr a \<Rightarrow>
              if ua_status a \<noteq> 200 then Inl (Blob_HTTP (ua_status a))
              else if \<not> ua_ok a \<or> \<not> bi_close io then Inl Blob_Copy
              else
                (let data = str_bytes (ua_body a); got = bytes_hex (sha256 data) in
                 if got \<noteq> drop 7 digest then Inl (Digest_Mismatch got digest)
                 else if \<not> bi_open io then Inl Blob_File
                 else Inr data))"

definition fetch_or_presign_blob ::
    "upstream \<Rightarrow> (string \<Rightarrow> string option) \<Rightarrow> time \<Rightarrow> time \<Rightarrow> docker_cfg \<Rightarrow> blob_io \<Rightarrow> 's fetcher \<Rightarrow> reg_env \<Rightarrow>
     string \<Rightarrow> string \<Rightarrow> string \<Rightarrow> docker \<times> 's cache \<Rightarrow> (blob_error + string) \<times> docker \<times> 's cache" where
  "fetch_or_presign_blob up json_token now now' cfg io ft env repo canonical digest st =
     (let (m, s, ts) = st; ckey = cache_key canonical family_docker_blob; key = storage_key_for family_docker_blob ckey in
      case cached_artifact ts ckey of
        Some a \<Rightarrow> (blob_presigned (ft_presign ft) (ft_ttl ft) (ar_storage_key a), st)
      | None \<Rightarrow>
          (case docker_token up json_token now now' cfg repo m of
             (Inl e, m') \<Rightarrow> (Inl (Blob_No_Token e), m', s, ts)
           | (Inr tok, m') \<Rightarrow>
               (case fetch_blob up io canonical tok digest of
                  Inl e \<Rightarrow> (Inl e, m', s, ts)
                | Inr data \<Rightarrow>
                    (case ft_put ft s key data (int (length data)) ''application/octet-stream'' of
                       (Inl e, s') \<Rightarrow> (Inl (Blob_Not_Stored e), m', s', ts)
                     | (Inr ob, s') \<Rightarrow>
                         (case put (re_io env) (re_now env) ts (blob_task env canonical ckey key ob (bytes_hex (sha256 data))) of
                            (Some e, ts') \<Rightarrow> (Inl (Blob_Not_Registered e), m', s', ts')
                          | (None, ts') \<Rightarrow> (blob_presigned (ft_presign ft) (ft_ttl ft) key, m', s', ts'))))))"

definition serve_blob_head ::
    "upstream \<Rightarrow> (string \<Rightarrow> string option) \<Rightarrow> time \<Rightarrow> time \<Rightarrow> docker_cfg \<Rightarrow> request \<Rightarrow> string \<Rightarrow> string \<Rightarrow> string \<Rightarrow>
     docker \<times> 's cache \<Rightarrow> http_response \<times> docker \<times> 's cache" where
  "serve_blob_head up json_token now now' cfg r name digest canonical st =
     (case cached_artifact (snd (snd st)) (cache_key canonical family_docker_blob) of
        Some a \<Rightarrow>
          (\<lparr>rs_status = 200, rs_header = hset ''Docker-Content-Digest'' digest [(''Content-Length'', itoa (ar_size a))],
            rs_body = Body []\<rparr>, st)
      | None \<Rightarrow>
          (let (resp, m') = proxy_upstream up json_token now now' cfg r name (''/v2/'' @ name @ ''/blobs/'' @ digest) (fst st)
           in (resp, m', snd st)))"

definition serve_blob ::
    "upstream \<Rightarrow> (string \<Rightarrow> string option) \<Rightarrow> time \<Rightarrow> time \<Rightarrow> docker_cfg \<Rightarrow> blob_io \<Rightarrow> 's fetcher \<Rightarrow> reg_env \<Rightarrow>
     request \<Rightarrow> string \<Rightarrow> docker \<times> 's cache \<Rightarrow> http_response \<times> docker \<times> 's cache" where
  "serve_blob up json_token now now' cfg io ft env r rest st =
     (case split_repo_ref rest ''blobs'' of
        None \<Rightarrow> (not_found, st)
      | Some (name, digest) \<Rightarrow>
          if name = [] \<or> \<not> has_prefix digest ''sha256:'' \<or> length digest \<noteq> 7 + 64 then (not_found, st)
          else
            (let canonical = dk_origin cfg @ ''/v2/'' @ name @ ''/blobs/'' @ digest in
             if rq_method r = ''HEAD'' then serve_blob_head up json_token now now' cfg r name digest canonical st
             else
               (let (res, st') = fetch_or_presign_blob up json_token now now' cfg io ft env name canonical digest st;
                    target = (case res of Inl _ \<Rightarrow> [] | Inr u \<Rightarrow> u)
                in (if target = [] then http_error ''blob fetch failed'' 502
                    else found [(''Docker-Distribution-Api-Version'', ''registry/2.0'')] target, st'))))"

definition docker_serve ::
    "upstream \<Rightarrow> (string \<Rightarrow> string option) \<Rightarrow> time \<Rightarrow> time \<Rightarrow> docker_cfg \<Rightarrow> blob_io \<Rightarrow> 's fetcher \<Rightarrow> reg_env \<Rightarrow>
     request \<Rightarrow> docker \<times> 's cache \<Rightarrow> http_response \<times> docker \<times> 's cache" where
  "docker_serve up json_token now now' cfg io ft env r st =
     (let rest = trim_set (trim_prefix (rq_path r) ''/v2'') ''/'' in
      if rest = [] then
        (\<lparr>rs_status = 200, rs_header = [(''Content-Type'', ''application/json''), (''Docker-Distribution-Api-Version'', ''registry/2.0'')],
          rs_body = Body (''{}'' @ [CHR 0x0A])\<rparr>, st)
      else if contains rest ''/manifests/'' then
        (let (resp, m') = serve_manifest up json_token now now' cfg r rest (fst st) in (resp, m', snd st))
      else if contains rest ''/blobs/'' then serve_blob up json_token now now' cfg io ft env r rest st
      else (not_found, st))"

section \<open>What is stored\<close>

lemma fetch_blob_verified: "fetch_blob up io canonical tok digest = Inr data \<Longrightarrow> bytes_hex (sha256 data) = drop 7 digest"
  by (auto simp: fetch_blob_def Let_def split: option.splits sum.splits if_splits)

lemma blob_task_fields [simp]:
  "tk_status (blob_task env canonical ckey key ob sha) = Ready"
  "tk_cache_key (blob_task env canonical ckey key ob sha) = ckey"
  "tk_id (blob_task env canonical ckey key ob sha) = new_task_id (re_rnd env)"
  "tk_artifact (blob_task env canonical ckey key ob sha) =
     Some \<lparr>ar_size = ob_size ob, ar_sha256 = sha, ar_etag = ob_etag ob, ar_content_type = [], ar_storage_key = key\<rparr>"
  by (simp_all add: blob_task_def new_task_def)

context object_store
begin

text \<open>Whatever is put, its hash is the digest that was asked for.\<close>

lemma blob_put_verified:
  assumes "fetch_or_presign_blob up json_token now now' cfg io ft env repo canonical digest (m, s, ts) = (res, m', s', ts')"
    and "ft_put ft = put_obj" and "inv s" and "s' \<noteq> s \<or> ts' \<noteq> ts"
  shows "\<exists>data r. bytes_hex (sha256 data) = drop 7 digest \<and>
    put_obj s (storage_key_for family_docker_blob (cache_key canonical family_docker_blob)) data (int (length data))
      ''application/octet-stream'' = (r, s') \<and>
    (ts' \<noteq> ts \<longrightarrow> (\<exists>ob e. r = Inr ob \<and>
      put (re_io env) (re_now env) ts (blob_task env canonical (cache_key canonical family_docker_blob)
        (storage_key_for family_docker_blob (cache_key canonical family_docker_blob)) ob (drop 7 digest)) = (e, ts')))"
proof -
  let ?ck = "cache_key canonical family_docker_blob" let ?key = "storage_key_for family_docker_blob ?ck"
  have c: "cached_artifact ts ?ck = None"
    using assms(1,4) by (auto simp: fetch_or_presign_blob_def Let_def split: option.splits)
  obtain tok data where d: "fetch_blob up io canonical tok digest = Inr data"
    "(case put_obj s ?key data (int (length data)) ''application/octet-stream'' of
       (Inl e, s1) \<Rightarrow> s' = s1 \<and> ts' = ts
     | (Inr ob, s1) \<Rightarrow> s' = s1 \<and> (\<exists>e. put (re_io env) (re_now env) ts (blob_task env canonical ?ck ?key ob (bytes_hex (sha256 data))) = (e, ts')))"
    using assms(1,2,4) c
    by (auto simp: fetch_or_presign_blob_def Let_def split: prod.splits sum.splits option.splits)
  then show ?thesis using fetch_blob_verified [OF d(1)] by (auto split: prod.splits sum.splits)
qed

text \<open>After a successful fetch the layer and its task are there.\<close>

lemma blob_fetch_stores:
  assumes "fetch_or_presign_blob up json_token now now' cfg io ft env repo canonical digest (m, s, ts) = (Inr u, m', s', ts')"
    and "ft_put ft = put_obj" and "inv s" and "cached_artifact ts (cache_key canonical family_docker_blob) = None"
    and "mget (st_by_id ts) (new_task_id (re_rnd env)) = None"
  shows "\<exists>data t a. bytes_hex (sha256 data) = drop 7 digest \<and>
    get_obj s' (storage_key_for family_docker_blob (cache_key canonical family_docker_blob)) = Inr data \<and>
    get_by_cache_key ts' (cache_key canonical family_docker_blob) = Inr t \<and> tk_status t = Ready \<and> tk_artifact t = Some a \<and>
    ar_sha256 a = drop 7 digest \<and> ar_storage_key a = storage_key_for family_docker_blob (cache_key canonical family_docker_blob)"
proof -
  let ?ck = "cache_key canonical family_docker_blob" let ?key = "storage_key_for family_docker_blob ?ck"
  obtain tok data ob where d: "fetch_blob up io canonical tok digest = Inr data"
    "put_obj s ?key data (int (length data)) ''application/octet-stream'' = (Inr ob, s')"
    "put (re_io env) (re_now env) ts (blob_task env canonical ?ck ?key ob (bytes_hex (sha256 data))) = (None, ts')"
    using assms(1,2,4)
    by (auto simp: fetch_or_presign_blob_def Let_def split: prod.splits sum.splits option.splits)
  have h: "bytes_hex (sha256 data) = drop 7 digest" by (rule fetch_blob_verified [OF d(1)])
  obtain t where "get_by_cache_key ts' ?ck = Inr t" "tk_status t = Ready"
    "tk_artifact t = tk_artifact (blob_task env canonical ?ck ?key ob (bytes_hex (sha256 data)))"
    using register_ready [OF d(3)] assms(5) by auto
  then show ?thesis using put_get [OF assms(3) d(2)] h by auto
qed

end

section \<open>Properties\<close>

abbreviation blob_key :: "string \<Rightarrow> string" where
  "blob_key canonical \<equiv> fetch_key canonical family_docker_blob"

text \<open>
  C22. Layers are what their digest says. Over the local driver, a fetch puts nothing but bytes whose SHA-256 is
  the digest that was asked for, whatever the upstream sends. When a layer that was not cached is answered,
  its object holds such bytes, and the task store leads its cache key to a ready task with that hash and
  that object, so every later request is served from them.
\<close>

theorem docker_layers_verified:
  assumes "fetch_or_presign_blob up json_token now now' cfg io ft env repo canonical digest (m, f, ts) = (res, m', f', ts')"
    and "ft_put ft = put_object pio d" and "fs_ok f"
  shows "(f' \<noteq> f \<longrightarrow> (\<exists>data r. bytes_hex (sha256 data) = drop 7 digest \<and>
      put_object pio d f (blob_key canonical) data (int (length data)) ''application/octet-stream'' = (r, f'))) \<and>
    (\<forall>u. res = Inr u \<and> cached_artifact ts (cache_key canonical family_docker_blob) = None \<and>
        mget (st_by_id ts) (new_task_id (re_rnd env)) = None \<longrightarrow>
      (\<exists>data t a. bytes_hex (sha256 data) = drop 7 digest \<and> get_object jt d f' (blob_key canonical) = Inr data \<and>
        get_by_cache_key ts' (cache_key canonical family_docker_blob) = Inr t \<and> tk_status t = Ready \<and>
        tk_artifact t = Some a \<and> ar_sha256 a = drop 7 digest \<and> ar_storage_key a = blob_key canonical))"
proof (intro conjI impI allI; (elim conjE)?)
  assume "f' \<noteq> f"
  then show "\<exists>data r. bytes_hex (sha256 data) = drop 7 digest \<and>
      put_object pio d f (blob_key canonical) data (int (length data)) ''application/octet-stream'' = (r, f')"
    using lf.blob_put_verified [OF assms] by blast
next
  fix u assume "res = Inr u" "cached_artifact ts (cache_key canonical family_docker_blob) = None"
    "mget (st_by_id ts) (new_task_id (re_rnd env)) = None"
  then show "\<exists>data t a. bytes_hex (sha256 data) = drop 7 digest \<and> get_object jt d f' (blob_key canonical) = Inr data \<and>
      get_by_cache_key ts' (cache_key canonical family_docker_blob) = Inr t \<and> tk_status t = Ready \<and>
      tk_artifact t = Some a \<and> ar_sha256 a = drop 7 digest \<and> ar_storage_key a = blob_key canonical"
    using lf.blob_fetch_stores [OF _ assms(2,3)] assms(1) by blast
qed

definition sample_docker_cfg :: docker_cfg where
  "sample_docker_cfg = \<lparr>dk_origin = ''http://r'', dk_auth_url = ''http://t'', dk_username = [], dk_password = [], dk_manifest_ttl = 60 * second\<rparr>"

definition sample_docker :: docker where
  "sample_docker = \<lparr>dm_toks = [(''a'', \<lparr>te_token = ''T'', te_at = 0\<rparr>)], dm_mfs = []\<rparr>"

text \<open>An empty layer.\<close>

theorem docker_layers_verified_witness:
  "\<exists>u m' f' ts' data. fetch_or_presign_blob (\<lambda>q. Inr \<lparr>ua_status = 200, ua_header = [], ua_body = [], ua_ok = True\<rparr>) (\<lambda>_. None) 0 0
      sample_docker_cfg \<lparr>bi_mkdir = True, bi_temp = True, bi_close = True, bi_open = True\<rparr> sample_fetcher sample_reg ''a''
      ''http://r/v2/a'' (''sha256:'' @ bytes_hex (sha256 [])) (sample_docker, empty_fs, empty_store []) = (Inr u, m', f', ts') \<and>
    get_object (\<lambda>_. []) sample_local f' (blob_key ''http://r/v2/a'') = Inr data \<and>
    bytes_hex (sha256 data) = bytes_hex (sha256 [])"
proof -
  let ?key = "blob_key ''http://r/v2/a''" and ?ck = "cache_key ''http://r/v2/a'' family_docker_blob"
  let ?run = "fetch_or_presign_blob (\<lambda>q. Inr \<lparr>ua_status = 200, ua_header = [], ua_body = [], ua_ok = True\<rparr>) (\<lambda>_. None) 0 0
      sample_docker_cfg \<lparr>bi_mkdir = True, bi_temp = True, bi_close = True, bi_open = True\<rparr> sample_fetcher sample_reg ''a''
      ''http://r/v2/a'' (''sha256:'' @ bytes_hex (sha256 [])) (sample_docker, empty_fs, empty_store [])"
  have "validate_key ?key = None"
    by (rule fetch_key_valid) (simp_all add: family_docker_blob_def key_char_def char_class_defs)
  then obtain ob g where p: "put_object all_io sample_local empty_fs ?key [] 0 ''application/octet-stream'' = (Inr ob, g)"
    using put_into_empty [of sample_local "tl (lf_root sample_local)" ?key "[]"] by (fastforce simp: sample_local_def)
  have c: "cached_artifact (empty_store []) k = None" for k
    by (simp add: cached_artifact_def get_by_cache_key_def empty_store_def)
  have k: "?ck \<noteq> []" using length_cache_key by (metis list.size(3) zero_neq_numeral)
  have t: "docker_token up j 0 0 cfg ''a'' sample_docker = (Inr ''T'', sample_docker)" for up j cfg
    by (simp add: docker_token_def sample_docker_def time_sub_def duration_defs min_int64_def max_int64_def)
  have u: "new_request ''GET'' ''http://r/v2/a'' \<noteq> None" unfolding new_request_def by code_simp
  have f: "fetch_blob (\<lambda>q. Inr \<lparr>ua_status = 200, ua_header = [], ua_body = [], ua_ok = True\<rparr>)
      \<lparr>bi_mkdir = True, bi_temp = True, bi_close = True, bi_open = True\<rparr> ''http://r/v2/a'' ''T'' (''sha256:'' @ bytes_hex (sha256 [])) = Inr []"
    using u by (auto simp: fetch_blob_def str_bytes_def Let_def)
  have fp: "ft_put sample_fetcher = put_object all_io sample_local" by (simp add: sample_fetcher_def)
  have n: "new_task_id (re_rnd sample_reg) \<noteq> []" by (simp add: new_task_id_def)
  then obtain ts' where "put (re_io sample_reg) (re_now sample_reg) (empty_store [])
      (blob_task sample_reg ''http://r/v2/a'' ?ck ?key ob (bytes_hex (sha256 []))) = (None, ts')"
    using k by (auto simp: put_def persist_def empty_store_def store_both_def Let_def)
  then have r: "?run = (Inr ?key, sample_docker, g, ts')"
    using p c t f fp by (simp add: fetch_or_presign_blob_def Let_def blob_presigned_def) (simp add: sample_fetcher_def)
  have e: "fs_ok empty_fs" by (simp add: fs_ok_def empty_fs_def)
  have "mget (st_by_id (empty_store [])) (new_task_id (re_rnd sample_reg)) = None" by (simp add: empty_store_def)
  then show ?thesis using docker_layers_verified [OF r fp e, of "\<lambda>_. []"] r c by (auto simp del: append.simps)
qed

lemma token_ignores_manifests:
  "docker_token up j now now' cfg repo (m\<lparr>dm_mfs := x\<rparr>) =
   (fst (docker_token up j now now' cfg repo m), (snd (docker_token up j now now' cfg repo m))\<lparr>dm_mfs := x\<rparr>)"
  by (simp add: docker_token_def Let_def split: option.splits sum.splits)

lemma ask_manifest_ignores_memory:
  "fst (ask_manifest up j now now' cfg r name ref (m\<lparr>dm_mfs := x\<rparr>)) = fst (ask_manifest up j now now' cfg r name ref m)"
  by (simp add: ask_manifest_def token_ignores_manifests Let_def split: option.splits sum.splits prod.splits)

text \<open>
  Which manifests are asked for, and where. A tag is answered from memory, without the registry, while
  its manifest is no older than the configured time. A manifest named by its digest is kept for ever but
  never read: the answer does not depend on the memory at all. A HEAD request is sent to the origin followed
  by the path without a slash, so its host is the origin's with the start of the repository name appended,
  which a repository name can make any server; the request carries the upstream token.
\<close>

theorem docker_manifest_requests:
  assumes "split_repo_ref rest ''manifests'' = Some (name, ref)" and "name \<noteq> []" and "ref \<noteq> []"
  shows "(\<forall>e. rq_method r \<noteq> ''HEAD'' \<and> \<not> has_prefix ref ''sha256:'' \<and> mget (dm_mfs m) (name @ ''/'' @ ref) = Some e \<and>
        time_sub now (mf_at e) \<le> dk_manifest_ttl cfg \<longrightarrow>
      serve_manifest up j now now' cfg r rest m = (write_manifest [] e, m)) \<and>
    (rq_method r \<noteq> ''HEAD'' \<and> has_prefix ref ''sha256:'' \<longrightarrow>
      fst (serve_manifest up j now now' cfg r rest (m\<lparr>dm_mfs := x\<rparr>)) = fst (serve_manifest up j now now' cfg r rest m)) \<and>
    (rq_method r = ''HEAD'' \<and> dk_origin cfg = ''https://registry-1.docker.io'' \<and> rest = ''.evil.io/a/manifests/b'' \<longrightarrow>
      serve_manifest up j now now' cfg r rest m = proxy_upstream up j now now' cfg r name rest m \<and>
      map_option url_hostname (url_parse (dk_origin cfg @ rest)) = Some ''registry-1.docker.io.evil.io'')"
proof (intro conjI allI impI; elim conjE)
  fix e assume "rq_method r \<noteq> ''HEAD''" "\<not> has_prefix ref ''sha256:''" "mget (dm_mfs m) (name @ ''/'' @ ref) = Some e"
    "time_sub now (mf_at e) \<le> dk_manifest_ttl cfg"
  then show "serve_manifest up j now now' cfg r rest m = (write_manifest [] e, m)"
    using assms by (simp add: serve_manifest_def cached_manifest_def)
next
  assume "rq_method r \<noteq> ''HEAD''" "has_prefix ref ''sha256:''"
  then show "fst (serve_manifest up j now now' cfg r rest (m\<lparr>dm_mfs := x\<rparr>)) = fst (serve_manifest up j now now' cfg r rest m)"
    using assms ask_manifest_ignores_memory by (simp add: serve_manifest_def)
next
  assume h: "rq_method r = ''HEAD''" "dk_origin cfg = ''https://registry-1.docker.io''" "rest = ''.evil.io/a/manifests/b''"
  show "serve_manifest up j now now' cfg r rest m = proxy_upstream up j now now' cfg r name rest m"
    using assms h(1) by (simp add: serve_manifest_def)
  have "map_option url_hostname (url_parse ''https://registry-1.docker.io.evil.io/a/manifests/b'') = Some ''registry-1.docker.io.evil.io''"
    by code_simp
  then show "map_option url_hostname (url_parse (dk_origin cfg @ rest)) = Some ''registry-1.docker.io.evil.io''" unfolding h by simp
qed

theorem docker_manifest_requests_witness:
  "map_option url_hostname (url_parse (''https://registry-1.docker.io'' @ ''.evil.io/a/manifests/b'')) = Some ''registry-1.docker.io.evil.io''"
proof -
  have "split_repo_ref ''.evil.io/a/manifests/b'' ''manifests'' = Some (''.evil.io/a'', ''b'')" by code_simp
  from docker_manifest_requests [OF this, of "(sample_request [])\<lparr>rq_method := ''HEAD''\<rparr>" _ _
      "sample_docker_cfg\<lparr>dk_origin := ''https://registry-1.docker.io''\<rparr>"]
  show ?thesis by simp
qed

end
