(* ===== verification/Api.thy ===== *)
theory Api
  imports Registries DockerMirror Auth RateLimit Whitelist
begin

text \<open>
  \<^verbatim>\<open>internal/server/api/api.go\<close>: the control API. Every request goes through the middleware, the routes, the
  authentication of its route and one handler. The JSON replies are the constructors of \<open>reply\<close>; audit
  lines, timing and the version headers are left out. The storage is the local driver's file system.
\<close>

section \<open>Configuration, state, replies\<close>

text \<open>A mirror that is not configured is None.\<close>

record api_cfg =
  ac_engine :: engine_cfg
  ac_local :: "local_cfg option"
  ac_registration :: bool
  ac_pypi :: "pypi_cfg option"
  ac_npm :: "npm_cfg option"
  ac_web :: "string list option"
  ac_gomod :: "string list option"
  ac_hf :: "string option"
  ac_docker :: "docker_cfg option"
  ac_mirror_auth :: bool

record api_state =
  as_ip :: limiter
  as_register :: limiter
  as_resolve :: count
  as_tokens :: tstore
  as_wl :: wl_store
  as_cache :: "fs cache"
  as_pypi :: idx_cache
  as_npm :: idx_cache
  as_docker :: docker

definition default_ip_rate :: limiter where "default_ip_rate = new_limiter 50 100"
definition default_register_rate :: limiter where "default_register_rate = new_limiter (1 / 20) 5"
definition default_resolve_rate :: count where "default_resolve_rate = new_count 120 hour"

datatype 'a body_read = Unreadable | Bad_Body_JSON | Parsed 'a

record resolve_req =
  rv_url :: string
  rv_client_id :: string

record token_req =
  tq_action :: string
  tq_client_id :: string
  tq_token :: string

text \<open>
  What one request gets from outside: the clock (at the checks and later), randomness, the fate of saves,
  the upstream servers, the storage's presigning and reachability, the executor, and its parsed body.
\<close>

record api_env =
  ev_now :: time
  ev_later :: time
  ev_io :: bool
  ev_rnd :: "nat \<Rightarrow> byte list option"
  ev_rnd_token :: "nat \<Rightarrow> byte list option"
  ev_rnd_id :: "nat \<Rightarrow> byte list option"
  ev_up :: upstream
  ev_presign :: "string \<Rightarrow> duration \<Rightarrow> store_error + string"
  ev_ping :: bool
  ev_fetcher :: "fs fetcher"
  ev_blob_io :: blob_io
  ev_json_token :: "string \<Rightarrow> string option"
  ev_etext :: "canon_error \<Rightarrow> string"
  ev_json_meta :: "byte list \<Rightarrow> object_meta option"
  ev_json_text :: "object_meta \<Rightarrow> byte list"
  ev_resolve :: "resolve_req body_read"
  ev_token :: "token_req body_read"

datatype reply =
    Error_Reply nat string
  | Health_Reply
  | Ready_Reply bool
  | Resolve_Reply resolve_result
  | Task_Reply task
  | Whitelist_Reply string "string list"
  | Introspect_Reply bool string time bool string
  | Token_Reply nat string string string time
  | Revoked_Reply
  | File_Reply "byte list" string string string
  | Capabilities_Reply "(string \<times> bool) list"
  | Mirror_Reply http_response
  | Panic_Reply

fun reply_status :: "reply \<Rightarrow> nat" where
  "reply_status (Error_Reply st _) = st"
| "reply_status (Ready_Reply ok) = (if ok then 200 else 503)"
| "reply_status (Token_Reply st _ _ _ _) = st"
| "reply_status (Mirror_Reply r) = rs_status r"
| "reply_status Panic_Reply = 500"
| "reply_status _ = 200"

section \<open>Authentication\<close>

definition client_ip :: "request \<Rightarrow> string" where
  "client_ip r =
     trim_set (case last_index_byte (rq_remote r) (CHR '':'') of
         Some i \<Rightarrow> if 0 < i then take i (rq_remote r) else rq_remote r
       | None \<Rightarrow> rq_remote r) ''[]''"

text \<open>\<open>withAuth\<close>: the handler runs on the record of a token that validates.\<close>

definition with_auth ::
    "api_env \<Rightarrow> request \<Rightarrow> (nat \<Rightarrow> api_state \<Rightarrow> reply \<times> api_state) \<Rightarrow> api_state \<Rightarrow> reply \<times> api_state" where
  "with_auth ev r handler s =
     (case validate (ev_io ev) (ev_now ev) (ev_later ev) (as_tokens s) (bearer_token (hget (rq_header r) ''Authorization'')) of
        ((Some a, None), tk) \<Rightarrow> handler a (s\<lparr>as_tokens := tk\<rparr>)
      | ((_, _), tk) \<Rightarrow> (Error_Reply 401 ''E_RESOLVE_AUTH'', s\<lparr>as_tokens := tk\<rparr>))"

definition mirror_tokens :: "request \<Rightarrow> string list" where
  "mirror_tokens r =
     (let t = bearer_token (hget (rq_header r) ''Authorization'') in
      if t \<noteq> [] then [t]
      else case basic_auth (rq_header r) of
        None \<Rightarrow> []
      | Some (user, pass) \<Rightarrow> (if user \<noteq> [] then [user] else []) @ (if pass \<noteq> [] then [pass] else []))"

fun try_tokens :: "api_env \<Rightarrow> string list \<Rightarrow> tstore \<Rightarrow> bool \<times> tstore" where
  "try_tokens ev [] tk = (False, tk)"
| "try_tokens ev (t # ts) tk =
     (if t = [] then try_tokens ev ts tk
      else case validate (ev_io ev) (ev_now ev) (ev_later ev) tk t of
        ((_, None), tk') \<Rightarrow> (True, tk')
      | ((_, Some _), tk') \<Rightarrow> try_tokens ev ts tk')"

definition mirror_auth ::
    "api_env \<Rightarrow> request \<Rightarrow> (api_state \<Rightarrow> reply \<times> api_state) \<Rightarrow> api_state \<Rightarrow> reply \<times> api_state" where
  "mirror_auth ev r next s =
     (case try_tokens ev (mirror_tokens r) (as_tokens s) of
        (True, tk) \<Rightarrow> next (s\<lparr>as_tokens := tk\<rparr>)
      | (False, tk) \<Rightarrow> (Error_Reply 401 ''E_MIRROR_AUTH'', s\<lparr>as_tokens := tk\<rparr>))"

text \<open>\<open>authWrap\<close> of the mirror routes.\<close>

definition auth_wrap ::
    "api_cfg \<Rightarrow> api_env \<Rightarrow> request \<Rightarrow> (api_state \<Rightarrow> reply \<times> api_state) \<Rightarrow> api_state \<Rightarrow> reply \<times> api_state" where
  "auth_wrap cfg ev r next = (if \<not> ac_mirror_auth cfg then next else mirror_auth ev r next)"

section \<open>Handlers\<close>

definition token_record :: "api_state \<Rightarrow> nat \<Rightarrow> trec" where
  "token_record s a = ts_heap (as_tokens s) ! a"

definition handle_resolve :: "api_cfg \<Rightarrow> api_env \<Rightarrow> nat \<Rightarrow> api_state \<Rightarrow> reply \<times> api_state" where
  "handle_resolve cfg ev a s =
     (case ev_resolve ev of
        Parsed q \<Rightarrow>
          if 8192 < length (rv_url q) then (Error_Reply 413 ''E_BAD_REQUEST'', s)
          else
            (let (ok, rate) = count_allow (as_resolve s) (ev_now ev) (tr_id (token_record s a)); s1 = s\<lparr>as_resolve := rate\<rparr> in
             if \<not> ok then (Error_Reply 429 ''E_RATE_LIMITED'', s1)
             else
               (let (res, ts', started) = resolve (ev_presign ev) (ev_rnd ev) (ev_later ev) (ev_io ev) (ac_engine cfg)
                      (snd (as_cache s1)) (rv_url q) (tr_id (token_record s a));
                    s2 = s1\<lparr>as_cache := (fst (as_cache s1), ts')\<rparr>
                in case res of
                     Inr rr \<Rightarrow> (Resolve_Reply rr, s2)
                   | Inl Not_Cacheable \<Rightarrow> (Error_Reply 422 ''E_NOT_CACHEABLE'', s2)
                   | Inl Resolve_Panic \<Rightarrow> (Panic_Reply, s2)
                   | Inl _ \<Rightarrow> (Error_Reply 400 ''E_RESOLVE_FAILED'', s2)))
      | _ \<Rightarrow> (Error_Reply 400 ''E_BAD_REQUEST'', s))"

definition handle_task :: "string \<Rightarrow> nat \<Rightarrow> api_state \<Rightarrow> reply \<times> api_state" where
  "handle_task tid a s =
     (case get (snd (as_cache s)) tid of
        Inl _ \<Rightarrow> (Error_Reply 404 ''E_TASK_NOT_FOUND'', s)
      | Inr t \<Rightarrow> (Task_Reply t, s))"

definition handle_refresh :: "api_cfg \<Rightarrow> api_env \<Rightarrow> string \<Rightarrow> nat \<Rightarrow> api_state \<Rightarrow> reply \<times> api_state" where
  "handle_refresh cfg ev tid a s =
     (case refresh_link (ev_presign ev) (ev_now ev) (ac_engine cfg) (snd (as_cache s)) tid of
        Inr rr \<Rightarrow> (Resolve_Reply rr, s)
      | Inl Resolve_Panic \<Rightarrow> (Panic_Reply, s)
      | Inl _ \<Rightarrow> (Error_Reply 409 ''E_REFRESH_FAILED'', s))"

definition handle_whitelist :: "api_state \<Rightarrow> reply \<times> api_state" where
  "handle_whitelist s = (Whitelist_Reply (wl_version (wl_get (as_wl s))) (wl_entries (wl_get (as_wl s))), s)"

definition handle_introspect :: "api_env \<Rightarrow> nat \<Rightarrow> api_state \<Rightarrow> reply \<times> api_state" where
  "handle_introspect ev a s =
     (Introspect_Reply (ev_ping ev) (tr_client (token_record s a)) (tr_expires (token_record s a)) (ev_ping ev)
        (wl_version (wl_get (as_wl s))), s)"

definition handle_register :: "api_cfg \<Rightarrow> api_env \<Rightarrow> request \<Rightarrow> token_req \<Rightarrow> api_state \<Rightarrow> reply \<times> api_state" where
  "handle_register cfg ev r q s =
     (if \<not> ac_registration cfg then (Error_Reply 403 ''E_REGISTRATION_DISABLED'', s)
      else
        (let (ok, rate) = limiter_allow (as_register s) (ev_now ev) (client_ip r); s1 = s\<lparr>as_register := rate\<rparr> in
         if \<not> ok then (Error_Reply 429 ''E_RATE_LIMITED'', s1)
         else
           (let ((a, tok, err), tk) = register (ev_io ev) (ev_rnd ev) (ev_rnd_token ev) (ev_rnd_id ev) (ev_later ev)
                  (as_tokens s1) (tq_client_id q);
                s2 = s1\<lparr>as_tokens := tk\<rparr>
            in if err \<noteq> None then (Error_Reply 500 ''E_TOKEN_ISSUE'', s2)
               else (Token_Reply 201 ''register'' tok (tr_client (token_record s2 a)) (tr_expires (token_record s2 a)), s2))))"

definition handle_token :: "api_cfg \<Rightarrow> api_env \<Rightarrow> request \<Rightarrow> api_state \<Rightarrow> reply \<times> api_state" where
  "handle_token cfg ev r s =
     (case ev_token ev of
        Parsed q \<Rightarrow>
          (let action = (if tq_action q = [] then ''register'' else tq_action q) in
           if action = ''register'' then handle_register cfg ev r q s
           else if action = ''refresh'' then
             (if tq_token q = [] then (Error_Reply 401 ''E_RESOLVE_AUTH'', s)
              else
                (case refresh (ev_io ev) (ev_io ev) (ev_rnd_token ev) (ev_now ev) (ev_later ev) (ev_later ev) (as_tokens s) (tq_token q) of
                   ((Some a, tok, None), tk) \<Rightarrow>
                     (let s1 = s\<lparr>as_tokens := tk\<rparr> in
                      (Token_Reply 200 ''refresh'' tok (tr_client (token_record s1 a)) (tr_expires (token_record s1 a)), s1))
                 | ((None, _, None), tk) \<Rightarrow> (Panic_Reply, s\<lparr>as_tokens := tk\<rparr>)
                 | ((_, _, Some _), tk) \<Rightarrow> (Error_Reply 401 ''E_RESOLVE_AUTH'', s\<lparr>as_tokens := tk\<rparr>)))
           else if action = ''revoke'' then
             (if tq_token q = [] then (Error_Reply 401 ''E_RESOLVE_AUTH'', s)
              else
                (case revoke (ev_io ev) (ev_now ev) (as_tokens s) (tq_token q) of
                   (None, tk) \<Rightarrow> (Revoked_Reply, s\<lparr>as_tokens := tk\<rparr>)
                 | (Some _, tk) \<Rightarrow> (Error_Reply 401 ''E_RESOLVE_AUTH'', s\<lparr>as_tokens := tk\<rparr>)))
           else (Error_Reply 400 ''E_BAD_REQUEST'', s))
      | _ \<Rightarrow> (Error_Reply 400 ''E_BAD_REQUEST'', s))"

text \<open>A presigned object: its bytes, the name \<open>ServeContent\<close> is given, type and entity tag.\<close>

definition handle_file :: "api_env \<Rightarrow> local_cfg \<Rightarrow> request \<Rightarrow> string \<Rightarrow> api_state \<Rightarrow> reply \<times> api_state" where
  "handle_file ev d r key s =
     (let f = fst (as_cache s) in
      case verify_request (ev_now ev) d (rq_method r) key (rq_query r) of
        Some Presign_Expired \<Rightarrow> (Error_Reply 410 ''E_PRESIGN_EXPIRED'', s)
      | Some Bad_Signature \<Rightarrow> (Error_Reply 403 ''E_PRESIGN_INVALID'', s)
      | Some Presign_Malformed \<Rightarrow> (Error_Reply 400 ''E_BAD_REQUEST'', s)
      | None \<Rightarrow>
          (case get_object (ev_json_text ev) d f key of
             Inl Obj_Not_Found \<Rightarrow> (Error_Reply 404 ''E_NOT_FOUND'', s)
           | Inl _ \<Rightarrow> (Error_Reply 500 ''E_INTERNAL'', s)
           | Inr data \<Rightarrow>
               (case head_object (ev_json_meta ev) d f key of
                  Inl _ \<Rightarrow> (Error_Reply 500 ''E_INTERNAL'', s)
                | Inr ob \<Rightarrow>
                    (let name = (case last_index_byte key (CHR ''/'') of Some i \<Rightarrow> drop (Suc i) key | None \<Rightarrow> key)
                     in (File_Reply data name (ob_content_type ob) (ob_etag ob), s)))))"

section \<open>Routes\<close>

text \<open>
  The patterns of the mux, on the decoded segments of a clean path. A GET pattern also matches HEAD, a
  trailing \<open>{x...}\<close> any rest. The parts that are not configured have no route.
\<close>

datatype endpoint =
    E_Health | E_Ready | E_Resolve | E_Task string | E_Refresh string | E_Whitelist | E_Introspect | E_Token
  | E_Capabilities | E_File string | E_Pypi_Simple string | E_Pypi_Package | E_Npm_Meta string | E_Npm_Tarball
  | E_Web string string string | E_Gomod | E_HF | E_Docker

definition is_get :: "string \<Rightarrow> bool" where
  "is_get m \<longleftrightarrow> m = ''GET'' \<or> m = ''HEAD''"

definition route_api :: "string \<Rightarrow> string list \<Rightarrow> endpoint option" where
  "route_api m segs =
     (case segs of
        [a] \<Rightarrow> if is_get m \<and> a = ''healthz'' then Some E_Health
               else if is_get m \<and> a = ''readyz'' then Some E_Ready else None
      | [a, v, w] \<Rightarrow>
          if a \<noteq> ''api'' \<or> v \<noteq> ''v1'' then None
          else if m = ''POST'' \<and> w = ''resolve'' then Some E_Resolve
          else if is_get m \<and> w = ''whitelist'' then Some E_Whitelist
          else if m = ''POST'' \<and> w = ''introspect'' then Some E_Introspect
          else if m = ''POST'' \<and> w = ''token'' then Some E_Token
          else if is_get m \<and> w = ''capabilities'' then Some E_Capabilities else None
      | [a, v, w, i] \<Rightarrow> if a = ''api'' \<and> v = ''v1'' \<and> w = ''tasks'' \<and> is_get m \<and> i \<noteq> [] then Some (E_Task i) else None
      | [a, v, w, i, x] \<Rightarrow>
          if a = ''api'' \<and> v = ''v1'' \<and> w = ''tasks'' \<and> x = ''refresh'' \<and> m = ''POST'' \<and> i \<noteq> [] then Some (E_Refresh i) else None
      | _ \<Rightarrow> None)"

definition route_mirror :: "api_cfg \<Rightarrow> string \<Rightarrow> string list \<Rightarrow> endpoint option" where
  "route_mirror cfg m segs =
     (case segs of
        a # rest \<Rightarrow>
          if a = ''files'' \<and> ac_local cfg \<noteq> None \<and> is_get m \<and> rest \<noteq> [] then Some (E_File (join ''/'' rest))
          else if a = ''pypi'' \<and> ac_pypi cfg \<noteq> None \<and> is_get m \<and> rest \<noteq> [] then
            (if hd rest = ''simple'' then
               (case tl rest of p # _ \<Rightarrow> if p \<noteq> [] then Some (E_Pypi_Simple p) else None | [] \<Rightarrow> None)
             else if hd rest = ''packages'' \<and> tl rest \<noteq> [] then Some E_Pypi_Package else None)
          else if a = ''npm'' \<and> ac_npm cfg \<noteq> None \<and> is_get m \<and> rest \<noteq> [] then
            (if hd rest = ''tarball'' \<and> tl rest \<noteq> [] then Some E_Npm_Tarball
             else if tl rest = [] \<and> hd rest \<noteq> [] then Some (E_Npm_Meta (hd rest)) else None)
          else if a = ''mirror'' \<and> ac_web cfg \<noteq> None \<and> is_get m then
            (case rest of
               sch # h # pth # others \<Rightarrow> if sch \<noteq> [] \<and> h \<noteq> [] then Some (E_Web sch h (join ''/'' (pth # others))) else None
             | _ \<Rightarrow> None)
          else if a = ''gomod'' \<and> ac_gomod cfg \<noteq> None \<and> is_get m \<and> rest \<noteq> [] then Some E_Gomod
          else if a = ''hf'' \<and> ac_hf cfg \<noteq> None \<and> rest \<noteq> [] then Some E_HF
          else if a = ''v2'' \<and> ac_docker cfg \<noteq> None then Some E_Docker
          else None
      | [] \<Rightarrow> None)"

definition mux_route :: "api_cfg \<Rightarrow> string \<Rightarrow> string list \<Rightarrow> endpoint option" where
  "mux_route cfg m segs = (case route_api m segs of Some e \<Rightarrow> Some e | None \<Rightarrow> route_mirror cfg m segs)"

definition capabilities :: "api_cfg \<Rightarrow> (string \<times> bool) list" where
  "capabilities cfg =
     [(''pypi'', ac_pypi cfg \<noteq> None), (''npm'', ac_npm cfg \<noteq> None), (''mirror'', ac_web cfg \<noteq> None),
      (''gomod'', ac_gomod cfg \<noteq> None), (''hf'', ac_hf cfg \<noteq> None), (''registry'', ac_docker cfg \<noteq> None),
      (''mirror_auth'', ac_mirror_auth cfg)]"

section \<open>Serving\<close>

definition http_reply :: "http_response option \<Rightarrow> reply" where
  "http_reply r = (case r of None \<Rightarrow> Panic_Reply | Some x \<Rightarrow> Mirror_Reply x)"

definition on_cache ::
    "(fs cache \<Rightarrow> http_response option \<times> fs cache) \<Rightarrow> api_state \<Rightarrow> reply \<times> api_state" where
  "on_cache h s = (let (r, c) = h (as_cache s) in (http_reply r, s\<lparr>as_cache := c\<rparr>))"

definition reg_env_of :: "api_env \<Rightarrow> reg_env" where
  "reg_env_of ev = \<lparr>re_rnd = ev_rnd ev, re_now = ev_later ev, re_io = ev_io ev\<rparr>"

definition serve_mirror :: "api_cfg \<Rightarrow> api_env \<Rightarrow> request \<Rightarrow> endpoint \<Rightarrow> api_state \<Rightarrow> reply \<times> api_state" where
  "serve_mirror cfg ev r e s =
     (let up = ev_up ev; ft = ev_fetcher ev; env = reg_env_of ev in
      case e of
        E_Pypi_Simple pkg \<Rightarrow>
          (let (resp, idx) = serve_simple up (ev_now ev) (ev_later ev) (the (ac_pypi cfg)) pkg (as_pypi s)
           in (Mirror_Reply resp, s\<lparr>as_pypi := idx\<rparr>))
      | E_Pypi_Package \<Rightarrow>
          auth_wrap cfg ev r (on_cache (\<lambda>c. let (resp, c') = serve_package (ev_etext ev) ft env (the (ac_pypi cfg)) r c in (Some resp, c'))) s
      | E_Npm_Meta pkg \<Rightarrow>
          (let (resp, idx) = serve_metadata up (ev_now ev) (ev_later ev) (the (ac_npm cfg)) pkg r (as_npm s)
           in (Mirror_Reply resp, s\<lparr>as_npm := idx\<rparr>))
      | E_Npm_Tarball \<Rightarrow> auth_wrap cfg ev r (on_cache (serve_tarball (ev_etext ev) ft env (the (ac_npm cfg)) r)) s
      | E_Web sch h pth \<Rightarrow> auth_wrap cfg ev r (on_cache (web_serve up ft env (the (ac_web cfg)) sch h pth r)) s
      | E_Gomod \<Rightarrow> auth_wrap cfg ev r (on_cache (gomod_serve up ft env (the (ac_gomod cfg)) r)) s
      | E_HF \<Rightarrow> auth_wrap cfg ev r (on_cache (hf_serve up ft env (the (ac_hf cfg)) r)) s
      | _ \<Rightarrow>
          (let (resp, m, c) = docker_serve up (ev_json_token ev) (ev_now ev) (ev_later ev) (the (ac_docker cfg)) (ev_blob_io ev)
                 ft env r (as_docker s, as_cache s)
           in (Mirror_Reply resp, s\<lparr>as_docker := m, as_cache := c\<rparr>)))"

definition serve_endpoint :: "api_cfg \<Rightarrow> api_env \<Rightarrow> request \<Rightarrow> endpoint \<Rightarrow> api_state \<Rightarrow> reply \<times> api_state" where
  "serve_endpoint cfg ev r e s =
     (case e of
        E_Health \<Rightarrow> (Health_Reply, s)
      | E_Ready \<Rightarrow> (Ready_Reply (ev_ping ev), s)
      | E_Resolve \<Rightarrow> with_auth ev r (handle_resolve cfg ev) s
      | E_Task i \<Rightarrow> with_auth ev r (handle_task i) s
      | E_Refresh i \<Rightarrow> with_auth ev r (handle_refresh cfg ev i) s
      | E_Whitelist \<Rightarrow> handle_whitelist s
      | E_Introspect \<Rightarrow> with_auth ev r (handle_introspect ev) s
      | E_Token \<Rightarrow> handle_token cfg ev r s
      | E_Capabilities \<Rightarrow> (Capabilities_Reply (capabilities cfg), s)
      | E_File key \<Rightarrow> handle_file ev (the (ac_local cfg)) r key s
      | _ \<Rightarrow> serve_mirror cfg ev r e s)"

text \<open>
  The segments of a path, and the path the mux redirects to when it is not clean. A path without a route is
  refused with 405 when another method has one.
\<close>

definition path_segments :: "string \<Rightarrow> string list option" where
  "path_segments p =
     (let parts = map unescape_path (split_byte (CHR ''/'') (drop 1 p)) in
      if list_all (\<lambda>x. x \<noteq> None) parts then Some (map the parts) else None)"

definition mux_clean :: "string \<Rightarrow> string" where
  "mux_clean p =
     (let np = path_clean p in if has_suffix p ''/'' \<and> np \<noteq> ''/'' then np @ ''/'' else np)"

definition serve_mux :: "api_cfg \<Rightarrow> api_env \<Rightarrow> request \<Rightarrow> api_state \<Rightarrow> reply \<times> api_state" where
  "serve_mux cfg ev r s =
     (if mux_clean (rq_escaped r) \<noteq> rq_escaped r then (Mirror_Reply (http_error [] 301), s)
      else case path_segments (rq_escaped r) of
        None \<Rightarrow> (Mirror_Reply not_found, s)
      | Some segs \<Rightarrow>
          (case mux_route cfg (rq_method r) segs of
             Some e \<Rightarrow> serve_endpoint cfg ev r e s
           | None \<Rightarrow>
               if list_ex (\<lambda>m. mux_route cfg m segs \<noteq> None) [''GET'', ''POST''] then (Mirror_Reply (http_error ''Method Not Allowed'' 405), s)
               else (Mirror_Reply not_found, s)))"

text \<open>The middleware: one token of the address's bucket per request, a panic becomes an internal error.\<close>

definition serve :: "api_cfg \<Rightarrow> api_env \<Rightarrow> request \<Rightarrow> api_state \<Rightarrow> reply \<times> api_state" where
  "serve cfg ev r s =
     (let (ok, ip) = limiter_allow (as_ip s) (ev_now ev) (client_ip r); s1 = s\<lparr>as_ip := ip\<rparr> in
      if \<not> ok then (Error_Reply 429 ''E_RATE_LIMITED'', s1)
      else
        (case serve_mux cfg ev r s1 of
           (Panic_Reply, s2) \<Rightarrow> (Error_Reply 500 ''E_INTERNAL'', s2)
         | (rep, s2) \<Rightarrow> (rep, s2)))"

section \<open>Properties\<close>

lemma validate_refused:
  assumes "validate io now now' tk t = ((oa, Some e), tk')" and "\<not> ts_save_back tk"
  shows "tk' = tk"
  using assms by (auto simp: validate_def Let_def split: if_splits option.splits)

lemma validate_none: "validate io now now' tk t \<noteq> ((None, None), tk')"
  by (auto simp: validate_def Let_def split: if_splits option.splits prod.splits)

definition token_valid :: "api_env \<Rightarrow> tstore \<Rightarrow> string \<Rightarrow> bool" where
  "token_valid ev tk t \<longleftrightarrow> snd (fst (validate (ev_io ev) (ev_now ev) (ev_later ev) tk t)) = None"

lemma with_auth_refuses:
  assumes "\<not> token_valid ev (as_tokens s) (bearer_token (hget (rq_header r) ''Authorization''))" and "\<not> ts_save_back (as_tokens s)"
  shows "with_auth ev r h s = (Error_Reply 401 ''E_RESOLVE_AUTH'', s)"
proof -
  obtain oa e tk where v: "validate (ev_io ev) (ev_now ev) (ev_later ev) (as_tokens s)
      (bearer_token (hget (rq_header r) ''Authorization'')) = ((oa, Some e), tk)"
    using assms(1) by (cases "validate (ev_io ev) (ev_now ev) (ev_later ev) (as_tokens s)
      (bearer_token (hget (rq_header r) ''Authorization''))") (auto simp: token_valid_def)
  then show ?thesis using validate_refused [OF v assms(2)] by (cases oa) (simp_all add: with_auth_def)
qed

lemma try_tokens_refuses:
  assumes "\<forall>t \<in> set ts. \<not> token_valid ev tk t" and "\<not> ts_save_back tk"
  shows "try_tokens ev ts tk = (False, tk)"
  using assms(1)
proof (induction ts)
  case (Cons t ts)
  obtain oa e tk' where v: "validate (ev_io ev) (ev_now ev) (ev_later ev) tk t = ((oa, Some e), tk')"
    using Cons.prems by (cases "validate (ev_io ev) (ev_now ev) (ev_later ev) tk t") (auto simp: token_valid_def)
  then show ?case using Cons validate_refused [OF v assms(2)] by simp
qed simp

lemma mirror_auth_refuses:
  assumes "\<forall>t \<in> set (mirror_tokens r). \<not> token_valid ev (as_tokens s) t" and "\<not> ts_save_back (as_tokens s)"
  shows "mirror_auth ev r next s = (Error_Reply 401 ''E_MIRROR_AUTH'', s)"
  using try_tokens_refuses [OF assms] by (simp add: mirror_auth_def)

definition token_routes :: "endpoint set" where
  "token_routes = {E_Resolve, E_Introspect} \<union> range E_Task \<union> range E_Refresh"

definition guarded_mirrors :: "endpoint set" where
  "guarded_mirrors = {E_Pypi_Package, E_Npm_Tarball, E_Gomod, E_HF} \<union> {E_Web a b c | a b c. True}"

text \<open>
  C23. No token, no service. A request to the control routes without a token that validates, and with
  \<open>mirror_auth\<close> a request for a cached file of a mirror none of whose Bearer or Basic credentials validates,
  is refused with 401 and changes nothing at all. The option does not reach everything it is documented
  for: the PyPI index and the npm metadata are served without any token, exactly as with the option off,
  like the Docker routes.
\<close>

theorem api_token_gate:
  assumes "\<not> ts_save_back (as_tokens s)"
  shows "(e \<in> token_routes \<and> \<not> token_valid ev (as_tokens s) (bearer_token (hget (rq_header r) ''Authorization'')) \<longrightarrow>
      serve_endpoint cfg ev r e s = (Error_Reply 401 ''E_RESOLVE_AUTH'', s)) \<and>
    (e \<in> guarded_mirrors \<and> ac_mirror_auth cfg \<and> (\<forall>t \<in> set (mirror_tokens r). \<not> token_valid ev (as_tokens s) t) \<longrightarrow>
      serve_endpoint cfg ev r e s = (Error_Reply 401 ''E_MIRROR_AUTH'', s)) \<and>
    (e \<in> {E_Docker} \<union> range E_Pypi_Simple \<union> range E_Npm_Meta \<longrightarrow>
      serve_endpoint (cfg\<lparr>ac_mirror_auth := True\<rparr>) ev r e s = serve_endpoint (cfg\<lparr>ac_mirror_auth := False\<rparr>) ev r e s)"
proof (intro conjI impI; (elim conjE)?)
  assume "e \<in> token_routes" "\<not> token_valid ev (as_tokens s) (bearer_token (hget (rq_header r) ''Authorization''))"
  then show "serve_endpoint cfg ev r e s = (Error_Reply 401 ''E_RESOLVE_AUTH'', s)"
    using with_auth_refuses assms by (auto simp: token_routes_def serve_endpoint_def)
next
  assume "e \<in> guarded_mirrors" "ac_mirror_auth cfg" "\<forall>t \<in> set (mirror_tokens r). \<not> token_valid ev (as_tokens s) t"
  then show "serve_endpoint cfg ev r e s = (Error_Reply 401 ''E_MIRROR_AUTH'', s)"
    using mirror_auth_refuses assms by (auto simp: guarded_mirrors_def serve_endpoint_def serve_mirror_def auth_wrap_def Let_def)
next
  assume "e \<in> {E_Docker} \<union> range E_Pypi_Simple \<union> range E_Npm_Meta"
  then show "serve_endpoint (cfg\<lparr>ac_mirror_auth := True\<rparr>) ev r e s = serve_endpoint (cfg\<lparr>ac_mirror_auth := False\<rparr>) ev r e s"
    by (auto simp: serve_endpoint_def serve_mirror_def Let_def)
qed

definition sample_api_cfg :: api_cfg where
  "sample_api_cfg =
     \<lparr>ac_engine = \<lparr>ec_tmp_dir = [], ec_presign_ttl = 1, ec_max_retries = 0, ec_retry_backoff = 1, ec_gc_age = 1\<rparr>,
      ac_local = Some sample_local, ac_registration = True, ac_pypi = None, ac_npm = None, ac_web = None,
      ac_gomod = Some [''http://p''], ac_hf = None, ac_docker = None, ac_mirror_auth = True\<rparr>"

definition sample_api_env :: "time \<Rightarrow> api_env" where
  "sample_api_env now =
     \<lparr>ev_now = now, ev_later = now, ev_io = True, ev_rnd = (\<lambda>_. None), ev_rnd_token = (\<lambda>_. None), ev_rnd_id = (\<lambda>_. None),
      ev_up = (\<lambda>_. Inl []), ev_presign = (\<lambda>k _. Inr k), ev_ping = True, ev_fetcher = sample_fetcher,
      ev_blob_io = \<lparr>bi_mkdir = True, bi_temp = True, bi_close = True, bi_open = True\<rparr>, ev_json_token = (\<lambda>_. None),
      ev_etext = (\<lambda>_. []), ev_json_meta = (\<lambda>_. None), ev_json_text = (\<lambda>_. []),
      ev_resolve = Unreadable, ev_token = Unreadable\<rparr>"

definition sample_api_state :: api_state where
  "sample_api_state =
     \<lparr>as_ip = default_ip_rate, as_register = default_register_rate, as_resolve = default_resolve_rate,
      as_tokens = empty_tstore [] hour, as_wl = wl_new_store None, as_cache = (empty_fs, empty_store []),
      as_pypi = [], as_npm = [], as_docker = new_docker\<rparr>"

theorem api_token_gate_witness:
  "serve_endpoint sample_api_cfg (sample_api_env 0) (sample_request ''/api/v1/tasks/t'') (E_Task ''t'') sample_api_state =
     (Error_Reply 401 ''E_RESOLVE_AUTH'', sample_api_state) \<and>
   serve_endpoint sample_api_cfg (sample_api_env 0) (sample_request ''/gomod/m/@v/v1.zip'') E_Gomod sample_api_state =
     (Error_Reply 401 ''E_MIRROR_AUTH'', sample_api_state)"
proof -
  have n: "\<not> ts_save_back (as_tokens sample_api_state)" by (simp add: sample_api_state_def empty_tstore_def)
  have v: "\<not> token_valid (sample_api_env 0) (as_tokens sample_api_state) t" for t
    by (simp add: token_valid_def validate_def sample_api_state_def empty_tstore_def)
  have m: "ac_mirror_auth sample_api_cfg" by (simp add: sample_api_cfg_def)
  have e: "E_Task ''t'' \<in> token_routes" "E_Gomod \<in> guarded_mirrors" by (simp_all add: token_routes_def guarded_mirrors_def)
  show ?thesis
    using api_token_gate [OF n, of "E_Task ''t''" "sample_api_env 0" "sample_request ''/api/v1/tasks/t''" sample_api_cfg]
      api_token_gate [OF n, of E_Gomod "sample_api_env 0" "sample_request ''/gomod/m/@v/v1.zip''" sample_api_cfg] v m e
    by blast
qed

text \<open>
  C24. From the origin to the client. When a mirror fetches a file into the local driver and answers with a
  link, the link ends in the object's key and a query with which the file handler delivers, for GET and HEAD
  and in every second up to the expiry, exactly the bytes that came from the first origin that did not fail,
  with the type they were stored under; from the next second on it answers 410. The request changes nothing.
\<close>

theorem cached_link_delivers:
  fixes ft :: "fs fetcher" and env :: reg_env
  assumes "presign_or_fetch_multi ft env canonical cs family by (f, ts) = (Inr u, f', ts')"
    and "cached_artifact ts (cache_key canonical family) = None" and "fs_ok f"
    and "ft_put ft = put_object io d" and "ft_presign ft = presign_get now d base"
    and "\<bar>time_unix (now + effective_ttl d (ft_ttl ft))\<bar> \<le> max_int64"
  shows "\<exists>c res data host q. stored_from ft (fetch_key canonical family) (fetch_dir ft canonical family)
        (if cs = [] then [canonical] else cs) c res data \<and>
      u = host @ ''/files/'' @ fetch_key canonical family @ ''?'' @ q \<and>
      (\<forall>ev r s. (rq_method r = ''GET'' \<or> rq_method r = ''HEAD'') \<and> rq_query r = q \<and> fst (as_cache s) = f' \<and>
          ev_json_text ev = jt \<and> ev_json_meta ev = jm \<longrightarrow>
        (if time_unix (now + effective_ttl d (ft_ttl ft)) < time_unix (ev_now ev)
         then handle_file ev d r (fetch_key canonical family) s = (Error_Reply 410 ''E_PRESIGN_EXPIRED'', s)
         else \<exists>name tag ct. handle_file ev d r (fetch_key canonical family) s = (File_Reply data name ct tag, s)))"
proof -
  let ?key = "fetch_key canonical family" and ?t = "now + effective_ttl d (ft_ttl ft)"
  from lf.try_origins_stores [where jt = jt and jm = jm, OF assms(1) [unfolded presign_miss [OF assms(2)]] assms(4,3)]
  obtain c res data ob where
    h: "stored_from ft ?key (fetch_dir ft canonical family) (if cs = [] then [canonical] else cs) c res data"
      "get_object jt d f' ?key = Inr data" "head_object jm d f' ?key = Inr ob" "presigned ft ?key = Inr u" by blast
  have u: "local_url now d base ''GET'' ?key (ft_ttl ft) = Inr u"
    using h(4) assms(5) by (simp add: presigned_def presign_get_def split: sum.splits)
  obtain host q where
    q: "u = host @ ''/files/'' @ ?key @ ''?'' @ q" and
    v: "\<And>m n. m = ''GET'' \<or> m = ''HEAD'' \<Longrightarrow>
      verify_request n d m ?key q = (if time_unix ?t < time_unix n then Some Presign_Expired else None)"
    using link_verifies [OF u assms(6)] by blast
  have "if time_unix ?t < time_unix (ev_now ev) then handle_file ev d r ?key s = (Error_Reply 410 ''E_PRESIGN_EXPIRED'', s)
      else \<exists>name tag ct. handle_file ev d r ?key s = (File_Reply data name ct tag, s)"
    if "(rq_method r = ''GET'' \<or> rq_method r = ''HEAD'') \<and> rq_query r = q \<and> fst (as_cache s) = f' \<and>
      ev_json_text ev = jt \<and> ev_json_meta ev = jm" for ev r s
    using that v [of "rq_method r" "ev_now ev"] h(2,3) by (auto simp: handle_file_def Let_def)
  then show ?thesis using h(1) q by blast
qed

theorem cached_link_delivers_witness:
  "\<exists>u f' ts' data host q. presign_or_fetch_multi (sample_fetcher\<lparr>ft_presign := presign_get 0 sample_local None, ft_ttl := time_of_unix 1000\<rparr>) sample_reg
      ''http://a/x'' [''http://a/x'', ''http://b/x''] ''npm'' ''t'' (empty_fs, empty_store []) = (Inr u, f', ts') \<and>
    u = host @ ''/files/'' @ fetch_key ''http://a/x'' ''npm'' @ ''?'' @ q \<and>
    (\<exists>name tag ct. fst (handle_file (sample_api_env 0) sample_local ((sample_request [])\<lparr>rq_query := q\<rparr>) (fetch_key ''http://a/x'' ''npm'')
       (sample_api_state\<lparr>as_cache := (f', ts')\<rparr>)) = File_Reply data name ct tag)"
proof -
  let ?key = "fetch_key ''http://a/x'' ''npm''" let ?ttl = "time_of_unix 1000"
  let ?ft = "sample_fetcher\<lparr>ft_presign := presign_get 0 sample_local None, ft_ttl := ?ttl\<rparr>"
  have v: "validate_key ?key = None"
    by (rule fetch_key_valid) (simp_all add: key_char_def char_class_defs)
  then obtain ob g where p: "put_object all_io sample_local empty_fs ?key [1, 2] 2 ''t'' = (Inr ob, g)"
    using put_into_empty [of sample_local "tl (lf_root sample_local)" ?key "[1, 2]" "''t''"] by (auto simp: sample_local_def)
  have c: "cached_artifact (empty_store []) k = None" for k
    by (simp add: cached_artifact_def get_by_cache_key_def empty_store_def)
  have k: "cache_key ''http://a/x'' ''npm'' \<noteq> []" using length_cache_key by (metis list.size(3) zero_neq_numeral)
  have n: "new_task_id (re_rnd sample_reg) \<noteq> []" by (simp add: new_task_id_def)
  obtain u where u: "presign_get 0 sample_local None ?key ?ttl = Inr u"
    using v by (simp add: presign_get_def local_url_def local_path_def)
  obtain ts' where r: "presign_or_fetch_multi ?ft sample_reg ''http://a/x'' [''http://a/x'', ''http://b/x''] ''npm'' ''t''
      (empty_fs, empty_store []) = (Inr u, g, ts')"
    using p n k u unfolding presign_miss [OF c]
    by (auto simp: sample_fetcher_def presigned_def put_def persist_def empty_store_def store_both_def Let_def)
  have b: "\<bar>time_unix (0 + effective_ttl sample_local (ft_ttl ?ft))\<bar> \<le> max_int64" "time_unix 0 \<le> time_unix ?ttl"
    by (simp_all add: effective_ttl_def time_of_unix_def unix_epoch_def second_def time_unix_def max_int64_def)
  have e: "fs_ok empty_fs" by (simp add: fs_ok_def empty_fs_def)
  have "ft_put ?ft = put_object all_io sample_local" "ft_presign ?ft = presign_get 0 sample_local None" by (simp_all add: sample_fetcher_def)
  from cached_link_delivers [OF r c e this b(1), of "\<lambda>_. []" "\<lambda>_. None"] obtain data host q where
    q: "u = host @ ''/files/'' @ ?key @ ''?'' @ q" and
    h: "\<forall>ev r s. (rq_method r = ''GET'' \<or> rq_method r = ''HEAD'') \<and> rq_query r = q \<and> fst (as_cache s) = g \<and>
        ev_json_text ev = (\<lambda>_. []) \<and> ev_json_meta ev = (\<lambda>_. None) \<longrightarrow>
      (if time_unix (0 + effective_ttl sample_local (ft_ttl ?ft)) < time_unix (ev_now ev)
       then handle_file ev sample_local r ?key s = (Error_Reply 410 ''E_PRESIGN_EXPIRED'', s)
       else \<exists>name tag ct. handle_file ev sample_local r ?key s = (File_Reply data name ct tag, s))" by blast
  let ?r = "(sample_request [])\<lparr>rq_query := q\<rparr>" and ?s = "sample_api_state\<lparr>as_cache := (g, ts')\<rparr>"
  have now: "ev_now (sample_api_env 0) = 0" "effective_ttl sample_local (ft_ttl ?ft) = ?ttl"
    by (simp_all add: sample_api_env_def effective_ttl_def time_of_unix_def unix_epoch_def second_def)
  have "\<exists>name tag ct. handle_file (sample_api_env 0) sample_local ?r ?key ?s = (File_Reply data name ct tag, ?s)"
    using h [rule_format, of ?r ?s "sample_api_env 0"] b(2) unfolding now
    by (simp add: sample_request_def sample_api_env_def)
  then show ?thesis using r q by (metis fst_conv)
qed

end
