(* ===== verification/GoFloat.thy ===== *)
theory GoFloat
  imports GoText Prelude Complex_Main "HOL-Library.Log_Nat"
begin

text \<open>
  The part of \<open>strconv.ParseFloat\<close> and of float64 arithmetic that the configuration code uses. A float64 is a
  rational number, an infinity or not a number (the sign of zero, which no code here reads, is left out);
  every operation rounds to 53 bits, half to even, with the exponent range of the format.
\<close>

section \<open>Rounding\<close>

datatype float64 = Fin rat | Inf bool | NaN

definition round_even :: "rat \<Rightarrow> int" where
  "round_even x =
     (let f = \<lfloor>x\<rfloor>; d = x - of_int f in
      if d < 1 / 2 then f else if 1 / 2 < d then f + 1 else if even f then f else f + 1)"

definition pow2 :: "int \<Rightarrow> rat" where
  "pow2 e = (if 0 \<le> e then 2 ^ nat e else 1 / 2 ^ nat (- e))"

definition floor_log2 :: "rat \<Rightarrow> int" where
  "floor_log2 x =
     (let (n, d) = quotient_of x; k = bitlen n - bitlen d in
      if x < pow2 k then k - 1 else k)"

definition round_pos :: "rat \<Rightarrow> rat" where
  "round_pos x =
     (let q = max (floor_log2 x - 52) (- 1074) in of_int (round_even (x / pow2 q)) * pow2 q)"

definition float_of :: "rat \<Rightarrow> float64" where
  "float_of x =
     (if x = 0 then Fin 0
      else
        (let m = round_pos \<bar>x\<bar> in
         if 2 ^ 1024 \<le> m then Inf (x < 0) else Fin (if x < 0 then - m else m)))"

fun float_mult :: "float64 \<Rightarrow> float64 \<Rightarrow> float64" where
  "float_mult (Fin x) (Fin y) = float_of (x * y)"
| "float_mult (Fin x) (Inf s) = (if x = 0 then NaN else Inf (s \<noteq> (x < 0)))"
| "float_mult (Inf s) (Fin x) = (if x = 0 then NaN else Inf (s \<noteq> (x < 0)))"
| "float_mult (Inf s) (Inf t) = Inf (s \<noteq> t)"
| "float_mult _ _ = NaN"

text \<open>The conversion \<open>int64(f)\<close> drops the fraction; out of range the value depends on the machine, on amd64 it
  is the least integer.\<close>

definition truncate_rat :: "rat \<Rightarrow> int" where
  "truncate_rat x = (if x < 0 then - \<lfloor>- x\<rfloor> else \<lfloor>x\<rfloor>)"

fun int64_of :: "float64 \<Rightarrow> int" where
  "int64_of (Fin x) =
     (let i = truncate_rat x in if min_int64 \<le> i \<and> i \<le> max_int64 then i else min_int64)"
| "int64_of _ = min_int64"

subsection \<open>Integers of 53 bits are exact\<close>

lemma round_even_int [simp]: "round_even (of_int i) = i"
  by (simp add: round_even_def)

lemma truncate_rat_int [simp]: "truncate_rat (of_int i) = i"
proof -
  have "\<lfloor>- (of_int i :: rat)\<rfloor> = - i" by (metis floor_of_int of_int_minus)
  then show ?thesis by (simp add: truncate_rat_def)
qed

lemma bitlen_pos_bounds: "0 < n \<Longrightarrow> 2 ^ nat (bitlen n - 1) \<le> n \<and> n < 2 ^ nat (bitlen n) \<and> 0 < bitlen n"
  using bitlen_bounds [of n] bitlen_nonneg [of n] bitlen_eq_zero_iff [of n] by linarith

lemma floor_log2_int:
  assumes "0 < (n :: int)"
  shows "floor_log2 (of_int n) = bitlen n - 1"
proof -
  have b1: "bitlen 1 = 1" by (simp add: bitlen_def compute_floorlog)
  have p: "0 < bitlen n" "n < 2 ^ nat (bitlen n)" "2 ^ nat (bitlen n - 1) \<le> n"
    using bitlen_pos_bounds [OF assms] by auto
  have q: "quotient_of (of_int n) = (n, 1)" by (simp add: quotient_of_int)
  have "\<not> (of_int n :: rat) < pow2 (bitlen n - 1)"
    using p(1,3) by (simp add: pow2_def not_less)
  then show ?thesis by (simp add: floor_log2_def q b1)
qed

lemma pow2_mult_int: "0 \<le> e \<Longrightarrow> pow2 e = of_int (2 ^ nat e)"
  by (simp add: pow2_def)

lemma round_pos_int:
  assumes n: "0 < (m :: int)" "m < 2 ^ 53"
  shows "round_pos (of_int (m * 2 ^ j)) = of_int (m * 2 ^ j)"
proof -
  let ?n = "m * 2 ^ j" and ?q = "max (bitlen (m * 2 ^ j) - 1 - 52) (- 1074)"
  have pos: "0 < ?n" using n by simp
  have bl: "bitlen ?n = bitlen m + int j"
    using n(1) by simp
  have m53: "bitlen m \<le> 53"
    using n bitlen_le_iff_power [of m 53] by simp
  have "\<exists>k. (of_int ?n :: rat) / pow2 ?q = of_int k"
  proof (cases "0 \<le> ?q")
    case True
    then obtain i where i: "j = nat ?q + i" using bl m53 nat_le_iff_add [of "nat ?q" j] by auto
    have "(of_int ?n :: rat) = of_int (m * 2 ^ i) * 2 ^ nat ?q"
      by (subst i) (simp add: power_add)
    with True have "(of_int ?n :: rat) / pow2 ?q = of_int (m * 2 ^ i)"
      by (simp only: pow2_def if_True) simp
    then show ?thesis by blast
  next
    case False
    then have "(of_int ?n :: rat) / pow2 ?q = of_int (?n * 2 ^ nat (- ?q))"
      by (simp add: pow2_def)
    then show ?thesis by blast
  qed
  then obtain k where k: "(of_int ?n :: rat) / pow2 ?q = of_int k" by blast
  have "pow2 ?q \<noteq> 0" by (simp add: pow2_def)
  with k have "of_int k * pow2 ?q = (of_int ?n :: rat)" by (metis nonzero_eq_divide_eq)
  then show ?thesis
    using k by (simp only: round_pos_def floor_log2_int [OF pos] Let_def round_even_int)
qed

lemma float_of_int:
  assumes "0 \<le> m" "m < 2 ^ 53" "m * 2 ^ j < 2 ^ 1024"
  shows "float_of (of_int (m * 2 ^ j)) = Fin (of_int (m * 2 ^ j))"
proof (cases "m = 0")
  case False
  with assms have "0 < m" by simp
  have "\<not> (2 ^ 1024 :: rat) \<le> of_int (m * 2 ^ j)"
    using assms(3) by (metis not_less of_int_less_iff of_int_numeral of_int_power)
  then show ?thesis
    using round_pos_int [OF \<open>0 < m\<close> assms(2), of j] \<open>0 < m\<close> by (simp add: float_of_def Let_def not_less mult_less_0_iff)
qed (simp add: float_of_def)

lemma float_of_nat: "n < 2 ^ 53 \<Longrightarrow> float_of (of_nat n) = Fin (of_nat n)"
  using float_of_int [of "int n" 0] by simp

section \<open>Reading a number\<close>

definition float_digit :: "bool \<Rightarrow> char \<Rightarrow> nat option" where
  "float_digit hexa c =
     (if is_digit c then Some (digit_val c)
      else if hexa \<and> is_hex_lower (lower_char c) then Some (code (lower_char c) - 87)
      else None)"

text \<open>The digits before the exponent: whether a dot and a digit were seen, the mantissa, and the number of digits
  after the dot; underscores are skipped here and checked afterwards.\<close>

fun float_mantissa :: "bool \<Rightarrow> string \<Rightarrow> bool \<Rightarrow> bool \<Rightarrow> nat \<Rightarrow> nat \<Rightarrow> (bool \<times> nat \<times> nat) \<times> string" where
  "float_mantissa hexa [] dot digs m fd = ((digs, m, fd), [])"
| "float_mantissa hexa (c # s) dot digs m fd =
     (if c = CHR ''_'' then float_mantissa hexa s dot digs m fd
      else if c = CHR ''.'' then
        (if dot then ((digs, m, fd), c # s) else float_mantissa hexa s True digs m fd)
      else case float_digit hexa c of
        None \<Rightarrow> ((digs, m, fd), c # s)
      | Some d \<Rightarrow>
          float_mantissa hexa s dot True (m * (if hexa then 16 else 10) + d) (if dot then Suc fd else fd))"

text \<open>The digits of the exponent; from 10000 on further digits change nothing.\<close>

fun float_exponent :: "string \<Rightarrow> nat \<Rightarrow> nat \<times> string" where
  "float_exponent [] e = (e, [])"
| "float_exponent (c # s) e =
     (if c = CHR ''_'' then float_exponent s e
      else if is_digit c then float_exponent s (if e < 10000 then 10 * e + digit_val c else e)
      else (e, c # s))"

text \<open>\<open>underscoreOK\<close>: an underscore stands between digits only; a base prefix counts as a digit.\<close>

fun underscore_scan :: "bool \<Rightarrow> char \<Rightarrow> string \<Rightarrow> bool" where
  "underscore_scan hexa saw [] \<longleftrightarrow> saw \<noteq> CHR ''_''"
| "underscore_scan hexa saw (c # s) \<longleftrightarrow>
     (if float_digit hexa c \<noteq> None then underscore_scan hexa CHR ''0'' s
      else if c = CHR ''_'' then saw = CHR ''0'' \<and> underscore_scan hexa CHR ''_'' s
      else saw \<noteq> CHR ''_'' \<and> underscore_scan hexa CHR ''!'' s)"

definition strip_sign :: "string \<Rightarrow> bool \<times> string" where
  "strip_sign s =
     (if has_prefix s ''-'' then (True, tl s) else if has_prefix s ''+'' then (False, tl s) else (False, s))"

definition underscore_ok :: "string \<Rightarrow> bool" where
  "underscore_ok s0 =
     (let s = snd (strip_sign s0) in
      if 2 \<le> length s \<and> s ! 0 = CHR ''0'' \<and> lower_char (s ! 1) \<in> {CHR ''b'', CHR ''o'', CHR ''x''} then
        underscore_scan (lower_char (s ! 1) = CHR ''x'') CHR ''0'' (drop 2 s)
      else underscore_scan False CHR ''^'' s)"

definition decimal_value :: "bool \<Rightarrow> nat \<Rightarrow> int \<Rightarrow> rat" where
  "decimal_value hexa m e =
     (if hexa then of_nat m * pow2 e
      else if 0 \<le> e then of_nat m * 10 ^ nat e else of_nat m / 10 ^ nat (- e))"

definition read_exponent :: "bool \<Rightarrow> string \<Rightarrow> (int \<times> string) option" where
  "read_exponent hexa s =
     (if s \<noteq> [] \<and> lower_char (hd s) = (if hexa then CHR ''p'' else CHR ''e'') then
        (let (neg, t) = strip_sign (tl s) in
         if t = [] \<or> \<not> is_digit (hd t) then None
         else (let (e, u) = float_exponent t 0 in Some (if neg then - int e else int e, u)))
      else if hexa then None
      else Some (0, s))"

definition float_special :: "string \<Rightarrow> float64 option" where
  "float_special s =
     (let (neg, t) = strip_sign s in
      if to_lower t \<in> {''inf'', ''infinity''} then Some (Inf neg)
      else if to_lower s = ''nan'' then Some NaN
      else None)"

definition hex_prefixed :: "string \<Rightarrow> bool" where
  "hex_prefixed s \<longleftrightarrow> 2 < length s \<and> s ! 0 = CHR ''0'' \<and> lower_char (s ! 1) = CHR ''x''"

definition read_float :: "string \<Rightarrow> (bool \<times> rat) option" where
  "read_float s =
     (let (neg, t) = strip_sign s;
          hexa = hex_prefixed t;
          ((digs, m, fd), u) = float_mantissa hexa (if hexa then drop 2 t else t) False False 0 0
      in if \<not> digs then None
         else case read_exponent hexa u of
           None \<Rightarrow> None
         | Some (e, v) \<Rightarrow>
             if v \<noteq> [] \<or> (CHR ''_'' \<in> set s \<and> \<not> underscore_ok s) then None
             else Some (neg, decimal_value hexa m (e - (if hexa then 4 else 1) * int fd)))"

text \<open>A value that rounds to an infinity is an error, as is any text left over.\<close>

definition parse_float :: "string \<Rightarrow> float64 option" where
  "parse_float s =
     (case float_special s of
        Some f \<Rightarrow> Some f
      | None \<Rightarrow>
          (case read_float s of
             None \<Rightarrow> None
           | Some (neg, x) \<Rightarrow>
               (case float_of x of Fin m \<Rightarrow> Some (Fin (if neg then - m else m)) | _ \<Rightarrow> None)))"

lemma float_mantissa_digits:
  "list_all is_digit s \<Longrightarrow>
   float_mantissa False s False digs m fd = ((digs \<or> s \<noteq> [], foldl (\<lambda>a c. 10 * a + digit_val c) m s, fd), [])"
proof (induction s arbitrary: digs m)
  case (Cons c s)
  then have "c \<noteq> CHR ''_''" "c \<noteq> CHR ''.''" by (auto simp: is_digit_def)
  with Cons show ?case by (simp add: float_digit_def mult.commute)
qed simp

lemma digits_not_special:
  assumes "list_all is_digit s" "s \<noteq> []"
  shows "float_special s = None" "strip_sign s = (False, s)" "\<not> hex_prefixed s"
    "CHR ''_'' \<notin> set s"
proof -
  obtain c t where s: "s = c # t" and c: "is_digit c" using assms by (cases s) auto
  have lc: "lower_char c = c" "c \<noteq> CHR ''i''" "c \<noteq> CHR ''n''" "c \<noteq> CHR ''-''" "c \<noteq> CHR ''+''"
    using c by (auto simp: is_digit_def lower_char_def is_upper_def)
  show sg: "strip_sign s = (False, s)" using lc s by (simp add: strip_sign_def prefix_singleton_iff)
  show "float_special s = None" using lc s sg by (simp add: float_special_def to_lower_def)
  show "\<not> hex_prefixed s"
  proof
    assume a: "hex_prefixed s"
    then have "is_digit (s ! 1)" using assms(1) by (simp add: list_all_length hex_prefixed_def)
    with a show False by (auto simp: hex_prefixed_def is_digit_def lower_char_def is_upper_def split: if_splits)
  qed
  show "CHR ''_'' \<notin> set s" using assms(1) by (auto simp: list_all_iff is_digit_def)
qed

lemma read_float_digits:
  assumes "list_all is_digit s" "s \<noteq> []"
  shows "read_float s = Some (False, of_nat (digits_val s))"
  using digits_not_special [OF assms] assms
  by (simp add: read_float_def float_mantissa_digits read_exponent_def decimal_value_def digits_val_def Let_def)

lemma parse_float_nat_str:
  assumes "n < 2 ^ 53"
  shows "parse_float (nat_str n) = Some (Fin (of_nat n))"
  using digits_not_special(1) [OF nat_str_digits nat_str_nonempty] read_float_digits [OF nat_str_digits nat_str_nonempty, of n]
    float_of_nat [OF assms]
  by (simp add: parse_float_def)

end
