(* ===== verification/GoJson.thy ===== *)
theory GoJson
  imports GoFloat
begin

text \<open>
  The part of \<open>encoding/json\<close> that the configuration files use: the values, the parser and the printer of
  \<open>MarshalIndent\<close>. An integer literal keeps its value as an integer, any other number its exact rational value;
  objects keep their members in the order of the text. Strings are byte strings, and invalid UTF-8 is
  replaced the way the library does it.
\<close>

section \<open>UTF-8\<close>

definition cont_byte :: "nat \<Rightarrow> nat \<Rightarrow> char \<Rightarrow> bool" where
  "cont_byte lo hi c \<longleftrightarrow> lo \<le> code c \<and> code c \<le> hi"

text \<open>The length of the valid encoding a text starts with, 0 if there is none.\<close>

definition utf8_len :: "string \<Rightarrow> nat" where
  "utf8_len s =
     (case s of [] \<Rightarrow> 0
      | c # t \<Rightarrow>
        (let n = code c; conts = (\<lambda>k. k \<le> length t \<and> list_all (cont_byte 128 191) (take k t)) in
         if n < 128 then 1
         else if 194 \<le> n \<and> n \<le> 223 then (if conts 1 then 2 else 0)
         else if 224 \<le> n \<and> n \<le> 239 then
           (if conts 2 \<and> (n = 224 \<longrightarrow> 160 \<le> code (hd t)) \<and> (n = 237 \<longrightarrow> code (hd t) \<le> 159) then 3 else 0)
         else if 240 \<le> n \<and> n \<le> 244 then
           (if conts 3 \<and> (n = 240 \<longrightarrow> 144 \<le> code (hd t)) \<and> (n = 244 \<longrightarrow> code (hd t) \<le> 143) then 4 else 0)
         else 0))"

definition replacement :: string where
  "replacement = [CHR 0xEF, CHR 0xBF, CHR 0xBD]"

definition utf8_encode :: "nat \<Rightarrow> string" where
  "utf8_encode r =
     (if r < 128 then [char_of r]
      else if r < 2048 then [char_of (192 + r div 64), char_of (128 + r mod 64)]
      else if r < 65536 then [char_of (224 + r div 4096), char_of (128 + r div 64 mod 64), char_of (128 + r mod 64)]
      else [char_of (240 + r div 262144), char_of (128 + r div 4096 mod 64), char_of (128 + r div 64 mod 64),
            char_of (128 + r mod 64)])"

function utf8_fix :: "string \<Rightarrow> string" where
  "utf8_fix s =
     (if s = [] then []
      else if utf8_len s = 0 then replacement @ utf8_fix (tl s)
      else take (utf8_len s) s @ utf8_fix (drop (utf8_len s) s))"
  by pat_completeness auto
termination
  by (relation "measure length") auto

declare utf8_fix.simps [simp del]

definition ascii :: "string \<Rightarrow> bool" where
  "ascii s \<longleftrightarrow> list_all (\<lambda>c. code c < 128) s"

lemma utf8_len_ascii [simp]: "code c < 128 \<Longrightarrow> utf8_len (c # s) = 1"
  by (simp add: utf8_len_def)

lemma utf8_fix_ascii: "ascii s \<Longrightarrow> utf8_fix s = s"
  by (induction s) (simp_all add: utf8_fix.simps [of "_ # _"] utf8_fix.simps [of "[]"] ascii_def)

section \<open>Values\<close>

datatype json =
    J_Null
  | J_Bool bool
  | J_Int int
  | J_Float rat
  | J_Str string
  | J_Arr "json list"
  | J_Obj "(string \<times> json) list"

section \<open>Reading\<close>

definition json_space :: "char \<Rightarrow> bool" where
  "json_space c \<longleftrightarrow> c \<in> {CHR '' '', CHR 0x09, CHR 0x0A, CHR 0x0D}"

definition skip_ws :: "string \<Rightarrow> string" where
  "skip_ws s = dropWhile json_space s"

definition hex_value :: "char \<Rightarrow> nat" where
  "hex_value c = (case float_digit True c of None \<Rightarrow> 0 | Some d \<Rightarrow> d)"

definition hex4 :: "string \<Rightarrow> nat option" where
  "hex4 s =
     (if 4 \<le> length s \<and> list_all (\<lambda>c. is_hex_lower (lower_char c)) (take 4 s)
      then Some (foldl (\<lambda>a c. 16 * a + hex_value c) 0 (take 4 s))
      else None)"

definition simple_escape :: "char \<Rightarrow> string option" where
  "simple_escape c =
     (if c \<in> {CHR 0x22, CHR 0x5C, CHR ''/''} then Some [c]
      else if c = CHR ''b'' then Some [CHR 0x08]
      else if c = CHR ''f'' then Some [CHR 0x0C]
      else if c = CHR ''n'' then Some [CHR 0x0A]
      else if c = CHR ''r'' then Some [CHR 0x0D]
      else if c = CHR ''t'' then Some [CHR 0x09]
      else None)"

text \<open>A \<open>\u\<close> escape: a high surrogate takes a following low one with it, a lone surrogate is replaced.\<close>

definition unicode_escape :: "string \<Rightarrow> (string \<times> string) option" where
  "unicode_escape s =
     (case hex4 s of None \<Rightarrow> None
      | Some r \<Rightarrow>
        (let t = drop 4 s in
         if r < 55296 \<or> 57344 \<le> r then Some (utf8_encode r, t)
         else case (if has_prefix t [CHR 0x5C, CHR ''u''] then hex4 (drop 2 t) else None) of
           Some r2 \<Rightarrow>
             if r < 56320 \<and> 56320 \<le> r2 \<and> r2 < 57344
             then Some (utf8_encode ((r - 55296) * 1024 + (r2 - 56320) + 65536), drop 6 t)
             else Some (replacement, t)
         | None \<Rightarrow> Some (replacement, t)))"

lemma unicode_escape_rest: "unicode_escape s = Some (v, t) \<Longrightarrow> length t \<le> length s"
  by (auto simp: unicode_escape_def Let_def split: option.splits if_splits)

text \<open>The inside of a string up to its closing quote.\<close>

function unquote :: "string \<Rightarrow> (string \<times> string) option" where
  "unquote s =
     (case s of [] \<Rightarrow> None
      | c # t \<Rightarrow>
        if c = CHR 0x22 then Some ([], t)
        else if c = CHR 0x5C then
          (case (case t of [] \<Rightarrow> None
                 | e # u \<Rightarrow> if e = CHR ''u'' then unicode_escape u else map_option (\<lambda>v. (v, u)) (simple_escape e)) of
             None \<Rightarrow> None
           | Some (v, u) \<Rightarrow> map_option (\<lambda>(w, r). (v @ w, r)) (unquote u))
        else if code c < 32 then None
        else if utf8_len s = 0 then map_option (\<lambda>(w, r). (replacement @ w, r)) (unquote t)
        else map_option (\<lambda>(w, r). (take (utf8_len s) s @ w, r)) (unquote (drop (utf8_len s) s)))"
  by pat_completeness auto
termination
  by (relation "measure length") (auto split: list.splits if_splits dest: unicode_escape_rest)

declare unquote.simps [simp del]

lemma unquote_rest: "unquote s = Some (v, t) \<Longrightarrow> length t < length s"
proof (induction s arbitrary: v t rule: unquote.induct)
  case (1 s)
  obtain c x where s: "s = c # x" using "1.prems" by (cases s) (auto simp: unquote.simps)
  note p = "1.prems" [unfolded unquote.simps [of s]]
  consider "c = CHR 0x22" | "c = CHR 0x5C" | "c \<noteq> CHR 0x22" "c \<noteq> CHR 0x5C" "\<not> code c < 32" "utf8_len s = 0"
    | "c \<noteq> CHR 0x22" "c \<noteq> CHR 0x5C" "\<not> code c < 32" "utf8_len s \<noteq> 0"
    using p s by (auto split: if_splits)
  then show ?case
  proof cases
    case 1
    then show ?thesis using p s by simp
  next
    case 2
    then obtain e y w u where e: "x = e # y"
        "(if e = CHR ''u'' then unicode_escape y else map_option (\<lambda>v. (v, y)) (simple_escape e)) = Some (w, u)"
      and r: "\<exists>v'. unquote u = Some (v', t)"
      using p s by (auto split: list.splits option.splits)
    have "length u \<le> length y" using e(2) by (auto split: if_splits dest: unicode_escape_rest)
    moreover have "length t < length u"
      using "1.IH"(1) [OF s _ 2, of "(w, u)" w u] r e 2 by auto
    ultimately show ?thesis using s e by simp
  next
    case 3
    then show ?thesis using "1.IH"(2) [OF s 3] p s by fastforce
  next
    case 4
    then show ?thesis using "1.IH"(3) [OF s 4] p s by fastforce
  qed
qed

text \<open>A number: the grammar of JSON, not that of Go.\<close>

definition span :: "(char \<Rightarrow> bool) \<Rightarrow> string \<Rightarrow> string \<times> string" where
  "span p s = (takeWhile p s, dropWhile p s)"

definition json_number :: "string \<Rightarrow> (json \<times> string) option" where
  "json_number s =
     (let (sg, s1) = (if has_prefix s ''-'' then (''-'', tl s) else ([], s));
          (ip, s2) = span is_digit s1;
          (fp, s3) = (if has_prefix s2 ''.'' then (\<lambda>(d, r). (CHR ''.'' # d, r)) (span is_digit (tl s2)) else ([], s2));
          (ep, s4) =
            (if s3 \<noteq> [] \<and> hd s3 \<in> {CHR ''e'', CHR ''E''} then
               (let (es, r1) = (if tl s3 \<noteq> [] \<and> hd (tl s3) \<in> {CHR ''+'', CHR ''-''}
                                then ([hd s3, hd (tl s3)], tl (tl s3)) else ([hd s3], tl s3));
                    (d, r2) = span is_digit r1
                in (es @ d @ (if d = [] then ''!'' else []), r2))
             else ([], s3))
      in if ip = [] \<or> (hd ip = CHR ''0'' \<and> ip \<noteq> ''0'') \<or> fp = ''.'' \<or> CHR ''!'' \<in> set ep then None
         else if fp = [] \<and> ep = [] then Some (J_Int (if sg = [] then int (digits_val ip) else - int (digits_val ip)), s4)
         else case read_float (ip @ fp @ ep) of None \<Rightarrow> None
           | Some (_, x) \<Rightarrow> Some (J_Float (if sg = [] then x else - x), s4))"

text \<open>
  Values, by fuel for the length of the text and a bound on the nesting (the library allows 10000 levels).
  \<open>json_items\<close> reads the elements of an array after the bracket or a comma, \<open>json_members\<close> the members of an object.
\<close>

fun json_value :: "nat \<Rightarrow> nat \<Rightarrow> string \<Rightarrow> (json \<times> string) option"
  and json_items :: "nat \<Rightarrow> nat \<Rightarrow> string \<Rightarrow> (json list \<times> string) option"
  and json_members :: "nat \<Rightarrow> nat \<Rightarrow> string \<Rightarrow> ((string \<times> json) list \<times> string) option" where
  "json_value 0 d s = None"
| "json_value (Suc n) d s0 =
     (let s = skip_ws s0 in
      if has_prefix s ''null'' then Some (J_Null, drop 4 s)
      else if has_prefix s ''true'' then Some (J_Bool True, drop 4 s)
      else if has_prefix s ''false'' then Some (J_Bool False, drop 5 s)
      else if has_prefix s [CHR 0x22] then map_option (\<lambda>(v, r). (J_Str v, r)) (unquote (tl s))
      else if has_prefix s ''['' then
        (if d = 0 then None
         else if has_prefix (skip_ws (tl s)) '']'' then Some (J_Arr [], tl (skip_ws (tl s)))
         else map_option (\<lambda>(v, r). (J_Arr v, r)) (json_items n (d - 1) (tl s)))
      else if has_prefix s ''{'' then
        (if d = 0 then None
         else if has_prefix (skip_ws (tl s)) ''}'' then Some (J_Obj [], tl (skip_ws (tl s)))
         else map_option (\<lambda>(v, r). (J_Obj v, r)) (json_members n (d - 1) (tl s)))
      else json_number s)"
| "json_items 0 d s = None"
| "json_items (Suc n) d s =
     (case json_value n d s of None \<Rightarrow> None
      | Some (v, r0) \<Rightarrow>
        (let r = skip_ws r0 in
         if has_prefix r '','' then map_option (\<lambda>(vs, t). (v # vs, t)) (json_items n d (tl r))
         else if has_prefix r '']'' then Some ([v], tl r)
         else None))"
| "json_members 0 d s = None"
| "json_members (Suc n) d s0 =
     (let s = skip_ws s0 in
      if \<not> has_prefix s [CHR 0x22] then None
      else case unquote (tl s) of None \<Rightarrow> None
      | Some (k, r0) \<Rightarrow>
        (let r = skip_ws r0 in
         if \<not> has_prefix r '':'' then None
         else case json_value n d (tl r) of None \<Rightarrow> None
         | Some (v, t0) \<Rightarrow>
           (let t = skip_ws t0 in
            if has_prefix t '','' then map_option (\<lambda>(ms, u). ((k, v) # ms, u)) (json_members n d (tl t))
            else if has_prefix t ''}'' then Some ([(k, v)], tl t)
            else None)))"

definition parse_json :: "string \<Rightarrow> json option" where
  "parse_json s =
     (case json_value (Suc (length s)) 10000 s of
        Some (v, r) \<Rightarrow> if skip_ws r = [] then Some v else None
      | None \<Rightarrow> None)"

section \<open>Printing\<close>

definition u_escape :: "nat \<Rightarrow> string" where
  "u_escape n = [CHR 0x5C, CHR ''u'', CHR ''0'', CHR ''0''] @ hex_byte n"

text \<open>One rune of a string, the length taken and the text written: HTML-sensitive characters, control characters and
  the two line separators are escaped.\<close>

definition quote_head :: "string \<Rightarrow> nat \<times> string" where
  "quote_head s =
     (let c = hd s; n = utf8_len s in
      if code c < 128 then
        (1, if c \<in> {CHR 0x22, CHR 0x5C} then [CHR 0x5C, c]
            else if c = CHR 0x08 then [CHR 0x5C, CHR ''b'']
            else if c = CHR 0x0C then [CHR 0x5C, CHR ''f'']
            else if c = CHR 0x0A then [CHR 0x5C, CHR ''n'']
            else if c = CHR 0x0D then [CHR 0x5C, CHR ''r'']
            else if c = CHR 0x09 then [CHR 0x5C, CHR ''t'']
            else if code c < 32 \<or> c \<in> {CHR ''<'', CHR ''>'', CHR ''&''} then u_escape (code c)
            else [c])
      else if n = 0 then (1, CHR 0x5C # ''ufffd'')
      else if take n s = [CHR 0xE2, CHR 0x80, CHR 0xA8] then (n, CHR 0x5C # ''u2028'')
      else if take n s = [CHR 0xE2, CHR 0x80, CHR 0xA9] then (n, CHR 0x5C # ''u2029'')
      else (n, take n s))"

lemma quote_head_pos: "s \<noteq> [] \<Longrightarrow> 0 < fst (quote_head s)"
  by (auto simp: quote_head_def Let_def)

function quote_body :: "string \<Rightarrow> string" where
  "quote_body s =
     (if s = [] then [] else (let (n, t) = quote_head s in t @ quote_body (drop n s)))"
  by pat_completeness auto
termination
  by (relation "measure length") (auto dest: quote_head_pos simp: prod_eq_iff intro!: diff_less)

declare quote_body.simps [simp del]

definition json_string :: "string \<Rightarrow> string" where
  "json_string s = CHR 0x22 # quote_body s @ [CHR 0x22]"

definition newline :: "nat \<Rightarrow> string" where
  "newline n = CHR 0x0A # replicate (2 * n) CHR '' ''"

fun commas :: "nat \<Rightarrow> string list \<Rightarrow> string" where
  "commas n [] = []"
| "commas n [t] = newline n @ t"
| "commas n (t # ts) = newline n @ t @ '','' @ commas n ts"

text \<open>\<open>MarshalIndent\<close> with two blanks per level. The text of a fraction is a parameter: no value printed here has one.\<close>

fun json_text :: "(rat \<Rightarrow> string) \<Rightarrow> nat \<Rightarrow> json \<Rightarrow> string" where
  "json_text ft n J_Null = ''null''"
| "json_text ft n (J_Bool b) = (if b then ''true'' else ''false'')"
| "json_text ft n (J_Int i) = itoa i"
| "json_text ft n (J_Float x) = ft x"
| "json_text ft n (J_Str s) = json_string s"
| "json_text ft n (J_Arr []) = ''[]''"
| "json_text ft n (J_Arr (j # js)) = ''['' @ commas (Suc n) (map (json_text ft (Suc n)) (j # js)) @ newline n @ '']''"
| "json_text ft n (J_Obj []) = ''{}''"
| "json_text ft n (J_Obj (m # ms)) =
     ''{'' @ commas (Suc n) (map (\<lambda>(k, v). json_string k @ '': '' @ json_text ft (Suc n) v) (m # ms)) @ newline n @ ''}''"

section \<open>What is printed is read back\<close>

lemma hex_value_char: "d < 16 \<Longrightarrow> is_hex_lower (lower_char (hex_char d)) \<and> hex_value (hex_char d) = d"
proof -
  assume d: "d < 16"
  show ?thesis
  proof (cases "d < 10")
    case True
    then have "hex_char d = digit_char d" by (simp add: hex_char_def digit_char_def)
    moreover from True have "is_digit (digit_char d)" by simp
    ultimately show ?thesis
      using True by (simp add: hex_value_def float_digit_def lower_char_def is_upper_def is_digit_def is_hex_lower_def)
  next
    case False
    with d have "code (hex_char d) = 87 + d" by (simp add: hex_char_def)
    with False d show ?thesis
      by (simp add: hex_value_def float_digit_def lower_char_def is_upper_def is_digit_def is_hex_lower_def)
  qed
qed

lemma hex4_Cons:
  "hex4 (a # b # c # d # s) =
     (if list_all (\<lambda>x. is_hex_lower (lower_char x)) [a, b, c, d]
      then Some (16 * (16 * (16 * hex_value a + hex_value b) + hex_value c) + hex_value d) else None)"
  by (simp add: hex4_def)

lemma unicode_escape_byte:
  assumes "code c < 128"
  shows "unicode_escape (CHR ''0'' # CHR ''0'' # hex_byte (code c) @ s) = Some ([c], s)"
proof -
  have z: "is_hex_lower (lower_char (CHR ''0''))" "hex_value (CHR ''0'') = 0" by code_simp+
  have h: "code c div 16 < 16" "code c mod 16 < 16" using assms by auto
  have "hex4 (CHR ''0'' # CHR ''0'' # hex_byte (code c) @ s) = Some (code c)"
    unfolding hex_byte_def append.simps hex4_Cons using hex_value_char [OF h(1)] hex_value_char [OF h(2)] z by simp
  moreover have "drop 4 (CHR ''0'' # CHR ''0'' # hex_byte (code c) @ s) = s" by (simp add: hex_byte_def)
  ultimately show ?thesis using assms by (simp add: unicode_escape_def utf8_encode_def)
qed

lemma quote_head_cases:
  assumes "code c < 128"
  obtains "snd (quote_head (c # s)) = u_escape (code c)"
  | e where "snd (quote_head (c # s)) = [CHR 0x5C, e]" "e \<noteq> CHR ''u''" "simple_escape e = Some [c]"
  | "snd (quote_head (c # s)) = [c]" "c \<noteq> CHR 0x22" "c \<noteq> CHR 0x5C" "\<not> code c < 32"
proof -
  let ?q = "snd (quote_head (c # s))"
  let ?html = "code c < 32 \<or> c \<in> {CHR ''<'', CHR ''>'', CHR ''&''}"
  let ?named = "c \<in> {CHR 0x22, CHR 0x5C} \<or> c = CHR 0x08 \<or> c = CHR 0x0C \<or> c = CHR 0x0A \<or> c = CHR 0x0D \<or> c = CHR 0x09"
  have q: "\<not> ?named \<Longrightarrow> ?q = (if ?html then u_escape (code c) else [c])"
    using assms by (simp add: quote_head_def Let_def)
  show thesis
  proof (cases ?named)
    case True
    then consider "c \<in> {CHR 0x22, CHR 0x5C}" | "c = CHR 0x08" | "c = CHR 0x0C" | "c = CHR 0x0A" | "c = CHR 0x0D" | "c = CHR 0x09"
      by argo
    then show ?thesis
    proof cases
      case 1 then show ?thesis using that(2) [of c] by (auto simp: quote_head_def simple_escape_def)
    next
      case 2
      then show ?thesis using that(2) [of "CHR ''b''"] by (simp add: quote_head_def simple_escape_def)
    next
      case 3
      then show ?thesis using that(2) [of "CHR ''f''"] by (simp add: quote_head_def simple_escape_def)
    next
      case 4
      then show ?thesis using that(2) [of "CHR ''n''"] by (simp add: quote_head_def simple_escape_def)
    next
      case 5
      then show ?thesis using that(2) [of "CHR ''r''"] by (simp add: quote_head_def simple_escape_def)
    next
      case 6
      then show ?thesis using that(2) [of "CHR ''t''"] by (simp add: quote_head_def simple_escape_def)
    qed
  next
    case False
    then show ?thesis using q that(1,3) by (cases ?html) auto
  qed
qed

lemma quote_body_Cons:
  "code c < 128 \<Longrightarrow> quote_body (c # s) = snd (quote_head (c # s)) @ quote_body s"
  by (subst quote_body.simps) (simp add: quote_head_def Let_def)

lemma unquote_quote_body:
  "ascii s \<Longrightarrow> unquote (quote_body s @ CHR 0x22 # r) = Some (s, r)"
proof (induction s)
  case Nil
  then show ?case by (simp add: quote_body.simps unquote.simps)
next
  case (Cons c s)
  let ?t = "quote_body s @ CHR 0x22 # r"
  have c: "code c < 128" and IH: "unquote ?t = Some (s, r)" using Cons by (auto simp: ascii_def)
  have "unquote (snd (quote_head (c # s)) @ ?t) = Some (c # s, r)"
  proof (cases rule: quote_head_cases [OF c, of s])
    case 1
    then show ?thesis
      using unicode_escape_byte [OF c, of ?t] IH by (subst unquote.simps) (simp add: u_escape_def)
  next
    case (2 e)
    then show ?thesis using IH by (subst unquote.simps) simp
  next
    case 3
    then show ?thesis using IH c by (subst unquote.simps) simp
  qed
  then show ?case by (simp add: quote_body_Cons [OF c])
qed

text \<open>The values whose printed text is read back: ASCII strings and no fractions. The fuel the parser needs for one is
  bounded by the length of its text.\<close>

fun plain_json :: "json \<Rightarrow> bool" where
  "plain_json (J_Float x) = False"
| "plain_json (J_Str s) = ascii s"
| "plain_json (J_Arr js) = list_all plain_json js"
| "plain_json (J_Obj ms) = list_all (\<lambda>(k, v). ascii k \<and> plain_json v) ms"
| "plain_json _ = True"

fun json_depth :: "json \<Rightarrow> nat" where
  "json_depth (J_Arr js) = Suc (foldr (\<lambda>j m. max (json_depth j) m) js 0)"
| "json_depth (J_Obj ms) = Suc (foldr (\<lambda>(k, v) m. max (json_depth v) m) ms 0)"
| "json_depth _ = 0"

lemma depth_items: "j \<in> set js \<Longrightarrow> json_depth j \<le> foldr (\<lambda>j m. max (json_depth j) m) js 0"
  by (induction js) auto

lemma depth_members: "(k, v) \<in> set ms \<Longrightarrow> json_depth v \<le> foldr (\<lambda>(k, v) m. max (json_depth v) m) ms 0"
  by (induction ms) auto

lemma skip_ws_newline [simp]: "skip_ws (newline n @ s) = skip_ws s"
  using dropWhile_append2 [of "replicate (2 * n) CHR '' ''" json_space s]
  by (simp add: skip_ws_def newline_def) (simp add: json_space_def)

lemma skip_ws_other: "s = [] \<or> \<not> json_space (hd s) \<Longrightarrow> skip_ws s = s"
  by (cases s) (simp_all add: skip_ws_def)

lemma skip_ws_blank [simp]: "skip_ws (CHR '' '' # s) = skip_ws s"
  by (simp add: skip_ws_def json_space_def)

definition number_end :: "string \<Rightarrow> bool" where
  "number_end r \<longleftrightarrow> r = [] \<or> \<not> (is_digit (hd r) \<or> hd r \<in> {CHR ''.'', CHR ''e'', CHR ''E''})"

lemma nat_str_zero: "hd (nat_str n) = CHR ''0'' \<Longrightarrow> n = 0"
proof (induction n rule: nat_str.induct)
  case (1 n)
  show ?case
  proof (cases "n < 10")
    case True
    then have "hd (nat_str n) = digit_char n" by (subst nat_str.simps) simp
    with "1.prems" True digit_val_char [of n] show ?thesis by (simp add: digit_val_def)
  next
    case False
    then have "nat_str n = nat_str (n div 10) @ [digit_char (n mod 10)]" by (subst nat_str.simps) simp
    with "1.prems" have "hd (nat_str (n div 10)) = CHR ''0''" by simp
    then have "n div 10 = 0" using "1.IH" False by blast
    with False show ?thesis by simp
  qed
qed

lemma json_number_nat:
  assumes "number_end r"
  shows "span is_digit (nat_str n @ r) = (nat_str n, r)"
  using assms nat_str_digits [of n]
  by (auto simp: span_def number_end_def list_all_iff takeWhile_append2 dropWhile_append2 takeWhile_eq_Nil_iff
      dropWhile_eq_self_iff)

lemma json_number_itoa:
  assumes "number_end r"
  shows "json_number (itoa i @ r) = Some (J_Int i, r)"
proof -
  have nz: "hd (nat_str n) = CHR ''0'' \<Longrightarrow> nat_str n = ''0''" for n
    using nat_str_zero [of n] by (auto simp: nat_str.simps [of 0])
  have nr: "\<not> has_prefix r ''.''" "\<not> (r \<noteq> [] \<and> hd r \<in> {CHR ''e'', CHR ''E''})"
    using assms by (auto simp: number_end_def prefix_singleton_iff)
  show ?thesis
  proof (cases "i < 0")
    case True
    then show ?thesis using json_number_nat [OF assms] nz nr by (auto simp: json_number_def itoa_def Let_def)
  next
    case False
    have "\<not> has_prefix (nat_str (nat i) @ r) ''-''"
      using nat_str_no_sign(1) [of "nat i"] by (cases "nat_str (nat i)") auto
    with False show ?thesis using json_number_nat [OF assms] nz nr by (auto simp: json_number_def itoa_def Let_def)
  qed
qed

lemma itoa_head: "itoa i = c # t \<Longrightarrow> c = CHR ''-'' \<or> is_digit c"
  using nat_str_head by (auto simp: itoa_def split: if_splits) (metis list.sel(1))+

lemma json_value_int:
  assumes "number_end r"
  shows "json_value (Suc n) d (itoa i @ r) = Some (J_Int i, r)"
proof -
  obtain c t where ct: "itoa i = c # t" by (cases "itoa i") auto
  with itoa_head have c: "c = CHR ''-'' \<or> is_digit c" by blast
  then have "skip_ws (itoa i @ r) = itoa i @ r"
    by (intro skip_ws_other) (auto simp: ct json_space_def is_digit_def)
  moreover have "c \<noteq> CHR ''n''" "c \<noteq> CHR ''t''" "c \<noteq> CHR ''f''" "c \<noteq> CHR 0x22" "c \<noteq> CHR ''[''" "c \<noteq> CHR ''{''"
    using c by (auto simp: is_digit_def)
  ultimately show ?thesis using json_number_itoa [OF assms, of i] by (simp add: ct)
qed

lemma json_string_value: "ascii s \<Longrightarrow> json_value (Suc n) d (json_string s @ r) = Some (J_Str s, r)"
  using unquote_quote_body [of s r] skip_ws_other [of "json_string s @ r"]
  by (simp add: json_string_def json_space_def)

lemma number_end_newline: "number_end (newline n @ s)" "number_end (CHR '','' # s)"
  by (simp_all add: number_end_def newline_def is_digit_def)

lemma commas_Cons:
  "commas n (t # ts) = newline n @ t @ (if ts = [] then [] else '','' @ commas n ts)"
  by (cases ts) simp_all

lemma json_items_text:
  assumes "js \<noteq> []"
    and "\<And>j m r. j \<in> set js \<Longrightarrow> length (json_text ft k j) < m \<Longrightarrow> number_end r \<Longrightarrow>
           json_value m d (newline k @ json_text ft k j @ r) = Some (j, r)"
    and "length (commas k (map (json_text ft k) js)) < n"
  shows "json_items n d (commas k (map (json_text ft k) js) @ newline i @ '']'' @ r) = Some (js, r)"
  using assms
proof (induction js arbitrary: n)
  case (Cons j js)
  obtain m where n: "n = Suc m" using Cons.prems(3) by (cases n) auto
  let ?rest = "(if js = [] then [] else '','' @ commas k (map (json_text ft k) js)) @ newline i @ '']'' @ r"
  have len: "length (json_text ft k j) < m" using Cons.prems(3) n by (simp add: commas_Cons newline_def)
  have end1: "number_end ?rest" by (simp add: number_end_newline)
  have v: "json_value m d (newline k @ json_text ft k j @ ?rest) = Some (j, ?rest)"
    by (rule Cons.prems(2) [OF _ len end1]) simp
  show ?case
  proof (cases "js = []")
    case True
    with v n show ?thesis by (simp add: skip_ws_other json_space_def)
  next
    case False
    have "json_items m d (commas k (map (json_text ft k) js) @ newline i @ '']'' @ r) = Some (js, r)"
      using Cons.prems(2,3) False n by (intro Cons.IH) (auto simp: commas_Cons newline_def)
    with v n False show ?thesis by (simp add: commas_Cons skip_ws_other json_space_def)
  qed
qed simp

abbreviation member_text :: "(rat \<Rightarrow> string) \<Rightarrow> nat \<Rightarrow> string \<times> json \<Rightarrow> string" where
  "member_text ft k \<equiv> (\<lambda>(x, v). json_string x @ '': '' @ json_text ft k v)"

lemma json_members_text:
  assumes "ms \<noteq> []"
    and "\<And>x v m r. (x, v) \<in> set ms \<Longrightarrow> length (json_text ft k v) < m \<Longrightarrow> number_end r \<Longrightarrow>
           ascii x \<and> json_value m d (CHR '' '' # json_text ft k v @ r) = Some (v, r)"
    and "length (commas k (map (member_text ft k) ms)) < n"
  shows "json_members n d (commas k (map (member_text ft k) ms) @ newline i @ ''}'' @ r) = Some (ms, r)"
  using assms
proof (induction ms arbitrary: n)
  case (Cons m ms)
  obtain x v where m: "m = (x, v)" by (cases m)
  obtain n' where n: "n = Suc n'" using Cons.prems(3) by (cases n) auto
  let ?rest = "(if ms = [] then [] else '','' @ commas k (map (member_text ft k) ms)) @ newline i @ ''}'' @ r"
  let ?val = "'': '' @ json_text ft k v @ ?rest"
  have len: "length (json_text ft k v) < n'" using Cons.prems(3) n m by (simp add: commas_Cons newline_def)
  have end1: "number_end ?rest" by (simp add: number_end_newline)
  have v: "ascii x" "json_value n' d (CHR '' '' # json_text ft k v @ ?rest) = Some (v, ?rest)"
    using Cons.prems(2) [OF _ len end1, of x] m by auto
  have u: "unquote (quote_body x @ CHR 0x22 # ?val) = Some (x, ?val)" by (rule unquote_quote_body [OF v(1)])
  show ?case
  proof (cases "ms = []")
    case True
    with u v m n show ?thesis by (simp add: json_string_def skip_ws_other json_space_def)
  next
    case False
    have "json_members n' d (commas k (map (member_text ft k) ms) @ newline i @ ''}'' @ r) = Some (ms, r)"
      using Cons.prems(2,3) False n by (intro Cons.IH) (auto simp: commas_Cons newline_def)
    with u v m n False show ?thesis by (simp add: commas_Cons json_string_def skip_ws_other json_space_def)
  qed
qed simp

lemma json_value_ws: "json_value (Suc n) d (CHR '' '' # s) = json_value (Suc n) d s"
    "json_value (Suc n) d (newline k @ s) = json_value (Suc n) d s"
  by simp_all

lemma json_text_start:
  assumes "plain_json j"
  shows "\<not> has_prefix (skip_ws (newline i @ json_text ft k j @ r)) '']''"
proof -
  obtain c t where ct: "json_text ft k j = c # t" "\<not> json_space c" "c \<noteq> CHR '']''"
  proof (cases j)
    case (J_Bool b)
    with that show ?thesis by (cases b) (auto simp: json_space_def)
  next
    case (J_Int i)
    obtain c t where ct: "itoa i = c # t" by (cases "itoa i") auto
    with itoa_head have "c = CHR ''-'' \<or> is_digit c" by blast
    then have "\<not> json_space c" "c \<noteq> CHR '']''" by (auto simp: json_space_def is_digit_def)
    with ct J_Int that show ?thesis by simp
  next
    case (J_Arr js)
    then show ?thesis using that by (cases js) (auto simp: json_space_def)
  next
    case (J_Obj ms)
    then show ?thesis using that by (cases ms) (auto simp: json_space_def)
  qed (use assms that in \<open>auto simp: json_space_def json_string_def split: if_splits\<close>)
  then show ?thesis by (simp add: skip_ws_other)
qed

lemma json_value_text:
  "plain_json j \<Longrightarrow> json_depth j \<le> d \<Longrightarrow> length (json_text ft k j) < n \<Longrightarrow> number_end r \<Longrightarrow>
   json_value n d (json_text ft k j @ r) = Some (j, r)"
proof (induction j arbitrary: d k n r)
  case (J_Arr js)
  obtain m where n: "n = Suc m" using J_Arr.prems(3) by (cases n) auto
  show ?case
  proof (cases "js = []")
    case False
    then obtain j0 js0 where js: "js = j0 # js0" by (cases js) auto
    then have tx: "json_text ft k (J_Arr js) = ''['' @ commas (Suc k) (map (json_text ft (Suc k)) js) @ newline k @ '']''"
      by simp
    have d: "0 < d" using J_Arr.prems(2) by simp
    have "json_items m (d - 1) (commas (Suc k) (map (json_text ft (Suc k)) js) @ newline k @ '']'' @ r) = Some (js, r)"
    proof (rule json_items_text [OF False])
      fix j m' r'
      assume a: "j \<in> set js" "length (json_text ft (Suc k) j) < m'" "number_end r'"
      have "json_depth j \<le> d - 1" using depth_items [OF a(1)] J_Arr.prems(2) by simp
      moreover have "plain_json j" using J_Arr.prems(1) a(1) by (simp add: list_all_iff)
      ultimately have "json_value m' (d - 1) (json_text ft (Suc k) j @ r') = Some (j, r')"
        using J_Arr.IH a by blast
      then show "json_value m' (d - 1) (newline (Suc k) @ json_text ft (Suc k) j @ r') = Some (j, r')"
        using a(2) by (cases m') (simp_all only: json_value_ws)
    next
      show "length (commas (Suc k) (map (json_text ft (Suc k)) js)) < m" using J_Arr.prems(3) n tx by simp
    qed
    moreover have "\<not> has_prefix (skip_ws (commas (Suc k) (map (json_text ft (Suc k)) js) @ newline k @ '']'' @ r)) '']''"
      using json_text_start [of j0 "Suc k" ft "Suc k"] J_Arr.prems(1) by (simp add: js commas_Cons del: skip_ws_newline)
    ultimately show ?thesis
      using d n by (simp only: tx) (simp add: skip_ws_other json_space_def Let_def)
  qed (use J_Arr.prems n in \<open>simp add: skip_ws_other json_space_def\<close>)
next
  case (J_Obj ms)
  obtain m where n: "n = Suc m" using J_Obj.prems(3) by (cases n) auto
  show ?case
  proof (cases "ms = []")
    case False
    then obtain m0 ms0 where ms: "ms = m0 # ms0" by (cases ms) auto
    then have tx: "json_text ft k (J_Obj ms) = ''{'' @ commas (Suc k) (map (member_text ft (Suc k)) ms) @ newline k @ ''}''"
      by simp
    have d: "0 < d" using J_Obj.prems(2) by simp
    have "json_members m (d - 1) (commas (Suc k) (map (member_text ft (Suc k)) ms) @ newline k @ ''}'' @ r) = Some (ms, r)"
    proof (rule json_members_text [OF False])
      fix x v m' r'
      assume a: "(x, v) \<in> set ms" "length (json_text ft (Suc k) v) < m'" "number_end r'"
      have "json_depth v \<le> d - 1" using depth_members [OF a(1)] J_Obj.prems(2) by simp
      moreover have p: "ascii x" "plain_json v" using J_Obj.prems(1) a(1) by (auto simp: list_all_iff)
      moreover have "v \<in> Basic_BNFs.snds (x, v)" by simp
      ultimately have "json_value m' (d - 1) (json_text ft (Suc k) v @ r') = Some (v, r')"
        using J_Obj.IH a by blast
      with p a(2) show "ascii x \<and> json_value m' (d - 1) (CHR '' '' # json_text ft (Suc k) v @ r') = Some (v, r')"
        by (cases m') (simp_all only: json_value_ws)
    next
      show "length (commas (Suc k) (map (member_text ft (Suc k)) ms)) < m" using J_Obj.prems(3) n tx by simp
    qed
    moreover have "\<not> has_prefix (skip_ws (commas (Suc k) (map (member_text ft (Suc k)) ms) @ newline k @ ''}'' @ r)) ''}''"
      by (cases m0) (simp add: ms commas_Cons skip_ws_other json_space_def json_string_def)
    ultimately show ?thesis
      using d n by (simp only: tx) (simp add: skip_ws_other json_space_def Let_def)
  qed (use J_Obj.prems n in \<open>simp add: skip_ws_other json_space_def\<close>)
next
  case J_Null
  then show ?case by (cases n) (auto simp: skip_ws_other json_space_def Let_def)
next
  case (J_Bool b)
  then show ?case by (cases n; cases b) (auto simp: skip_ws_other json_space_def Let_def)
next
  case (J_Int i)
  then show ?case by (cases n) (auto simp only: json_text.simps json_value_int)
next
  case (J_Str x)
  then show ?case by (cases n) (auto simp only: json_text.simps json_string_value plain_json.simps)
qed simp

lemma parse_json_text:
  assumes "plain_json j" "json_depth j \<le> 10000" "list_all json_space w"
  shows "parse_json (json_text ft k j @ w) = Some j"
proof -
  have "number_end w" using assms(3) by (cases w) (auto simp: number_end_def json_space_def is_digit_def)
  moreover have "skip_ws w = []" using assms(3) by (simp add: skip_ws_def list_all_iff)
  ultimately show ?thesis
    using json_value_text [OF assms(1,2), of ft k "Suc (length (json_text ft k j @ w))" w] by (simp add: parse_json_def)
qed

section \<open>Floats as numbers\<close>

text \<open>
  How a float64 is written, as far as a decoder sees it: a whole one below 10^21 with the shortest digits that give
  it back, any other one with a point or an exponent.
\<close>

definition shortest_digits :: "int \<Rightarrow> int" where
  "shortest_digits i =
     (case find (\<lambda>k. float_of (of_int (round_even (of_int i / 10 ^ k) * 10 ^ k)) = Fin (of_int i)) (rev [0..<22]) of
        None \<Rightarrow> i
      | Some k \<Rightarrow> round_even (of_int i / 10 ^ k) * 10 ^ k)"

definition float_json :: "rat \<Rightarrow> json" where
  "float_json x =
     (if of_int \<lfloor>x\<rfloor> = x \<and> \<bar>x\<bar> < 10 ^ 21
      then J_Int (if x < 0 then - shortest_digits (- \<lfloor>x\<rfloor>) else shortest_digits \<lfloor>x\<rfloor>) else J_Float x)"

lemma round_even_ge: "of_int n \<le> x \<Longrightarrow> n \<le> round_even x"
proof -
  assume "of_int n \<le> x"
  then have "n \<le> \<lfloor>x\<rfloor>" by (simp add: le_floor_iff)
  then show ?thesis by (simp add: round_even_def Let_def)
qed

lemma float_of_large:
  assumes "2 ^ 53 \<le> (r :: int)" "float_of (of_int r) = Fin x"
  shows "2 ^ 53 \<le> x"
proof -
  have r: "0 < r" using assms(1) by simp
  have b: "53 < bitlen r" using assms(1) bitlen_ge_iff_power [of 54 r] by simp
  then have q: "max (floor_log2 (of_int r) - 52) (- 1074) = bitlen r - 53" using floor_log2_int [OF r] by simp
  define k where "k = nat (bitlen r - 53)"
  have p: "pow2 (bitlen r - 53) = 2 ^ k" using b by (simp add: pow2_def k_def)
  have "nat (bitlen r - 1) = 52 + k" using b by (simp add: k_def)
  then have "2 ^ (52 + k) \<le> r" using bitlen_pos_bounds [OF r] by metis
  then have "(2 ^ 52 * 2 ^ k :: rat) \<le> of_int r"
    by (metis of_int_le_iff of_int_numeral of_int_power of_int_mult power_add)
  then have "of_int (2 ^ 52) \<le> (of_int r :: rat) / 2 ^ k" by (simp add: pos_le_divide_eq)
  then have m: "2 ^ 52 \<le> round_even (of_int r / 2 ^ k)" by (rule round_even_ge)
  have k1: "2 \<le> (2 ^ k :: rat)" using b power_increasing [of 1 k "2 :: rat"] by (simp add: k_def)
  have "(2 ^ 52 * 2 :: rat) \<le> of_int (round_even (of_int r / 2 ^ k)) * 2 ^ k"
    by (rule mult_mono) (use m k1 in \<open>simp_all add: of_int_le_iff [of "2 ^ 52", symmetric]\<close>)
  then have "2 ^ 53 \<le> round_pos (of_int r)" unfolding round_pos_def Let_def q p by simp
  moreover have "x = round_pos (of_int r)" using assms(2) r by (auto simp: float_of_def Let_def split: if_splits)
  ultimately show ?thesis by simp
qed

lemma shortest_digits_small:
  assumes "0 \<le> i" "i < 2 ^ 53"
  shows "shortest_digits i = i"
proof (cases "find (\<lambda>k. float_of (of_int (round_even (of_int i / 10 ^ k) * 10 ^ k)) = Fin (of_int i)) (rev [0..<22])")
  case (Some k)
  let ?r = "round_even (of_int i / 10 ^ k) * 10 ^ k"
  have f: "float_of (of_int ?r) = Fin (of_int i)" using Some by (auto simp: find_Some_iff)
  have "0 \<le> round_even (of_int i / 10 ^ k)" using assms(1) by (intro round_even_ge) simp
  then have r: "0 \<le> ?r" by simp
  have "?r < 2 ^ 53"
  proof (rule ccontr)
    assume "\<not> ?r < 2 ^ 53"
    then have "(2 ^ 53 :: rat) \<le> of_int i" using float_of_large [of ?r "of_int i"] f by simp
    then have "2 ^ 53 \<le> i" by (metis of_int_le_iff of_int_numeral of_int_power)
    with assms(2) show False by simp
  qed
  then have "float_of (of_int ?r) = Fin (of_int ?r)" using float_of_int [of ?r 0] r by simp
  with f have "(of_int ?r :: rat) = of_int i" by simp
  then have "?r = i" by (simp only: of_int_eq_iff)
  then show ?thesis unfolding shortest_digits_def Some option.case .
qed (simp add: shortest_digits_def)

lemma float_json_small:
  assumes "\<bar>i\<bar> < 2 ^ 53"
  shows "float_json (of_int i) = J_Int i"
proof -
  have "\<bar>of_int i :: rat\<bar> < 2 ^ 53" using assms by (metis of_int_abs of_int_less_iff of_int_numeral of_int_power)
  then have "\<bar>of_int i :: rat\<bar> < 10 ^ 21" by simp
  then show ?thesis using shortest_digits_small [of i] shortest_digits_small [of "- i"] assms by (simp add: float_json_def)
qed

lemma float_of_int_signed:
  assumes "\<bar>i\<bar> < 2 ^ 53"
  shows "float_of (of_int i) = Fin (of_int i)"
proof (cases "i < 0")
  case True
  have "float_of (of_int (- i)) = Fin (of_int (- i))" using float_of_int [of "- i" 0] assms True by simp
  then show ?thesis using True by (auto simp: float_of_def Let_def split: if_splits)
next
  case False
  then show ?thesis using float_of_int [of i 0] assms by simp
qed

end
