(* ===== verification/Codec.thy ===== *)
theory Codec
  imports GoJson
begin

text \<open>
  How \<open>encoding/json\<close> fills and writes the configuration structs. A struct type is the list of its fields with
  their JSON names and the \<open>omitempty\<close> mark; decoding works in place, keeps what the text does not mention, goes
  on after a mismatch and reports it at the end. Types are strings, integers and booleans, pointers to and
  slices of them, and structs, which is what the configurations are made of.
\<close>

section \<open>Types and values\<close>

datatype base = B_Str | B_Int | B_Bool

datatype ty = T_Base base | T_Ptr base | T_List base | T_Struct "(string \<times> bool \<times> ty) list"

datatype scalar = S_Str string | S_Int int | S_Bool bool

datatype gv = V_Base scalar | V_Ptr "scalar option" | V_List "scalar list option" | V_Struct "(string \<times> gv) list"

type_synonym fields = "(string \<times> bool \<times> ty) list"

fun scalar_typed :: "base \<Rightarrow> scalar \<Rightarrow> bool" where
  "scalar_typed B_Str (S_Str s) = True"
| "scalar_typed B_Int (S_Int i) = (min_int64 \<le> i \<and> i \<le> max_int64)"
| "scalar_typed B_Bool (S_Bool b) = True"
| "scalar_typed _ _ = False"

fun typed :: "ty \<Rightarrow> gv \<Rightarrow> bool" where
  "typed (T_Base b) (V_Base x) = scalar_typed b x"
| "typed (T_Ptr b) (V_Ptr xo) = (case xo of None \<Rightarrow> True | Some x \<Rightarrow> scalar_typed b x)"
| "typed (T_List b) (V_List xs) = (case xs of None \<Rightarrow> True | Some ys \<Rightarrow> list_all (scalar_typed b) ys)"
| "typed (T_Struct fs) (V_Struct vs) = list_all2 (\<lambda>(n, _, t) (m, v). n = m \<and> typed t v) fs vs"
| "typed _ _ = False"

fun wf_ty :: "ty \<Rightarrow> bool" where
  "wf_ty (T_Struct fs) \<longleftrightarrow> distinct (map (\<lambda>f. to_lower (fst f)) fs) \<and> list_all (\<lambda>(_, _, t). wf_ty t) fs"
| "wf_ty _ = True"

fun zero_scalar :: "base \<Rightarrow> scalar" where
  "zero_scalar B_Str = S_Str []"
| "zero_scalar B_Int = S_Int 0"
| "zero_scalar B_Bool = S_Bool False"

fun zero_value :: "ty \<Rightarrow> gv" where
  "zero_value (T_Base b) = V_Base (zero_scalar b)"
| "zero_value (T_Ptr b) = V_Ptr None"
| "zero_value (T_List b) = V_List None"
| "zero_value (T_Struct fs) = V_Struct (map (\<lambda>(n, _, t). (n, zero_value t)) fs)"

section \<open>Decoding\<close>

fun decode_scalar :: "base \<Rightarrow> scalar \<Rightarrow> json \<Rightarrow> scalar \<times> bool" where
  "decode_scalar b x J_Null = (x, False)"
| "decode_scalar B_Str x (J_Str s) = (S_Str s, False)"
| "decode_scalar B_Int x (J_Int i) = (if min_int64 \<le> i \<and> i \<le> max_int64 then (S_Int i, False) else (x, True))"
| "decode_scalar B_Bool x (J_Bool b) = (S_Bool b, False)"
| "decode_scalar b x j = (x, True)"

text \<open>The elements of an array are decoded over the elements the slice already had.\<close>

fun decode_items :: "base \<Rightarrow> scalar list \<Rightarrow> json list \<Rightarrow> scalar list \<times> bool" where
  "decode_items b old [] = ([], False)"
| "decode_items b old (j # js) =
     (let (x, e) = decode_scalar b (if old = [] then zero_scalar b else hd old) j;
          (xs, e') = decode_items b (tl old) js
      in (x # xs, e \<or> e'))"

definition find_field :: "fields \<Rightarrow> string \<Rightarrow> (string \<times> ty) option" where
  "find_field fs k =
     (case find (\<lambda>f. fst f = k) fs of
        Some (n, _, t) \<Rightarrow> Some (n, t)
      | None \<Rightarrow> (case find (\<lambda>f. equal_fold (fst f) k) fs of Some (n, _, t) \<Rightarrow> Some (n, t) | None \<Rightarrow> None))"

definition get_field :: "(string \<times> gv) list \<Rightarrow> string \<Rightarrow> gv" where
  "get_field vs n = (case map_of vs n of Some v \<Rightarrow> v | None \<Rightarrow> V_Ptr None)"

definition set_field :: "string \<Rightarrow> gv \<Rightarrow> (string \<times> gv) list \<Rightarrow> (string \<times> gv) list" where
  "set_field n w vs = map (\<lambda>(m, v). (m, if m = n then w else v)) vs"

function (sequential) decode :: "ty \<Rightarrow> gv \<Rightarrow> json \<Rightarrow> gv \<times> bool"
  and decode_members :: "fields \<Rightarrow> (string \<times> gv) list \<Rightarrow> (string \<times> json) list \<Rightarrow> (string \<times> gv) list \<times> bool" where
  "decode (T_Base b) (V_Base x) j = (let (y, e) = decode_scalar b x j in (V_Base y, e))"
| "decode (T_Ptr b) (V_Ptr xo) j =
     (if j = J_Null then (V_Ptr None, False)
      else
        (let (y, e) = decode_scalar b (case xo of None \<Rightarrow> zero_scalar b | Some x \<Rightarrow> x) j in (V_Ptr (Some y), e)))"
| "decode (T_List b) (V_List xs) J_Null = (V_List None, False)"
| "decode (T_List b) (V_List xs) (J_Arr js) =
     (let (ys, e) = decode_items b (case xs of None \<Rightarrow> [] | Some zs \<Rightarrow> zs) js in (V_List (Some ys), e))"
| "decode (T_Struct fs) (V_Struct vs) J_Null = (V_Struct vs, False)"
| "decode (T_Struct fs) (V_Struct vs) (J_Obj ms) =
     (let (ws, e) = decode_members fs vs ms in (V_Struct ws, e))"
| "decode t v j = (v, True)"
| "decode_members fs vs [] = (vs, False)"
| "decode_members fs vs ((k, j) # ms) =
     (case find_field fs k of
        None \<Rightarrow> decode_members fs vs ms
      | Some (n, t) \<Rightarrow>
          (let (w, e) = decode t (get_field vs n) j; (ws, e') = decode_members fs (set_field n w vs) ms in (ws, e \<or> e')))"
  by pat_completeness auto
termination
  by (relation "measure (\<lambda>p. case p of Inl (t, v, j) \<Rightarrow> size j | Inr (fs, vs, ms) \<Rightarrow> size_list (size_prod (\<lambda>x. 0) size) ms)")
     auto

section \<open>Encoding\<close>

fun encode_scalar :: "scalar \<Rightarrow> json" where
  "encode_scalar (S_Str s) = J_Str (utf8_fix s)"
| "encode_scalar (S_Int i) = J_Int i"
| "encode_scalar (S_Bool b) = J_Bool b"

fun empty_value :: "gv \<Rightarrow> bool" where
  "empty_value (V_Base (S_Str s)) = (s = [])"
| "empty_value (V_Base (S_Int i)) = (i = 0)"
| "empty_value (V_Base (S_Bool b)) = (\<not> b)"
| "empty_value (V_Ptr xo) = (xo = None)"
| "empty_value (V_List xs) = (xs = None \<or> xs = Some [])"
| "empty_value (V_Struct vs) = False"

fun encode :: "ty \<Rightarrow> gv \<Rightarrow> json" where
  "encode (T_Base b) (V_Base x) = encode_scalar x"
| "encode (T_Ptr b) (V_Ptr xo) = (case xo of None \<Rightarrow> J_Null | Some x \<Rightarrow> encode_scalar x)"
| "encode (T_List b) (V_List xs) = (case xs of None \<Rightarrow> J_Null | Some ys \<Rightarrow> J_Arr (map encode_scalar ys))"
| "encode (T_Struct fs) (V_Struct vs) =
     J_Obj (concat (map (\<lambda>(n, om, t). if om \<and> empty_value (get_field vs n) then [] else [(n, encode t (get_field vs n))]) fs))"
| "encode _ _ = J_Null"

section \<open>Decoding keeps the type\<close>

lemma zero_scalar_typed [simp]: "scalar_typed b (zero_scalar b)"
  by (cases b) (simp_all add: min_int64_def max_int64_def)

lemma decode_scalar_typed: "scalar_typed b x \<Longrightarrow> scalar_typed b (fst (decode_scalar b x j))"
  by (cases b; cases j) auto

lemma decode_items_typed:
  "list_all (scalar_typed b) old \<Longrightarrow> list_all (scalar_typed b) (fst (decode_items b old js))"
proof (induction b old js rule: decode_items.induct)
  case (2 b old j js)
  have "list_all (scalar_typed b) (tl old)" using 2 by (cases old) auto
  moreover have "scalar_typed b (if old = [] then zero_scalar b else hd old)" using 2 by (cases old) auto
  ultimately show ?case
    using "2.IH" decode_scalar_typed by (simp add: Let_def case_prod_beta) (metis prod.collapse)
qed simp

lemma find_field_in: "find_field fs k = Some (n, t) \<Longrightarrow> \<exists>om. (n, om, t) \<in> set fs"
  by (auto simp: find_field_def find_Some_iff split: option.splits) (metis nth_mem)+

lemma typed_struct_iff:
  "typed (T_Struct fs) (V_Struct vs) \<longleftrightarrow>
     map fst vs = map fst fs \<and> (\<forall>i < length fs. typed (snd (snd (fs ! i))) (snd (vs ! i)))"
  by (auto simp: list_all2_conv_all_nth list_eq_iff_nth_eq split: prod.splits) (metis fst_conv snd_conv surj_pair)+

lemma typed_structD:
  "typed (T_Struct fs) (V_Struct vs) \<Longrightarrow> map fst vs = map fst fs"
  "typed (T_Struct fs) (V_Struct vs) \<Longrightarrow> length vs = length fs"
  "typed (T_Struct fs) (V_Struct vs) \<Longrightarrow> i < length fs \<Longrightarrow> typed (snd (snd (fs ! i))) (snd (vs ! i))"
  using map_eq_imp_length_eq unfolding typed_struct_iff by blast+

lemma typed_get_field:
  assumes "typed (T_Struct fs) (V_Struct vs)" "distinct (map fst fs)" "(n, om, t) \<in> set fs"
  shows "typed t (get_field vs n)"
proof -
  obtain i where i: "i < length fs" "fs ! i = (n, om, t)" using assms(3) by (auto simp: in_set_conv_nth)
  note m = typed_structD(1) [OF assms(1)] and l = typed_structD(2) [OF assms(1)]
  have "fst (vs ! i) = n" using i l arg_cong [OF m, of "\<lambda>x. x ! i"] by simp
  then have "vs ! i = (n, snd (vs ! i))" by (metis prod.collapse)
  moreover have "distinct (map fst vs)" using m assms(2) by simp
  ultimately have "map_of vs n = Some (snd (vs ! i))"
    using i l by (metis map_of_eq_Some_iff nth_mem)
  moreover have "typed t (snd (vs ! i))" using typed_structD(3) [OF assms(1) i(1)] i(2) by simp
  ultimately show ?thesis by (simp add: get_field_def)
qed

lemma typed_set_field:
  assumes "typed (T_Struct fs) (V_Struct vs)" "distinct (map fst fs)" "(n, om, t) \<in> set fs" "typed t w"
  shows "typed (T_Struct fs) (V_Struct (set_field n w vs))"
proof -
  note m = typed_structD(1) [OF assms(1)] and l = typed_structD(2) [OF assms(1)]
  have "map fst (set_field n w vs) = map fst vs" by (simp add: set_field_def case_prod_beta)
  moreover have "typed (snd (snd (fs ! i))) (snd (set_field n w vs ! i))" if i: "i < length fs" for i
  proof (cases "fst (vs ! i) = n")
    case True
    then have "fst (fs ! i) = n" using i l arg_cong [OF m, of "\<lambda>x. x ! i"] by simp
    with assms(2,3) i have "snd (snd (fs ! i)) = t"
      by (metis distinct_map eq_key_imp_eq_value fst_conv nth_mem prod.collapse snd_conv)
    with True i l assms(4) show ?thesis by (simp add: set_field_def case_prod_beta)
  next
    case False
    with i l typed_structD(3) [OF assms(1) i] show ?thesis by (simp add: set_field_def case_prod_beta)
  qed
  ultimately show ?thesis using m unfolding typed_struct_iff by simp
qed

lemma wf_distinct: "wf_ty (T_Struct fs) \<Longrightarrow> distinct (map fst fs)"
  by (auto simp: distinct_map inj_on_def)

lemma wf_field: "wf_ty (T_Struct fs) \<Longrightarrow> (n, om, t) \<in> set fs \<Longrightarrow> wf_ty t"
  by (auto simp: list_all_iff)

lemma decode_typed:
  "typed t v \<Longrightarrow> wf_ty t \<Longrightarrow> typed t (fst (decode t v j))"
  "typed (T_Struct fs) (V_Struct vs) \<Longrightarrow> wf_ty (T_Struct fs) \<Longrightarrow>
     typed (T_Struct fs) (V_Struct (fst (decode_members fs vs ms)))"
proof (induction t v j and fs vs ms rule: decode_decode_members.induct)
  case (1 b x j)
  then show ?case using decode_scalar_typed by (simp add: case_prod_beta)
next
  case (2 b xo j)
  then show ?case using decode_scalar_typed by (auto simp: case_prod_beta Let_def split: option.splits)
next
  case (4 b xs js)
  then show ?case using decode_items_typed by (auto simp: case_prod_beta Let_def split: option.splits)
next
  case (6 fs vs ms)
  then show ?case by (simp only: decode.simps Let_def case_prod_beta fst_conv)
next
  case (9 fs vs k j ms)
  show ?case
  proof (cases "find_field fs k")
    case None
    then show ?thesis using "9.IH"(1) "9.prems" by simp
  next
    case (Some nt)
    obtain n t where nt: "nt = (n, t)" by (cases nt)
    obtain w e where d: "decode t (get_field vs n) j = (w, e)" by (cases "decode t (get_field vs n) j")
    obtain om where om: "(n, om, t) \<in> set fs" using find_field_in Some nt by blast
    have t: "typed t (get_field vs n)" using typed_get_field "9.prems" wf_distinct om by blast
    have "typed t w" using "9.IH"(2) [OF Some _ t] nt t wf_field [OF "9.prems"(2) om] d by simp
    then have s: "typed (T_Struct fs) (V_Struct (set_field n w vs))"
      using typed_set_field "9.prems" wf_distinct om by blast
    have "typed (T_Struct fs) (V_Struct (fst (decode_members fs (set_field n w vs) ms)))"
      by (rule "9.IH"(3) [OF Some _ _ _ s "9.prems"(2), of t "decode t (get_field vs n) j" e]) (simp_all add: nt d)
    then show ?thesis by (simp add: Some nt d case_prod_beta del: typed.simps)
  qed
qed auto

section \<open>Members and fields\<close>

text \<open>For members with names of their own, the order does not matter: each field is decoded from its member, if there is
  one, and keeps its value otherwise.\<close>

definition low_name :: "string \<Rightarrow> bool" where
  "low_name n \<longleftrightarrow> to_lower n = n"

definition own_names :: "fields \<Rightarrow> (string \<times> json) list \<Rightarrow> bool" where
  "own_names fs ms \<longleftrightarrow>
     distinct (map fst ms) \<and> list_all (\<lambda>m. low_name (fst m)) ms \<and> distinct (map fst fs) \<and> list_all (\<lambda>f. low_name (fst f)) fs"

lemma find_first:
  assumes "distinct (map fst fs)" "f \<in> set fs" "fst f = k"
  shows "find (\<lambda>f. fst f = k) fs = Some f"
  using assms by (induction fs) force+

lemma find_in: "find P xs = Some x \<Longrightarrow> x \<in> set xs \<and> P x"
  by (auto simp: find_Some_iff)

lemma find_field_own:
  assumes "low_name k" "distinct (map fst fs)" "list_all (\<lambda>f. low_name (fst f)) fs"
  shows "find_field fs k = Some (n, t) \<longleftrightarrow> k = n \<and> (\<exists>om. (n, om, t) \<in> set fs)"
proof -
  have "find (\<lambda>f. equal_fold (fst f) k) fs = find (\<lambda>f. fst f = k) fs"
    using assms(1,3) by (intro find_cong) (auto simp: equal_fold_def low_name_def list_all_iff)
  then have eq: "find_field fs k = (case find (\<lambda>f. fst f = k) fs of Some (n, _, t) \<Rightarrow> Some (n, t) | None \<Rightarrow> None)"
    by (simp add: find_field_def split: option.split)
  show ?thesis
  proof
    assume "find_field fs k = Some (n, t)"
    then obtain om where "find (\<lambda>f. fst f = k) fs = Some (n, om, t)" by (auto simp: eq split: option.splits)
    then show "k = n \<and> (\<exists>om. (n, om, t) \<in> set fs)" using find_in by fastforce
  next
    assume "k = n \<and> (\<exists>om. (n, om, t) \<in> set fs)"
    then obtain om where "k = n" "(n, om, t) \<in> set fs" by blast
    then show "find_field fs k = Some (n, t)" using find_first [OF assms(2), of "(n, om, t)" n] eq by simp
  qed
qed

lemma get_set_field: "get_field (set_field n w vs) m = (if m = n \<and> n \<in> fst ` set vs then w else get_field vs m)"
proof -
  have "map_of (set_field n w vs) m = (if m = n \<and> n \<in> fst ` set vs then Some w else map_of vs m)"
  proof (induction vs)
    case (Cons p vs)
    obtain a b where "p = (a, b)" by (cases p)
    with Cons show ?case by (cases "a = n"; cases "a = m") (simp_all add: set_field_def)
  qed (simp add: set_field_def)
  then show ?thesis by (simp add: get_field_def)
qed

lemma set_field_names [simp]: "map fst (set_field n w vs) = map fst vs"
  by (simp add: set_field_def case_prod_beta)

lemma decode_members_names: "map fst (fst (decode_members fs vs ms)) = map fst vs"
proof (induction ms arbitrary: vs)
  case (Cons m ms)
  then show ?case by (cases m) (auto simp: case_prod_beta Let_def split: option.split)
qed simp

lemma decode_members_other:
  "(\<And>k j t. (k, j) \<in> set ms \<Longrightarrow> find_field fs k \<noteq> Some (n, t)) \<Longrightarrow>
   get_field (fst (decode_members fs vs ms)) n = get_field vs n"
proof (induction ms arbitrary: vs)
  case (Cons m ms)
  obtain k j where m: "m = (k, j)" by (cases m)
  have "find_field fs k \<noteq> Some (n, t)" for t using Cons.prems [of k j t] m by simp
  moreover have "get_field (fst (decode_members fs vs' ms)) n = get_field vs' n" for vs'
    using Cons.prems by (intro Cons.IH) auto
  ultimately show ?case by (auto simp: m case_prod_beta Let_def get_set_field split: option.split)
qed simp

lemma decode_members_own:
  "own_names fs ms \<Longrightarrow> map fst vs = map fst fs \<Longrightarrow> (n, om, t) \<in> set fs \<Longrightarrow>
   get_field (fst (decode_members fs vs ms)) n =
     (case map_of ms n of None \<Rightarrow> get_field vs n | Some j \<Rightarrow> fst (decode t (get_field vs n) j))"
proof (induction ms arbitrary: vs)
  case (Cons m ms)
  obtain k j where m: "m = (k, j)" by (cases m)
  have own: "own_names fs ms" "low_name k" "distinct (map fst fs)" "list_all (\<lambda>f. low_name (fst f)) fs" "k \<notin> fst ` set ms"
    using Cons.prems(1) m by (auto simp: own_names_def)
  note ff = find_field_own [OF own(2-4)]
  have nin: "n \<in> fst ` set vs" using Cons.prems(2,3) by (metis fst_conv image_eqI image_set)
  show ?case
  proof (cases "k = n")
    case True
    have f: "find_field fs k = Some (n, t)" using ff True Cons.prems(3) by blast
    have "find_field fs k' \<noteq> Some (n, t')" if "(k', j') \<in> set ms" for k' j' t'
    proof
      assume a: "find_field fs k' = Some (n, t')"
      have "low_name k'" using own(1) that by (auto simp: own_names_def list_all_iff)
      with a have "k' = n" using find_field_own [of k' fs n t'] own(3,4) by blast
      with that have "n \<in> fst ` set ms" by force
      with own(5) True show False by simp
    qed
    then have "get_field (fst (decode_members fs (set_field n w vs) ms)) n = w" for w
      using decode_members_other [of ms fs n] nin by (simp add: get_set_field)
    then show ?thesis using f True by (simp add: m case_prod_beta Let_def)
  next
    case False
    have "get_field (fst (decode_members fs (set_field k w vs) ms)) n =
        (case map_of ms n of None \<Rightarrow> get_field vs n | Some j \<Rightarrow> fst (decode t (get_field vs n) j))" for w
    proof -
      have "get_field (set_field k w vs) n = get_field vs n" using False by (simp add: get_set_field)
      then show ?thesis using Cons.IH [of "set_field k w vs"] Cons.prems(2,3) own(1) by (simp cong: option.case_cong)
    qed
    note step = this
    show ?thesis
    proof (cases "find_field fs k")
      case None
      with Cons.IH [of vs] Cons.prems(2,3) own(1) False show ?thesis by (simp add: m)
    next
      case (Some nt)
      then obtain t' where nt: "nt = (k, t')" using ff [of "fst nt" "snd nt"] by (cases nt) auto
      obtain w e where "decode t' (get_field vs k) j = (w, e)" by (cases "decode t' (get_field vs k) j")
      with Some nt step [of w] False show ?thesis by (simp add: m case_prod_beta)
    qed
  qed
qed simp

lemma decode_members_flag:
  "own_names fs ms \<Longrightarrow> map fst vs = map fst fs \<Longrightarrow>
   snd (decode_members fs vs ms) \<longleftrightarrow>
     (\<exists>k j om t. (k, j) \<in> set ms \<and> (k, om, t) \<in> set fs \<and> snd (decode t (get_field vs k) j))"
proof (induction ms arbitrary: vs)
  case (Cons m ms)
  obtain k j where m: "m = (k, j)" by (cases m)
  have own: "own_names fs ms" "low_name k" "distinct (map fst fs)" "list_all (\<lambda>f. low_name (fst f)) fs" "k \<notin> fst ` set ms"
    using Cons.prems(1) m by (auto simp: own_names_def)
  let ?rest = "\<exists>x j om t. (x, j) \<in> set ms \<and> (x, om, t) \<in> set fs \<and> snd (decode t (get_field vs x) j)"
  have IH: "snd (decode_members fs vs' ms) \<longleftrightarrow> ?rest"
    if v: "map fst vs' = map fst fs" "\<And>x. x \<noteq> k \<Longrightarrow> get_field vs' x = get_field vs x" for vs'
  proof -
    have eq: "get_field vs' x = get_field vs x" if "(x, j) \<in> set ms" for x j
    proof -
      have "x \<in> fst ` set ms" using imageI [OF that, of fst] by simp
      with own(5) have "x \<noteq> k" by blast
      then show ?thesis by (rule v(2))
    qed
    then have "(\<exists>x j om t. (x, j) \<in> set ms \<and> (x, om, t) \<in> set fs \<and> snd (decode t (get_field vs' x) j)) \<longleftrightarrow> ?rest"
      by (intro iff_exI) (simp add: eq cong: conj_cong)
    with Cons.IH [OF own(1) v(1)] show ?thesis by (rule trans)
  qed
  have IH1: "snd (decode_members fs (set_field k w vs) ms) \<longleftrightarrow> ?rest" for w
    using Cons.prems(2) by (intro IH) (simp_all add: get_set_field)
  have IH2: "snd (decode_members fs vs ms) \<longleftrightarrow> ?rest" using Cons.prems(2) by (intro IH) simp_all
  have split: "(\<exists>x j' om t. (x, j') \<in> set (m # ms) \<and> (x, om, t) \<in> set fs \<and> snd (decode t (get_field vs x) j')) \<longleftrightarrow>
      (\<exists>om t. (k, om, t) \<in> set fs \<and> snd (decode t (get_field vs k) j)) \<or> ?rest"
    unfolding m by (simp only: list.set insert_iff prod.inject) blast
  show ?case
  proof (cases "find_field fs k")
    case (Some nt)
    then obtain t om where nt: "nt = (k, t)" "(k, om, t) \<in> set fs"
      using find_field_own [OF own(2-4), of "fst nt" "snd nt"] by (cases nt) auto
    have one: "(\<exists>om t'. (k, om, t') \<in> set fs \<and> snd (decode t' (get_field vs k) j)) \<longleftrightarrow> snd (decode t (get_field vs k) j)"
      using nt(2) own(3) by (metis eq_key_imp_eq_value prod.inject)
    show ?thesis unfolding split one using Some nt(1) IH1 by (simp add: m case_prod_beta Let_def)
  next
    case None
    have none: "\<not> (\<exists>om t. (k, om, t) \<in> set fs \<and> snd (decode t (get_field vs k) j))"
      using None find_field_own [OF own(2-4)] by (metis option.distinct(1))
    have "decode_members fs vs (m # ms) = decode_members fs vs ms" using None by (simp add: m)
    then show ?thesis unfolding split using none IH2 by (simp only: simp_thms)
  qed
qed simp

section \<open>What is written is read back\<close>

fun low_ty :: "ty \<Rightarrow> bool" where
  "low_ty (T_Struct fs) \<longleftrightarrow> distinct (map fst fs) \<and> list_all (\<lambda>f. low_name (fst f)) fs \<and> list_all (\<lambda>(_, _, t). low_ty t) fs"
| "low_ty _ = True"

fun ascii_scalar :: "scalar \<Rightarrow> bool" where
  "ascii_scalar (S_Str s) = ascii s"
| "ascii_scalar _ = True"

fun all_scalars :: "(scalar \<Rightarrow> bool) \<Rightarrow> gv \<Rightarrow> bool" where
  "all_scalars p (V_Base x) = p x"
| "all_scalars p (V_Ptr xo) = (case xo of None \<Rightarrow> True | Some x \<Rightarrow> p x)"
| "all_scalars p (V_List xs) = (case xs of None \<Rightarrow> True | Some ys \<Rightarrow> list_all p ys)"
| "all_scalars p (V_Struct vs) = list_all (\<lambda>(_, v). all_scalars p v) vs"

text \<open>The value decoded over agrees on what is not written because of \<open>omitempty\<close>.\<close>

fun covers :: "ty \<Rightarrow> gv \<Rightarrow> gv \<Rightarrow> bool" where
  "covers (T_Struct fs) (V_Struct us) (V_Struct vs) =
     list_all (\<lambda>(n, om, t). if om \<and> empty_value (get_field vs n) then get_field us n = get_field vs n
                         else covers t (get_field us n) (get_field vs n)) fs"
| "covers _ _ _ = True"

lemma decode_encode_scalar:
  "scalar_typed b y \<Longrightarrow> ascii_scalar y \<Longrightarrow> decode_scalar b x (encode_scalar y) = (y, False) \<and> encode_scalar y \<noteq> J_Null"
  by (cases b; cases y) (auto simp: utf8_fix_ascii)

lemma fields_eqI:
  assumes "map fst us = map fst vs" "distinct (map fst vs)" "\<And>n. n \<in> fst ` set vs \<Longrightarrow> get_field us n = get_field vs n"
  shows "us = vs"
  using assms
proof (induction us vs rule: list_induct2')
  case (4 u us v vs)
  obtain n a b where uv: "u = (n, a)" "v = (n, b)" using 4(2) by (cases u; cases v) auto
  have "a = b" using 4(4) [of n] uv by (simp add: get_field_def)
  moreover have "us = vs"
  proof (rule 4(1))
    fix m assume m: "m \<in> fst ` set vs"
    with 4(3) uv have "m \<noteq> n" by auto
    with 4(4) [of m] m uv show "get_field us m = get_field vs m" by (simp add: get_field_def)
  qed (use 4 in auto)
  ultimately show ?case using uv by simp
qed auto

definition written :: "fields \<Rightarrow> (string \<times> gv) list \<Rightarrow> (string \<times> json) list" where
  "written fs vs =
     concat (map (\<lambda>(n, om, t). if om \<and> empty_value (get_field vs n) then [] else [(n, encode t (get_field vs n))]) fs)"

lemma written_iff:
  "(k, j) \<in> set (written fs vs) \<longleftrightarrow>
     (\<exists>om t. (k, om, t) \<in> set fs \<and> \<not> (om \<and> empty_value (get_field vs k)) \<and> j = encode t (get_field vs k))"
  unfolding written_def by (auto simp: case_prod_beta split: if_splits) (force+)?

lemma written_names: "set (map fst (written fs vs)) \<subseteq> set (map fst fs)"
proof
  fix n assume "n \<in> set (map fst (written fs vs))"
  then obtain j where "(n, j) \<in> set (written fs vs)" by auto
  then obtain om t where "(n, om, t) \<in> set fs" using written_iff by blast
  then show "n \<in> set (map fst fs)" by force
qed

lemma written_distinct: "distinct (map fst fs) \<Longrightarrow> distinct (map fst (written fs vs))"
proof (induction fs)
  case (Cons f fs)
  obtain n om t where f: "f = (n, om, t)" by (cases f)
  have "written (f # fs) vs = (if om \<and> empty_value (get_field vs n) then [] else [(n, encode t (get_field vs n))]) @ written fs vs"
    by (simp add: written_def f)
  then show ?case using Cons f written_names [of fs vs] by auto
qed (simp add: written_def)

lemma map_of_written:
  "distinct (map fst fs) \<Longrightarrow> (n, om, t) \<in> set fs \<Longrightarrow>
   map_of (written fs vs) n = (if om \<and> empty_value (get_field vs n) then None else Some (encode t (get_field vs n)))"
proof -
  assume a: "distinct (map fst fs)" "(n, om, t) \<in> set fs"
  have d: "distinct (map fst (written fs vs))" by (rule written_distinct [OF a(1)])
  show ?thesis
  proof (cases "om \<and> empty_value (get_field vs n)")
    case True
    have "n \<notin> fst ` set (written fs vs)"
    proof
      assume "n \<in> fst ` set (written fs vs)"
      then obtain j where "(n, j) \<in> set (written fs vs)" by auto
      then obtain om' t' where f: "(n, om', t') \<in> set fs" "\<not> (om' \<and> empty_value (get_field vs n))"
        using written_iff by blast
      with a have "om' = om" by (metis distinct_map eq_key_imp_eq_value fst_conv prod.inject)
      with f True show False by simp
    qed
    with True show ?thesis by (simp add: map_of_eq_None_iff)
  next
    case False
    have "(n, encode t (get_field vs n)) \<in> set (written fs vs)"
      using a(2) False written_iff by blast
    then have "map_of (written fs vs) n = Some (encode t (get_field vs n))" using d by simp
    with False show ?thesis by simp
  qed
qed

lemma all_get_field: "all_scalars p (V_Struct vs) \<Longrightarrow> all_scalars p (get_field vs n)"
  by (auto simp: get_field_def list_all_iff dest: map_of_SomeD split: option.split)

text \<open>
  Between writing and reading, the text may be decoded into maps and written again, which changes the order of
  members and passes numbers through floats. The contract of such a recoding: scalars that are \<open>ok\<close> are kept, and
  objects keep their members.
\<close>

locale recoding =
  fixes g :: "json \<Rightarrow> json" and ok :: "scalar \<Rightarrow> bool"
  assumes ok_ascii: "ok y \<Longrightarrow> ascii_scalar y"
    and g_scalar: "ok y \<Longrightarrow> g (encode_scalar y) = encode_scalar y"
    and g_null: "g J_Null = J_Null"
    and g_arr: "g (J_Arr js) = J_Arr (map g js)"
    and g_obj: "distinct (map fst ms) \<Longrightarrow>
      \<exists>ms'. g (J_Obj ms) = J_Obj ms' \<and> distinct (map fst ms') \<and> set ms' = (\<lambda>(k, j). (k, g j)) ` set ms"
begin

lemma decode_scalar_recoded:
  "scalar_typed b y \<Longrightarrow> ok y \<Longrightarrow> decode_scalar b x (g (encode_scalar y)) = (y, False) \<and> g (encode_scalar y) \<noteq> J_Null"
  using decode_encode_scalar ok_ascii by (simp add: g_scalar)

lemma decode_items_recoded:
  "list_all (scalar_typed b) ys \<Longrightarrow> list_all ok ys \<Longrightarrow> decode_items b old (map (\<lambda>y. g (encode_scalar y)) ys) = (ys, False)"
  by (induction ys arbitrary: old) (simp_all add: decode_scalar_recoded)

lemma members_lookup:
  assumes "distinct (map fst fs)" "(n, om, t) \<in> set fs" "distinct (map fst ms')"
    and "set ms' = (\<lambda>(k, j). (k, g j)) ` set (written fs vs)"
  shows "map_of ms' n = (if om \<and> empty_value (get_field vs n) then None else Some (g (encode t (get_field vs n))))"
proof (cases "om \<and> empty_value (get_field vs n)")
  case True
  with map_of_written [OF assms(1,2), of vs] have "n \<notin> fst ` set (written fs vs)" by (simp add: map_of_eq_None_iff)
  then have "n \<notin> fst ` set ms'" using assms(4) by force
  with True show ?thesis by (simp add: map_of_eq_None_iff)
next
  case False
  with map_of_written [OF assms(1,2), of vs] have "(n, encode t (get_field vs n)) \<in> set (written fs vs)"
    by (auto dest: map_of_SomeD)
  then have "(n, g (encode t (get_field vs n))) \<in> set ms'" using assms(4) by force
  with False assms(3) show ?thesis by simp
qed

lemma members_own:
  assumes "distinct (map fst fs)" "list_all (\<lambda>f. low_name (fst f)) fs" "distinct (map fst ms')"
    and "set ms' = (\<lambda>(k, j). (k, g j)) ` set (written fs vs)"
  shows "own_names fs ms'"
proof -
  have "low_name (fst m)" if m: "m \<in> set ms'" for m
  proof -
    obtain j where "(fst m, j) \<in> set (written fs vs)" using m assms(4) by auto
    then obtain om t where "(fst m, om, t) \<in> set fs" using written_iff by blast
    then show ?thesis using assms(2) by (auto simp: list_all_iff)
  qed
  with assms show ?thesis by (simp add: own_names_def list_all_iff)
qed

lemma decode_fields:
  assumes d: "distinct (map fst fs)" and own: "own_names fs ms" and names: "map fst us = map fst fs" "map fst vs = map fst fs"
    and read: "\<And>n om t. (n, om, t) \<in> set fs \<Longrightarrow>
      (case map_of ms n of None \<Rightarrow> get_field us n = get_field vs n
       | Some j \<Rightarrow> decode t (get_field us n) j = (get_field vs n, E n))"
  shows "decode_members fs us ms = (vs, \<exists>n \<in> fst ` set ms \<inter> fst ` set fs. E n)"
proof -
  have "fst (decode_members fs us ms) = vs"
  proof (rule fields_eqI)
    show "map fst (fst (decode_members fs us ms)) = map fst vs" using decode_members_names names by simp
    show "distinct (map fst vs)" using names d by simp
    fix n assume "n \<in> fst ` set vs"
    then obtain om t where f: "(n, om, t) \<in> set fs" using names(2) by (metis (no_types) image_iff list.set_map prod.collapse)
    show "get_field (fst (decode_members fs us ms)) n = get_field vs n"
      using decode_members_own [OF own names(1) f] read [OF f] by (auto split: option.splits)
  qed
  moreover have "snd (decode_members fs us ms) \<longleftrightarrow> (\<exists>n \<in> fst ` set ms \<inter> fst ` set fs. E n)"
  proof -
    have flag: "snd (decode t (get_field us k) j) = E k" if a: "(k, j) \<in> set ms" "(k, om, t) \<in> set fs" for k j om t
    proof -
      have "map_of ms k = Some j" using own a(1) by (simp add: own_names_def)
      then show ?thesis using read [OF a(2)] by simp
    qed
    show ?thesis
    proof
      assume "snd (decode_members fs us ms)"
      then obtain k j om t where w: "(k, j) \<in> set ms" "(k, om, t) \<in> set fs" "snd (decode t (get_field us k) j)"
        using decode_members_flag [OF own names(1)] by blast
      then have "E k" using flag [OF w(1,2)] by simp
      moreover have "k \<in> fst ` set ms" "k \<in> fst ` set fs"
        using imageI [OF w(1), of fst] imageI [OF w(2), of fst] by simp_all
      ultimately show "\<exists>n \<in> fst ` set ms \<inter> fst ` set fs. E n" by blast
    next
      assume "\<exists>n \<in> fst ` set ms \<inter> fst ` set fs. E n"
      then obtain k where k: "E k" "k \<in> fst ` set ms" "k \<in> fst ` set fs" by blast
      obtain j where j: "(k, j) \<in> set ms" using k(2) by (metis imageE prod.collapse)
      obtain om t where f: "(k, om, t) \<in> set fs" using k(3) by (metis imageE prod.collapse)
      show "snd (decode_members fs us ms)"
        using decode_members_flag [OF own names(1)] j f flag [OF j f] k(1) by blast
    qed
  qed
  ultimately show ?thesis by (simp only: prod_eq_iff fst_conv snd_conv simp_thms)
qed

lemma decode_recoded:
  "typed t v \<Longrightarrow> typed t u \<Longrightarrow> low_ty t \<Longrightarrow> all_scalars ok v \<Longrightarrow> covers t u v \<Longrightarrow> decode t u (g (encode t v)) = (v, False)"
proof (induction t arbitrary: u v)
  case (T_Base b)
  then show ?case by (cases v; cases u) (simp_all add: decode_scalar_recoded)
next
  case (T_Ptr b)
  then show ?case by (cases v; cases u) (auto simp: decode_scalar_recoded g_null split: option.splits)
next
  case (T_List b)
  then show ?case by (cases v; cases u) (auto simp: decode_items_recoded g_null g_arr o_def split: option.splits)
next
  case (T_Struct fs)
  obtain us where u: "u = V_Struct us" using T_Struct.prems(2) by (cases u) auto
  obtain vs where v: "v = V_Struct vs" using T_Struct.prems(1) by (cases v) auto
  note ut = T_Struct.prems(2) [unfolded u] and vt = T_Struct.prems(1) [unfolded v]
  have d: "distinct (map fst fs)" "list_all (\<lambda>f. low_name (fst f)) fs" using T_Struct.prems(3) by simp_all
  have names: "map fst us = map fst fs" "map fst vs = map fst fs" using typed_structD(1) ut vt by blast+
  obtain ms' where ms': "g (J_Obj (written fs vs)) = J_Obj ms'" "distinct (map fst ms')"
      "set ms' = (\<lambda>(k, j). (k, g j)) ` set (written fs vs)"
    using g_obj [OF written_distinct [OF d(1)]] by blast
  have "decode_members fs us ms' = (vs, \<exists>n \<in> fst ` set ms' \<inter> fst ` set fs. (\<lambda>_. False) n)"
  proof (rule decode_fields [OF d(1) members_own [OF d ms'(2,3)] names])
    fix n om t assume f: "(n, om, t) \<in> set fs"
    have s: "(om, t) \<in> Basic_BNFs.snds (n, om, t)" "t \<in> Basic_BNFs.snds (om, t)" by simp_all
    have c: "if om \<and> empty_value (get_field vs n) then get_field us n = get_field vs n
        else covers t (get_field us n) (get_field vs n)" "low_ty t"
      using T_Struct.prems(3,5) f u v by (auto simp: list_all_iff)
    have "typed t (get_field vs n)" "typed t (get_field us n)"
      using typed_get_field [OF vt d(1) f] typed_get_field [OF ut d(1) f] by simp_all
    moreover have "all_scalars ok (get_field vs n)" using T_Struct.prems(4) v all_get_field by blast
    ultimately have "\<not> (om \<and> empty_value (get_field vs n)) \<Longrightarrow>
        decode t (get_field us n) (g (encode t (get_field vs n))) = (get_field vs n, False)"
      using T_Struct.IH [OF f s] c by auto
    then show "case map_of ms' n of None \<Rightarrow> get_field us n = get_field vs n
       | Some j \<Rightarrow> decode t (get_field us n) j = (get_field vs n, False)"
      using members_lookup [OF d(1) f ms'(2,3)] c(1) by auto
  qed
  then show ?case using ms'(1) by (simp add: u v written_def [symmetric])
qed

end

interpretation direct: recoding "\<lambda>j. j" ascii_scalar
proof unfold_locales
  fix ms :: "(string \<times> json) list" assume d: "distinct (map fst ms)"
  have "set ms = (\<lambda>(k, j). (k, j)) ` set ms" by (simp add: case_prod_beta)
  with d show "\<exists>ms'. J_Obj ms = J_Obj ms' \<and> distinct (map fst ms') \<and> set ms' = (\<lambda>(k, j). (k, j)) ` set ms"
    by blast
qed simp_all

section \<open>Through a map\<close>

text \<open>
  Decoding into \<open>map[string]any\<close> and writing the map again: numbers become float64, of two members with one name the
  later stays, and the members are sorted.
\<close>

definition as_map :: "(string \<times> json) list \<Rightarrow> (string, json) gomap" where
  "as_map ms = foldl (\<lambda>m (k, j). mput k j m) [] ms"

fun through_map :: "json \<Rightarrow> json" where
  "through_map (J_Int i) = (case float_of (of_int i) of Fin x \<Rightarrow> float_json x | _ \<Rightarrow> J_Null)"
| "through_map (J_Float q) = (case float_of q of Fin x \<Rightarrow> float_json x | _ \<Rightarrow> J_Null)"
| "through_map (J_Arr js) = J_Arr (map through_map js)"
| "through_map (J_Obj ms) = J_Obj (sort_key fst (as_map (map (\<lambda>(k, j). (k, through_map j)) ms)))"
| "through_map j = j"

definition small_scalar :: "scalar \<Rightarrow> bool" where
  "small_scalar x \<longleftrightarrow> ascii_scalar x \<and> (case x of S_Int i \<Rightarrow> \<bar>i\<bar> < 2 ^ 53 | _ \<Rightarrow> True)"

lemma mput_append: "k \<notin> fst ` set m \<Longrightarrow> mput k v m = m @ [(k, v)]"
  by (induction m) (auto simp: mput_def)

lemma as_map_distinct: "distinct (map fst ms) \<Longrightarrow> as_map ms = ms"
proof -
  have "distinct (map fst m @ map fst ms) \<Longrightarrow> foldl (\<lambda>m (k, j). mput k j m) m ms = m @ ms" for m
    by (induction ms arbitrary: m) (auto simp: mput_append)
  from this [of "[]"] show "distinct (map fst ms) \<Longrightarrow> ?thesis" by (simp add: as_map_def)
qed

interpretation mapped: recoding through_map small_scalar
proof unfold_locales
  fix y assume "small_scalar y"
  then show "through_map (encode_scalar y) = encode_scalar y"
    by (cases y) (simp_all add: small_scalar_def float_of_int_signed float_json_small)
next
  fix ms :: "(string \<times> json) list" assume d: "distinct (map fst ms)"
  let ?ms = "map (\<lambda>(k, j). (k, through_map j)) ms"
  have dm: "distinct (map fst ?ms)" using d by (simp add: case_prod_beta o_def)
  have "distinct (map fst (sort_key fst ?ms))"
    using dm by (metis distinct_map distinct_sort set_sort)
  moreover have "through_map (J_Obj ms) = J_Obj (sort_key fst ?ms)" using as_map_distinct [OF dm] by simp
  ultimately show "\<exists>ms'. through_map (J_Obj ms) = J_Obj ms' \<and> distinct (map fst ms') \<and>
      set ms' = (\<lambda>(k, j). (k, through_map j)) ` set ms"
    by auto
qed (simp_all add: small_scalar_def)

text \<open>Writing a map that was changed: the members are sorted again, the numbers stay as they are.\<close>

fun sort_deep :: "json \<Rightarrow> json" where
  "sort_deep (J_Arr js) = J_Arr (map sort_deep js)"
| "sort_deep (J_Obj ms) = J_Obj (sort_key fst (map (\<lambda>(k, j). (k, sort_deep j)) ms))"
| "sort_deep j = j"

lemma sort_deep_scalar [simp]: "sort_deep (encode_scalar y) = encode_scalar y"
  by (cases y) simp_all

lemma sorted_members:
  assumes "distinct (map fst ms)"
  shows "distinct (map fst (sort_key fst (map (\<lambda>(k, j). (k, f j)) ms)))"
    and "map_of (sort_key fst (map (\<lambda>(k, j). (k, f j)) ms)) n = map_option f (map_of ms n)"
proof -
  let ?ms = "map (\<lambda>(k, j). (k, f j)) ms"
  have d: "distinct (map fst ?ms)" using assms by (simp add: case_prod_beta o_def)
  then show ds: "distinct (map fst (sort_key fst ?ms))" by (metis distinct_map distinct_sort set_sort)
  have "set (sort_key fst ?ms) = set ?ms" by simp
  then have "map_of (sort_key fst ?ms) = map_of ?ms"
    using map_of_inject_set [OF ds d] by blast
  then show "map_of (sort_key fst ?ms) n = map_option f (map_of ms n)" by (simp add: map_of_map)
qed

interpretation remapped: recoding "\<lambda>j. sort_deep (through_map j)" small_scalar
proof unfold_locales
  fix ms :: "(string \<times> json) list" assume d: "distinct (map fst ms)"
  obtain ms' where m: "through_map (J_Obj ms) = J_Obj ms'" "distinct (map fst ms')"
      "set ms' = (\<lambda>(k, j). (k, through_map j)) ` set ms"
    using mapped.g_obj [OF d] by blast
  let ?ts = "sort_key fst (map (\<lambda>(k, j). (k, sort_deep j)) ms')"
  have "set ?ts = (\<lambda>(k, j). (k, sort_deep j)) ` (\<lambda>(k, j). (k, through_map j)) ` set ms" using m(3) by simp
  then have "set ?ts = (\<lambda>(k, j). (k, sort_deep (through_map j))) ` set ms"
    by (simp add: image_image case_prod_beta)
  moreover have "sort_deep (through_map (J_Obj ms)) = J_Obj ?ts" using m(1) by simp
  ultimately show "\<exists>ms'. sort_deep (through_map (J_Obj ms)) = J_Obj ms' \<and> distinct (map fst ms') \<and>
      set ms' = (\<lambda>(k, j). (k, sort_deep (through_map j))) ` set ms"
    using sorted_members(1) [OF m(2), of sort_deep] by blast
next
  fix y assume "small_scalar y"
  then show "sort_deep (through_map (encode_scalar y)) = encode_scalar y" using mapped.g_scalar by simp
qed (simp_all add: mapped.ok_ascii)

section \<open>Assignments by path\<close>

fun assign_path :: "string list \<Rightarrow> json \<Rightarrow> (string, json) gomap \<Rightarrow> (string, json) gomap" where
  "assign_path [] j m = m"
| "assign_path [p] j m = mput p j m"
| "assign_path (p # ps) j m =
     mput p (J_Obj (assign_path ps j (case mget m p of Some (J_Obj n) \<Rightarrow> n | _ \<Rightarrow> []))) m"

fun leaf_base :: "ty \<Rightarrow> string list \<Rightarrow> base option" where
  "leaf_base (T_Struct fs) [] = None"
| "leaf_base (T_Struct fs) [k] = (case map_of fs k of Some (_, T_Base b) \<Rightarrow> Some b | _ \<Rightarrow> None)"
| "leaf_base (T_Struct fs) (k # ks) = (case map_of fs k of Some (_, t) \<Rightarrow> leaf_base t ks | None \<Rightarrow> None)"
| "leaf_base _ _ = None"

fun value_at :: "string list \<Rightarrow> gv \<Rightarrow> gv" where
  "value_at (k # ks) (V_Struct vs) = value_at ks (get_field vs k)"
| "value_at _ v = v"

fun put_at :: "string list \<Rightarrow> gv \<Rightarrow> gv \<Rightarrow> gv" where
  "put_at [] w v = w"
| "put_at (k # ks) w (V_Struct vs) = V_Struct (set_field k (put_at ks w (get_field vs k)) vs)"
| "put_at _ w v = v"

definition str_at :: "string list \<Rightarrow> gv \<Rightarrow> string" where
  "str_at p c = (case value_at p c of V_Base (S_Str s) \<Rightarrow> s | _ \<Rightarrow> [])"

definition int_at :: "string list \<Rightarrow> gv \<Rightarrow> int" where
  "int_at p c = (case value_at p c of V_Base (S_Int i) \<Rightarrow> i | _ \<Rightarrow> 0)"

definition bool_at :: "string list \<Rightarrow> gv \<Rightarrow> bool" where
  "bool_at p c = (case value_at p c of V_Base (S_Bool b) \<Rightarrow> b | _ \<Rightarrow> False)"

definition int_list_at :: "string list \<Rightarrow> gv \<Rightarrow> int list" where
  "int_list_at p c =
     (case value_at p c of
        V_List (Some xs) \<Rightarrow> concat (map (\<lambda>x. case x of S_Int i \<Rightarrow> [i] | _ \<Rightarrow> []) xs)
      | _ \<Rightarrow> [])"

abbreviation text_field :: "string \<Rightarrow> string \<times> bool \<times> ty" where "text_field n \<equiv> (n, False, T_Base B_Str)"
abbreviation int_field :: "string \<Rightarrow> string \<times> bool \<times> ty" where "int_field n \<equiv> (n, False, T_Base B_Int)"
abbreviation bool_field :: "string \<Rightarrow> string \<times> bool \<times> ty" where "bool_field n \<equiv> (n, False, T_Base B_Bool)"

abbreviation str_value :: "string \<Rightarrow> gv" where "str_value s \<equiv> V_Base (S_Str s)"

lemma covers_refl: "covers t v v"
proof (induction t arbitrary: v)
  case (T_Struct fs)
  show ?case
  proof (cases v)
    case (V_Struct vs)
    have "covers t (get_field vs n) (get_field vs n)" if "(n, om, t) \<in> set fs" for n om t
      using T_Struct.IH [OF that] by simp
    then show ?thesis using V_Struct by (auto simp: list_all_iff)
  qed simp_all
qed simp_all

lemma mput_names: "set (map fst (mput k v m)) = insert k (set (map fst m))"
  by (auto simp: mput_def dom_update)

lemma mput_distinct: "distinct (map fst m) \<Longrightarrow> distinct (map fst (mput k v m))"
  by (simp add: mput_def distinct_update)

text \<open>The members of a changed map, sorted, against the fields: only the field \<open>k\<close> is decoded from something new.\<close>

lemma decode_changed:
  assumes ty: "typed (T_Struct fs) (V_Struct vs)" "low_ty (T_Struct fs)" "all_scalars small_scalar (V_Struct vs)"
    and m: "through_map (J_Obj (written fs vs)) = J_Obj m" and f: "(k, om, t) \<in> set fs"
    and j: "decode t (get_field vs k) (sort_deep j) = (w, e)"
  shows "decode (T_Struct fs) (V_Struct vs) (sort_deep (J_Obj (mput k j m))) = (V_Struct (set_field k w vs), e)"
proof -
  have d: "distinct (map fst fs)" "list_all (\<lambda>f. low_name (fst f)) fs" using ty(2) by simp_all
  have names: "map fst vs = map fst fs" using typed_structD(1) [OF ty(1)] .
  obtain m' where "through_map (J_Obj (written fs vs)) = J_Obj m'" "distinct (map fst m')"
      "set m' = (\<lambda>(k, j). (k, through_map j)) ` set (written fs vs)"
    using mapped.g_obj [OF written_distinct [OF d(1)]] by blast
  then have dm: "distinct (map fst m)" "set m = (\<lambda>(k, j). (k, through_map j)) ` set (written fs vs)"
    using m by simp_all
  let ?ms = "sort_key fst (map (\<lambda>(k, j). (k, sort_deep j)) (mput k j m))"
  note sorted = sorted_members [OF mput_distinct [OF dm(1)], of sort_deep k j]
  have low: "low_name (fst x)" if x: "x \<in> set ?ms" for x
  proof -
    obtain y where y: "y \<in> set (mput k j m)" "x = (\<lambda>(k, j). (k, sort_deep j)) y" using x by (auto simp del: split_paired_All)
    then have "fst x = fst y" by (simp add: case_prod_beta)
    with y(1) have "fst x \<in> set (map fst (mput k j m))" by simp
    then have "fst x \<in> insert k (set (map fst m))" unfolding mput_names .
    then consider "fst x = k" | "fst x \<in> fst ` set m" unfolding insert_iff set_map by blast
    then show ?thesis
    proof cases
      case 1
      then show ?thesis using d(2) f by (auto simp: list_all_iff)
    next
      case 2
      then obtain j' where "(fst x, j') \<in> set (written fs vs)" using dm(2) by auto
      then have "fst x \<in> set (map fst (written fs vs))" by (metis fst_conv image_eqI list.set_map)
      then have "fst x \<in> set (map fst fs)" using written_names by blast
      then show ?thesis using d(2) by (auto simp: list_all_iff)
    qed
  qed
  have own: "own_names fs ?ms" using d sorted(1) low by (simp add: own_names_def list_all_iff)
  have kin: "k \<in> fst ` set vs" using f names by (metis fst_conv image_eqI image_set)
  have "decode_members fs vs ?ms = (set_field k w vs, \<exists>n \<in> fst ` set ?ms \<inter> fst ` set fs. n = k \<and> e)"
  proof (rule remapped.decode_fields [OF d(1) own names])
    show "map fst (set_field k w vs) = map fst fs" using names by simp
    fix n om' t' assume g: "(n, om', t') \<in> set fs"
    show "case map_of ?ms n of None \<Rightarrow> get_field vs n = get_field (set_field k w vs) n
       | Some j \<Rightarrow> decode t' (get_field vs n) j = (get_field (set_field k w vs) n, n = k \<and> e)"
    proof (cases "n = k")
      case True
      with f g d(1) have "t' = t" by (metis distinct_map eq_key_imp_eq_value prod.inject)
      with True j kin show ?thesis by (simp add: sorted(2) get_set_field)
    next
      case False
      have "map_of ?ms n = map_option sort_deep (map_of m n)" using False by (simp add: sorted(2))
      moreover have "map_of m n =
          (if om' \<and> empty_value (get_field vs n) then None else Some (through_map (encode t' (get_field vs n))))"
        by (rule mapped.members_lookup [OF d(1) g dm])
      moreover have "decode t' (get_field vs n) (sort_deep (through_map (encode t' (get_field vs n)))) = (get_field vs n, False)"
      proof (rule remapped.decode_recoded)
        show "typed t' (get_field vs n)" "typed t' (get_field vs n)" using typed_get_field [OF ty(1) d(1) g] by simp_all
        show "low_ty t'" using ty(2) g by (auto simp: list_all_iff)
        show "all_scalars small_scalar (get_field vs n)" using ty(3) all_get_field by blast
      qed (rule covers_refl)
      ultimately show ?thesis using False by (auto simp: get_set_field)
    qed
  qed
  moreover have "k \<in> fst ` set ?ms \<inter> fst ` set fs"
  proof
    have "map_of ?ms k = Some (sort_deep j)" by (simp add: sorted(2))
    then have "(k, sort_deep j) \<in> set ?ms" by (rule map_of_SomeD)
    then show "k \<in> fst ` set ?ms" by (metis fst_conv image_eqI)
    show "k \<in> fst ` set fs" using f by (metis fst_conv image_eqI)
  qed
  then have "(\<exists>n \<in> fst ` set ?ms \<inter> fst ` set fs. n = k \<and> e) = e" by blast
  ultimately have "decode_members fs vs ?ms = (set_field k w vs, e)" by (simp only:)
  then show ?thesis by simp
qed

lemma decode_assign_path:
  assumes "typed t v" "low_ty t" "all_scalars small_scalar v" "leaf_base t p = Some b"
    and "through_map (encode t v) = J_Obj m" "sort_deep j = j" "value_at p v = V_Base x" "decode_scalar b x j = (y, e)"
  shows "decode t v (sort_deep (J_Obj (assign_path p j m))) = (put_at p (V_Base y) v, e)"
  using assms(1-5,7)
proof (induction t p arbitrary: v m rule: leaf_base.induct)
  case (2 fs k)
  obtain vs where v: "v = V_Struct vs" using "2.prems"(1) by (cases v) auto
  obtain om where f: "(k, om, T_Base b) \<in> set fs"
    using "2.prems"(4) by (auto split: option.splits ty.splits dest: map_of_SomeD)
  have "value_at [] (get_field vs k) = V_Base x" using "2.prems"(6) v by simp
  then have "get_field vs k = V_Base x" by simp
  then have "decode (T_Base b) (get_field vs k) (sort_deep j) = (V_Base y, e)" using assms(6,8) by simp
  then show ?case
    using decode_changed [OF "2.prems"(1) [unfolded v] "2.prems"(2) "2.prems"(3) [unfolded v] _ f] "2.prems"(5)
    by (simp add: v written_def [symmetric] del: sort_deep.simps decode.simps typed.simps)
next
  case (3 fs k k' ks)
  obtain vs where v: "v = V_Struct vs" using "3.prems"(1) by (cases v) auto
  obtain om t' where f: "map_of fs k = Some (om, t')" "leaf_base t' (k' # ks) = Some b"
    using "3.prems"(4) by (auto split: option.splits)
  have fin: "(k, om, t') \<in> set fs" using f(1) by (rule map_of_SomeD)
  have d: "distinct (map fst fs)" using "3.prems"(2) by simp
  have ty: "typed t' (get_field vs k)" using typed_get_field [OF "3.prems"(1) [unfolded v] d fin] .
  obtain fs' where fs': "t' = T_Struct fs'" using f(2) by (cases t') auto
  then obtain vs' where vs': "get_field vs k = V_Struct vs'" using ty by (cases "get_field vs k") auto
  have sub: "low_ty t'" "all_scalars small_scalar (get_field vs k)"
    using "3.prems"(2,3) fin v all_get_field by (auto simp: list_all_iff)
  have m: "through_map (J_Obj (written fs vs)) = J_Obj m" using "3.prems"(5) by (simp add: v written_def)
  obtain m' where m': "through_map (encode t' (get_field vs k)) = J_Obj m'" by (simp add: fs' vs')
  obtain m2 where "through_map (J_Obj (written fs vs)) = J_Obj m2" "distinct (map fst m2)"
      "set m2 = (\<lambda>(k, j). (k, through_map j)) ` set (written fs vs)"
    using mapped.g_obj [OF written_distinct [OF d]] by blast
  then have "map_of m k = (if om \<and> empty_value (get_field vs k) then None else Some (through_map (encode t' (get_field vs k))))"
    using m mapped.members_lookup [OF d fin] by simp
  then have mk: "map_of m k = Some (J_Obj m')" using m' vs' by simp
  have "decode t' (get_field vs k) (sort_deep (J_Obj (assign_path (k' # ks) j m'))) =
      (put_at (k' # ks) (V_Base y) (get_field vs k), e)"
    using "3.prems"(6) by (intro "3.IH" [OF f(1) _ ty sub f(2) m']) (simp_all add: v)
  from decode_changed [OF "3.prems"(1) [unfolded v] "3.prems"(2) "3.prems"(3) [unfolded v] m fin this]
  show ?case by (simp add: v mk del: sort_deep.simps decode.simps)
qed auto

section \<open>Leaves\<close>

text \<open>The type of a field that is not a struct, by its path; different paths of such fields do not interfere.\<close>

fun leaf_type :: "ty \<Rightarrow> string list \<Rightarrow> ty option" where
  "leaf_type (T_Struct fs) [] = None"
| "leaf_type (T_Struct fs) (k # ks) = (case map_of fs k of None \<Rightarrow> None | Some (_, t) \<Rightarrow> leaf_type t ks)"
| "leaf_type t [] = Some t"
| "leaf_type t (k # ks) = None"

lemma leaf_struct:
  assumes "leaf_type (T_Struct fs) p = Some a"
  obtains k ks om t where "p = k # ks" "(k, om, t) \<in> set fs" "map_of fs k = Some (om, t)" "leaf_type t ks = Some a"
proof -
  obtain k ks where p: "p = k # ks" using assms by (cases p) auto
  then obtain om t where m: "map_of fs k = Some (om, t)" "leaf_type t ks = Some a" using assms by (auto split: option.splits)
  then show thesis using that [OF p map_of_SomeD [OF m(1)]] by blast
qed

lemma leaf_other: "leaf_type t p = Some a \<Longrightarrow> \<not> (\<exists>fs. t = T_Struct fs) \<Longrightarrow> p = [] \<and> t = a"
  by (cases t; cases p) auto

lemma value_put_leaf:
  "typed t v \<Longrightarrow> low_ty t \<Longrightarrow> leaf_type t p = Some a \<Longrightarrow> leaf_type t q = Some b \<Longrightarrow>
   value_at p (put_at q w v) = (if p = q then w else value_at p v)"
proof (induction t arbitrary: v p q)
  case (T_Struct fs)
  obtain vs where v: "v = V_Struct vs" using T_Struct.prems(1) by (cases v) auto
  obtain k ks om t where p: "p = k # ks" "(k, om, t) \<in> set fs" "map_of fs k = Some (om, t)" "leaf_type t ks = Some a"
    using leaf_struct [OF T_Struct.prems(3)] .
  obtain l ls om' u where q: "q = l # ls" "(l, om', u) \<in> set fs" "map_of fs l = Some (om', u)" "leaf_type u ls = Some b"
    using leaf_struct [OF T_Struct.prems(4)] .
  have names: "map fst vs = map fst fs" using typed_structD(1) [OF T_Struct.prems(1) [unfolded v]] .
  have "l \<in> set (map fst fs)" using q(2) by (metis fst_conv image_eqI list.set_map)
  then have l: "l \<in> fst ` set vs" using names by (metis list.set_map)
  show ?case
  proof (cases "k = l")
    case True
    then have u: "u = t" using p(3) q(3) by simp
    have s: "(om, t) \<in> Basic_BNFs.snds (k, om, t)" "t \<in> Basic_BNFs.snds (om, t)" by simp_all
    have d: "distinct (map fst fs)" "low_ty t" using T_Struct.prems(2) p(2) by (auto simp: list_all_iff)
    have "typed t (get_field vs k)" using typed_get_field [OF T_Struct.prems(1) [unfolded v] d(1) p(2)] .
    from T_Struct.IH [OF p(2) s this d(2) p(4) q(4) [unfolded u]] show ?thesis
      using True l by (simp add: v p(1) q(1) get_set_field)
  next
    case False
    then show ?thesis by (simp add: v p(1) q(1) get_set_field)
  qed
qed (auto dest!: leaf_other)

lemma put_at_typed:
  "typed t v \<Longrightarrow> low_ty t \<Longrightarrow> leaf_type t q = Some b \<Longrightarrow> typed b w \<Longrightarrow> typed t (put_at q w v)"
proof (induction t arbitrary: v q)
  case (T_Struct fs)
  obtain vs where v: "v = V_Struct vs" using T_Struct.prems(1) by (cases v) auto
  obtain k ks om t where p: "q = k # ks" "(k, om, t) \<in> set fs" "map_of fs k = Some (om, t)" "leaf_type t ks = Some b"
    using leaf_struct [OF T_Struct.prems(3)] .
  have s: "(om, t) \<in> Basic_BNFs.snds (k, om, t)" "t \<in> Basic_BNFs.snds (om, t)" by simp_all
  have d: "distinct (map fst fs)" "low_ty t" using T_Struct.prems(2) p(2) by (auto simp: list_all_iff)
  have "typed t (get_field vs k)" using typed_get_field [OF T_Struct.prems(1) [unfolded v] d(1) p(2)] .
  from T_Struct.IH [OF p(2) s this d(2) p(4) T_Struct.prems(4)] show ?case
    using typed_set_field [OF T_Struct.prems(1) [unfolded v] d(1) p(2)] by (simp add: v p(1) del: typed.simps)
qed (auto dest!: leaf_other)

end
