(* ===== verification/Yaml.thy ===== *)
theory Yaml
  imports GoJson
begin

text \<open>
  The YAML subset of the configuration files (\<open>internal/yamlmin\<close>): lines, comments, scalars, the recursive
  descent over indented blocks, and the conversion to JSON values that \<open>Unmarshal\<close> decodes. The parser
  recurses on the lines that are left with fuel; \<open>None\<close> is \<open>out of fuel\<close>, which never happens for the fuel
  that \<open>yaml_parse\<close> gives it.
\<close>

section \<open>Values\<close>

datatype yval =
    Y_Null
  | Y_Bool bool
  | Y_Int int
  | Y_Float float64
  | Y_Str string
  | Y_List "yval list"
  | Y_Map "(string \<times> yval) list"

datatype yaml_error = Tab_Indent nat | Bad_Indent nat | No_Key nat | Unexpected nat | Not_A_Number

record yline =
  yl_indent :: nat
  yl_text :: string
  yl_num :: nat

section \<open>Lines\<close>

text \<open>\<open>stripComment\<close>: the arguments are the two quote flags and the character before.\<close>

fun strip_comment :: "bool \<Rightarrow> bool \<Rightarrow> char option \<Rightarrow> string \<Rightarrow> string" where
  "strip_comment inS inD prev [] = []"
| "strip_comment inS inD prev (c # s) =
     (if c = CHR 0x27 then c # strip_comment (if inD then inS else \<not> inS) inD (Some c) s
      else if c = CHR 0x22 then c # strip_comment inS (if inS then inD else \<not> inD) (Some c) s
      else if c = CHR ''#'' \<and> \<not> inS \<and> \<not> inD \<and> prev \<in> {None, Some CHR '' '', Some CHR 0x09} then []
      else c # strip_comment inS inD (Some c) s)"

definition yaml_line :: "nat \<Rightarrow> string \<Rightarrow> yaml_error + yline option" where
  "yaml_line i l =
     (let s = strip_comment False False None (trim_right_set l [CHR '' '', CHR 0x09]);
          n = length (takeWhile (\<lambda>c. c = CHR '' '') s)
      in if trim_space s = [] \<or> trim_space s = ''---'' then Inr None
         else if n < length s \<and> s ! n = CHR 0x09 then Inl (Tab_Indent (i + 1))
         else Inr (Some \<lparr>yl_indent = n, yl_text = trim_space s, yl_num = i + 1\<rparr>))"

fun yaml_lines :: "nat \<Rightarrow> string list \<Rightarrow> yaml_error + yline list" where
  "yaml_lines i [] = Inr []"
| "yaml_lines i (l # ls) =
     (case yaml_line i l of
        Inl e \<Rightarrow> Inl e
      | Inr None \<Rightarrow> yaml_lines (Suc i) ls
      | Inr (Some y) \<Rightarrow> (case yaml_lines (Suc i) ls of Inl e \<Rightarrow> Inl e | Inr ys \<Rightarrow> Inr (y # ys)))"

section \<open>Scalars and keys\<close>

definition unquote_key :: "string \<Rightarrow> string" where
  "unquote_key k =
     (if 2 \<le> length k \<and> hd k = last k \<and> hd k \<in> {CHR 0x22, CHR 0x27} then butlast (tl k) else k)"

definition split_kv :: "string \<Rightarrow> nat \<Rightarrow> yaml_error + string \<times> string" where
  "split_kv s num =
     (if has_suffix s '':'' \<and> \<not> contains (trim_suffix s '':'') '': '' then
        Inr (unquote_key (trim_space (trim_suffix s '':'')), [])
      else case index_of s '': '' of
        None \<Rightarrow> Inl (No_Key num)
      | Some i \<Rightarrow> Inr (unquote_key (trim_space (take i s)), trim_space (drop (i + 2) s)))"

lemma length_trim_space: "length (trim_space s) \<le> length s"
proof -
  have "length (strip_heads ps t) \<le> length t" for ps t
    using strip_heads_suffix suffix_length_le by blast
  then show ?thesis unfolding trim_space_def by (metis length_rev le_trans)
qed

lemma length_split_byte: "p \<in> set (split_byte c s) \<Longrightarrow> length p \<le> length s"
proof (induction c s arbitrary: p rule: split_byte.induct)
  case (2 c d s)
  then show ?case by (auto split: if_splits list.splits) fastforce+
qed simp

definition quoted_by :: "char \<Rightarrow> string \<Rightarrow> bool" where
  "quoted_by q s \<longleftrightarrow> 2 \<le> length s \<and> hd s = q \<and> last s = q"

definition double_quoted :: "string \<Rightarrow> string" where
  "double_quoted s = (case unquote (tl s) of Some (v, []) \<Rightarrow> v | _ \<Rightarrow> butlast (tl s))"

definition plain_scalar :: "string \<Rightarrow> yval" where
  "plain_scalar s =
     (if quoted_by CHR 0x22 s then Y_Str (double_quoted s)
      else if quoted_by CHR 0x27 s then Y_Str (replace_all (butlast (tl s)) [CHR 0x27, CHR 0x27] [CHR 0x27])
      else if to_lower s \<in> {''true'', ''yes'', ''on''} then Y_Bool True
      else if to_lower s \<in> {''false'', ''no'', ''off''} then Y_Bool False
      else if to_lower s \<in> {''null'', ''~''} then Y_Null
      else case atoi s of
        Some i \<Rightarrow> Y_Int i
      | None \<Rightarrow> (case parse_float s of Some f \<Rightarrow> Y_Float f | None \<Rightarrow> Y_Str s))"

function parse_scalar :: "string \<Rightarrow> yval" where
  "parse_scalar s0 =
     (let s = trim_space s0 in
      if s = [] then Y_Null
      else if has_prefix s ''['' \<and> has_suffix s '']'' then
        (let inner = trim_space (butlast (tl s)) in
         if inner = [] then Y_List []
         else Y_List (map (\<lambda>p. parse_scalar (trim_space p)) (split_byte CHR '','' inner)))
      else plain_scalar s)"
  by pat_completeness auto
termination
proof (relation "measure length", simp)
  fix s0 s inner p
  assume a: "s = trim_space s0" "s \<noteq> []" "inner = trim_space (butlast (tl s))" "p \<in> set (split_byte CHR '','' inner)"
  have "length (trim_space p) \<le> length inner"
    using length_trim_space [of p] length_split_byte [OF a(4)] by simp
  also have "\<dots> \<le> length (butlast (tl s))" unfolding a(3) by (rule length_trim_space)
  also have "\<dots> < length s" using a(2) by (cases s) auto
  also have "\<dots> \<le> length s0" unfolding a(1) by (rule length_trim_space)
  finally show "(trim_space p, s0) \<in> measure length" by simp
qed

declare parse_scalar.simps [simp del]

section \<open>Blocks\<close>

definition list_item :: "yline \<Rightarrow> bool" where
  "list_item y \<longleftrightarrow> has_prefix (yl_text y) ''- '' \<or> yl_text y = ''-''"

fun parse_list :: "nat \<Rightarrow> yline list \<Rightarrow> yval list \<times> yline list" where
  "parse_list indent [] = ([], [])"
| "parse_list indent (y # ls) =
     (if yl_indent y \<noteq> indent \<or> \<not> list_item y then ([], y # ls)
      else
        (let item = trim_space (trim_prefix (yl_text y) ''-''); (vs, rest) = parse_list indent ls in
         (if item = [] then vs else parse_scalar item # vs, rest)))"

text \<open>A list without elements is the nil slice, which is written as null.\<close>

definition list_value :: "yval list \<Rightarrow> yval" where
  "list_value vs = (if vs = [] then Y_Null else Y_List vs)"

fun parse_map ::
    "nat \<Rightarrow> nat \<Rightarrow> yline list \<Rightarrow> (string, yval) gomap \<Rightarrow> (yaml_error + (string, yval) gomap \<times> yline list) option" where
  "parse_map 0 indent ls out = None"
| "parse_map (Suc n) indent [] out = Some (Inr (out, []))"
| "parse_map (Suc n) indent (y # ls) out =
     (if yl_indent y < indent then Some (Inr (out, y # ls))
      else if indent < yl_indent y then Some (Inl (Bad_Indent (yl_num y)))
      else if list_item y then Some (Inr (out, y # ls))
      else case split_kv (yl_text y) (yl_num y) of
        Inl e \<Rightarrow> Some (Inl e)
      | Inr (key, val) \<Rightarrow>
          if val \<noteq> [] then parse_map n indent ls (mput key (parse_scalar val) out)
          else if ls \<noteq> [] \<and> indent < yl_indent (hd ls) then
            (if list_item (hd ls) then
               (let (vs, rest) = parse_list (yl_indent (hd ls)) ls in
                parse_map n indent rest (mput key (list_value vs) out))
             else case parse_map n (yl_indent (hd ls)) ls [] of
               None \<Rightarrow> None
             | Some (Inl e) \<Rightarrow> Some (Inl e)
             | Some (Inr (sub, rest)) \<Rightarrow> parse_map n indent rest (mput key (Y_Map sub) out))
          else parse_map n indent ls (mput key Y_Null out))"

text \<open>\<open>Parse\<close>: the outer option is the fuel, the inner one the nil map of an empty document.\<close>

definition yaml_parse :: "string \<Rightarrow> (yaml_error + (string, yval) gomap option) option" where
  "yaml_parse data =
     (case yaml_lines 0 (split_byte CHR 0x0A (replace_all data [CHR 0x0D, CHR 0x0A] [CHR 0x0A])) of
        Inl e \<Rightarrow> Some (Inl e)
      | Inr [] \<Rightarrow> Some (Inr None)
      | Inr (y # ls) \<Rightarrow>
          (case parse_map (Suc (length (y # ls))) (yl_indent y) (y # ls) [] of
             None \<Rightarrow> None
           | Some (Inl e) \<Rightarrow> Some (Inl e)
           | Some (Inr (m, [])) \<Rightarrow> Some (Inr (Some m))
           | Some (Inr (m, l # _)) \<Rightarrow> Some (Inl (Unexpected (yl_num l)))))"

section \<open>Unmarshal\<close>

text \<open>
  The tree is marshalled and decoded again; infinities and NaN cannot be written. Members are sorted by key.
\<close>

fun yaml_json :: "yval \<Rightarrow> json option"
  and yaml_members :: "(string \<times> yval) list \<Rightarrow> (string \<times> json) list option"
  and yaml_items :: "yval list \<Rightarrow> json list option" where
  "yaml_json Y_Null = Some J_Null"
| "yaml_json (Y_Bool b) = Some (J_Bool b)"
| "yaml_json (Y_Int i) = Some (J_Int i)"
| "yaml_json (Y_Float (Fin x)) = Some (float_json x)"
| "yaml_json (Y_Float _) = None"
| "yaml_json (Y_Str s) = Some (J_Str (utf8_fix s))"
| "yaml_json (Y_List vs) = map_option J_Arr (yaml_items vs)"
| "yaml_json (Y_Map ms) = map_option (\<lambda>js. J_Obj (map (\<lambda>(k, v). (utf8_fix k, v)) (sort_key fst js))) (yaml_members ms)"
| "yaml_members [] = Some []"
| "yaml_members ((k, v) # ms) =
     (case yaml_json v of None \<Rightarrow> None | Some j \<Rightarrow> map_option (\<lambda>js. (k, j) # js) (yaml_members ms))"
| "yaml_items [] = Some []"
| "yaml_items (v # vs) = (case yaml_json v of None \<Rightarrow> None | Some j \<Rightarrow> map_option (\<lambda>js. j # js) (yaml_items vs))"

text \<open>The value that \<open>Unmarshal\<close> hands to the decoder; \<open>None\<close> inside for an empty document, which changes nothing.\<close>

definition yaml_document :: "string \<Rightarrow> (yaml_error + json option) option" where
  "yaml_document data =
     (case yaml_parse data of
        None \<Rightarrow> None
      | Some (Inl e) \<Rightarrow> Some (Inl e)
      | Some (Inr None) \<Rightarrow> Some (Inr None)
      | Some (Inr (Some m)) \<Rightarrow>
          (case yaml_json (Y_Map m) of None \<Rightarrow> Some (Inl Not_A_Number) | Some j \<Rightarrow> Some (Inr (Some j))))"

section \<open>The parser ends\<close>

lemma parse_list_rest: "parse_list i ls = (vs, rest) \<Longrightarrow> length rest \<le> length ls"
  by (induction i ls arbitrary: vs rule: parse_list.induct) (auto simp: Let_def split: if_splits prod.splits)

lemma parse_map_enough:
  "length ls < n \<Longrightarrow>
   \<exists>r. parse_map n indent ls out = Some r \<and> (\<forall>m rest. r = Inr (m, rest) \<longrightarrow> length rest \<le> length ls)"
proof (induction n arbitrary: indent ls out)
  case (Suc n)
  show ?case
  proof (cases ls)
    case (Cons y ys)
    have ys: "length ys < n" using Suc.prems Cons by simp
    have go: "\<exists>r. parse_map n indent rest o' = Some r \<and> (\<forall>m re. r = Inr (m, re) \<longrightarrow> length re \<le> length ls)"
      if "length rest \<le> length ys" for rest o'
      using Suc.IH [of rest indent o'] that ys Cons by fastforce
    have list: "\<exists>r. parse_map n indent rest o' = Some r \<and> (\<forall>m re. r = Inr (m, re) \<longrightarrow> length re \<le> length ls)"
      if "parse_list k ys = (vs, rest)" for k vs rest o'
      by (rule go [OF parse_list_rest [OF that]])
    have sub: "\<exists>r. parse_map n k ys [] = Some r \<and> (\<forall>m re. r = Inr (m, re) \<longrightarrow> length re \<le> length ys)" for k
      using Suc.IH ys by blast
    show ?thesis
    proof (cases "split_kv (yl_text y) (yl_num y)")
      case (Inr kv)
      obtain key val where kv: "kv = (key, val)" by (cases kv)
      obtain r where r: "parse_map n (yl_indent (hd ys)) ys [] = Some r"
          "\<And>m re. r = Inr (m, re) \<Longrightarrow> length re \<le> length ys"
        using sub by blast
      show ?thesis
        using go [of ys] list go r Cons Inr kv
        by (cases r) (auto simp: Let_def split: prod.splits)
    qed (use Cons in auto)
  qed simp
qed simp

lemma parse_map_step:
  "parse_map n indent ls out \<noteq> None \<Longrightarrow> parse_map (Suc n) indent ls out = parse_map n indent ls out"
proof (induction n arbitrary: indent ls out)
  case (Suc n)
  show ?case
  proof (cases ls)
    case (Cons y ys)
    define call where "call = (\<lambda>m. parse_map m (yl_indent (hd ys)) ys [])"
    define cont where "cont = (\<lambda>m rest o'. parse_map m indent rest o')"
    have step: "call n \<noteq> None \<Longrightarrow> call (Suc n) = call n" "cont n rest o' \<noteq> None \<Longrightarrow> cont (Suc n) rest o' = cont n rest o'"
      for rest o' unfolding call_def cont_def using Suc.IH by blast+
    have eq: "parse_map (Suc m) indent ls out =
        (if yl_indent y < indent then Some (Inr (out, y # ys))
         else if indent < yl_indent y then Some (Inl (Bad_Indent (yl_num y)))
         else if list_item y then Some (Inr (out, y # ys))
         else case split_kv (yl_text y) (yl_num y) of
           Inl e \<Rightarrow> Some (Inl e)
         | Inr (key, val) \<Rightarrow>
             if val \<noteq> [] then cont m ys (mput key (parse_scalar val) out)
             else if ys \<noteq> [] \<and> indent < yl_indent (hd ys) then
               (if list_item (hd ys) then
                  cont m (snd (parse_list (yl_indent (hd ys)) ys)) (mput key (list_value (fst (parse_list (yl_indent (hd ys)) ys))) out)
                else case call m of None \<Rightarrow> None | Some (Inl e) \<Rightarrow> Some (Inl e)
                | Some (Inr (sub, rest)) \<Rightarrow> cont m rest (mput key (Y_Map sub) out))
             else cont m ys (mput key Y_Null out))" for m
      unfolding Cons parse_map.simps(3) call_def cont_def by (simp add: Let_def case_prod_beta split: sum.split)
    show ?thesis
      using Suc.prems unfolding eq
      by (cases "call n") (auto simp: step split: if_splits sum.splits prod.splits option.splits)
  qed simp
qed simp

lemma parse_map_more: "parse_map n indent ls out = Some r \<Longrightarrow> n \<le> m \<Longrightarrow> parse_map m indent ls out = Some r"
proof (induction m)
  case (Suc m)
  then show ?case using parse_map_step [of m indent ls out] by (cases "n = Suc m") auto
qed simp



section \<open>Quoted values\<close>

definition plain_key :: "string \<Rightarrow> bool" where
  "plain_key k \<longleftrightarrow> k \<noteq> [] \<and>
     list_all (\<lambda>c. graphic c \<and> c \<notin> {CHR '':'', CHR ''#'', CHR 0x22, CHR 0x27}) k \<and> hd k \<noteq> CHR ''-''"

definition plain_text :: "string \<Rightarrow> bool" where
  "plain_text v \<longleftrightarrow> ascii v \<and> CHR ''#'' \<notin> set v"

definition yaml_entry :: "string \<times> string \<Rightarrow> string" where
  "yaml_entry kv = fst kv @ '': '' @ json_string (snd kv)"

lemma strip_comment_id: "CHR ''#'' \<notin> set s \<Longrightarrow> strip_comment inS inD prev s = s"
  by (induction s arbitrary: inS inD prev) auto

lemma quote_head_chars:
  assumes "code c < 128" "c \<noteq> CHR ''#''"
  shows "set (snd (quote_head (c # s))) \<inter> {CHR ''#'', CHR 0x0A, CHR 0x0D} = {}"
proof (cases rule: quote_head_cases [OF assms(1), of s])
  case 1
  have "is_hex_lower (lower_char (hex_char d))" if "d < 16" for d using hex_value_char [OF that] by simp
  then have "is_hex_lower (lower_char x)" if "x \<in> set (hex_byte (code c))" for x
    using assms(1) that by (auto simp: hex_byte_def)
  moreover have "\<not> is_hex_lower (lower_char CHR ''#'')" "\<not> is_hex_lower (lower_char CHR 0x0A)" "\<not> is_hex_lower (lower_char CHR 0x0D)" by code_simp+
  ultimately show ?thesis unfolding 1 u_escape_def by auto
next
  case (2 e)
  then show ?thesis by (auto simp: simple_escape_def split: if_splits)
next
  case 3
  then show ?thesis using assms by auto
qed

lemma json_string_chars:
  "plain_text v \<Longrightarrow> set (json_string v) \<inter> {CHR ''#'', CHR 0x0A, CHR 0x0D} = {}"
proof -
  have "plain_text v \<Longrightarrow> set (quote_body v) \<inter> {CHR ''#'', CHR 0x0A, CHR 0x0D} = {}"
  proof (induction v)
    case (Cons c v)
    then have "code c < 128" "c \<noteq> CHR ''#''" "plain_text v" by (auto simp: plain_text_def ascii_def)
    then show ?case using Cons.IH quote_head_chars [of c v] by (simp add: quote_body_Cons Int_Un_distrib2)
  qed (simp add: quote_body.simps)
  then show "plain_text v \<Longrightarrow> ?thesis" by (simp add: json_string_def)
qed

lemma json_string_ends: "hd (json_string v) = CHR 0x22" "last (json_string v) = CHR 0x22" "2 \<le> length (json_string v)"
  by (simp_all add: json_string_def)

lemma trim_json_string: "trim_space (json_string v) = json_string v"
  by (rule trim_space_graphic) (simp add: json_string_ends graphic_def)

lemma parse_scalar_quoted: "ascii v \<Longrightarrow> parse_scalar (json_string v) = Y_Str v"
proof -
  assume "ascii v"
  then have "unquote (quote_body v @ CHR 0x22 # []) = Some (v, [])" by (rule unquote_quote_body)
  then have "double_quoted (json_string v) = v" by (simp add: double_quoted_def json_string_def)
  moreover have "quoted_by CHR 0x22 (json_string v)" by (simp add: quoted_by_def json_string_ends)
  moreover have "\<not> has_prefix (json_string v) ''[''" "json_string v \<noteq> []" by (simp_all add: json_string_def)
  ultimately show ?thesis by (subst parse_scalar.simps) (simp add: trim_json_string plain_scalar_def Let_def)
qed

lemma index_of_colon:
  "CHR '':'' \<notin> set k \<Longrightarrow> index_of (k @ CHR '':'' # CHR '' '' # s) '': '' = Some (length k)"
  by (induction k) auto

lemma yaml_entry_line:
  assumes "plain_key k" "plain_text v"
  shows "yaml_line i (yaml_entry (k, v)) = Inr (Some \<lparr>yl_indent = 0, yl_text = yaml_entry (k, v), yl_num = i + 1\<rparr>)"
proof -
  let ?e = "yaml_entry (k, v)"
  have k: "k \<noteq> []" "\<And>c. c \<in> set k \<Longrightarrow> graphic c \<and> c \<noteq> CHR ''#''"
    using assms(1) by (auto simp: plain_key_def list_all_iff)
  have ends: "?e \<noteq> []" "hd ?e = hd k" "last ?e = CHR 0x22"
    using k(1) json_string_ends(2) [of v] by (simp_all add: yaml_entry_def json_string_def)
  have g: "graphic (hd k)" using k by simp
  then have "trim_space ?e = ?e" using ends by (intro trim_space_graphic) (simp add: graphic_def)
  moreover have "trim_right_set ?e [CHR '' '', CHR 0x09] = ?e" using ends by (intro trim_right_set_id) simp
  moreover have "CHR ''#'' \<notin> set ?e"
    using k json_string_chars [OF assms(2)] by (auto simp: yaml_entry_def)
  then have "strip_comment False False None ?e = ?e" by (rule strip_comment_id)
  moreover have "takeWhile (\<lambda>c. c = CHR '' '') ?e = []" "?e ! 0 \<noteq> CHR 0x09"
    using ends g by (cases ?e; auto simp: graphic_def)+
  moreover have "?e \<noteq> ''---''" using ends by auto
  ultimately show ?thesis using ends by (simp add: yaml_line_def Let_def)
qed

lemma yaml_entry_kv:
  assumes "plain_key k"
  shows "split_kv (yaml_entry (k, v)) n = Inr (k, json_string v)" "\<not> list_item \<lparr>yl_indent = i, yl_text = yaml_entry (k, v), yl_num = n\<rparr>"
proof -
  let ?e = "yaml_entry (k, v)"
  have k: "k \<noteq> []" "list_all graphic k" "CHR '':'' \<notin> set k" "hd k \<notin> {CHR 0x22, CHR 0x27}" "hd k \<noteq> CHR ''-''"
    using assms by (auto simp: plain_key_def list_all_iff)
  have "\<not> has_suffix ?e '':''"
    using json_string_ends(2) [of v] by (auto simp: suffix_singleton_iff yaml_entry_def json_string_def)
  moreover have "index_of ?e '': '' = Some (length k)"
    using index_of_colon [OF k(3), of "json_string v"] by (simp add: yaml_entry_def)
  moreover have "unquote_key k = k" using k(4) by (simp add: unquote_key_def)
  moreover have "trim_space k = k" using k(1,2) by (intro trim_space_graphic) (simp add: list_all_iff)
  ultimately show "split_kv ?e n = Inr (k, json_string v)"
    using trim_json_string [of v] by (simp add: split_kv_def yaml_entry_def)
  show "\<not> list_item \<lparr>yl_indent = i, yl_text = ?e, yl_num = n\<rparr>"
    using k(1,5) by (cases k) (auto simp: list_item_def yaml_entry_def)
qed

definition entry_line :: "yline \<Rightarrow> string \<times> string \<Rightarrow> bool" where
  "entry_line y kv \<longleftrightarrow> yl_indent y = 0 \<and> yl_text y = yaml_entry kv"

definition plain_entries :: "(string \<times> string) list \<Rightarrow> bool" where
  "plain_entries kvs \<longleftrightarrow> list_all (\<lambda>(k, v). plain_key k \<and> plain_text v) kvs"

lemma yaml_lines_entries:
  "plain_entries kvs \<Longrightarrow> \<exists>ys. yaml_lines i (map yaml_entry kvs) = Inr ys \<and> list_all2 entry_line ys kvs"
proof (induction kvs arbitrary: i)
  case (Cons kv kvs)
  obtain k v where kv: "kv = (k, v)" by (cases kv)
  obtain ys where "yaml_lines (Suc i) (map yaml_entry kvs) = Inr ys" "list_all2 entry_line ys kvs"
    using Cons.IH [of "Suc i"] Cons.prems by (auto simp: plain_entries_def)
  moreover have "yaml_line i (yaml_entry kv) = Inr (Some \<lparr>yl_indent = 0, yl_text = yaml_entry (k, v), yl_num = i + 1\<rparr>)"
    using yaml_entry_line [of k v i] Cons.prems kv by (simp add: plain_entries_def)
  moreover have "entry_line \<lparr>yl_indent = 0, yl_text = yaml_entry (k, v), yl_num = i + 1\<rparr> kv"
    by (simp add: entry_line_def kv)
  ultimately show ?case using kv by simp
qed simp

lemma mput_new: "k \<notin> fst ` set m \<Longrightarrow> mput k v m = m @ [(k, v)]"
  by (induction m) (auto simp: mput_def)

lemma parse_map_entries:
  "list_all2 entry_line ys kvs \<Longrightarrow> plain_entries kvs \<Longrightarrow> distinct (map fst out @ map fst kvs) \<Longrightarrow> length ys < n \<Longrightarrow>
   parse_map n 0 ys out = Some (Inr (out @ map (\<lambda>(k, v). (k, Y_Str v)) kvs, []))"
proof (induction ys kvs arbitrary: n out rule: list_all2_induct)
  case Nil
  then show ?case by (cases n) auto
next
  case (Cons y ys kv kvs)
  obtain k v where kv: "kv = (k, v)" by (cases kv)
  obtain m where n: "n = Suc m" using Cons.prems(3) by (cases n) auto
  have p: "plain_key k" "ascii v" using Cons.prems(1) kv by (auto simp: plain_entries_def plain_text_def)
  have y: "yl_indent y = 0" "yl_text y = yaml_entry (k, v)" using Cons.hyps(1) kv by (auto simp: entry_line_def)
  have l: "\<not> list_item y" using yaml_entry_kv(2) [OF p(1)] y by (simp add: list_item_def)
  have o: "mput k (Y_Str v) out = out @ [(k, Y_Str v)]" using Cons.prems(2) kv by (intro mput_new) auto
  have "parse_map m 0 ys (out @ [(k, Y_Str v)]) = Some (Inr ((out @ [(k, Y_Str v)]) @ map (\<lambda>(k, v). (k, Y_Str v)) kvs, []))"
    using Cons.prems n kv by (intro Cons.IH) (auto simp: plain_entries_def)
  then show ?case
    using y l n kv yaml_entry_kv(1) [OF p(1)] parse_scalar_quoted [OF p(2)] json_string_ends(3) [of v] o by auto
qed

text \<open>
  Quoted values are safe. A document of one line per entry, a plain key and the value in double quotes with JSON
  escapes, is read back as exactly those entries, whatever ASCII text the values are made of, except the number
  sign: comments are stripped by a scan that does not know about escaped quotes, and one value with an escaped
  quote and a number sign shows that it is cut.
\<close>

theorem yaml_quoted_roundtrip:
  "(plain_entries kvs \<and> kvs \<noteq> [] \<and> distinct (map fst kvs) \<longrightarrow>
     yaml_parse (join [CHR 0x0A] (map yaml_entry kvs)) = Some (Inr (Some (map (\<lambda>(k, v). (k, Y_Str v)) kvs)))) \<and>
   strip_comment False False None (yaml_entry (''k'', [CHR ''a'', CHR 0x22, CHR '' '', CHR ''#'', CHR ''b''])) =
     ''k: '' @ [CHR 0x22, CHR ''a'', CHR 0x5C, CHR 0x22, CHR '' '']"
proof (intro conjI impI)
  assume a: "plain_entries kvs \<and> kvs \<noteq> [] \<and> distinct (map fst kvs)"
  let ?d = "join [CHR 0x0A] (map yaml_entry kvs)"
  have no: "set (yaml_entry kv) \<inter> {CHR 0x0A, CHR 0x0D} = {}" if "kv \<in> set kvs" for kv
  proof -
    obtain k v where kv: "kv = (k, v)" by (cases kv)
    with a that have p: "plain_key k" "plain_text v" by (auto simp: plain_entries_def list_all_iff)
    have "graphic c" if "c \<in> set k" for c using p(1) that by (simp add: plain_key_def list_all_iff)
    moreover have "\<not> graphic CHR 0x0A" "\<not> graphic CHR 0x0D" by (simp_all add: graphic_def)
    ultimately have "set k \<inter> {CHR 0x0A, CHR 0x0D} = {}" by blast
    then have "set (k @ '': '' @ json_string v) \<inter> {CHR 0x0A, CHR 0x0D} = {}"
      using json_string_chars [OF p(2)] by auto
    then show ?thesis by (simp only: yaml_entry_def kv fst_conv snd_conv)
  qed
  have split: "split_byte CHR 0x0A ?d = map yaml_entry kvs"
    using a no by (intro split_join) auto
  have "CHR 0x0D \<notin> set ?d"
  proof -
    have "CHR 0x0D \<notin> set (join [CHR 0x0A] ws)" if "\<forall>w \<in> set ws. CHR 0x0D \<notin> set w" for ws
      using that by (induction "[CHR 0x0A]" ws rule: join.induct) auto
    then show ?thesis using no by auto
  qed
  then have "\<not> sublist [CHR 0x0D, CHR 0x0A] ?d" using set_mono_sublist by fastforce
  then have rep: "replace_all ?d [CHR 0x0D, CHR 0x0A] [CHR 0x0A] = ?d" by (rule replace_all_absent)
  obtain ys where ys: "yaml_lines 0 (map yaml_entry kvs) = Inr ys" "list_all2 entry_line ys kvs"
    using yaml_lines_entries a by blast
  obtain y zs where yz: "ys = y # zs" using ys(2) a by (cases ys) auto
  then have "yl_indent y = 0" using ys(2) a by (cases kvs) (auto simp: entry_line_def)
  moreover have "parse_map (Suc (length ys)) 0 ys [] = Some (Inr ([] @ map (\<lambda>(k, v). (k, Y_Str v)) kvs, []))"
    using ys(2) a by (intro parse_map_entries) auto
  ultimately show "yaml_parse ?d = Some (Inr (Some (map (\<lambda>(k, v). (k, Y_Str v)) kvs)))"
    by (simp add: yaml_parse_def rep split ys(1) yz del: parse_map.simps)
next
  show "strip_comment False False None (yaml_entry (''k'', [CHR ''a'', CHR 0x22, CHR '' '', CHR ''#'', CHR ''b''])) =
     ''k: '' @ [CHR 0x22, CHR ''a'', CHR 0x5C, CHR 0x22, CHR '' '']"
    by (simp add: yaml_entry_def json_string_def quote_body.simps quote_head_def utf8_len_def Let_def)
qed

theorem yaml_quoted_roundtrip_witness:
  "yaml_parse (join [CHR 0x0A] (map yaml_entry [(''server'', ''http://h:1''), (''mode'', ''off'')])) =
     Some (Inr (Some [(''server'', Y_Str ''http://h:1''), (''mode'', Y_Str ''off'')]))"
proof -
  let ?kvs = "[(''server'', ''http://h:1''), (''mode'', ''off'')]"
  have "plain_entries ?kvs \<and> ?kvs \<noteq> [] \<and> distinct (map fst ?kvs)"
    by (simp add: plain_entries_def plain_key_def plain_text_def ascii_def graphic_def)
  then show ?thesis using yaml_quoted_roundtrip [of ?kvs] by simp
qed

end
