(* ===== verification/HUnits.thy ===== *)
theory HUnits
  imports GoFloat
begin

text \<open>
  Sizes and durations of the configuration (\<open>internal/hunits\<close>), with \<open>time.ParseDuration\<close> of the standard
  library, which \<open>ParseDuration\<close> tries first. Results are int64: bytes, or nanoseconds.
\<close>

section \<open>Sizes\<close>

definition byte_units :: "(string \<times> int) list" where
  "byte_units =
     [(''KIB'', 2 ^ 10), (''MIB'', 2 ^ 20), (''GIB'', 2 ^ 30), (''TIB'', 2 ^ 40),
      (''KB'', 1000), (''MB'', 1000000), (''GB'', 1000000000), (''TB'', 1000000000000),
      (''K'', 2 ^ 10), (''M'', 2 ^ 20), (''G'', 2 ^ 30), (''T'', 2 ^ 40), (''B'', 1)]"

definition byte_unit :: "string \<Rightarrow> string \<times> int" where
  "byte_unit s =
     (case find (\<lambda>(suf, m). has_suffix (to_upper s) suf) byte_units of None \<Rightarrow> ([], 1) | Some u \<Rightarrow> u)"

definition parse_bytes :: "string \<Rightarrow> int option" where
  "parse_bytes s0 =
     (let s = trim_space s0 in
      if s = [] then None
      else
        (let (suf, m) = byte_unit s in
         case parse_float (trim_space (take (length s - length suf) s)) of
           None \<Rightarrow> None
         | Some f \<Rightarrow> Some (int64_of (float_mult f (float_of (of_int m))))))"

section \<open>Durations\<close>

text \<open>\<open>leadingInt\<close>: \<open>None\<close> for a value above 2^63.\<close>

fun leading_int :: "string \<Rightarrow> nat \<Rightarrow> (nat \<times> string) option" where
  "leading_int [] x = Some (x, [])"
| "leading_int (c # s) x =
     (if \<not> is_digit c then Some (x, c # s)
      else if 2 ^ 63 div 10 < x then None
      else if 2 ^ 63 < 10 * x + digit_val c then None
      else leading_int s (10 * x + digit_val c))"

text \<open>\<open>leadingFraction\<close>: the digits that fit, the number of digits taken, and the rest.\<close>

fun leading_fraction :: "string \<Rightarrow> nat \<Rightarrow> nat \<Rightarrow> bool \<Rightarrow> nat \<times> nat \<times> string" where
  "leading_fraction [] x k full = (x, k, [])"
| "leading_fraction (c # s) x k full =
     (if \<not> is_digit c then (x, k, c # s)
      else if full \<or> (2 ^ 63 - 1) div 10 < x \<or> 2 ^ 63 < 10 * x + digit_val c then leading_fraction s x k True
      else leading_fraction s (10 * x + digit_val c) (Suc k) False)"

definition duration_units :: "(string \<times> nat) list" where
  "duration_units =
     [(''ns'', 1), (''us'', 1000), ([CHR 0xC2, CHR 0xB5, CHR ''s''], 1000), ([CHR 0xCE, CHR 0xBC, CHR ''s''], 1000),
      (''ms'', 1000000), (''s'', 1000000000), (''m'', 60000000000), (''h'', 3600000000000)]"

definition fraction_part :: "nat \<Rightarrow> nat \<Rightarrow> nat \<Rightarrow> nat" where
  "fraction_part f k u =
     nat (int64_of (float_mult (float_of (of_nat f)) (float_of (of_nat u / 10 ^ k))))"

text \<open>One number with its unit: its value in nanoseconds, and the rest.\<close>

definition duration_part :: "string \<Rightarrow> (nat \<times> string) option" where
  "duration_part s =
     (case s of [] \<Rightarrow> None
      | c # _ \<Rightarrow>
        if \<not> (c = CHR ''.'' \<or> is_digit c) then None
        else case leading_int s 0 of None \<Rightarrow> None
        | Some (v, s1) \<Rightarrow>
          (let (f, k, s2) = (if has_prefix s1 ''.'' then leading_fraction (tl s1) 0 0 False else (0, 0, s1));
               pre = (s1 \<noteq> s); post = (has_prefix s1 ''.'' \<and> s2 \<noteq> tl s1);
               u = takeWhile (\<lambda>x. \<not> (x = CHR ''.'' \<or> is_digit x)) s2
           in if (\<not> pre \<and> \<not> post) \<or> u = [] then None
              else case map_of duration_units u of None \<Rightarrow> None
              | Some n \<Rightarrow>
                if 2 ^ 63 div n < v then None
                else
                  (let w = v * n + (if 0 < f then fraction_part f k n else 0) in
                   if 0 < f \<and> 2 ^ 63 < w then None else Some (w, drop (length u) s2))))"

lemma leading_int_rest: "leading_int s x = Some (v, t) \<Longrightarrow> length t \<le> length s"
  by (induction s x rule: leading_int.induct) (auto split: if_splits)

lemma leading_fraction_rest: "leading_fraction s x k full = (f, j, t) \<Longrightarrow> length t \<le> length s"
  by (induction s x k full rule: leading_fraction.induct) (auto split: if_splits)

lemma duration_part_shrinks: "duration_part s = Some (w, t) \<Longrightarrow> length t < length s"
proof -
  assume a: "duration_part s = Some (w, t)"
  obtain v s1 where l: "leading_int s 0 = Some (v, s1)"
    using a by (auto simp: duration_part_def split: list.splits if_splits option.splits)
  obtain f k s2 where p: "(if has_prefix s1 ''.'' then leading_fraction (tl s1) 0 0 False else (0, 0, s1)) = (f, k, s2)"
    by (cases "if has_prefix s1 ''.'' then leading_fraction (tl s1) 0 0 False else (0, 0, s1)")
  have "length s2 \<le> length s1"
    using p leading_fraction_rest [of "tl s1" 0 0 False f k s2] by (auto split: if_splits)
  with leading_int_rest [OF l] have s2: "length s2 \<le> length s" by simp
  define u where "u = takeWhile (\<lambda>x. \<not> (x = CHR ''.'' \<or> is_digit x)) s2"
  have "u \<noteq> [] \<and> t = drop (length u) s2"
    using a l p unfolding u_def
    by (auto simp: duration_part_def Let_def split: list.splits if_splits option.splits)
  moreover from this have "s2 \<noteq> []" by (auto simp: u_def)
  ultimately show ?thesis using s2 by (cases u; cases s2) auto
qed

function duration_sum :: "string \<Rightarrow> nat \<Rightarrow> nat option" where
  "duration_sum s d =
     (if s = [] then Some d
      else case duration_part s of None \<Rightarrow> None
      | Some (w, t) \<Rightarrow> if 2 ^ 63 < d + w then None else duration_sum t (d + w))"
  by pat_completeness auto
termination
  by (relation "measure (\<lambda>(s, d). length s)") (auto dest: duration_part_shrinks)

declare duration_sum.simps [simp del]

definition go_duration :: "string \<Rightarrow> duration option" where
  "go_duration s0 =
     (let (neg, s) = strip_sign s0 in
      if s = ''0'' then Some 0
      else if s = [] then None
      else case duration_sum s 0 of None \<Rightarrow> None
      | Some d \<Rightarrow>
          if neg then Some (- int d) else if max_int64 < int d then None else Some (int d))"

definition parse_duration :: "string \<Rightarrow> duration option" where
  "parse_duration s0 =
     (let s = trim_space s0 in
      if s = [] then None
      else case go_duration s of
        Some d \<Rightarrow> Some d
      | None \<Rightarrow>
          (case parse_float s of
             Some f \<Rightarrow> Some (int64_of (float_mult f (float_of (of_int second))))
           | None \<Rightarrow> None))"

section \<open>Values of plain numbers\<close>

lemma suffix_after_digits:
  assumes "list_all is_digit ds" "list_all (\<lambda>c. \<not> is_digit c) v"
  shows "suffix v (ds @ u) \<longleftrightarrow> suffix v u"
proof
  assume "suffix v (ds @ u)"
  then consider "suffix v u" | x where "v = x @ u" "suffix x ds" by (auto simp: suffix_append)
  then show "suffix v u"
  proof cases
    case 2
    then have "list_all is_digit x" using assms(1) set_mono_suffix by (auto simp: list_all_iff)
    with 2(1) assms(2) have "x = []" by (cases x) auto
    with 2 show ?thesis by simp
  qed
qed (simp add: suffix_appendI)

lemma trim_digits_unit:
  assumes "list_all graphic u"
  shows "trim_space (nat_str n @ u) = nat_str n @ u"
proof (rule trim_space_graphic, rule disjI2, rule conjI)
  have "list_all graphic (nat_str n @ u)" using assms nat_str_graphic by (auto simp: list_all_iff)
  then show "graphic (hd (nat_str n @ u))" "graphic (last (nat_str n @ u))"
    by (metis append_is_Nil_conv hd_in_set last_in_set list_all_iff nat_str_nonempty)+
qed

lemma to_upper_digits: "list_all is_digit ds \<Longrightarrow> to_upper ds = ds"
  by (induction ds) (auto simp: to_upper_def upper_char_def is_lower_def is_digit_def)

lemma byte_unit_digits:
  assumes "list_all is_digit ds" "(to_upper u, m) \<in> set (([], 1) # byte_units)"
  shows "byte_unit (ds @ u) = (to_upper u, m)"
proof -
  have up: "to_upper (ds @ u) = ds @ to_upper u"
    using to_upper_digits [OF assms(1)] by (simp add: to_upper_def)
  have nd: "\<And>v k. (v, k) \<in> set byte_units \<Longrightarrow> list_all (\<lambda>c. \<not> is_digit c) v"
    by (auto simp: byte_units_def is_digit_def)
  have "find (\<lambda>(v, k). has_suffix (ds @ to_upper u) v) byte_units = find (\<lambda>(v, k). has_suffix (to_upper u) v) byte_units"
    by (intro find_cong) (use suffix_after_digits [OF assms(1) nd] in auto)
  moreover have "find (\<lambda>(v, k). has_suffix (to_upper u) v) byte_units =
      (if to_upper u = [] then None else Some (to_upper u, m))"
    using assms(2) unfolding byte_units_def
    by (simp only: list.set insert_iff empty_iff prod.inject simp_thms; elim disjE conjE; simp add: suffix_to_prefix)
  moreover have "to_upper u = [] \<Longrightarrow> m = 1" using assms(2) by (auto simp: byte_units_def)
  ultimately show ?thesis by (simp add: byte_unit_def up)
qed

lemma byte_units_pos: "(v, m) \<in> set (([], 1) # byte_units) \<Longrightarrow> 0 < m \<and> m < 2 ^ 53"
  by (auto simp: byte_units_def)

lemma float_of_unit:
  assumes "(v, m) \<in> set (([], 1) # byte_units)"
  shows "float_of (of_int m) = Fin (of_int m)"
  using float_of_int [of m 0] byte_units_pos [OF assms] by simp

text \<open>A product is exact when it fits 53 bits, or when one factor is a power of two.\<close>

definition exact_product :: "nat \<Rightarrow> int \<Rightarrow> bool" where
  "exact_product n m \<longleftrightarrow>
     n < 2 ^ 53 \<and> int n * m \<le> max_int64 \<and> (int n * m < 2 ^ 53 \<or> m \<in> {2 ^ 10, 2 ^ 20, 2 ^ 30, 2 ^ 40})"

lemma float_of_product:
  assumes "exact_product n m" "0 < m"
  shows "float_of (of_int (int n * m)) = Fin (of_int (int n * m))"
proof -
  have "int n * m \<le> max_int64" using assms by (simp add: exact_product_def)
  then have small: "int n * m < 2 ^ 1024" by (simp add: max_int64_def)
  from assms consider "int n * m < 2 ^ 53" | j where "m = 2 ^ j" "n < 2 ^ 53"
    unfolding exact_product_def by blast
  then show ?thesis
  proof cases
    case 1
    then show ?thesis using float_of_int [of "int n * m" 0] assms(2) small by simp
  next
    case 2
    then show ?thesis using float_of_int [of "int n" j] small by simp
  qed
qed

lemma int64_of_small: "0 \<le> i \<Longrightarrow> i \<le> max_int64 \<Longrightarrow> int64_of (Fin (of_int i)) = i"
  by (simp add: Let_def min_int64_def)

lemma product_value:
  assumes "exact_product n m" "0 < m"
  shows "int64_of (float_mult (Fin (of_nat n)) (Fin (of_int m))) = int n * m"
proof -
  have "float_mult (Fin (of_nat n)) (Fin (of_int m)) = Fin (of_int (int n * m))"
    using float_of_product [OF assms] by simp
  moreover have "0 \<le> int n * m" "int n * m \<le> max_int64" using assms by (auto simp: exact_product_def)
  ultimately show ?thesis by (simp only: int64_of_small)
qed

lemma leading_int_digits:
  assumes "list_all is_digit ds" "foldl (\<lambda>a c. 10 * a + digit_val c) x ds \<le> 2 ^ 63" "t = [] \<or> \<not> is_digit (hd t)"
  shows "leading_int (ds @ t) x = Some (foldl (\<lambda>a c. 10 * a + digit_val c) x ds, t)"
  using assms
proof (induction ds arbitrary: x)
  case Nil
  then show ?case by (cases t) auto
next
  case (Cons c ds)
  have up: "y \<le> foldl (\<lambda>a c. 10 * a + digit_val c) y es" for y es
  proof (induction es arbitrary: y)
    case (Cons e es)
    then show ?case using le_trans [OF _ Cons [of "10 * y + digit_val e"], of y] by simp
  qed simp
  have "10 * x + digit_val c \<le> 2 ^ 63"
    using Cons.prems(2) up [of "10 * x + digit_val c" ds] by simp
  with Cons show ?case by auto
qed

lemma go_duration_seconds:
  assumes "int n * second \<le> max_int64"
  shows "go_duration (nat_str n @ ''s'') = Some (int n * second)"
proof -
  have sg: "strip_sign (nat_str n @ ''s'') = (False, nat_str n @ ''s'')"
    using nat_str_no_sign [of n] nat_str_nonempty [of n] by (cases "nat_str n") (auto simp: strip_sign_def)
  have ns: "nat_str n @ ''s'' \<noteq> ''0''" by (auto dest: arg_cong [of _ _ last])
  have small: "n \<le> 2 ^ 63 div 1000000000" using assms by (simp add: second_def max_int64_def)
  then have "leading_int (nat_str n @ ''s'') 0 = Some (n, ''s'')"
    using leading_int_digits [OF nat_str_digits [of n], of 0 "''s''"] digits_val_nat_str [of n]
    by (simp add: digits_val_def is_digit_def)
  moreover obtain c t where "nat_str n = c # t" "is_digit c"
    using nat_str_nonempty [of n] nat_str_head [of n] by (cases "nat_str n") auto
  ultimately have "duration_part (nat_str n @ ''s'') = Some (n * 1000000000, [])"
    using small by (simp add: duration_part_def Let_def duration_units_def is_digit_def)
  then have "duration_sum (nat_str n @ ''s'') 0 = Some (n * 1000000000)"
    using small by (subst duration_sum.simps) (simp add: duration_sum.simps [of "[]"])
  then show ?thesis
    using sg ns assms by (simp add: go_duration_def second_def)
qed

lemma go_duration_bare: "go_duration (nat_str n) = (if nat_str n = ''0'' then Some 0 else None)"
proof -
  have sg: "strip_sign (nat_str n) = (False, nat_str n)" by (simp add: strip_sign_def)
  obtain c t where ct: "nat_str n = c # t" "is_digit c"
    using nat_str_nonempty [of n] nat_str_head [of n] by (cases "nat_str n") auto
  have all: "leading_int s x = Some (v, r) \<Longrightarrow> list_all is_digit s \<Longrightarrow> r = []" for s x v r
    by (induction s x rule: leading_int.induct) (auto split: if_splits)
  have "duration_part (nat_str n) = None"
  proof (cases "leading_int (nat_str n) 0")
    case None
    then show ?thesis by (simp add: duration_part_def ct(1))
  next
    case (Some p)
    then obtain v where p: "leading_int (c # t) 0 = Some (v, [])"
      using all [of "nat_str n" 0 "fst p" "snd p"] nat_str_digits [of n] ct(1) by (cases p) auto
    show ?thesis unfolding ct(1) duration_part_def by (simp del: leading_int.simps add: p Let_def)
  qed
  then have "duration_sum (nat_str n) 0 = None" by (subst duration_sum.simps) simp
  with sg show ?thesis by (simp add: go_duration_def)
qed

lemma zero_text: "nat_str k = ''0'' \<Longrightarrow> k = 0"
  using digits_val_nat_str [of k] by (simp add: digits_val_def digit_val_def)

text \<open>
  Sizes and durations mean what their units say. A number with a binary or decimal unit, in any letter case,
  is that multiple of bytes (exactly, as long as the product fits 53 bits or the unit is a power of two),
  and a number of seconds, with or without the letter s, is that duration.
\<close>

theorem units_mean_what_they_say:
  assumes "(to_upper u, m) \<in> set (([], 1) # byte_units)" "list_all graphic u" "exact_product n m"
    and "int k * second \<le> max_int64" "exact_product k second"
  shows "parse_bytes (nat_str n @ u) = Some (int n * m) \<and>
    parse_duration (nat_str k @ ''s'') = Some (int k * second) \<and>
    parse_duration (nat_str k) = Some (int k * second)"
proof (intro conjI)
  let ?s = "nat_str n @ u"
  have l: "length u = length (to_upper u)" by (simp add: to_upper_def)
  have m: "0 < m" "float_of (of_int m) = Fin (of_int m)"
    using byte_units_pos [OF assms(1)] float_of_unit [OF assms(1)] by auto
  have "take (length ?s - length (to_upper u)) ?s = nat_str n" using l by simp
  moreover have "trim_space (nat_str n) = nat_str n" using trim_digits_unit [of "[]" n] by simp
  moreover have "parse_float (nat_str n) = Some (Fin (of_nat n))"
    using assms(3) by (intro parse_float_nat_str) (simp add: exact_product_def)
  ultimately show "parse_bytes ?s = Some (int n * m)"
    using trim_digits_unit [OF assms(2), of n] byte_unit_digits [OF nat_str_digits assms(1)] m
      product_value [OF assms(3) m(1)]
    by (simp add: parse_bytes_def del: float_mult.simps)
  show "parse_duration (nat_str k @ ''s'') = Some (int k * second)"
    using trim_digits_unit [of "''s''" k] go_duration_seconds [OF assms(4)]
    by (simp add: parse_duration_def graphic_def)
  have "parse_float (nat_str k) = Some (Fin (of_nat k))"
    using assms(5) by (intro parse_float_nat_str) (simp add: exact_product_def)
  moreover have "float_of (of_int second) = Fin (of_int second)"
    using float_of_int [of second 0] by (simp add: second_def)
  moreover have "int64_of (float_mult (Fin (of_nat k)) (Fin (of_int second))) = int k * second"
    by (rule product_value [OF assms(5)]) (simp add: second_def)
  moreover have "trim_space (nat_str k) = nat_str k" using trim_digits_unit [of "[]" k] by simp
  ultimately show "parse_duration (nat_str k) = Some (int k * second)"
    using zero_text [of k] by (simp add: parse_duration_def go_duration_bare Let_def del: float_mult.simps)
qed

theorem units_mean_what_they_say_witness:
  "parse_bytes (nat_str 16 @ ''MiB'') = Some 16777216 \<and> parse_duration (nat_str 300 @ ''s'') = Some 300000000000 \<and>
   parse_duration (nat_str 300) = Some 300000000000"
proof -
  have "to_upper ''MiB'' = ''MIB''" by code_simp
  then have u: "(to_upper ''MiB'', 2 ^ 20) \<in> set (([], 1) # byte_units)" by (simp add: byte_units_def)
  have g: "list_all graphic ''MiB''" by (simp add: graphic_def)
  have e: "exact_product 16 (2 ^ 20)" "exact_product 300 second" "int 300 * second \<le> max_int64"
    by (simp_all add: exact_product_def max_int64_def second_def)
  show ?thesis
    using units_mean_what_they_say [OF u g e(1) e(3) e(2)] by (simp add: second_def)
qed

end
