(* ===== verification/ClientConfig.thy ===== *)
theory ClientConfig
  imports Codec Yaml HUnits GoPath Whitelist
begin

text \<open>
  The configuration of the client (\<open>internal/client/config\<close>): its structs with their JSON names, defaults, where the
  files are, loading, saving, \<open>set\<close> and \<open>unset\<close> of dotted keys, and the accessors with their fallbacks.
  A configuration is a value of the struct type \<open>client_type\<close>.
\<close>

section \<open>The structs\<close>

definition proxy_config :: fields where
  "proxy_config =
     [text_field ''bind'', int_field ''port'', text_field ''mode'', text_field ''fallback'',
      bool_field ''allow_large_over_tunnel'', text_field ''idle_timeout'']"

definition download_config :: fields where
  "download_config =
     [text_field ''chunk_size'', int_field ''concurrency'', text_field ''refresh_before'', text_field ''direct_fallback'',
      text_field ''task_poll_wait'', text_field ''task_timeout'']"

definition security_config :: fields where
  "security_config = [(''block_private'', True, T_Ptr B_Bool), (''ports'', False, T_List B_Int)]"

definition client_fields :: fields where
  "client_fields =
     [text_field ''server'', text_field ''token_file'', (''proxy'', False, T_Struct proxy_config),
      (''download'', False, T_Struct download_config), text_field ''whitelist_version'',
      (''security'', False, T_Struct security_config), int_field ''log_level'', bool_field ''tls_skip_verify'']"

definition client_type :: ty where
  "client_type = T_Struct client_fields"

lemmas client_structs = client_type_def client_fields_def proxy_config_def download_config_def security_config_def

definition client_default :: gv where
  "client_default = V_Struct
     [(''server'', str_value []), (''token_file'', str_value []),
      (''proxy'', V_Struct
        [(''bind'', str_value ''127.0.0.1''), (''port'', V_Base (S_Int 0)), (''mode'', str_value ''whitelist_only''),
         (''fallback'', str_value ''direct''), (''allow_large_over_tunnel'', V_Base (S_Bool False)),
         (''idle_timeout'', str_value ''300s'')]),
      (''download'', V_Struct
        [(''chunk_size'', str_value ''16MiB''), (''concurrency'', V_Base (S_Int 8)), (''refresh_before'', str_value ''120s''),
         (''direct_fallback'', str_value ''ask''), (''task_poll_wait'', str_value ''1s''), (''task_timeout'', str_value ''600s'')]),
      (''whitelist_version'', str_value []),
      (''security'', V_Struct [(''block_private'', V_Ptr None), (''ports'', V_List (Some [S_Int 80, S_Int 443]))]),
      (''log_level'', V_Base (S_Int 0)), (''tls_skip_verify'', V_Base (S_Bool False))]"

lemma client_type_ok: "wf_ty client_type" "low_ty client_type" "typed client_type client_default"
  by (code_simp, code_simp, simp add: client_structs client_default_def min_int64_def max_int64_def)

section \<open>Files\<close>

text \<open>The host: environment variables (unset is the empty text), the home directory, and what reading a file gives.\<close>

record host =
  ho_env :: "string \<Rightarrow> string"
  ho_home :: "string option"
  ho_file :: "string \<Rightarrow> file_read"

definition path_ext :: "string \<Rightarrow> string" where
  "path_ext p =
     (let b = (case last_index_byte p CHR ''/'' of None \<Rightarrow> p | Some i \<Rightarrow> drop (Suc i) p) in
      case last_index_byte b CHR ''.'' of None \<Rightarrow> [] | Some i \<Rightarrow> drop i b)"

definition config_dir :: "host \<Rightarrow> string" where
  "config_dir h =
     (if ho_env h ''DLDW_HOME'' \<noteq> [] then ho_env h ''DLDW_HOME''
      else path_join [(case ho_home h of None \<Rightarrow> ''.'' | Some d \<Rightarrow> d), ''.dldw''])"

definition config_path :: "host \<Rightarrow> string" where
  "config_path h =
     (if ho_env h ''DLDW_CONFIG'' \<noteq> [] then ho_env h ''DLDW_CONFIG'' else path_join [config_dir h, ''config.json''])"

definition yaml_sibling :: "string \<Rightarrow> string" where
  "yaml_sibling p = trim_suffix p (path_ext p) @ ''.yaml''"

datatype config_error = Not_Readable | Bad_Yaml yaml_error | Bad_Json | Type_Mismatch | Yaml_Fuel

definition fill :: "ty \<Rightarrow> gv \<Rightarrow> json \<Rightarrow> gv \<times> config_error option" where
  "fill t c j = (let (c', e) = decode t c j in (c', if e then Some Type_Mismatch else None))"

definition yaml_unmarshal :: "ty \<Rightarrow> string \<Rightarrow> gv \<Rightarrow> gv \<times> config_error option" where
  "yaml_unmarshal t data c =
     (case yaml_document data of
        None \<Rightarrow> (c, Some Yaml_Fuel)
      | Some (Inl e) \<Rightarrow> (c, Some (Bad_Yaml e))
      | Some (Inr None) \<Rightarrow> (c, None)
      | Some (Inr (Some j)) \<Rightarrow> fill t c j)"

definition json_unmarshal :: "ty \<Rightarrow> string \<Rightarrow> gv \<Rightarrow> gv \<times> config_error option" where
  "json_unmarshal t data c = (case parse_json data of None \<Rightarrow> (c, Some Bad_Json) | Some j \<Rightarrow> fill t c j)"

definition config_load :: "host \<Rightarrow> gv \<times> string \<times> config_error option" where
  "config_load h =
     (let path = config_path h in
      case ho_file h path of
        No_File \<Rightarrow>
          (case ho_file h (yaml_sibling path) of
             File y \<Rightarrow> (let (c, e) = yaml_unmarshal client_type y client_default in (c, yaml_sibling path, e))
           | _ \<Rightarrow> (client_default, [], None))
      | Read_Error \<Rightarrow> (client_default, path, Some Not_Readable)
      | File data \<Rightarrow>
          (let (c, e) = (if to_lower (path_ext path) \<in> {''.yaml'', ''.yml''} then yaml_unmarshal client_type data client_default
                         else json_unmarshal client_type data client_default)
           in (c, path, e)))"

text \<open>\<open>Save\<close>: the path written and the text; the errors of the file system are left to the caller's environment.\<close>

definition config_save :: "(rat \<Rightarrow> string) \<Rightarrow> host \<Rightarrow> string \<Rightarrow> gv \<Rightarrow> string \<times> string" where
  "config_save ft h path c =
     (if path = [] then config_path h else path, json_text ft 0 (encode client_type c) @ [CHR 0x0A])"

definition config_exists :: "host \<Rightarrow> string \<Rightarrow> bool" where
  "config_exists h p \<longleftrightarrow> ho_file h p \<noteq> No_File"

definition active_path :: "host \<Rightarrow> string" where
  "active_path h =
     (let p = config_path h; y = yaml_sibling p in
      if config_exists h p then p else if config_exists h y then y else p)"

text \<open>\<open>Init\<close>: the path reported, and what is written where no file exists; the annotated template is an argument.\<close>

definition config_init :: "string \<Rightarrow> host \<Rightarrow> string \<times> (string \<times> string) option" where
  "config_init template h =
     (let p = config_path h; y = yaml_sibling p in
      if config_exists h p then (p, None)
      else if config_exists h y then (y, None)
      else (y, Some (y, template)))"

section \<open>Dotted keys\<close>

definition coerce :: "string \<Rightarrow> json" where
  "coerce v =
     (if to_lower v = ''true'' then J_Bool True
      else if to_lower v = ''false'' then J_Bool False
      else case atoi v of Some i \<Rightarrow> J_Int i | None \<Rightarrow> J_Str (utf8_fix v))"

definition to_map :: "gv \<Rightarrow> (string, json) gomap" where
  "to_map c = (case through_map (encode client_type c) of J_Obj m \<Rightarrow> m | _ \<Rightarrow> [])"

definition config_set :: "gv \<Rightarrow> string \<Rightarrow> string \<Rightarrow> gv \<times> config_error option" where
  "config_set c path v =
     fill client_type c (sort_deep (J_Obj (assign_path (split_byte CHR ''.'' (to_lower path)) (coerce v) (to_map c))))"

fun unset_path :: "string list \<Rightarrow> (string, json) gomap \<Rightarrow> (string, json) gomap option" where
  "unset_path [] m = Some m"
| "unset_path [p] m = Some (mdel p m)"
| "unset_path (p # ps) m =
     (case mget m p of
        Some (J_Obj n) \<Rightarrow> map_option (\<lambda>n'. mput p (J_Obj n') m) (unset_path ps n)
      | _ \<Rightarrow> None)"

definition config_unset :: "gv \<Rightarrow> string \<Rightarrow> (gv \<times> config_error option) option" where
  "config_unset c path =
     (case unset_path (split_byte CHR ''.'' (to_lower path)) (to_map c) of
        None \<Rightarrow> None
      | Some m \<Rightarrow> Some (fill client_type client_default (sort_deep (J_Obj m))))"

section \<open>Accessors\<close>

definition chunk_size_bytes :: "gv \<Rightarrow> int" where
  "chunk_size_bytes c =
     (case parse_bytes (str_at [''download'', ''chunk_size''] c) of
        Some v \<Rightarrow> if v < 1 then 16 * 2 ^ 20 else v
      | None \<Rightarrow> 16 * 2 ^ 20)"

definition concurrency :: "gv \<Rightarrow> int" where
  "concurrency c =
     (let n = int_at [''download'', ''concurrency''] c in if n < 1 then 8 else if 64 < n then 64 else n)"

definition duration_or :: "duration \<Rightarrow> string \<Rightarrow> duration" where
  "duration_or d s = (case parse_duration s of Some v \<Rightarrow> if v \<le> 0 then d else v | None \<Rightarrow> d)"

definition refresh_before_dur :: "gv \<Rightarrow> duration" where
  "refresh_before_dur c = duration_or (120 * second) (str_at [''download'', ''refresh_before''] c)"

definition task_poll_wait_dur :: "gv \<Rightarrow> duration" where
  "task_poll_wait_dur c = duration_or second (str_at [''download'', ''task_poll_wait''] c)"

definition task_timeout_dur :: "gv \<Rightarrow> duration" where
  "task_timeout_dur c = duration_or (10 * minute) (str_at [''download'', ''task_timeout''] c)"

definition proxy_idle_timeout :: "gv \<Rightarrow> duration" where
  "proxy_idle_timeout c = duration_or (5 * minute) (str_at [''proxy'', ''idle_timeout''] c)"

definition token_file_path :: "host \<Rightarrow> gv \<Rightarrow> string" where
  "token_file_path h c =
     (let f = str_at [''token_file''] c in
      if f = [] then path_join [config_dir h, ''token.json'']
      else if has_prefix f ''/'' then f
      else if has_prefix f ''~/'' then
        path_join [(case ho_home h of None \<Rightarrow> [] | Some d \<Rightarrow> d), trim_prefix f ''~/'']
      else f)"

definition effective_server :: "host \<Rightarrow> string \<Rightarrow> gv \<Rightarrow> string" where
  "effective_server h flag c =
     (if flag \<noteq> [] then trim_right_set flag ''/''
      else if ho_env h ''DLDW_SERVER'' \<noteq> [] then trim_right_set (ho_env h ''DLDW_SERVER'') ''/''
      else trim_right_set (str_at [''server''] c) ''/'')"

subsection \<open>Credentials\<close>

definition credentials :: fields where
  "credentials = [text_field ''client_id'', text_field ''token'', (''server'', True, T_Base B_Str)]"

definition load_credentials :: "host \<Rightarrow> string \<Rightarrow> gv option" where
  "load_credentials h path =
     (if path = [] then None
      else case ho_file h path of
        File data \<Rightarrow>
          (case json_unmarshal (T_Struct credentials) data (zero_value (T_Struct credentials)) of
             (c, None) \<Rightarrow> Some c
           | (c, Some _) \<Rightarrow> None)
      | _ \<Rightarrow> None)"

text \<open>\<open>SaveCredentials\<close> writes a temporary file and renames it; the pairs of path and text, in order.\<close>

definition save_credentials :: "(rat \<Rightarrow> string) \<Rightarrow> string \<Rightarrow> gv \<Rightarrow> (string \<times> string) \<times> string" where
  "save_credentials ft path c = ((path @ ''.tmp'', json_text ft 0 (encode (T_Struct credentials) c)), path)"

section \<open>Properties\<close>

definition client_typed :: "gv \<Rightarrow> bool" where
  "client_typed c \<longleftrightarrow> typed client_type c"

lemma fill_typed: "client_typed c \<Longrightarrow> client_typed (fst (fill client_type c j))"
  using decode_typed(1) [OF _ client_type_ok(1)] by (simp add: client_typed_def fill_def case_prod_beta)

lemma default_typed: "client_typed client_default"
  using client_type_ok(3) by (simp add: client_typed_def)

lemma unmarshal_typed:
  "client_typed c \<Longrightarrow> client_typed (fst (yaml_unmarshal client_type data c))"
  "client_typed c \<Longrightarrow> client_typed (fst (json_unmarshal client_type data c))"
  using fill_typed by (auto simp: yaml_unmarshal_def json_unmarshal_def split: option.split sum.split)



lemma plain_encode_scalar: "ascii_scalar x \<Longrightarrow> plain_json (encode_scalar x)"
  by (cases x) (simp_all add: utf8_fix_ascii)

fun ty_names :: "ty \<Rightarrow> bool" where
  "ty_names (T_Struct fs) \<longleftrightarrow> list_all (\<lambda>(n, _, t). ascii n \<and> ty_names t) fs"
| "ty_names _ = True"

fun ty_depth :: "ty \<Rightarrow> nat" where
  "ty_depth (T_Struct fs) = Suc (foldr (\<lambda>(_, _, t) m. max (ty_depth t) m) fs 0)"
| "ty_depth (T_List b) = 1"
| "ty_depth _ = 0"

lemma ty_depth_field: "(n, om, t) \<in> set fs \<Longrightarrow> ty_depth t \<le> foldr (\<lambda>(_, _, t) m. max (ty_depth t) m) fs 0"
  by (induction fs) auto

lemma depth_members_le: "(\<And>k v. (k, v) \<in> set ms \<Longrightarrow> json_depth v \<le> d) \<Longrightarrow> foldr (\<lambda>(k, v) m. max (json_depth v) m) ms 0 \<le> d"
  by (induction ms) force+

lemma depth_scalar [simp]: "json_depth (encode_scalar x) = 0"
  by (cases x) simp_all

lemma depth_scalars: "foldr (\<lambda>j. max (json_depth j)) (map encode_scalar xs) 0 = 0"
  by (induction xs) simp_all

lemma plain_encode:
  "typed t v \<Longrightarrow> low_ty t \<Longrightarrow> ty_names t \<Longrightarrow> all_scalars ascii_scalar v \<Longrightarrow>
   plain_json (encode t v) \<and> json_depth (encode t v) \<le> ty_depth t"
proof (induction t arbitrary: v)
  case (T_Base b)
  then show ?case by (cases v) (simp_all add: plain_encode_scalar)
next
  case (T_Ptr b)
  then show ?case by (cases v) (auto simp: plain_encode_scalar split: option.splits)
next
  case (T_List b)
  then show ?case by (cases v) (auto simp: plain_encode_scalar list_all_iff depth_scalars split: option.splits)
next
  case (T_Struct fs)
  obtain vs where v: "v = V_Struct vs" using T_Struct.prems(1) by (cases v) auto
  have d: "distinct (map fst fs)" using T_Struct.prems(2) by simp
  have each: "ascii k \<and> plain_json j \<and> json_depth j \<le> foldr (\<lambda>(_, _, t) m. max (ty_depth t) m) fs 0"
    if kj: "(k, j) \<in> set (written fs vs)" for k j
  proof -
    obtain om t where f: "(k, om, t) \<in> set fs" "j = encode t (get_field vs k)" using kj written_iff by blast
    have s: "(om, t) \<in> Basic_BNFs.snds (k, om, t)" "t \<in> Basic_BNFs.snds (om, t)" by simp_all
    have "typed t (get_field vs k)" using typed_get_field [OF T_Struct.prems(1) [unfolded v] d f(1)] .
    moreover have "low_ty t" "ty_names t" "ascii k" using T_Struct.prems(2,3) f(1) by (auto simp: list_all_iff)
    moreover have "all_scalars ascii_scalar (get_field vs k)" using T_Struct.prems(4) v all_get_field by blast
    ultimately show ?thesis using T_Struct.IH [OF f(1) s] f(2) ty_depth_field [OF f(1)] by (meson le_trans)
  qed
  have "list_all (\<lambda>(k, v). ascii k \<and> plain_json v) (written fs vs)" using each by (auto simp: list_all_iff)
  moreover have "foldr (\<lambda>(k, v) m. max (json_depth v) m) (written fs vs) 0 \<le> foldr (\<lambda>(_, _, t) m. max (ty_depth t) m) fs 0"
    using each by (intro depth_members_le) blast
  ultimately show ?case by (simp add: v written_def [symmetric])
qed

lemma default_covers: "client_typed c \<Longrightarrow> covers client_type client_default c"
proof -
  assume "client_typed c"
  then obtain vs where c: "c = V_Struct vs" and t: "typed (T_Struct client_fields) (V_Struct vs)"
    by (cases c) (auto simp: client_typed_def client_type_def)
  have d: "distinct (map fst client_fields)" by code_simp
  have s: "(''security'', False, T_Struct security_config) \<in> set client_fields" by (simp add: client_fields_def)
  have ts: "typed (T_Struct security_config) (get_field vs ''security'')" by (rule typed_get_field [OF t d s])
  then obtain ws where ws: "get_field vs ''security'' = V_Struct ws" by (cases "get_field vs ''security''") auto
  have "typed (T_Ptr B_Bool) (get_field ws ''block_private'')"
    by (rule typed_get_field [OF ts [unfolded ws]]) (simp_all add: security_config_def)
  then obtain xo where xo: "get_field ws ''block_private'' = V_Ptr xo" by (cases "get_field ws ''block_private''") auto
  have other: "covers (T_Base b) u v" for b u v by simp
  have struct: "list_all (\<lambda>(n, om, t). \<not> om \<and> (\<exists>b. t = T_Base b)) fs \<Longrightarrow> covers (T_Struct fs) u v" for fs u v
    by (cases u; cases v) (auto simp: list_all_iff)
  have "covers (T_Struct proxy_config) u v" "covers (T_Struct download_config) u v" for u v
    by (rule struct; simp add: proxy_config_def download_config_def)+
  moreover have "covers (T_Struct security_config) (get_field (case client_default of V_Struct us \<Rightarrow> us) ''security'') (V_Struct ws)"
    using xo by (cases xo) (simp_all add: security_config_def client_default_def get_field_def)
  ultimately show ?thesis
    using ws by (simp add: client_type_def client_fields_def c client_default_def)
qed


definition sample_host :: host where
  "sample_host = \<lparr>ho_env = (\<lambda>v. if v = ''DLDW_HOME'' then ''/d'' else []), ho_home = Some ''/h'', ho_file = (\<lambda>_. No_File)\<rparr>"


lemma value_put_at:
  "typed t v \<Longrightarrow> low_ty t \<Longrightarrow> leaf_base t p = Some b \<Longrightarrow> value_at p (put_at p w v) = w"
proof (induction t p arbitrary: v rule: leaf_base.induct)
  case (2 fs k)
  obtain vs where v: "v = V_Struct vs" using "2.prems"(1) by (cases v) auto
  have "k \<in> fst ` set fs" using "2.prems"(3) by (auto split: option.splits dest!: map_of_SomeD intro: rev_image_eqI)
  then have "k \<in> fst ` set vs" using typed_structD(1) [OF "2.prems"(1) [unfolded v]] by (metis image_set)
  then show ?case by (simp add: v get_set_field)
next
  case (3 fs k k' ks)
  obtain vs where v: "v = V_Struct vs" using "3.prems"(1) by (cases v) auto
  obtain om t where f: "map_of fs k = Some (om, t)" "leaf_base t (k' # ks) = Some b"
    using "3.prems"(3) by (auto split: option.splits)
  have fin: "(k, om, t) \<in> set fs" using f(1) by (rule map_of_SomeD)
  have "typed t (get_field vs k)" using typed_get_field [OF "3.prems"(1) [unfolded v] _ fin] "3.prems"(2) by simp
  moreover have "low_ty t" using "3.prems"(2) fin by (auto simp: list_all_iff)
  ultimately have "value_at (k' # ks) (put_at (k' # ks) w (get_field vs k)) = w"
    using "3.IH" [OF f(1) _ _ _ f(2)] by simp
  moreover have "k \<in> fst ` set vs"
    using typed_structD(1) [OF "3.prems"(1) [unfolded v]] fin by (metis fst_conv image_eqI image_set)
  ultimately show ?case by (simp add: v get_set_field)
qed auto

text \<open>
  Setting a key. For the key of a text, number or truth value in the configuration, in any letter case,
  \<open>set\<close> changes at most that entry, although the whole configuration passes through JSON and maps twice: the entry
  becomes what its Go type makes of the coerced text, and where that is an error, it is reported and the configuration is
  the old one. So a text that reads as a number is refused for a text entry: a chunk size of plain bytes cannot be set.
\<close>

theorem config_set_leaf:
  assumes "client_typed c" "all_scalars small_scalar c" "leaf_base client_type p = Some b"
    and "split_byte CHR ''.'' (to_lower key) = p" "value_at p c = V_Base x" "decode_scalar b x (coerce v) = (y, e)"
  shows "config_set c key v = (put_at p (V_Base y) c, if e then Some Type_Mismatch else None) \<and>
    value_at p (put_at p (V_Base y) c) = V_Base y \<and> (e \<longrightarrow> y = x) \<and> (b = B_Str \<and> atoi v \<noteq> None \<longrightarrow> e)"
proof (intro conjI impI)
  obtain vs where "c = V_Struct vs" using assms(1) by (cases c) (auto simp: client_typed_def client_type_def)
  then obtain m where m: "through_map (encode client_type c) = J_Obj m" by (simp add: client_type_def)
  have "sort_deep (coerce v) = coerce v" by (simp add: coerce_def split: option.split)
  then have "decode client_type c (sort_deep (J_Obj (assign_path p (coerce v) m))) = (put_at p (V_Base y) c, e)"
    using decode_assign_path [OF assms(1) [unfolded client_typed_def] client_type_ok(2) assms(2,3) m _ assms(5,6)] by blast
  then show "config_set c key v = (put_at p (V_Base y) c, if e then Some Type_Mismatch else None)"
    using assms(4) m by (simp add: config_set_def fill_def to_map_def del: sort_deep.simps)
  show "value_at p (put_at p (V_Base y) c) = V_Base y"
    by (rule value_put_at [OF assms(1) [unfolded client_typed_def] client_type_ok(2) assms(3)])
  show "e \<Longrightarrow> y = x" using assms(6) by (cases b; cases "coerce v") (auto split: if_splits)
  show e if t: "b = B_Str \<and> atoi v \<noteq> None"
  proof -
    have b: "b = B_Str" and a: "atoi v \<noteq> None" using t by simp_all
    obtain i where "atoi v = Some i" using a by blast
    then have "coerce v \<in> {J_Bool True, J_Bool False, J_Int i}" by (simp add: coerce_def)
    then show e using assms(6) unfolding b by (elim insertE emptyE) simp_all
  qed
qed

theorem config_set_leaf_witness:
  "config_set client_default ''Download.Concurrency'' ''16'' =
     (put_at [''download'', ''concurrency''] (V_Base (S_Int 16)) client_default, None) \<and>
   snd (config_set client_default ''download.chunk_size'' ''1048576'') = Some Type_Mismatch"
proof
  have a: "all_scalars small_scalar client_default" by (simp add: client_default_def small_scalar_def ascii_def)
  have n: "coerce ''16'' = J_Int 16" by code_simp
  have "to_lower ''1048576'' = ''1048576''" by code_simp
  then have n': "coerce ''1048576'' = J_Int 1048576"
    by (simp add: coerce_def atoi_def all_digits_def digits_val_def digit_val_def is_digit_def min_int64_def max_int64_def)
  have "leaf_base client_type [''download'', ''concurrency''] = Some B_Int"
    "split_byte CHR ''.'' (to_lower ''Download.Concurrency'') = [''download'', ''concurrency'']"
    "value_at [''download'', ''concurrency''] client_default = V_Base (S_Int 8)"
    by (code_simp, code_simp, simp add: client_default_def get_field_def)
  from config_set_leaf [OF default_typed a this, of "''16''" "S_Int 16" False]
  show "config_set client_default ''Download.Concurrency'' ''16'' =
     (put_at [''download'', ''concurrency''] (V_Base (S_Int 16)) client_default, None)"
    by (simp add: n min_int64_def max_int64_def)
  have "leaf_base client_type [''download'', ''chunk_size''] = Some B_Str"
    "split_byte CHR ''.'' (to_lower ''download.chunk_size'') = [''download'', ''chunk_size'']"
    "value_at [''download'', ''chunk_size''] client_default = V_Base (S_Str ''16MiB'')"
    by (code_simp, code_simp, simp add: client_default_def get_field_def)
  from config_set_leaf [OF default_typed a this, of "''1048576''" "S_Str ''16MiB''" True]
  show "snd (config_set client_default ''download.chunk_size'' ''1048576'') = Some Type_Mismatch"
    by (simp add: n')
qed

text \<open>
  The accessors are sane for every configuration: the chunk size is positive, the concurrency between 1 and 64,
  every duration positive, the server URL has no slash at its end.
\<close>

theorem client_settings_sane:
  "1 \<le> chunk_size_bytes c" "1 \<le> concurrency c \<and> concurrency c \<le> 64"
  "0 < refresh_before_dur c \<and> 0 < task_poll_wait_dur c \<and> 0 < task_timeout_dur c \<and> 0 < proxy_idle_timeout c"
  "effective_server h flag c = [] \<or> last (effective_server h flag c) \<noteq> CHR ''/''"
proof -
  show "1 \<le> chunk_size_bytes c" by (auto simp: chunk_size_bytes_def split: option.split)
  show "1 \<le> concurrency c \<and> concurrency c \<le> 64" by (simp add: concurrency_def Let_def)
  have "0 < d \<Longrightarrow> 0 < duration_or d s" for d s by (auto simp: duration_or_def split: option.split)
  then show "0 < refresh_before_dur c \<and> 0 < task_poll_wait_dur c \<and> 0 < task_timeout_dur c \<and> 0 < proxy_idle_timeout c"
    by (simp add: refresh_before_dur_def task_poll_wait_dur_def task_timeout_dur_def proxy_idle_timeout_def duration_defs)
  have "trim_right_set s ''/'' = [] \<or> last (trim_right_set s ''/'') \<noteq> CHR ''/''" for s
    using last_trim_right_set [of s "''/''"] by auto
  then show "effective_server h flag c = [] \<or> last (effective_server h flag c) \<noteq> CHR ''/''"
    by (simp add: effective_server_def)
qed

end
