(* ===== verification/ServerConfig.thy ===== *)
theory ServerConfig
  imports ClientConfig
begin

text \<open>
  The configuration of the server (\<open>internal/server/app/config.go\<close>): the structs with their JSON names, the defaults for a
  data directory, loading a JSON or YAML file over them, the completion of paths and empty settings by
  \<open>normalize\<close>, and the parsed durations. A configuration is a value of \<open>server_type\<close>; a setting is
  named by its path of JSON names.
\<close>

section \<open>The structs\<close>

definition tls_fields :: fields where
  "tls_fields = [text_field ''cert'', text_field ''key'']"

definition tunnel_fields :: fields where
  "tunnel_fields =
     [bool_field ''enabled'', text_field ''listen'', (''tls'', False, T_Struct tls_fields), text_field ''upstream_proxy'',
      text_field ''mode'', int_field ''max_conns_per_token'', text_field ''max_bytes_per_conn'', text_field ''idle_timeout'']"

definition s3_fields :: fields where
  "s3_fields =
     [text_field ''endpoint'', text_field ''region'', text_field ''bucket'', text_field ''access_key'', text_field ''secret_key'',
      bool_field ''path_style'']"

definition openlist_fields :: fields where
  "openlist_fields =
     [text_field ''base_url'', text_field ''token'', text_field ''username'', text_field ''password'', text_field ''root_path'',
      text_field ''dir_password'']"

definition storage_fields :: fields where
  "storage_fields =
     [text_field ''driver'', text_field ''root'', text_field ''secret'', (''s3'', False, T_Struct s3_fields),
      (''openlist'', False, T_Struct openlist_fields)]"

definition aria2_fields :: fields where
  "aria2_fields = [text_field ''rpc_url'', text_field ''secret'']"

definition executor_fields :: fields where
  "executor_fields =
     [text_field ''driver'', text_field ''max_bytes'', (''ports'', False, T_List B_Int), text_field ''upstream_proxy'',
      bool_field ''allow_loopback'', (''aria2'', False, T_Struct aria2_fields)]"

definition auth_fields :: fields where
  "auth_fields =
     [text_field ''tokens_file'', text_field ''token_ttl'', bool_field ''allow_registration'', bool_field ''mirror_auth'']"

definition hf_fields :: fields where
  "hf_fields = [bool_field ''enabled'', text_field ''origin'']"

definition proxy_core_fields :: fields where
  "proxy_core_fields =
     [bool_field ''enabled'', text_field ''core'', text_field ''binary'', text_field ''share_link'', text_field ''listen'',
      int_field ''port'', text_field ''config_dir'', text_field ''log_level'']"

definition pypi_fields :: fields where
  "pypi_fields =
     [bool_field ''enabled'', text_field ''index_origin'', (''index_origins'', False, T_List B_Str), text_field ''files_origin'',
      (''files_origins'', False, T_List B_Str), text_field ''index_ttl'']"

definition npm_fields :: fields where
  "npm_fields =
     [bool_field ''enabled'', text_field ''registry_origin'', (''registry_origins'', False, T_List B_Str), text_field ''index_ttl'']"

definition web_mirror_fields :: fields where
  "web_mirror_fields = [bool_field ''enabled'', (''allowed_hosts'', False, T_List B_Str)]"

definition gomod_fields :: fields where
  "gomod_fields = [bool_field ''enabled'', text_field ''origin'', (''origins'', False, T_List B_Str)]"

definition registry_fields :: fields where
  "registry_fields =
     [bool_field ''enabled'', text_field ''username'', text_field ''password'', text_field ''origin'', text_field ''auth_url'',
      text_field ''manifest_ttl'']"

definition server_fields :: fields where
  "server_fields =
     [text_field ''listen'', text_field ''public_base'', (''tls'', False, T_Struct tls_fields),
      (''tunnel'', False, T_Struct tunnel_fields), (''proxy'', False, T_Struct proxy_core_fields),
      (''storage'', False, T_Struct storage_fields), (''executor'', False, T_Struct executor_fields),
      (''auth'', False, T_Struct auth_fields), (''pypi'', False, T_Struct pypi_fields), (''npm'', False, T_Struct npm_fields),
      (''mirror'', False, T_Struct web_mirror_fields), (''gomod'', False, T_Struct gomod_fields),
      (''huggingface'', False, T_Struct hf_fields), (''registry'', False, T_Struct registry_fields),
      text_field ''whitelist_file'', text_field ''tasks_file'', text_field ''tmp_dir'', text_field ''audit_log'',
      text_field ''data_dir'', text_field ''presign_ttl'', (''block_private'', False, T_Ptr B_Bool)]"

definition server_type :: ty where
  "server_type = T_Struct server_fields"

lemmas server_structs = server_type_def server_fields_def tls_fields_def tunnel_fields_def s3_fields_def openlist_fields_def
  storage_fields_def aria2_fields_def executor_fields_def auth_fields_def hf_fields_def proxy_core_fields_def pypi_fields_def
  npm_fields_def web_mirror_fields_def gomod_fields_def registry_fields_def

section \<open>Defaults\<close>

definition dev_secret :: string where
  "dev_secret = ''dldw-dev-secret-change-me-32bytes''"

text \<open>A composite literal: the zero value with the fields that are given.\<close>

definition set_str :: "string list \<Rightarrow> string \<Rightarrow> gv \<Rightarrow> gv" where
  "set_str p s c = put_at p (str_value s) c"

definition server_default :: "string \<Rightarrow> gv" where
  "server_default d =
     fold (\<lambda>(p, v) c. put_at p v c)
       [([''listen''], str_value ''127.0.0.1:8080''),
        ([''tunnel'', ''enabled''], V_Base (S_Bool True)),
        ([''tunnel'', ''listen''], str_value ''127.0.0.1:8081''),
        ([''tunnel'', ''max_conns_per_token''], V_Base (S_Int 16)),
        ([''tunnel'', ''max_bytes_per_conn''], str_value ''256MiB''),
        ([''tunnel'', ''idle_timeout''], str_value ''300s''),
        ([''storage'', ''driver''], str_value ''localfs''),
        ([''storage'', ''root''], str_value (path_join [d, ''objects''])),
        ([''storage'', ''secret''], str_value dev_secret),
        ([''executor'', ''driver''], str_value ''builtin''),
        ([''executor'', ''max_bytes''], str_value ''8GiB''),
        ([''executor'', ''ports''], V_List (Some [S_Int 80, S_Int 443])),
        ([''auth'', ''tokens_file''], str_value (path_join [d, ''tokens.json''])),
        ([''auth'', ''token_ttl''], str_value ''720h''),
        ([''auth'', ''allow_registration''], V_Base (S_Bool True)),
        ([''whitelist_file''], str_value (path_join [d, ''whitelist.txt''])),
        ([''tasks_file''], str_value (path_join [d, ''tasks.json''])),
        ([''tmp_dir''], str_value (path_join [d, ''tmp''])),
        ([''data_dir''], str_value d),
        ([''presign_ttl''], str_value ''15m'')]
       (zero_value server_type)"

section \<open>Completion\<close>

text \<open>The local function \<open>rel\<close>, and a setting that is filled when it is empty.\<close>

definition rel_path :: "string \<Rightarrow> string \<Rightarrow> string \<Rightarrow> string" where
  "rel_path dir p def = (if p = [] then def else if has_prefix p ''/'' then p else path_join [dir, p])"

definition fill_str :: "string list \<Rightarrow> string \<Rightarrow> gv \<Rightarrow> gv" where
  "fill_str p s c = (if str_at p c = [] then set_str p s c else c)"

definition rel_field :: "string list \<Rightarrow> string \<Rightarrow> gv \<Rightarrow> gv" where
  "rel_field p name c =
     (let dir = str_at [''data_dir''] c in set_str p (rel_path dir (str_at p c) (path_join [dir, name])) c)"

definition normalize_proxy :: "gv \<Rightarrow> gv" where
  "normalize_proxy c =
     (if bool_at [''proxy'', ''enabled''] c then
        (let c = fill_str [''proxy'', ''core''] ''sing-box'' c;
             c = fill_str [''proxy'', ''listen''] ''127.0.0.1'' c;
             c = (if int_at [''proxy'', ''port''] c = 0 then put_at [''proxy'', ''port''] (V_Base (S_Int 1080)) c else c)
         in rel_field [''proxy'', ''config_dir''] ''proxycore'' c)
      else c)"

definition normalize_tunnel :: "gv \<Rightarrow> gv" where
  "normalize_tunnel c =
     (if bool_at [''tunnel'', ''enabled''] c then fill_str [''tunnel'', ''listen''] ''127.0.0.1:8081'' c else c)"

definition normalize_ports :: "gv \<Rightarrow> gv" where
  "normalize_ports c =
     (if int_list_at [''executor'', ''ports''] c = []
      then put_at [''executor'', ''ports''] (V_List (Some [S_Int 80, S_Int 443])) c else c)"

definition normalize_paths :: "gv \<Rightarrow> gv" where
  "normalize_paths c =
     (let c = rel_field [''storage'', ''root''] ''objects'' c;
          c = fill_str [''storage'', ''secret''] dev_secret c;
          c = rel_field [''auth'', ''tokens_file''] ''tokens.json'' c;
          c = rel_field [''whitelist_file''] ''whitelist.txt'' c;
          c = rel_field [''tasks_file''] ''tasks.json'' c
      in rel_field [''tmp_dir''] ''tmp'' c)"

definition normalize_rest :: "gv \<Rightarrow> gv" where
  "normalize_rest c =
     (let c = fill_str [''listen''] ''127.0.0.1:8080'' c;
          c = normalize_tunnel c;
          c = fill_str [''auth'', ''token_ttl''] ''720h'' c;
          c = fill_str [''presign_ttl''] ''15m'' c;
          c = fill_str [''executor'', ''driver''] ''builtin'' c
      in normalize_ports c)"

definition normalize_config :: "string \<Rightarrow> gv \<Rightarrow> gv" where
  "normalize_config base c = normalize_proxy (normalize_rest (normalize_paths (fill_str [''data_dir''] base c)))"

section \<open>Loading\<close>

definition load_config :: "(string \<Rightarrow> file_read) \<Rightarrow> string \<Rightarrow> gv \<times> config_error option" where
  "load_config rd path =
     (let c = server_default (path_dir path) in
      if path = [] then (c, None)
      else case rd path of
        No_File \<Rightarrow> (c, Some Not_Readable)
      | Read_Error \<Rightarrow> (c, Some Not_Readable)
      | File data \<Rightarrow>
          (let (c', e) = (if equal_fold (path_ext path) ''.yaml'' \<or> equal_fold (path_ext path) ''.yml''
                          then yaml_unmarshal server_type data c else json_unmarshal server_type data c)
           in case e of Some _ \<Rightarrow> (c', e) | None \<Rightarrow> (normalize_config (path_dir path) c', None)))"

definition token_ttl :: "gv \<Rightarrow> duration" where
  "token_ttl c = (case parse_duration (str_at [''auth'', ''token_ttl''] c) of None \<Rightarrow> 720 * hour | Some d \<Rightarrow> d)"

definition presign_ttl_duration :: "gv \<Rightarrow> duration" where
  "presign_ttl_duration c = (case parse_duration (str_at [''presign_ttl''] c) of None \<Rightarrow> 15 * minute | Some d \<Rightarrow> d)"

section \<open>Settings one by one\<close>

definition server_typed :: "gv \<Rightarrow> bool" where
  "server_typed c \<longleftrightarrow> typed server_type c"

definition setting :: "string list \<Rightarrow> ty \<Rightarrow> bool" where
  "setting p t \<longleftrightarrow> leaf_type server_type p = Some t"

lemma server_type_ok: "wf_ty server_type" "low_ty server_type"
  by code_simp+

lemma settings [simp]:
  "setting [''listen''] (T_Base B_Str)" "setting [''data_dir''] (T_Base B_Str)" "setting [''presign_ttl''] (T_Base B_Str)"
  "setting [''whitelist_file''] (T_Base B_Str)" "setting [''tasks_file''] (T_Base B_Str)" "setting [''tmp_dir''] (T_Base B_Str)"
  "setting [''storage'', ''root''] (T_Base B_Str)" "setting [''storage'', ''secret''] (T_Base B_Str)"
  "setting [''storage'', ''driver''] (T_Base B_Str)"
  "setting [''auth'', ''tokens_file''] (T_Base B_Str)" "setting [''auth'', ''token_ttl''] (T_Base B_Str)"
  "setting [''auth'', ''allow_registration''] (T_Base B_Bool)"
  "setting [''tunnel'', ''listen''] (T_Base B_Str)" "setting [''tunnel'', ''enabled''] (T_Base B_Bool)"
  "setting [''tunnel'', ''max_conns_per_token''] (T_Base B_Int)" "setting [''tunnel'', ''max_bytes_per_conn''] (T_Base B_Str)"
  "setting [''tunnel'', ''idle_timeout''] (T_Base B_Str)"
  "setting [''executor'', ''driver''] (T_Base B_Str)" "setting [''executor'', ''ports''] (T_List B_Int)"
  "setting [''executor'', ''max_bytes''] (T_Base B_Str)"
  "setting [''proxy'', ''enabled''] (T_Base B_Bool)" "setting [''proxy'', ''core''] (T_Base B_Str)"
  "setting [''proxy'', ''listen''] (T_Base B_Str)" "setting [''proxy'', ''port''] (T_Base B_Int)"
  "setting [''proxy'', ''config_dir''] (T_Base B_Str)"
  by (code_simp)+

lemma value_put_setting:
  assumes "server_typed c" "setting p a" "setting q b"
  shows "value_at p (put_at q w c) = (if p = q then w else value_at p c)"
  using value_put_leaf [OF assms(1) [unfolded server_typed_def] server_type_ok(2) assms(2,3) [unfolded setting_def]] .

lemma put_setting_typed:
  "server_typed c \<Longrightarrow> setting p t \<Longrightarrow> typed t w \<Longrightarrow> server_typed (put_at p w c)"
  unfolding server_typed_def setting_def by (rule put_at_typed [OF _ server_type_ok(2)])

lemma str_at_put:
  assumes "server_typed c" "setting p a" "setting q b"
  shows "str_at p (put_at q (str_value s) c) = (if p = q then s else str_at p c)"
    and "p \<noteq> q \<Longrightarrow> str_at p (put_at q w c) = str_at p c"
  using value_put_setting [OF assms] by (simp_all add: str_at_def)

abbreviation text_setting :: "string list \<Rightarrow> bool" where
  "text_setting p \<equiv> setting p (T_Base B_Str)"

lemma set_str_rules:
  assumes "server_typed c" "text_setting q"
  shows "server_typed (set_str q s c)"
    and "text_setting p \<Longrightarrow> str_at p (set_str q s c) = (if p = q then s else str_at p c)"
  using str_at_put(1) [OF assms(1) _ assms(2)] put_setting_typed [OF assms] by (simp_all add: set_str_def)

lemma fill_str_rules:
  assumes "server_typed c" "text_setting q"
  shows "server_typed (fill_str q s c)"
    and "text_setting p \<Longrightarrow> str_at p (fill_str q s c) = (if p = q \<and> str_at q c = [] then s else str_at p c)"
  using set_str_rules [OF assms] assms(1) by (auto simp: fill_str_def)

lemma rel_field_rules:
  assumes "server_typed c" "text_setting q"
  shows "server_typed (rel_field q n c)"
    and "text_setting p \<Longrightarrow> str_at p (rel_field q n c) =
      (if p = q then rel_path (str_at [''data_dir''] c) (str_at q c) (path_join [str_at [''data_dir''] c, n]) else str_at p c)"
  using set_str_rules [OF assms] by (simp_all add: rel_field_def Let_def)

lemma put_ports_rules:
  assumes "server_typed c"
  shows "server_typed (normalize_ports c)" and "text_setting p \<Longrightarrow> str_at p (normalize_ports c) = str_at p c"
proof -
  have "typed (T_List B_Int) (V_List (Some [S_Int 80, S_Int 443]))" by (simp add: min_int64_def max_int64_def)
  then show "server_typed (normalize_ports c)"
    using put_setting_typed [OF assms, of "[''executor'', ''ports'']" "T_List B_Int"] assms by (simp add: normalize_ports_def)
  assume p: "text_setting p"
  then have "p \<noteq> [''executor'', ''ports'']" by (auto simp: setting_def server_structs)
  then show "str_at p (normalize_ports c) = str_at p c"
    using str_at_put(2) [OF assms p, of "[''executor'', ''ports'']" "T_List B_Int"] by (simp add: normalize_ports_def)
qed

lemma normalize_tunnel_rules:
  assumes "server_typed c"
  shows "server_typed (normalize_tunnel c)"
    and "text_setting p \<Longrightarrow> p \<noteq> [''tunnel'', ''listen''] \<Longrightarrow> str_at p (normalize_tunnel c) = str_at p c"
  using fill_str_rules [OF assms, of "[''tunnel'', ''listen'']"] assms by (auto simp: normalize_tunnel_def)

lemma normalize_proxy_rules:
  assumes "server_typed c"
  shows "server_typed (normalize_proxy c)"
    and "text_setting p \<Longrightarrow> hd p \<noteq> ''proxy'' \<Longrightarrow> str_at p (normalize_proxy c) = str_at p c"
proof -
  define d where "d = fill_str [''proxy'', ''listen''] ''127.0.0.1'' (fill_str [''proxy'', ''core''] ''sing-box'' c)"
  define e where "e = (if int_at [''proxy'', ''port''] d = 0 then put_at [''proxy'', ''port''] (V_Base (S_Int 1080)) d else d)"
  have d: "server_typed d" using assms by (simp add: d_def fill_str_rules(1))
  have "typed (T_Base B_Int) (V_Base (S_Int 1080))" by (simp add: min_int64_def max_int64_def)
  then have e: "server_typed e"
    using d put_setting_typed [OF d, of "[''proxy'', ''port'']" "T_Base B_Int"] by (simp add: e_def)
  have n: "normalize_proxy c =
      (if bool_at [''proxy'', ''enabled''] c then rel_field [''proxy'', ''config_dir''] ''proxycore'' e else c)"
    by (simp add: normalize_proxy_def d_def e_def Let_def)
  show "server_typed (normalize_proxy c)" using e assms by (simp add: n rel_field_rules(1))
  assume p: "text_setting p" "hd p \<noteq> ''proxy''"
  have ne: "p \<noteq> [''proxy'', k]" for k using p(2) by auto
  have "str_at p e = str_at p d" using str_at_put(2) [OF d p(1), of "[''proxy'', ''port'']" "T_Base B_Int"] ne by (simp add: e_def)
  also have "\<dots> = str_at p c"
    using p(1) ne assms fill_str_rules(1) [OF assms] by (simp add: d_def fill_str_rules(2))
  finally show "str_at p (normalize_proxy c) = str_at p c"
    using rel_field_rules(2) [OF e _ p(1), of "[''proxy'', ''config_dir'']"] ne by (simp add: n)
qed

lemmas normalize_rules = set_str_rules fill_str_rules rel_field_rules put_ports_rules normalize_tunnel_rules normalize_proxy_rules

definition path_settings :: "(string list \<times> string) list" where
  "path_settings =
     [([''storage'', ''root''], ''objects''), ([''auth'', ''tokens_file''], ''tokens.json''), ([''whitelist_file''], ''whitelist.txt''),
      ([''tasks_file''], ''tasks.json''), ([''tmp_dir''], ''tmp'')]"

lemma normalize_paths_rules:
  assumes "server_typed c"
  shows "server_typed (normalize_paths c)"
    and "text_setting p \<Longrightarrow> str_at p (normalize_paths c) =
      (case map_of path_settings p of
         Some n \<Rightarrow> rel_path (str_at [''data_dir''] c) (str_at p c) (path_join [str_at [''data_dir''] c, n])
       | None \<Rightarrow> if p = [''storage'', ''secret''] \<and> str_at p c = [] then dev_secret else str_at p c)"
proof -
  show "server_typed (normalize_paths c)" using assms by (simp add: normalize_paths_def Let_def normalize_rules)
  assume p: "text_setting p"
  show "str_at p (normalize_paths c) =
      (case map_of path_settings p of
         Some n \<Rightarrow> rel_path (str_at [''data_dir''] c) (str_at p c) (path_join [str_at [''data_dir''] c, n])
       | None \<Rightarrow> if p = [''storage'', ''secret''] \<and> str_at p c = [] then dev_secret else str_at p c)"
    using assms p by (cases "p = [''storage'', ''secret'']") (simp_all add: normalize_paths_def Let_def normalize_rules path_settings_def)
qed

definition text_defaults :: "(string list \<times> string) list" where
  "text_defaults =
     [([''listen''], ''127.0.0.1:8080''), ([''auth'', ''token_ttl''], ''720h''), ([''presign_ttl''], ''15m''),
      ([''executor'', ''driver''], ''builtin'')]"

lemma normalize_rest_rules:
  assumes "server_typed c"
  shows "server_typed (normalize_rest c)"
    and "text_setting p \<Longrightarrow> p \<noteq> [''tunnel'', ''listen''] \<Longrightarrow> str_at p (normalize_rest c) =
      (case map_of text_defaults p of Some d \<Rightarrow> if str_at p c = [] then d else str_at p c | None \<Rightarrow> str_at p c)"
proof -
  show "server_typed (normalize_rest c)" using assms by (simp add: normalize_rest_def Let_def normalize_rules)
  assume p: "text_setting p" "p \<noteq> [''tunnel'', ''listen'']"
  show "str_at p (normalize_rest c) =
      (case map_of text_defaults p of Some d \<Rightarrow> if str_at p c = [] then d else str_at p c | None \<Rightarrow> str_at p c)"
    using assms p by (simp add: normalize_rest_def Let_def normalize_rules text_defaults_def)
qed

lemma normalize_config_rules:
  assumes "server_typed c"
  shows "server_typed (normalize_config base c)"
    and "text_setting p \<Longrightarrow> p \<noteq> [''tunnel'', ''listen''] \<Longrightarrow> hd p \<noteq> ''proxy'' \<Longrightarrow> str_at p (normalize_config base c) =
      str_at p (normalize_rest (normalize_paths (fill_str [''data_dir''] base c)))"
  using assms by (simp_all add: normalize_config_def normalize_rules normalize_paths_rules(1) normalize_rest_rules(1))

lemma normalize_str:
  assumes "server_typed c"
  shows "str_at [''data_dir''] (normalize_config base c) = (if str_at [''data_dir''] c = [] then base else str_at [''data_dir''] c)"
    and "map_of path_settings p = Some n \<Longrightarrow> str_at p (normalize_config base c) =
      rel_path (str_at [''data_dir''] (normalize_config base c)) (str_at p c)
        (path_join [str_at [''data_dir''] (normalize_config base c), n])"
    and "map_of text_defaults p = Some d \<Longrightarrow>
      str_at p (normalize_config base c) = (if str_at p c = [] then d else str_at p c)"
proof -
  note rules = normalize_config_rules(2) normalize_rest_rules(2) normalize_paths_rules fill_str_rules
  show d: "str_at [''data_dir''] (normalize_config base c) = (if str_at [''data_dir''] c = [] then base else str_at [''data_dir''] c)"
    using assms by (simp add: rules path_settings_def text_defaults_def)
  show "str_at p (normalize_config base c) =
      rel_path (str_at [''data_dir''] (normalize_config base c)) (str_at p c)
        (path_join [str_at [''data_dir''] (normalize_config base c), n])" if n: "map_of path_settings p = Some n"
  proof -
    have p: "text_setting p" "p \<noteq> [''tunnel'', ''listen'']" "hd p \<noteq> ''proxy''" "map_of text_defaults p = None" "p \<noteq> [''data_dir'']"
      using n by (auto simp: path_settings_def text_defaults_def split: if_splits)
    then show ?thesis using assms n d by (simp add: rules)
  qed
  show "str_at p (normalize_config base c) = (if str_at p c = [] then d else str_at p c)" if n: "map_of text_defaults p = Some d"
  proof -
    have p: "text_setting p" "p \<noteq> [''tunnel'', ''listen'']" "hd p \<noteq> ''proxy''" "map_of path_settings p = None" "p \<noteq> [''data_dir'']"
      "p \<noteq> [''storage'', ''secret'']"
      using n by (auto simp: path_settings_def text_defaults_def split: if_splits)
    then show ?thesis using assms n by (simp add: rules)
  qed
qed

section \<open>Loading\<close>

lemma server_default_typed: "server_typed (server_default d)"
proof -
  have "server_typed (zero_value server_type)"
    unfolding server_typed_def server_structs by (simp add: min_int64_def max_int64_def)
  moreover have
    "server_typed c \<Longrightarrow> text_setting p \<Longrightarrow> server_typed (put_at p (str_value s) c)"
    "server_typed c \<Longrightarrow> setting p (T_Base B_Bool) \<Longrightarrow> server_typed (put_at p (V_Base (S_Bool b)) c)"
    "server_typed c \<Longrightarrow> setting p (T_Base B_Int) \<Longrightarrow> scalar_typed B_Int (S_Int i) \<Longrightarrow> server_typed (put_at p (V_Base (S_Int i)) c)"
    "server_typed c \<Longrightarrow> setting p (T_List B_Int) \<Longrightarrow> list_all (scalar_typed B_Int) is \<Longrightarrow>
      server_typed (put_at p (V_List (Some is)) c)" for c p s b i "is"
    using put_setting_typed [of c p "T_Base B_Str"] put_setting_typed [of c p "T_Base B_Bool"]
      put_setting_typed [of c p "T_Base B_Int"] put_setting_typed [of c p "T_List B_Int"] by simp_all
  ultimately show ?thesis
    unfolding server_default_def by (simp add: min_int64_def max_int64_def)
qed

lemma server_unmarshal_typed:
  "server_typed c \<Longrightarrow> server_typed (fst (yaml_unmarshal server_type data c))"
  "server_typed c \<Longrightarrow> server_typed (fst (json_unmarshal server_type data c))"
proof -
  have f: "server_typed c \<Longrightarrow> server_typed (fst (fill server_type c j))" for j c
    using decode_typed(1) [OF _ server_type_ok(1)] by (simp add: server_typed_def fill_def case_prod_beta)
  show "server_typed c \<Longrightarrow> server_typed (fst (yaml_unmarshal server_type data c))"
    "server_typed c \<Longrightarrow> server_typed (fst (json_unmarshal server_type data c))"
    using f by (auto simp: yaml_unmarshal_def json_unmarshal_def split: option.split sum.split)
qed

lemma path_join_nonempty: "d \<noteq> [] \<Longrightarrow> path_join [d, n] \<noteq> []"
  by (simp add: path_join_def path_clean_def Let_def)

lemma path_dir_nonempty: "path_dir p \<noteq> []"
  by (simp add: path_dir_def path_clean_def Let_def)

lemma path_clean_rooted: "has_prefix p ''/'' \<Longrightarrow> has_prefix (path_clean p) ''/''"
  by (simp add: path_clean_def Let_def)

lemma path_join_rooted: "has_prefix d ''/'' \<Longrightarrow> has_prefix (path_join [d, n]) ''/''"
proof -
  assume d: "has_prefix d ''/''"
  then have "has_prefix (d @ ''/'' @ n) ''/''" by (cases d) simp_all
  then show ?thesis using path_clean_rooted d by (cases d) (auto simp: path_join_def)
qed

lemma rel_path_rooted:
  "has_prefix d ''/'' \<Longrightarrow> has_prefix def ''/'' \<Longrightarrow> has_prefix (rel_path d p def) ''/''"
  by (simp add: rel_path_def path_join_rooted)

lemma loaded_normal:
  assumes "load_config rd path = (c, None)" "path \<noteq> []"
  shows "\<exists>c'. server_typed c' \<and> c = normalize_config (path_dir path) c'"
proof -
  define c0 where "c0 = server_default (path_dir path)"
  have t: "server_typed (fst (yaml_unmarshal server_type data c0))" "server_typed (fst (json_unmarshal server_type data c0))" for data
    unfolding c0_def by (rule server_unmarshal_typed [OF server_default_typed])+
  obtain data where "rd path = File data"
    using assms by (auto simp: load_config_def Let_def split: file_read.splits)
  then show ?thesis
    using assms t [of data] by (auto simp: load_config_def Let_def case_prod_beta c0_def [symmetric] split: option.splits if_splits)
qed

text \<open>
  C28. A loaded configuration is complete. When \<open>LoadConfig\<close> succeeds on a file, every setting has a value of its Go
  type; the five paths are set, and absolute when the data directory is; and listening address, lifetimes and executor driver
  are never empty.
\<close>

theorem loaded_config_complete:
  assumes "load_config rd path = (c, None)" "path \<noteq> []"
  shows "server_typed c \<and> str_at [''data_dir''] c \<noteq> [] \<and>
    (map_of path_settings p = Some n \<longrightarrow>
      str_at p c \<noteq> [] \<and> (has_prefix (str_at [''data_dir''] c) ''/'' \<longrightarrow> has_prefix (str_at p c) ''/'')) \<and>
    (map_of text_defaults q = Some d \<longrightarrow> str_at q c \<noteq> [])"
proof (intro conjI impI)
  obtain c' where c': "server_typed c'" "c = normalize_config (path_dir path) c'" using loaded_normal [OF assms] by blast
  show "server_typed c" using normalize_config_rules(1) [OF c'(1)] c'(2) by simp
  note s = normalize_str(2) [OF c'(1), of p n "path_dir path", folded c'(2)]
  show dd: "str_at [''data_dir''] c \<noteq> []"
    using normalize_str(1) [OF c'(1), of "path_dir path", folded c'(2)] path_dir_nonempty [of path] by auto
  show "str_at p c \<noteq> []" if "map_of path_settings p = Some n"
    using s that path_join_nonempty [OF dd] path_join_nonempty by (simp add: rel_path_def)
  show "has_prefix (str_at p c) ''/''"
    if "map_of path_settings p = Some n" "has_prefix (str_at [''data_dir''] c) ''/''"
    using s that path_join_rooted [OF that(2)] by (simp add: rel_path_rooted)
  show "str_at q c \<noteq> []" if "map_of text_defaults q = Some d"
    using normalize_str(3) [OF c'(1) that, of "path_dir path", folded c'(2)] that
    by (auto simp: text_defaults_def split: if_splits)
qed

definition sample_server_file :: string where
  "sample_server_file = ''{\"data_dir\":\"/srv\"}''"

lemma server_default_paths:
  "map_of path_settings p = Some n \<Longrightarrow> str_at p (server_default d) = path_join [d, n]"
proof -
  assume "map_of path_settings p = Some n"
  then have "(p, n) \<in> set path_settings" by (rule map_of_SomeD)
  then show ?thesis
    unfolding path_settings_def server_default_def server_structs
    by (auto simp: get_field_def set_field_def str_at_def)
qed

lemma decode_data_dir:
  assumes "typed server_type c"
  shows "decode server_type c (J_Obj [(''data_dir'', J_Str e)]) = (put_at [''data_dir''] (str_value e) c, False)"
proof -
  obtain vs where c: "c = V_Struct vs" using assms by (cases c) (auto simp: server_type_def)
  have "(''data_dir'', False, T_Base B_Str) \<in> set server_fields" by (simp add: server_fields_def)
  then have "typed (T_Base B_Str) (get_field vs ''data_dir'')"
    using typed_get_field [OF assms [unfolded c server_type_def]] server_type_ok(2) by (simp add: server_type_def)
  then obtain x where "get_field vs ''data_dir'' = V_Base x" by (cases "get_field vs ''data_dir''") auto
  moreover have "find_field server_fields ''data_dir'' = Some (''data_dir'', T_Base B_Str)" by code_simp
  ultimately show ?thesis by (simp add: c server_type_def)
qed

text \<open>
  The data directory of the file moves only what the file also names. The defaults are built for the directory of
  the configuration file before the file is read, so a file that sets nothing but \<open>data_dir\<close>, in an absolute directory,
  still gets its object store, token, task and whitelist files and its temporary directory there. In a relative
  directory the default paths get the directory twice.
\<close>

theorem data_dir_moves_nothing:
  assumes "rd path = File data" "parse_json data = Some (J_Obj [(''data_dir'', J_Str e)])" "path \<noteq> []"
    and "\<not> equal_fold (path_ext path) ''.yaml''" "\<not> equal_fold (path_ext path) ''.yml''"
    and "map_of path_settings p = Some n"
  shows "(has_prefix (path_dir path) ''/'' \<longrightarrow>
      (\<exists>c. load_config rd path = (c, None) \<and> (e \<noteq> [] \<longrightarrow> str_at [''data_dir''] c = e) \<and> str_at p c = path_join [path_dir path, n])) \<and>
    (\<not> has_prefix (path_join [path_dir path, n]) ''/'' \<and> e = path_dir path \<longrightarrow>
      (\<exists>c. load_config rd path = (c, None) \<and> str_at p c = path_join [path_dir path, path_join [path_dir path, n]]))"
proof (intro conjI impI)
  define d where "d = path_dir path"
  define c0 where "c0 = set_str [''data_dir''] e (server_default d)"
  define c where "c = normalize_config d c0"
  note t = server_default_typed [of d]
  have t0: "server_typed c0" unfolding c0_def by (rule set_str_rules(1) [OF t]) simp
  have l: "load_config rd path = (c, None)"
    using assms(1-5) decode_data_dir [OF t [unfolded server_typed_def]]
    by (simp add: load_config_def Let_def json_unmarshal_def fill_def c_def c0_def set_str_def d_def)
  have p: "text_setting p" "p \<noteq> [''data_dir'']" using assms(6) by (auto simp: path_settings_def split: if_splits)
  have "str_at p (server_default d) = path_join [d, n]" using assms(6) by (rule server_default_paths)
  then have root: "str_at p c0 = path_join [d, n]" using p by (simp add: c0_def set_str_rules(2) [OF t])
  have dd: "str_at [''data_dir''] c0 = e" by (simp add: c0_def set_str_rules(2) [OF t])
  have c: "str_at [''data_dir''] c = (if e = [] then d else e)"
    "str_at p c = rel_path (if e = [] then d else e) (path_join [d, n]) (path_join [if e = [] then d else e, n])"
    using normalize_str(1) [OF t0, of d] normalize_str(2) [OF t0, of p n d] assms(6) root dd by (simp_all add: c_def)
  have "d \<noteq> []" using path_dir_nonempty by (simp add: d_def)
  then have ne: "path_join [d, n] \<noteq> []" by (rule path_join_nonempty)
  show "\<exists>c. load_config rd path = (c, None) \<and> (e \<noteq> [] \<longrightarrow> str_at [''data_dir''] c = e) \<and> str_at p c = path_join [path_dir path, n]"
    if "has_prefix (path_dir path) ''/''"
    using l c ne path_join_rooted [OF that] by (simp add: rel_path_def d_def)
  show "\<exists>c. load_config rd path = (c, None) \<and> str_at p c = path_join [path_dir path, path_join [path_dir path, n]]"
    if "\<not> has_prefix (path_join [path_dir path, n]) ''/'' \<and> e = path_dir path"
    using l c ne that by (simp add: rel_path_def d_def)
qed

theorem data_dir_moves_nothing_witness:
  "\<exists>c. load_config (\<lambda>p. File sample_server_file) ''/etc/dldw/server.json'' = (c, None) \<and>
     str_at [''data_dir''] c = ''/srv'' \<and> str_at [''storage'', ''root''] c = ''/etc/dldw/objects''"
proof -
  have p: "parse_json sample_server_file = Some (J_Obj [(''data_dir'', J_Str ''/srv'')])" by code_simp
  have e: "path_ext ''/etc/dldw/server.json'' = ''.json''" "path_dir ''/etc/dldw/server.json'' = ''/etc/dldw''"
    "path_join [''/etc/dldw'', ''objects''] = ''/etc/dldw/objects''" by code_simp+
  have f: "\<not> equal_fold ''.json'' ''.yaml''" "\<not> equal_fold ''.json'' ''.yml''" by code_simp+
  from data_dir_moves_nothing [OF _ p, of "\<lambda>p. File sample_server_file" "''/etc/dldw/server.json''" "[''storage'', ''root'']" "''objects''"]
  show ?thesis unfolding e using f by (simp add: path_settings_def)
qed

theorem loaded_config_complete_witness:
  "\<exists>c. load_config (\<lambda>p. File sample_server_file) ''/etc/dldw/server.json'' = (c, None) \<and> server_typed c"
proof -
  have p: "parse_json sample_server_file = Some (J_Obj [(''data_dir'', J_Str ''/srv'')])" by code_simp
  have e: "path_ext ''/etc/dldw/server.json'' = ''.json''" by code_simp
  have f: "\<not> equal_fold ''.json'' ''.yaml''" "\<not> equal_fold ''.json'' ''.yml''" by code_simp+
  obtain c where c: "load_config (\<lambda>p. File sample_server_file) ''/etc/dldw/server.json'' = (c, None)"
    using f decode_data_dir [OF server_default_typed [unfolded server_typed_def]]
    by (simp add: load_config_def e json_unmarshal_def p fill_def)
  with loaded_config_complete [OF c] show ?thesis by simp
qed

end
