(* ===== verification/UrlText.thy ===== *)
theory UrlText
  imports GoHttp Storage
begin

text \<open>
  More of \<^verbatim>\<open>net/url\<close>: user name and password, the tolerant \<open>Query\<close>, escaping by part, and \<open>String\<close>, which
  writes a parsed URL again.
\<close>

section \<open>Accessors\<close>

definition url_username :: "url \<Rightarrow> string" where
  "url_username u =
     (case u_user u of None \<Rightarrow> []
      | Some s \<Rightarrow> (case unescape_path (fst (cut_byte CHR '':'' s)) of None \<Rightarrow> [] | Some n \<Rightarrow> n))"

definition url_password :: "url \<Rightarrow> string option" where
  "url_password u =
     (case u_user u of None \<Rightarrow> None
      | Some s \<Rightarrow> if CHR '':'' \<in> set s then unescape_path (snd (cut_byte CHR '':'' s)) else None)"

text \<open>\<open>Query\<close> drops the parts that do not parse, where \<open>ParseQuery\<close> reports them.\<close>

definition lenient_query :: "string \<Rightarrow> (string \<times> string) list" where
  "lenient_query q =
     map the (filter (\<lambda>p. p \<noteq> None) (map parse_pair (filter (\<lambda>p. p \<noteq> []) (split_byte CHR ''&'' q))))"

section \<open>Escaping\<close>

datatype url_part = In_Path | In_User | In_Host | In_Fragment

definition plain_in :: "url_part \<Rightarrow> char \<Rightarrow> bool" where
  "plain_in m c \<longleftrightarrow> is_lower c \<or> is_upper c \<or> is_digit c \<or> c \<in> set ''-_.~'' \<or>
     (case m of
        In_Path \<Rightarrow> c \<in> set ''$&+,/:;=@''
      | In_User \<Rightarrow> c \<in> set ''$&+,;=''
      | In_Host \<Rightarrow> c \<in> set ''!$&()*+,;=:[]<>'' \<or> c = CHR 0x27 \<or> c = CHR 0x22
      | In_Fragment \<Rightarrow> c \<in> set ''$&+,/:;=?@!()*'')"

definition url_escape :: "url_part \<Rightarrow> string \<Rightarrow> string" where
  "url_escape m s = concat (map (\<lambda>c. if plain_in m c then [c] else CHR ''%'' # to_upper (hex_byte (code c))) s)"

definition valid_encoded :: "url_part \<Rightarrow> string \<Rightarrow> bool" where
  "valid_encoded m s \<longleftrightarrow> list_all (\<lambda>c. c \<in> set ''!$&()*+,;=:@[]%'' \<or> c = CHR 0x27 \<or> plain_in m c) s"

definition escaped_path :: "url \<Rightarrow> string" where
  "escaped_path u =
     (if u_raw_path u \<noteq> [] \<and> valid_encoded In_Path (u_raw_path u) \<and> unescape_path (u_raw_path u) = Some (u_path u)
      then u_raw_path u
      else if u_path u = ''*'' then ''*'' else url_escape In_Path (u_path u))"

definition escaped_fragment :: "url \<Rightarrow> string" where
  "escaped_fragment u =
     (if u_raw_fragment u \<noteq> [] \<and> valid_encoded In_Fragment (u_raw_fragment u) \<and>
         unescape_path (u_raw_fragment u) = Some (u_fragment u)
      then u_raw_fragment u else url_escape In_Fragment (u_fragment u))"

definition userinfo_string :: "url \<Rightarrow> string" where
  "userinfo_string u =
     url_escape In_User (url_username u) @
     (case url_password u of None \<Rightarrow> [] | Some p \<Rightarrow> '':'' @ url_escape In_User p)"

section \<open>String\<close>

definition authority_string :: "url \<Rightarrow> string" where
  "authority_string u =
     (if u_scheme u = [] \<and> u_host u = [] \<and> u_user u = None then []
      else
        (if u_host u \<noteq> [] \<or> u_path u \<noteq> [] \<or> u_user u \<noteq> None then ''//'' else []) @
        (if u_user u \<noteq> None then userinfo_string u @ ''@'' else []) @ url_escape In_Host (u_host u))"

definition path_string :: "url \<Rightarrow> string \<Rightarrow> string" where
  "path_string u before =
     (let p = escaped_path u in
      (if p \<noteq> [] \<and> hd p \<noteq> CHR ''/'' \<and> u_host u \<noteq> [] then ''/'' else []) @
      (if before = [] \<and> \<not> (p \<noteq> [] \<and> hd p \<noteq> CHR ''/'' \<and> u_host u \<noteq> []) \<and> CHR '':'' \<in> set (fst (cut_byte CHR ''/'' p)) then ''./''
       else []) @ p)"

definition url_string :: "url \<Rightarrow> string" where
  "url_string u =
     (let s = (if u_scheme u = [] then [] else u_scheme u @ '':'') in
      (if u_opaque u \<noteq> [] then s @ u_opaque u
       else (let b = s @ authority_string u in b @ path_string u b)) @
      (if u_force_query u \<or> u_query u \<noteq> [] then ''?'' @ u_query u else []) @
      (if u_fragment u \<noteq> [] then ''#'' @ escaped_fragment u else []))"

end
