(* ===== verification/UpstreamProxy.thy ===== *)
theory UpstreamProxy
  imports UrlText GoNet
begin

text \<open>
  Connections through an upstream HTTP proxy (\<open>internal/upstreamproxy/upstreamproxy.go\<close>): the check of its address, and
  the CONNECT exchange as far as it goes, over what the network answers.
\<close>

datatype proxy_url_error = Proxy_Bad_URL | Proxy_Scheme string | Proxy_No_Host | Proxy_Bad_Host

definition validate_proxy :: "string \<Rightarrow> proxy_url_error option" where
  "validate_proxy raw =
     (if raw = [] then None
      else case url_parse raw of
        None \<Rightarrow> Some Proxy_Bad_URL
      | Some u \<Rightarrow>
          if u_scheme u \<noteq> ''http'' \<and> u_scheme u \<noteq> ''https'' then Some (Proxy_Scheme (u_scheme u))
          else if u_host u = [] then Some Proxy_No_Host
          else if list_ex (\<lambda>c. c \<in> {CHR '' '', CHR 0x09}) (u_host u) then Some Proxy_Bad_Host
          else None)"

text \<open>Address to dial, and whether TLS is spoken with the proxy.\<close>

definition proxy_endpoint :: "url \<Rightarrow> (string \<times> bool) option" where
  "proxy_endpoint u =
     (if u_scheme u = ''http'' \<or> u_scheme u = [] then
        Some (join_host_port (url_hostname u) (if url_port u = [] then ''80'' else url_port u), False)
      else if u_scheme u = ''https'' then
        Some (join_host_port (url_hostname u) (if url_port u = [] then ''443'' else url_port u), True)
      else None)"

record connect_head =
  cq_target :: string
  cq_header :: header

definition connect_request :: "url \<Rightarrow> string \<Rightarrow> connect_head" where
  "connect_request u target =
     \<lparr>cq_target = target,
      cq_header = (if u_user u = None then []
        else hset ''Authorization''
          (basic_auth_value (query_escape (url_username u))
            (query_escape (case url_password u of None \<Rightarrow> [] | Some p \<Rightarrow> p))) [])\<rparr>"

text \<open>
  What happens outside: dialing, the handshake, writing, the status of the reply (\<open>None\<close> when it cannot be read)
  and the bytes that came together with it.
\<close>

record proxy_net =
  pn_dial :: bool
  pn_handshake :: bool
  pn_write :: bool
  pn_status :: "nat option"
  pn_early :: string

datatype proxy_dial_error = Px_Bad_URL | Px_Scheme string | Px_Dial | Px_TLS | Px_Write | Px_Read | Px_Rejected nat

text \<open>The requests written, bytes written afterwards, whether an opened connection was closed again, and the result: the
  bytes that the caller will still find on the connection.\<close>

record proxy_run =
  pr_address :: "string option"
  pr_requests :: "connect_head list"
  pr_written_back :: string
  pr_closed :: bool
  pr_result :: "proxy_dial_error + string"

definition dial_via :: "proxy_net \<Rightarrow> string \<Rightarrow> string \<Rightarrow> proxy_run" where
  "dial_via net proxy target =
     (let run = \<lparr>pr_address = None, pr_requests = [], pr_written_back = [], pr_closed = False, pr_result = Inl Px_Bad_URL\<rparr> in
      case url_parse proxy of
        None \<Rightarrow> run
      | Some u \<Rightarrow>
          (case proxy_endpoint u of
             None \<Rightarrow> run\<lparr>pr_result := Inl (Px_Scheme (u_scheme u))\<rparr>
           | Some (addr, tls) \<Rightarrow>
               (let dialled = run\<lparr>pr_address := Some addr\<rparr>; sent = dialled\<lparr>pr_requests := [connect_request u target]\<rparr> in
                if \<not> pn_dial net then dialled\<lparr>pr_result := Inl Px_Dial\<rparr>
                else if tls \<and> \<not> pn_handshake net then dialled\<lparr>pr_closed := True, pr_result := Inl Px_TLS\<rparr>
                else if \<not> pn_write net then dialled\<lparr>pr_closed := True, pr_result := Inl Px_Write\<rparr>
                else case pn_status net of
                  None \<Rightarrow> sent\<lparr>pr_closed := True, pr_result := Inl Px_Read\<rparr>
                | Some st \<Rightarrow>
                    if st \<noteq> 200 then sent\<lparr>pr_closed := True, pr_result := Inl (Px_Rejected st)\<rparr>
                    else sent\<lparr>pr_written_back := pn_early net, pr_result := Inr []\<rparr>)))"

lemma connect_header:
  "hget (cq_header (connect_request u t)) ''Proxy-Authorization'' = [] \<and>
   (u_user u \<noteq> None \<longrightarrow> hget (cq_header (connect_request u t)) ''Authorization'' =
      basic_auth_value (query_escape (url_username u)) (query_escape (case url_password u of None \<Rightarrow> [] | Some p \<Rightarrow> p)))"
proof -
  have "canonical_key ''Proxy-Authorization'' \<noteq> canonical_key ''Authorization''" by code_simp
  then show ?thesis by (simp add: connect_request_def) (simp add: hget_def)
qed


end
