(* ===== verification/ProxyCore.thy ===== *)
theory ProxyCore
  imports UrlText GoJson
begin

text \<open>
  The embedded proxy core (\<open>internal/server/proxycore/proxycore.go\<close>): reading a hysteria2 share link, the configuration
  written for sing-box, the wait for its port, and the state of the managed process. Processes, sockets and clocks answer
  from outside.
\<close>

section \<open>Share links\<close>

record share_link =
  sl_server :: string
  sl_port :: int
  sl_password :: string
  sl_sni :: string
  sl_insecure :: bool
  sl_obfs_type :: string
  sl_obfs_pass :: string
  sl_name :: string

datatype link_error = Link_Bad_URL | Link_Scheme string | Link_No_Host | Link_Bad_Port string | Link_No_Password

definition truthy :: "string \<Rightarrow> bool" where
  "truthy v \<longleftrightarrow> v = ''1'' \<or> equal_fold v ''true''"

definition share_link_of :: "url \<Rightarrow> int \<Rightarrow> share_link" where
  "share_link_of u port =
     (let q = lenient_query (u_query u); g = query_get q in
      \<lparr>sl_server = url_hostname u, sl_port = port,
       sl_password = (case url_password u of
          Some p \<Rightarrow> if url_username u = [] then p else url_username u | None \<Rightarrow> url_username u),
       sl_sni = (if g ''sni'' \<noteq> [] then g ''sni'' else url_hostname u),
       sl_insecure = (truthy (g ''insecure'') \<or> truthy (g ''allowInsecure'')),
       sl_obfs_type = (if g ''obfs'' \<noteq> [] \<and> g ''obfs'' \<noteq> ''none'' then g ''obfs'' else []),
       sl_obfs_pass = (if g ''obfs'' \<noteq> [] \<and> g ''obfs'' \<noteq> ''none'' then g ''obfs-password'' else []),
       sl_name = trim_prefix (u_fragment u) []\<rparr>)"

definition parse_hysteria2 :: "string \<Rightarrow> link_error + share_link" where
  "parse_hysteria2 raw =
     (case url_parse (trim_space raw) of
        None \<Rightarrow> Inl Link_Bad_URL
      | Some u \<Rightarrow>
          if to_lower (u_scheme u) \<notin> {''hysteria2'', ''hy2''} then Inl (Link_Scheme (u_scheme u))
          else if url_hostname u = [] \<or> url_port u = [] then Inl Link_No_Host
          else case atoi (url_port u) of
            None \<Rightarrow> Inl (Link_Bad_Port (url_port u))
          | Some p \<Rightarrow>
              if p \<le> 0 \<or> 65535 < p then Inl (Link_Bad_Port (url_port u))
              else if sl_password (share_link_of u p) = [] then Inl Link_No_Password
              else Inr (share_link_of u p))"

section \<open>The configuration of sing-box\<close>

definition omit_empty :: "string \<Rightarrow> string \<Rightarrow> (string \<times> json) list" where
  "omit_empty k v = (if v = [] then [] else [(k, J_Str (utf8_fix v))])"

definition hysteria_outbound :: "share_link \<Rightarrow> json" where
  "hysteria_outbound sl =
     J_Obj ([(''type'', J_Str ''hysteria2''), (''tag'', J_Str ''proxy'')] @ omit_empty ''server'' (sl_server sl) @
       (if sl_port sl = 0 then [] else [(''server_port'', J_Int (sl_port sl))]) @ omit_empty ''password'' (sl_password sl) @
       (if sl_obfs_type sl = [] then []
        else [(''obfs'', J_Obj [(''type'', J_Str (utf8_fix (sl_obfs_type sl))), (''password'', J_Str (utf8_fix (sl_obfs_pass sl)))])]) @
       [(''tls'', J_Obj ([(''enabled'', J_Bool True)] @ omit_empty ''server_name'' (sl_sni sl) @
          [(''insecure'', J_Bool (sl_insecure sl))]))])"

definition sing_box_json :: "share_link \<Rightarrow> string \<Rightarrow> int \<Rightarrow> string \<Rightarrow> json" where
  "sing_box_json sl listen port level =
     J_Obj
       [(''log'', J_Obj [(''level'', J_Str (utf8_fix (if level = [] then ''warn'' else level))), (''timestamp'', J_Bool True)]),
        (''inbounds'', J_Arr [J_Obj [(''type'', J_Str ''mixed''),
           (''listen'', J_Str (utf8_fix (if listen = [] then ''127.0.0.1'' else listen))),
           (''listen_port'', J_Int (if port \<le> 0 then 1080 else port))]]),
        (''outbounds'', J_Arr [hysteria_outbound sl, J_Obj [(''type'', J_Str ''direct''), (''tag'', J_Str ''direct'')]]),
        (''route'', J_Obj [(''final'', J_Str ''proxy'')])]"

definition generate_sing_box_config :: "(rat \<Rightarrow> string) \<Rightarrow> share_link \<Rightarrow> string \<Rightarrow> int \<Rightarrow> string \<Rightarrow> string" where
  "generate_sing_box_config ft sl listen port level = json_text ft 0 (sing_box_json sl listen port level) @ [CHR 0x0A]"

section \<open>The process\<close>

record manager =
  mg_cmd :: bool
  mg_exited :: bool
  mg_log :: string
  mg_kills :: nat

datatype start_error = Binary_Required | Binary_Not_Found | Log_Not_Opened | Not_Started

definition start_core :: "bool \<Rightarrow> bool \<Rightarrow> bool \<Rightarrow> string \<Rightarrow> string \<Rightarrow> start_error + manager" where
  "start_core binary_found log_ok started binary log_path =
     (if binary = [] then Inl Binary_Required
      else if \<not> binary_found then Inl Binary_Not_Found
      else if log_path \<noteq> [] \<and> \<not> log_ok then Inl Log_Not_Opened
      else if \<not> started then Inl Not_Started
      else Inr \<lparr>mg_cmd = True, mg_exited = False, mg_log = log_path, mg_kills = 0\<rparr>)"

definition stop_core :: "manager \<Rightarrow> manager" where
  "stop_core m =
     (if \<not> mg_cmd m \<or> mg_exited m then m
      else m\<lparr>mg_cmd := False, mg_exited := True, mg_kills := Suc (mg_kills m)\<rparr>)"

datatype ready = Is_Ready | Exited_Early | Not_In_Time

text \<open>The rounds of \<open>WaitReady\<close>: the clock, whether the process has ended, whether the port answers. \<open>None\<close>: the rounds
  that are given are not enough.\<close>

fun wait_ready :: "time \<Rightarrow> (time \<times> bool \<times> bool) list \<Rightarrow> ready option" where
  "wait_ready deadline [] = None"
| "wait_ready deadline ((now, exited, answers) # rs) =
     (if deadline \<le> now then Some Not_In_Time
      else if exited then Some Exited_Early
      else if answers then Some Is_Ready
      else wait_ready deadline rs)"

section \<open>Properties\<close>

lemma stop_core_idempotent: "stop_core (stop_core m) = stop_core m \<and> mg_kills (stop_core m) \<le> Suc (mg_kills m)"
  by (simp add: stop_core_def)

text \<open>Rounds that sleep 300 ms each: the clock gains at least that from one round to the next.\<close>

fun rounds_ok :: "time \<Rightarrow> (time \<times> bool \<times> bool) list \<Rightarrow> bool" where
  "rounds_ok t [] = True"
| "rounds_ok t ((now, e, a) # rs) = (t \<le> now \<and> rounds_ok (now + 300000000) rs)"

lemma wait_ready_ends:
  "rounds_ok t rs \<Longrightarrow> rs \<noteq> [] \<Longrightarrow> deadline \<le> t + 300000000 * (int (length rs) - 1) \<Longrightarrow> wait_ready deadline rs \<noteq> None"
proof (induction deadline rs arbitrary: t rule: wait_ready.induct)
  case (2 deadline now exited answers rs)
  show ?case
  proof (cases "deadline \<le> now \<or> exited \<or> answers")
    case False
    then have rs: "rs \<noteq> []" using 2(2,4) by auto
    have "deadline \<le> (now + 300000000) + 300000000 * (int (length rs) - 1)" using 2(2,4) by (simp add: algebra_simps)
    then have "wait_ready deadline rs \<noteq> None" using 2(1) [of "now + 300000000"] 2(2) False rs by auto
    then show ?thesis using False by simp
  qed auto
qed simp

definition ascii_link :: "share_link \<Rightarrow> bool" where
  "ascii_link sl \<longleftrightarrow>
     ascii (sl_server sl) \<and> ascii (sl_password sl) \<and> ascii (sl_sni sl) \<and> ascii (sl_obfs_type sl) \<and> ascii (sl_obfs_pass sl)"

lemma sing_box_plain:
  assumes "ascii_link sl" "ascii listen" "ascii level"
  shows "plain_json (sing_box_json sl listen port level) \<and> json_depth (sing_box_json sl listen port level) \<le> 10000"
proof -
  have "ascii ''warn''" "ascii ''127.0.0.1''" by (simp_all add: ascii_def)
  with assms show ?thesis
    by (simp add: sing_box_json_def hysteria_outbound_def omit_empty_def ascii_link_def utf8_fix_ascii)
      (simp add: ascii_def)
qed

text \<open>
  From the share link to the proxy. A link that is accepted names a server, a port between 1 and 65535 and a
  password; the file written for it, when its texts are ASCII, is read back as the configuration that was meant: a mixed inbound on
  the configured address, and this server as the outbound that all traffic takes.
\<close>

theorem share_link_config:
  assumes "parse_hysteria2 raw = Inr sl" "ascii_link sl" "ascii listen" "ascii level"
  shows "sl_server sl \<noteq> [] \<and> 1 \<le> sl_port sl \<and> sl_port sl \<le> 65535 \<and> sl_password sl \<noteq> [] \<and> sl_sni sl \<noteq> [] \<and>
    parse_json (generate_sing_box_config ft sl listen port level) = Some (sing_box_json sl listen port level)"
proof -
  obtain u p where u: "sl = share_link_of u p" "url_hostname u \<noteq> []" "1 \<le> p" "p \<le> 65535" "sl_password (share_link_of u p) \<noteq> []"
    using assms(1) by (auto simp: parse_hysteria2_def split: option.splits if_splits)
  have "parse_json (generate_sing_box_config ft sl listen port level) = Some (sing_box_json sl listen port level)"
    unfolding generate_sing_box_config_def
    using sing_box_plain [OF assms(2-4)] by (intro parse_json_text) (simp_all add: json_space_def)
  with u show ?thesis by (simp add: share_link_of_def Let_def)
qed

theorem share_link_config_witness:
  "\<exists>sl. parse_hysteria2 ''hy2://pw@h.io:443?sni=x&insecure=1#n'' = Inr sl \<and> sl_server sl = ''h.io'' \<and>
     parse_json (generate_sing_box_config (\<lambda>_. []) sl [] 0 []) = Some (sing_box_json sl [] 0 [])"
proof -
  let ?sl = "\<lparr>sl_server = ''h.io'', sl_port = 443, sl_password = ''pw'', sl_sni = ''x'', sl_insecure = True, sl_obfs_type = [],
    sl_obfs_pass = [], sl_name = ''n''\<rparr>"
  have p: "parse_hysteria2 ''hy2://pw@h.io:443?sni=x&insecure=1#n'' = Inr ?sl" by code_simp
  have "ascii_link ?sl" "ascii []" by (simp_all add: ascii_link_def ascii_def)
  with share_link_config [OF p] p show ?thesis by auto
qed

end
