(* ===== verification/GoTime.thy ===== *)
theory GoTime
  imports Prelude GoText
begin

text \<open>
  The part of \<^verbatim>\<open>time\<close> that deals with calendars: dates of the proleptic Gregorian calendar, their digits,
  and reading RFC 3339 texts the strict way \<open>Time.UnmarshalJSON\<close> does.
\<close>

section \<open>Dates\<close>

text \<open>Year, month and day of a number of days since 1970, in the proleptic Gregorian calendar; eras of 400 years start on
  1 March.\<close>

definition civil_date :: "int \<Rightarrow> int \<times> int \<times> int" where
  "civil_date d =
     (let z = d + 719468; era = z div 146097; doe = z mod 146097;
          yoe = (doe - doe div 1460 + doe div 36524 - doe div 146096) div 365;
          doy = doe - (365 * yoe + yoe div 4 - yoe div 100);
          mp = (5 * doy + 2) div 153;
          m = (if mp < 10 then mp + 3 else mp - 9)
      in (yoe + era * 400 + (if m \<le> 2 then 1 else 0), m, doy - (153 * mp + 2) div 5 + 1))"

lemma civil_dates: "civil_date 0 = (1970, 1, 1)" "civil_date 19782 = (2024, 2, 29)" "civil_date 20712 = (2026, 9, 16)"
  by code_simp+

definition two_digits :: "int \<Rightarrow> string" where
  "two_digits n = (if n < 10 then ''0'' @ itoa n else itoa n)"

definition four_digits :: "int \<Rightarrow> string" where
  "four_digits n = (if n < 10 then ''000'' else if n < 100 then ''00'' else if n < 1000 then ''0'' else []) @ itoa n"


text \<open>The number of days from 1 January 1970 to a date.\<close>

definition civil_days :: "int \<Rightarrow> int \<Rightarrow> int \<Rightarrow> int" where
  "civil_days y m d =
     (let y' = (if m \<le> 2 then y - 1 else y); era = y' div 400; yoe = y' mod 400;
          mp = (if 2 < m then m - 3 else m + 9); doy = (153 * mp + 2) div 5 + d - 1
      in era * 146097 + (yoe * 365 + yoe div 4 - yoe div 100 + doy) - 719468)"

lemma civil_days_dates: "civil_days 1970 1 1 = 0" "civil_days 2024 2 29 = 19782" "civil_days 2026 9 16 = 20712"
  by code_simp+

definition leap_year :: "int \<Rightarrow> bool" where
  "leap_year y \<longleftrightarrow> y mod 4 = 0 \<and> (y mod 100 \<noteq> 0 \<or> y mod 400 = 0)"

definition days_in :: "int \<Rightarrow> int \<Rightarrow> int" where
  "days_in m y = (if m = 2 then (if leap_year y then 29 else 28) else if m \<in> {4, 6, 9, 11} then 30 else 31)"

section \<open>RFC 3339\<close>

definition digits_int :: "string \<Rightarrow> int" where
  "digits_int s = foldl (\<lambda>a c. 10 * a + int (digit_val c)) 0 s"

text \<open>\<open>n\<close> digits with a value in a range, and the rest.\<close>

definition fixed_digits :: "nat \<Rightarrow> int \<Rightarrow> int \<Rightarrow> string \<Rightarrow> (int \<times> string) option" where
  "fixed_digits n lo hi s =
     (let ds = take n s; v = digits_int ds in
      if length ds = n \<and> list_all is_digit ds \<and> lo \<le> v \<and> v \<le> hi then Some (v, drop n s) else None)"

definition expect :: "char \<Rightarrow> string \<Rightarrow> string option" where
  "expect c s = (case s of [] \<Rightarrow> None | d # t \<Rightarrow> if d = c then Some t else None)"

text \<open>The fraction after a dot in nanoseconds; digits after the ninth are dropped.\<close>

definition second_fraction :: "string \<Rightarrow> (int \<times> string) option" where
  "second_fraction s =
     (case s of
        CHR ''.'' # t \<Rightarrow>
          (let ds = takeWhile is_digit t in
           if ds = [] then None
           else Some (digits_int (take 9 (ds @ replicate 9 (CHR ''0''))), drop (length ds) t))
      | _ \<Rightarrow> Some (0, s))"

text \<open>Seconds east of UTC.\<close>

definition zone_offset :: "string \<Rightarrow> int option" where
  "zone_offset s =
     (if s = ''Z'' then Some 0
      else case s of
        [] \<Rightarrow> None
      | c # t \<Rightarrow>
          if c \<notin> {CHR ''+'', CHR ''-''} then None
          else case fixed_digits 2 0 23 t of
            None \<Rightarrow> None
          | Some (h, t) \<Rightarrow>
              (case Option.bind (expect CHR '':'' t) (fixed_digits 2 0 59) of
                 Some (m, []) \<Rightarrow> Some ((if c = CHR ''-'' then -1 else 1) * (3600 * h + 60 * m))
               | _ \<Rightarrow> None))"

definition rfc3339_date :: "string \<Rightarrow> (int \<times> string) option" where
  "rfc3339_date s =
     Option.bind (fixed_digits 4 0 9999 s) (\<lambda>(y, s).
     Option.bind (Option.bind (expect CHR ''-'' s) (fixed_digits 2 1 12)) (\<lambda>(m, s).
     Option.bind (Option.bind (expect CHR ''-'' s) (fixed_digits 2 1 (days_in m y))) (\<lambda>(d, s).
     Some (civil_days y m d, s))))"

definition rfc3339_clock :: "string \<Rightarrow> (int \<times> string) option" where
  "rfc3339_clock s =
     Option.bind (Option.bind (expect CHR ''T'' s) (fixed_digits 2 0 23)) (\<lambda>(h, s).
     Option.bind (Option.bind (expect CHR '':'' s) (fixed_digits 2 0 59)) (\<lambda>(m, s).
     Option.bind (Option.bind (expect CHR '':'' s) (fixed_digits 2 0 59)) (\<lambda>(c, s).
     Some (3600 * h + 60 * m + c, s))))"

definition parse_rfc3339 :: "string \<Rightarrow> time option" where
  "parse_rfc3339 s =
     Option.bind (rfc3339_date s) (\<lambda>(days, s).
     Option.bind (rfc3339_clock s) (\<lambda>(secs, s).
     Option.bind (second_fraction s) (\<lambda>(ns, s).
     Option.bind (zone_offset s) (\<lambda>off.
     Some (time_of_unix (86400 * days + secs - off) + ns)))))"

definition date_digits :: "time \<Rightarrow> string" where
  "date_digits t =
     (let (y, m, d) = civil_date (time_unix t div 86400) in four_digits y @ two_digits m @ two_digits d)"

definition clock_digits :: "time \<Rightarrow> string" where
  "clock_digits t =
     (let s = time_unix t mod 86400 in
      two_digits (s div 3600) @ two_digits (s div 60 mod 60) @ two_digits (s mod 60))"

lemma rfc3339_examples:
  "parse_rfc3339 ''2024-02-29T23:59:58.5+02:00'' = Some (time_of_unix 1709243998 + 500000000)"
  "parse_rfc3339 ''2023-02-29T00:00:00Z'' = None"
  "map_option date_digits (parse_rfc3339 ''2026-09-16T01:02:03Z'') = Some ''20260916''"
  "map_option clock_digits (parse_rfc3339 ''2026-09-16T01:02:03Z'') = Some ''010203''"
  by code_simp+

end
