(* ===== verification/S3.thy ===== *)
theory S3
  imports GoHttp GoTime Storage
begin

text \<open>
  The S3 driver (\<open>internal/transfer/storage/s3/s3.go\<close>): addressing of objects, SigV4 query signatures over
  HMAC-SHA256, and the operations as presigned requests to a server that is an argument.
\<close>

section \<open>Dates of signatures\<close>

definition date_stamp :: "time \<Rightarrow> string" where
  "date_stamp t = date_digits t"

definition amz_date :: "time \<Rightarrow> string" where
  "amz_date t = date_digits t @ ''T'' @ clock_digits t @ ''Z''"

section \<open>Configuration and addresses\<close>

record s3_cfg =
  s3_endpoint :: string
  s3_region :: string
  s3_bucket :: string
  s3_key_id :: string
  s3_secret :: string
  s3_path_style :: bool

datatype s3_new_error = S3_Required | S3_Invalid_Endpoint

definition new_s3 :: "s3_cfg \<Rightarrow> s3_new_error + s3_cfg" where
  "new_s3 c =
     (if s3_endpoint c = [] \<or> s3_bucket c = [] \<or> s3_key_id c = [] \<or> s3_secret c = [] then Inl S3_Required
      else case url_parse (s3_endpoint c) of
        None \<Rightarrow> Inl S3_Invalid_Endpoint
      | Some u \<Rightarrow>
          if u_host u = [] then Inl S3_Invalid_Endpoint
          else Inr (c\<lparr>s3_region := (if s3_region c = [] then ''us-east-1'' else s3_region c)\<rparr>))"

definition endpoint_host :: "s3_cfg \<Rightarrow> string \<times> string" where
  "endpoint_host c = (case url_parse (s3_endpoint c) of None \<Rightarrow> ([], []) | Some u \<Rightarrow> (u_host u, u_scheme u))"

definition object_host :: "s3_cfg \<Rightarrow> string" where
  "object_host c =
     (let host = fst (endpoint_host c) in
      if s3_path_style c then host
      else if CHR '':'' \<in> set host \<and> \<not> has_suffix host '':443'' \<and> \<not> has_suffix host '':80'' then host
      else s3_bucket c @ ''.'' @ (case last_index_byte host CHR '':'' of None \<Rightarrow> host | Some i \<Rightarrow> take i host))"

definition encode_segment :: "string \<Rightarrow> string" where
  "encode_segment s =
     concat (map (\<lambda>c. if query_unreserved c then [c] else CHR ''%'' # to_upper (hex_byte (code c))) s)"

definition encode_path :: "string \<Rightarrow> string" where
  "encode_path key = join ''/'' (map encode_segment (split_byte CHR ''/'' key))"

definition canonical_uri :: "s3_cfg \<Rightarrow> string \<Rightarrow> store_error + string" where
  "canonical_uri c key =
     (case validate_key key of
        Some e \<Rightarrow> Inl e
      | None \<Rightarrow> Inr (if s3_path_style c then ''/'' @ s3_bucket c @ ''/'' @ encode_path key else ''/'' @ encode_path key))"

section \<open>Signatures\<close>

definition canonical_query_string :: "(string \<times> string list) list \<Rightarrow> string" where
  "canonical_query_string q =
     join ''&'' (concat (map (\<lambda>(k, vs). map (\<lambda>v. encode_segment k @ ''='' @ encode_segment v) vs) (sort_key fst q)))"

definition s3_scope :: "s3_cfg \<Rightarrow> time \<Rightarrow> string" where
  "s3_scope c now = date_stamp now @ ''/'' @ s3_region c @ ''/s3/aws4_request''"

definition s3_expires :: "duration \<Rightarrow> duration" where
  "s3_expires d = (if d \<le> 0 then 15 * minute else if 7 * 24 * hour < d then 7 * 24 * hour else d)"

definition s3_query :: "s3_cfg \<Rightarrow> time \<Rightarrow> duration \<Rightarrow> string" where
  "s3_query c now d =
     canonical_query_string
       [(''X-Amz-Algorithm'', [''AWS4-HMAC-SHA256'']), (''X-Amz-Credential'', [s3_key_id c @ ''/'' @ s3_scope c now]),
        (''X-Amz-Date'', [amz_date now]), (''X-Amz-Expires'', [itoa (s3_expires d div second)]),
        (''X-Amz-SignedHeaders'', [''host''])]"

definition canonical_request :: "string \<Rightarrow> string \<Rightarrow> string \<Rightarrow> string \<Rightarrow> string" where
  "canonical_request meth uri query host =
     join [CHR 0x0A] [meth, uri, query, ''host:'' @ host @ [CHR 0x0A], ''host'', ''UNSIGNED-PAYLOAD'']"

definition string_to_sign :: "s3_cfg \<Rightarrow> time \<Rightarrow> string \<Rightarrow> string" where
  "string_to_sign c now req =
     join [CHR 0x0A] [''AWS4-HMAC-SHA256'', amz_date now, s3_scope c now, bytes_hex (sha256 (str_bytes req))]"

definition signing_key :: "s3_cfg \<Rightarrow> time \<Rightarrow> byte list" where
  "signing_key c now =
     (let h = (\<lambda>k s. hmac_sha256 k (str_bytes s)) in
      h (h (h (h (str_bytes (''AWS4'' @ s3_secret c)) (date_stamp now)) (s3_region c)) ''s3'') ''aws4_request'')"

definition s3_signature :: "s3_cfg \<Rightarrow> time \<Rightarrow> string \<Rightarrow> string" where
  "s3_signature c now req = bytes_hex (hmac_sha256 (signing_key c now) (str_bytes (string_to_sign c now req)))"

definition s3_presign :: "s3_cfg \<Rightarrow> time \<Rightarrow> string \<Rightarrow> string \<Rightarrow> duration \<Rightarrow> store_error + string" where
  "s3_presign c now meth key d =
     (case validate_key key of
        Some e \<Rightarrow> Inl e
      | None \<Rightarrow>
          (case canonical_uri c key of
             Inl e \<Rightarrow> Inl e
           | Inr uri \<Rightarrow>
               (let q = s3_query c now d; host = object_host c; scheme = snd (endpoint_host c);
                    base = (if scheme = [] then ''https'' else scheme) @ ''://'' @ host @
                      (if s3_path_style c then ''/'' @ s3_bucket c else [])
                in Inr (base @ ''/'' @ encode_path key @ ''?'' @ q @ ''&X-Amz-Signature='' @
                     s3_signature c now (canonical_request meth uri q host)))))"

section \<open>Operations\<close>

text \<open>The server: method, URL and body to an answer, or no answer.\<close>

type_synonym s3_client = "string \<Rightarrow> string \<Rightarrow> byte list \<Rightarrow> upstream_answer option"

datatype s3_error = S3_Store store_error | S3_Request | S3_Status nat

definition s3_do :: "s3_client \<Rightarrow> s3_cfg \<Rightarrow> time \<Rightarrow> string \<Rightarrow> string \<Rightarrow> duration \<Rightarrow> byte list \<Rightarrow> s3_error + upstream_answer" where
  "s3_do srv c now meth key d body =
     (case s3_presign c now meth key d of
        Inl e \<Rightarrow> Inl (S3_Store e)
      | Inr u \<Rightarrow>
          if url_parse u = None then Inl S3_Request
          else (case srv meth u body of None \<Rightarrow> Inl S3_Request | Some a \<Rightarrow> Inr a))"

definition s3_put :: "s3_client \<Rightarrow> s3_cfg \<Rightarrow> time \<Rightarrow> string \<Rightarrow> byte list \<Rightarrow> int \<Rightarrow> string \<Rightarrow> s3_error + obj_info" where
  "s3_put srv c now key body n ctype =
     (case validate_key key of
        Some e \<Rightarrow> Inl (S3_Store e)
      | None \<Rightarrow>
          (case s3_do srv c now ''PUT'' key hour body of
             Inl e \<Rightarrow> Inl e
           | Inr a \<Rightarrow>
               if ua_status a \<noteq> 200 then Inl (S3_Status (ua_status a))
               else Inr \<lparr>ob_key = key, ob_size = n, ob_etag = hget (ua_header a) ''ETag'', ob_content_type = ctype\<rparr>))"

definition s3_head :: "s3_client \<Rightarrow> s3_cfg \<Rightarrow> time \<Rightarrow> string \<Rightarrow> s3_error + obj_info" where
  "s3_head srv c now key =
     (case s3_do srv c now ''HEAD'' key minute [] of
        Inl e \<Rightarrow> Inl e
      | Inr a \<Rightarrow>
          if ua_status a = 404 then Inl (S3_Store Obj_Not_Found)
          else if ua_status a \<noteq> 200 then Inl (S3_Status (ua_status a))
          else Inr \<lparr>ob_key = key, ob_size = (case atoi (hget (ua_header a) ''Content-Length'') of None \<Rightarrow> 0 | Some n \<Rightarrow> n),
                    ob_etag = hget (ua_header a) ''ETag'', ob_content_type = hget (ua_header a) ''Content-Type''\<rparr>)"

definition s3_get :: "s3_client \<Rightarrow> s3_cfg \<Rightarrow> time \<Rightarrow> string \<Rightarrow> s3_error + upstream_answer" where
  "s3_get srv c now key =
     (case s3_do srv c now ''GET'' key hour [] of
        Inl e \<Rightarrow> Inl e
      | Inr a \<Rightarrow>
          if ua_status a = 404 then Inl (S3_Store Obj_Not_Found)
          else if ua_status a \<notin> {200, 206} then Inl (S3_Status (ua_status a))
          else Inr a)"

definition s3_delete :: "s3_client \<Rightarrow> s3_cfg \<Rightarrow> time \<Rightarrow> string \<Rightarrow> s3_error option" where
  "s3_delete srv c now key =
     (case s3_do srv c now ''DELETE'' key minute [] of
        Inl e \<Rightarrow> Some e
      | Inr a \<Rightarrow> if ua_status a \<in> {204, 200, 404} then None else Some (S3_Status (ua_status a)))"

definition s3_ping :: "s3_client \<Rightarrow> s3_cfg \<Rightarrow> time \<Rightarrow> s3_error option" where
  "s3_ping srv c now =
     (case s3_head srv c now ''probe/healthz'' of
        Inr ob \<Rightarrow> None
      | Inl e \<Rightarrow> if e = S3_Store Obj_Not_Found then None else Some e)"

section \<open>What a presigned URL addresses\<close>

lemma encode_segment_plain: "list_all query_unreserved s \<Longrightarrow> encode_segment s = s"
  by (induction s) (simp_all add: encode_segment_def)

lemma part_chars:
  assumes "w \<in> set (split_byte c s)" and "x \<in> set w"
  shows "x \<in> set s"
proof -
  obtain p q where "s = p @ w @ q" using split_byte_part_at [OF assms(1)] by metis
  then show ?thesis using assms(2) by simp
qed

lemma encode_path_valid: "validate_key key = None \<Longrightarrow> encode_path key = key"
proof -
  assume v: "validate_key key = None"
  then have k: "key_re key" by (simp add: validate_key_iff)
  have "query_unreserved ch \<or> ch = CHR ''/''" if "ch \<in> set key" for ch
  proof -
    have "key_first ch \<or> key_char ch" using k that by (cases key) (auto simp: key_re_def list_all_iff)
    then show ?thesis by (auto simp: key_first_def key_char_def query_unreserved_def)
  qed
  then have "list_all query_unreserved w" if w: "w \<in> set (split_byte CHR ''/'' key)" for w
    using split_byte_parts [OF w] part_chars [OF w] by (auto simp: list_all_iff)
  then have "map encode_segment (split_byte CHR ''/'' key) = split_byte CHR ''/'' key"
    by (intro map_idI) (simp add: encode_segment_plain)
  then show ?thesis by (simp add: encode_path_def join_split)
qed

definition custom_port :: "s3_cfg \<Rightarrow> bool" where
  "custom_port c \<longleftrightarrow>
     (let host = fst (endpoint_host c) in CHR '':'' \<in> set host \<and> \<not> has_suffix host '':443'' \<and> \<not> has_suffix host '':80'')"

text \<open>
  C33. What a presigned S3 URL says. For a valid key the URL is made of exactly the host, path and query whose
  canonical request was signed, valid for at most seven days. In path style the path begins with the bucket, otherwise the
  host does; but for an endpoint with a port of its own and without path style the bucket is in neither, so the
  URL is the same for every bucket.
\<close>

theorem s3_presign_addresses:
  assumes "validate_key key = None"
  shows "(\<exists>host uri. s3_presign c now meth key d =
       Inr ((if snd (endpoint_host c) = [] then ''https'' else snd (endpoint_host c)) @ ''://'' @ host @ uri @ ''?'' @ s3_query c now d @
         ''&X-Amz-Signature='' @ s3_signature c now (canonical_request meth uri (s3_query c now d) host)) \<and>
       uri = (if s3_path_style c then ''/'' @ s3_bucket c @ ''/'' @ key else ''/'' @ key) \<and>
       (\<not> s3_path_style c \<and> \<not> custom_port c \<longrightarrow> has_prefix host (s3_bucket c @ ''.''))) \<and>
     (\<not> s3_path_style c \<and> custom_port c \<longrightarrow> s3_presign (c\<lparr>s3_bucket := b\<rparr>) now meth key d = s3_presign c now meth key d) \<and>
     0 < s3_expires d \<and> s3_expires d \<le> 7 * 24 * hour"
proof (intro conjI impI)
  have uri: "canonical_uri c key = Inr (if s3_path_style c then ''/'' @ s3_bucket c @ ''/'' @ key else ''/'' @ key)"
    using assms by (simp add: canonical_uri_def encode_path_valid)
  show "\<exists>host uri. s3_presign c now meth key d =
       Inr ((if snd (endpoint_host c) = [] then ''https'' else snd (endpoint_host c)) @ ''://'' @ host @ uri @ ''?'' @ s3_query c now d @
         ''&X-Amz-Signature='' @ s3_signature c now (canonical_request meth uri (s3_query c now d) host)) \<and>
       uri = (if s3_path_style c then ''/'' @ s3_bucket c @ ''/'' @ key else ''/'' @ key) \<and>
       (\<not> s3_path_style c \<and> \<not> custom_port c \<longrightarrow> has_prefix host (s3_bucket c @ ''.''))"
  proof (intro exI conjI impI)
    show "s3_presign c now meth key d =
       Inr ((if snd (endpoint_host c) = [] then ''https'' else snd (endpoint_host c)) @ ''://'' @ object_host c @
         (if s3_path_style c then ''/'' @ s3_bucket c @ ''/'' @ key else ''/'' @ key) @ ''?'' @ s3_query c now d @
         ''&X-Amz-Signature='' @ s3_signature c now (canonical_request meth
           (if s3_path_style c then ''/'' @ s3_bucket c @ ''/'' @ key else ''/'' @ key) (s3_query c now d) (object_host c)))"
      using assms uri by (simp add: s3_presign_def encode_path_valid Let_def)
    assume "\<not> s3_path_style c \<and> \<not> custom_port c"
    then show "has_prefix (object_host c) (s3_bucket c @ ''.'')"
      by (auto simp: object_host_def custom_port_def Let_def)
  qed simp
  assume b: "\<not> s3_path_style c \<and> custom_port c"
  let ?c = "c\<lparr>s3_bucket := b\<rparr>"
  have e: "endpoint_host ?c = endpoint_host c" by (simp add: endpoint_host_def)
  then have h: "object_host ?c = object_host c" using b by (simp add: object_host_def custom_port_def Let_def)
  have p: "s3_path_style ?c = False" "s3_path_style c = False" using b by simp_all
  have u: "canonical_uri ?c key = canonical_uri c key" using b by (simp add: canonical_uri_def)
  have q: "s3_query ?c now d = s3_query c now d" by (simp add: s3_query_def s3_scope_def)
  have s: "s3_signature ?c now r = s3_signature c now r" for r
    by (simp add: s3_signature_def signing_key_def string_to_sign_def s3_scope_def)
  show "s3_presign ?c now meth key d = s3_presign c now meth key d"
    by (simp only: s3_presign_def u e h q s p if_False)
qed (simp_all add: s3_expires_def duration_defs)

definition sample_s3 :: s3_cfg where
  "sample_s3 = \<lparr>s3_endpoint = ''http://minio:9000'', s3_region = ''us-east-1'', s3_bucket = ''cache'', s3_key_id = ''k'',
     s3_secret = ''s'', s3_path_style = False\<rparr>"

theorem s3_presign_addresses_witness:
  "s3_presign (sample_s3\<lparr>s3_bucket := ''other''\<rparr>) 0 ''GET'' ''a/b.whl'' 0 = s3_presign sample_s3 0 ''GET'' ''a/b.whl'' 0"
proof -
  have "validate_key ''a/b.whl'' = None" by code_simp
  moreover have "\<not> s3_path_style sample_s3 \<and> custom_port sample_s3" by code_simp
  ultimately show ?thesis using s3_presign_addresses [of "''a/b.whl''" sample_s3 0 "''GET''" 0 "''other''"] by blast
qed

end
