(* ===== verification/OpenListStore.thy ===== *)
theory OpenListStore
  imports Codec GoHttp GoTime Storage
begin

text \<open>
  The OpenList driver (\<open>internal/transfer/storage/openliststore/openlist.go\<close>): its session (the cached token, logging in
  again when the server refuses it), the calls of the JSON interface, and the storage operations on top. The server is a function of
  all requests that were sent, with the last one at the end; the driver's state keeps these requests. JSON bodies
  are values; the texts of errors that the library makes come from outside.
\<close>

section \<open>Configuration and session\<close>

record ol_cfg =
  oc_base :: string
  oc_token :: string
  oc_user :: string
  oc_pass :: string
  oc_root :: string
  oc_dir_pass :: string

definition new_openlist :: "ol_cfg \<Rightarrow> ol_cfg option" where
  "new_openlist c =
     (if oc_base c = [] then None
      else
        (let r = (if oc_root c = [] then ''/dldw-cache'' else oc_root c)
         in Some (c\<lparr>oc_base := trim_right_set (oc_base c) ''/'', oc_root := (if has_prefix r ''/'' then r else CHR ''/'' # r)\<rparr>)))"

datatype ol_payload = No_Payload | Json_Payload json | Stream_Payload "byte list"

record ol_request =
  lq_out :: out_request
  lq_payload :: ol_payload

record ol =
  od_cfg :: ol_cfg
  od_token :: string
  od_log :: "ol_request list"

definition ol_driver :: "ol_cfg \<Rightarrow> ol" where
  "ol_driver c = \<lparr>od_cfg = c, od_token = [], od_log = []\<rparr>"

text \<open>The server, and the texts of the errors that parsing a URL, reading a body and decoding JSON data give.\<close>

record ol_env =
  oe_server :: "ol_request list \<Rightarrow> string + upstream_answer"
  oe_bad_url :: "string \<Rightarrow> string"
  oe_broken :: string
  oe_bad_data :: "json \<Rightarrow> string"

definition ol_send :: "ol_env \<Rightarrow> ol_request \<Rightarrow> ol \<Rightarrow> (string + upstream_answer) \<times> ol" where
  "ol_send env q d = (oe_server env (od_log d @ [q]), d\<lparr>od_log := od_log d @ [q]\<rparr>)"

definition full_path :: "ol \<Rightarrow> string \<Rightarrow> store_error + string" where
  "full_path d key =
     (case validate_key key of Some e \<Rightarrow> Inl e | None \<Rightarrow> Inr (path_join [oc_root (od_cfg d), key]))"

section \<open>Replies\<close>

record ol_reply =
  lr_code :: int
  lr_msg :: string
  lr_err :: "string option"
  lr_out :: gv

definition ol_envelope :: ty where
  "ol_envelope = T_Struct [int_field ''code'', text_field ''message'']"

definition envelope_data :: "json \<Rightarrow> json option" where
  "envelope_data j =
     (case j of
        J_Obj ms \<Rightarrow>
          (case filter (\<lambda>(k, _). equal_fold k ''data'') ms of [] \<Rightarrow> None | m # ns \<Rightarrow> Some (snd (last (m # ns))))
      | _ \<Rightarrow> None)"

text \<open>An envelope that was read without error and has a code.\<close>

definition open_envelope :: "string \<Rightarrow> (int \<times> string \<times> json option) option" where
  "open_envelope b =
     (case parse_json b of
        None \<Rightarrow> None
      | Some j \<Rightarrow>
          (let (w, bad) = decode ol_envelope (zero_value ol_envelope) j; rc = int_at [''code''] w in
           if bad \<or> rc = 0 then None else Some (rc, str_at [''message''] w, envelope_data j)))"

text \<open>A \<open>time.Time\<close> is read from a text; every member that names it is read.\<close>

definition time_json :: "json \<Rightarrow> bool" where
  "time_json j = (case j of J_Null \<Rightarrow> True | J_Str s \<Rightarrow> parse_rfc3339 s \<noteq> None | _ \<Rightarrow> False)"

definition times_ok :: "ty \<Rightarrow> json \<Rightarrow> bool" where
  "times_ok t j =
     (case (t, j) of
        (T_Struct fs, J_Obj ms) \<Rightarrow>
          list_all (\<lambda>(k, v). map_option fst (find_field fs k) \<noteq> Some ''modified'' \<or> time_json v) ms
      | _ \<Rightarrow> True)"

definition ol_result :: "ol_env \<Rightarrow> string \<Rightarrow> ty option \<Rightarrow> gv \<Rightarrow> nat \<Rightarrow> string \<Rightarrow> ol_reply" where
  "ol_result env path t v st b =
     (case open_envelope b of
        Some (rc, msg, data) \<Rightarrow>
          if rc \<noteq> 200 then
            \<lparr>lr_code = rc, lr_msg = msg, lr_err = Some (''openlist: '' @ path @ '': '' @ msg), lr_out = v\<rparr>
          else
            (case (t, data) of
               (Some t', Some j) \<Rightarrow>
                 (let (w, bad) = decode t' v j in
                  \<lparr>lr_code = rc, lr_msg = msg, lr_err = (if bad \<or> \<not> times_ok t' j then Some (oe_bad_data env j) else None),
                   lr_out = w\<rparr>)
             | _ \<Rightarrow> \<lparr>lr_code = rc, lr_msg = msg, lr_err = None, lr_out = v\<rparr>)
      | None \<Rightarrow>
          if 400 \<le> st then
            \<lparr>lr_code = int st, lr_msg = trim_space b, lr_err = Some (''openlist: '' @ path @ '': HTTP '' @ itoa (int st)), lr_out = v\<rparr>
          else \<lparr>lr_code = int st, lr_msg = [], lr_err = None, lr_out = v\<rparr>)"

section \<open>Calls\<close>

definition call_request :: "ol \<Rightarrow> string \<Rightarrow> string \<Rightarrow> string \<Rightarrow> ol_payload \<Rightarrow> ol_request option" where
  "call_request d tok meth path body =
     map_option (\<lambda>q. \<lparr>lq_out = add_headers (\<lambda>h.
         (let h = (if body = No_Payload then h else hset ''Content-Type'' ''application/json'' h)
          in if tok = [] then h else hset ''Authorization'' tok h)) q, lq_payload = body\<rparr>)
       (new_request meth (oc_base (od_cfg d) @ path))"

definition call_with ::
    "ol_env \<Rightarrow> string \<Rightarrow> string \<Rightarrow> string \<Rightarrow> ol_payload \<Rightarrow> ty option \<Rightarrow> gv \<Rightarrow> ol \<Rightarrow> ol_reply \<times> ol" where
  "call_with env tok meth path body t v d =
     (case call_request d tok meth path body of
        None \<Rightarrow> (\<lparr>lr_code = 0, lr_msg = [], lr_err = Some (oe_bad_url env (oc_base (od_cfg d) @ path)), lr_out = v\<rparr>, d)
      | Some q \<Rightarrow>
          (case ol_send env q d of
             (Inl e, d') \<Rightarrow> (\<lparr>lr_code = 0, lr_msg = [], lr_err = Some e, lr_out = v\<rparr>, d')
           | (Inr a, d') \<Rightarrow>
               (case read_limited (2 ^ 20) a of
                  None \<Rightarrow> (\<lparr>lr_code = int (ua_status a), lr_msg = [], lr_err = Some (oe_broken env), lr_out = v\<rparr>, d')
                | Some b \<Rightarrow> (ol_result env path t v (ua_status a) b, d'))))"

definition login_type :: ty where
  "login_type = T_Struct [text_field ''token'']"

definition login :: "ol_env \<Rightarrow> ol \<Rightarrow> string option \<times> ol" where
  "login env d =
     (if oc_user (od_cfg d) = [] then (Some ''openlist: no token and no username/password configured'', d)
      else
        (let body = Json_Payload (J_Obj [(''password'', J_Str (utf8_fix (oc_pass (od_cfg d)))),
                                         (''username'', J_Str (utf8_fix (oc_user (od_cfg d))))]);
             (r, d') = call_with env [] ''POST'' ''/api/auth/login'' body (Some login_type) (zero_value login_type) d;
             tok = str_at [''token''] (lr_out r)
         in case lr_err r of
              Some e \<Rightarrow> (Some e, d')
            | None \<Rightarrow>
                if tok = [] then (Some ''openlist: login returned empty token'', d')
                else (None, d'\<lparr>od_token := tok\<rparr>)))"

definition auth_token :: "ol_env \<Rightarrow> ol \<Rightarrow> (string + string) \<times> ol" where
  "auth_token env d =
     (if od_token d \<noteq> [] then (Inr (od_token d), d)
      else if oc_token (od_cfg d) \<noteq> [] then (Inr (oc_token (od_cfg d)), d\<lparr>od_token := oc_token (od_cfg d)\<rparr>)
      else case login env d of
        (Some e, d') \<Rightarrow> (Inl e, d')
      | (None, d') \<Rightarrow> (Inr (od_token d'), d'))"

text \<open>\<open>rerrIsAuth\<close> looks for the digits anywhere in the text of the error.\<close>

definition refused :: "ol_reply \<Rightarrow> bool" where
  "refused r \<longleftrightarrow> lr_code r = 401 \<or> (case lr_err r of None \<Rightarrow> False | Some e \<Rightarrow> contains e ''401'')"

definition ol_call ::
    "ol_env \<Rightarrow> string \<Rightarrow> string \<Rightarrow> ol_payload \<Rightarrow> ty option \<Rightarrow> gv \<Rightarrow> ol \<Rightarrow> ol_reply \<times> ol" where
  "ol_call env meth path body t v d =
     (case auth_token env d of
        (Inl e, d0) \<Rightarrow> (\<lparr>lr_code = 0, lr_msg = [], lr_err = Some e, lr_out = v\<rparr>, d0)
      | (Inr tok, d0) \<Rightarrow>
          (let (r, d1) = call_with env tok meth path body t v d0 in
           if refused r \<and> oc_token (od_cfg d1) = [] then
             (case login env d1 of
                (Some e, d2) \<Rightarrow> (r\<lparr>lr_err := Some e\<rparr>, d2)
              | (None, d2) \<Rightarrow>
                  (let (tok', d3) = auth_token env d2
                   in call_with env (case tok' of Inl e \<Rightarrow> [] | Inr s \<Rightarrow> s) meth path body t (lr_out r) d3))
           else (r, d1)))"

section \<open>Storage operations\<close>

datatype ol_error = OL_Store store_error | OL_Text string

definition path_body :: "string \<Rightarrow> ol_payload" where
  "path_body p = Json_Payload (J_Obj [(''path'', J_Str (utf8_fix p))])"

definition make_parent :: "ol_env \<Rightarrow> string \<Rightarrow> ol \<Rightarrow> string option \<times> ol" where
  "make_parent env full d =
     (let parent = path_dir full in
      if parent = ''/'' \<or> parent = [] then (None, d)
      else
        (let (r, d') = ol_call env ''POST'' ''/api/fs/mkdir'' (path_body parent) None (V_Struct []) d in
         case lr_err r of
           None \<Rightarrow> (None, d')
         | Some e \<Rightarrow>
             if \<not> contains (to_lower (lr_msg r)) ''exist'' \<and> lr_code r \<noteq> 200
             then (Some (''openlist: mkdir '' @ parent @ '': '' @ e), d') else (None, d')))"

definition put_request :: "ol \<Rightarrow> string \<Rightarrow> string \<Rightarrow> string \<Rightarrow> byte list \<Rightarrow> int \<Rightarrow> ol_request option" where
  "put_request d tok full ctype data n =
     map_option (\<lambda>q. \<lparr>lq_out = add_headers (\<lambda>h.
         hset ''Authorization'' tok
           ((if 0 \<le> n then hset ''Content-Length'' (itoa n) else (\<lambda>h. h))
             (hset ''Content-Type'' (if ctype = [] then ''application/octet-stream'' else ctype) (hset ''File-Path'' full h)))) q,
         lq_payload = Stream_Payload data\<rparr>)
       (new_request ''PUT'' (oc_base (od_cfg d) @ ''/api/fs/put''))"

definition put_reply :: "string \<Rightarrow> int \<Rightarrow> string \<Rightarrow> upstream_answer \<Rightarrow> ol_error + obj_info" where
  "put_reply key n ctype a =
     (case open_envelope (take (2 ^ 20) (ua_body a)) of
        Some (rc, msg, data) \<Rightarrow>
          if rc \<noteq> 200 then Inl (OL_Text (''openlist: put '' @ key @ '': '' @ msg))
          else if 400 \<le> ua_status a then Inl (OL_Text (''openlist: put '' @ key @ '': HTTP '' @ itoa (int (ua_status a))))
          else Inr \<lparr>ob_key = key, ob_size = n, ob_etag = [], ob_content_type = ctype\<rparr>
      | None \<Rightarrow>
          if 400 \<le> ua_status a then Inl (OL_Text (''openlist: put '' @ key @ '': HTTP '' @ itoa (int (ua_status a))))
          else Inr \<lparr>ob_key = key, ob_size = n, ob_etag = [], ob_content_type = ctype\<rparr>)"

definition ol_put :: "ol_env \<Rightarrow> string \<Rightarrow> byte list \<Rightarrow> int \<Rightarrow> string \<Rightarrow> ol \<Rightarrow> (ol_error + obj_info) \<times> ol" where
  "ol_put env key data n ctype d =
     (case full_path d key of
        Inl e \<Rightarrow> (Inl (OL_Store e), d)
      | Inr full \<Rightarrow>
          (case make_parent env full d of
             (Some e, d1) \<Rightarrow> (Inl (OL_Text e), d1)
           | (None, d1) \<Rightarrow>
               (case auth_token env d1 of
                  (Inl e, d2) \<Rightarrow> (Inl (OL_Text e), d2)
                | (Inr tok, d2) \<Rightarrow>
                    (case put_request d2 tok full ctype data n of
                       None \<Rightarrow> (Inl (OL_Text (oe_bad_url env (oc_base (od_cfg d2) @ ''/api/fs/put''))), d2)
                     | Some q \<Rightarrow>
                         (case ol_send env q d2 of
                            (Inl e, d3) \<Rightarrow> (Inl (OL_Text e), d3)
                          | (Inr a, d3) \<Rightarrow> (put_reply key n ctype a, d3))))))"

definition stat_type :: ty where
  "stat_type = T_Struct [text_field ''name'', int_field ''size'', bool_field ''is_dir'', text_field ''modified'']"

definition stat_time :: "gv \<Rightarrow> time" where
  "stat_time w =
     (let s = str_at [''modified''] w in
      if s = [] then zero_time else case parse_rfc3339 s of None \<Rightarrow> zero_time | Some t \<Rightarrow> t)"

definition says_not_found :: "string \<Rightarrow> bool" where
  "says_not_found s = contains (to_lower s) ''not found''"

definition ol_head :: "ol_env \<Rightarrow> string \<Rightarrow> ol \<Rightarrow> (ol_error + obj_info) \<times> ol" where
  "ol_head env key d =
     (case full_path d key of
        Inl e \<Rightarrow> (Inl (OL_Store e), d)
      | Inr full \<Rightarrow>
          (let (r, d') = ol_call env ''POST'' ''/api/fs/stat'' (path_body full) (Some stat_type) (zero_value stat_type) d;
               st = lr_out r; n = int_at [''size''] st
           in (case lr_err r of
                 Some e \<Rightarrow> Inl (if says_not_found (lr_msg r) \<or> says_not_found e then OL_Store Obj_Not_Found else OL_Text e)
               | None \<Rightarrow>
                   if lr_code r = 200 \<and> bool_at [''is_dir''] st then Inl (OL_Store Obj_Not_Found)
                   else Inr \<lparr>ob_key = key, ob_size = n,
                     ob_etag = [CHR 0x22] @ date_digits (stat_time st) @ clock_digits (stat_time st) @ ''-'' @ itoa n @ [CHR 0x22],
                     ob_content_type = []\<rparr>, d')))"

definition get_type :: ty where
  "get_type = T_Struct [text_field ''name'', int_field ''size'', bool_field ''is_dir'', text_field ''modified'',
     text_field ''sign'', text_field ''raw_url'']"

definition raw_url :: "ol_env \<Rightarrow> string \<Rightarrow> ol \<Rightarrow> (string + string) \<times> ol" where
  "raw_url env full d =
     (let c = od_cfg d;
          body = Json_Payload (J_Obj ((if oc_dir_pass c = [] then [] else [(''password'', J_Str (utf8_fix (oc_dir_pass c)))]) @
            [(''path'', J_Str (utf8_fix full))]));
          (r, d') = ol_call env ''POST'' ''/api/fs/get'' body (Some get_type) (zero_value get_type) d;
          u = str_at [''raw_url''] (lr_out r); sign = str_at [''sign''] (lr_out r)
      in (case lr_err r of
            Some e \<Rightarrow> Inl e
          | None \<Rightarrow> Inr (if u \<noteq> [] then u else oc_base c @ ''/d'' @ full @ (if sign = [] then [] else ''?sign='' @ sign)), d'))"

definition ol_presign_get :: "ol_env \<Rightarrow> string \<Rightarrow> ol \<Rightarrow> (ol_error + string) \<times> ol" where
  "ol_presign_get env key d =
     (case full_path d key of
        Inl e \<Rightarrow> (Inl (OL_Store e), d)
      | Inr full \<Rightarrow>
          (case raw_url env full d of (Inl e, d') \<Rightarrow> (Inl (OL_Text e), d') | (Inr u, d') \<Rightarrow> (Inr u, d')))"

definition ol_get :: "ol_env \<Rightarrow> string \<Rightarrow> ol \<Rightarrow> (ol_error + upstream_answer) \<times> ol" where
  "ol_get env key d =
     (case full_path d key of
        Inl e \<Rightarrow> (Inl (OL_Store e), d)
      | Inr full \<Rightarrow>
          (case raw_url env full d of
             (Inl e, d1) \<Rightarrow> (Inl (if says_not_found e then OL_Store Obj_Not_Found else OL_Text e), d1)
           | (Inr u, d1) \<Rightarrow>
               (case new_request ''GET'' u of
                  None \<Rightarrow> (Inl (OL_Text (oe_bad_url env u)), d1)
                | Some q \<Rightarrow>
                    (case ol_send env \<lparr>lq_out = q, lq_payload = No_Payload\<rparr> d1 of
                       (Inl e, d2) \<Rightarrow> (Inl (OL_Text e), d2)
                     | (Inr a, d2) \<Rightarrow>
                         (if ua_status a = 404 then Inl (OL_Store Obj_Not_Found)
                          else if 400 \<le> ua_status a
                          then Inl (OL_Text (''openlist: get '' @ key @ '': HTTP '' @ itoa (int (ua_status a))))
                          else Inr a, d2)))))"

definition ol_delete :: "ol_env \<Rightarrow> string \<Rightarrow> ol \<Rightarrow> ol_error option \<times> ol" where
  "ol_delete env key d =
     (case full_path d key of
        Inl e \<Rightarrow> (Some (OL_Store e), d)
      | Inr full \<Rightarrow>
          (let body = Json_Payload (J_Obj [(''dir'', J_Str (utf8_fix (path_dir full))),
                 (''names'', J_Arr [J_Str (utf8_fix (path_base full))])]);
               (r, d') = ol_call env ''POST'' ''/api/fs/remove'' body None (V_Struct []) d
           in (map_option OL_Text (lr_err r), d')))"

definition ol_ping :: "ol_env \<Rightarrow> ol \<Rightarrow> string option \<times> ol" where
  "ol_ping env d = (let (r, d') = ol_call env ''POST'' ''/api/me'' No_Payload None (V_Struct []) d in (lr_err r, d'))"

section \<open>What a call sends\<close>

text \<open>At most \<open>n\<close> more requests, all to the base URL; the settings stay.\<close>

definition sends :: "nat \<Rightarrow> ol \<Rightarrow> ol \<Rightarrow> bool" where
  "sends n d d' \<longleftrightarrow> od_cfg d' = od_cfg d \<and>
     (\<exists>qs. od_log d' = od_log d @ qs \<and> length qs \<le> n \<and>
        (\<forall>q \<in> set qs. has_prefix (or_url (lq_out q)) (oc_base (od_cfg d))))"

lemma sends_refl: "od_cfg d' = od_cfg d \<Longrightarrow> od_log d' = od_log d \<Longrightarrow> sends n d d'"
  by (simp add: sends_def)

lemma sends_trans: "sends m d e \<Longrightarrow> sends n e f \<Longrightarrow> m + n \<le> k \<Longrightarrow> sends k d f"
  unfolding sends_def by (elim conjE exE) (rule conjI, simp, rule exI [of _ "_ @ _"], auto)

lemma sends_token [simp]: "sends n d (e\<lparr>od_token := tok\<rparr>) = sends n d e"
  by (simp add: sends_def)

lemma call_with_sends:
  assumes "call_with env tok meth path body t v d = (r, d')"
  shows "sends 1 d d'" and "od_token d' = od_token d"
proof -
  have *: "sends 1 d d' \<and> od_token d' = od_token d"
  proof (cases "call_request d tok meth path body")
    case None
    then show ?thesis using assms by (auto simp: call_with_def sends_refl)
  next
    case (Some q)
    have "or_url (lq_out q) = oc_base (od_cfg d) @ path"
      using Some by (auto simp: call_request_def dest: new_request_url)
    moreover have "d' = d\<lparr>od_log := od_log d @ [q]\<rparr>"
      using assms Some by (auto simp: call_with_def ol_send_def split: sum.splits option.splits)
    ultimately show ?thesis by (auto simp: sends_def)
  qed
  then show "sends 1 d d'" "od_token d' = od_token d" by simp_all
qed

lemma login_sends: "login env d = (e, d') \<Longrightarrow> sends 1 d d'"
  by (auto simp: login_def Let_def sends_refl dest: call_with_sends split: if_splits prod.splits option.splits)

lemma login_token: "login env d = (None, d') \<Longrightarrow> od_token d' \<noteq> []"
  by (auto simp: login_def Let_def split: if_splits prod.splits option.splits)

lemma auth_token_sends: "auth_token env d = (r, d') \<Longrightarrow> sends 1 d d'"
  by (auto simp: auth_token_def sends_refl dest: login_sends split: if_splits prod.splits option.splits)

text \<open>
  The session of the OpenList driver. A call sends at most four requests, all to the base URL: a login, the request, and once
  more a login and the request when the server refuses the token. With a configured token it sends at most one and never
  logs in. Without token and user it sends nothing and fails.
\<close>

theorem openlist_calls:
  assumes "ol_call env meth path body t v d = (r, d')"
  shows "sends 4 d d' \<and>
    (oc_token (od_cfg d) \<noteq> [] \<longrightarrow> sends 1 d d' \<and> od_token d' = (if od_token d = [] then oc_token (od_cfg d) else od_token d)) \<and>
    (oc_token (od_cfg d) = [] \<and> oc_user (od_cfg d) = [] \<and> od_token d = [] \<longrightarrow> d' = d \<and> lr_err r \<noteq> None)"
proof -
  obtain tk d0 where a: "auth_token env d = (tk, d0)" by force
  note a1 = auth_token_sends [OF a]
  show ?thesis
  proof (cases tk)
    case (Inl e)
    then have d': "d' = d0" "lr_err r = Some e" using assms a by (auto simp: ol_call_def)
    have "oc_token (od_cfg d) = []" "od_token d = []" using a Inl by (auto simp: auth_token_def split: if_splits)
    moreover have "oc_user (od_cfg d) = [] \<Longrightarrow> d0 = d"
      using a calculation by (auto simp: auth_token_def login_def)
    ultimately show ?thesis using sends_trans [OF a1 sends_refl [OF refl refl], of 0 4] d' by simp
  next
    case (Inr tok)
    obtain r1 d1 where c: "call_with env tok meth path body t v d0 = (r1, d1)" by force
    note c1 = call_with_sends [OF c]
    have s2: "sends 2 d d1" by (rule sends_trans [OF a1 c1(1)]) simp
    have cfg: "od_cfg d0 = od_cfg d" "od_cfg d1 = od_cfg d" using a1 s2 by (simp_all add: sends_def)
    have four: "sends 4 d d'"
    proof (cases "refused r1 \<and> oc_token (od_cfg d1) = []")
      case False
      then have "d' = d1" using assms a Inr c by (auto simp: ol_call_def Let_def)
      then show ?thesis using sends_trans [OF s2 sends_refl [OF refl refl], of 0 4] by simp
    next
      case True
      obtain e d2 where l: "login env d1 = (e, d2)" by force
      have s3: "sends 3 d d2" by (rule sends_trans [OF s2 login_sends [OF l]]) simp
      show ?thesis
      proof (cases e)
        case (Some x)
        then have "d' = d2" using assms a Inr c True l by (auto simp: ol_call_def Let_def)
        then show ?thesis using sends_trans [OF s3 sends_refl [OF refl refl], of 0 4] by simp
      next
        case None
        from login_token [OF l [unfolded None]] have at: "auth_token env d2 = (Inr (od_token d2), d2)"
          by (simp add: auth_token_def)
        then have "call_with env (od_token d2) meth path body t (lr_out r1) d2 = (r, d')"
          using assms a Inr c True l None by (simp add: ol_call_def Let_def)
        from sends_trans [OF s3 call_with_sends(1) [OF this]] show ?thesis by simp
      qed
    qed
    have cfgd: "oc_token (od_cfg d) \<noteq> [] \<Longrightarrow> d0 = d \<and> od_token d \<noteq> [] \<or> d0 = d\<lparr>od_token := oc_token (od_cfg d)\<rparr> \<and> od_token d = []"
      using a by (auto simp: auth_token_def split: if_splits)
    have one: "sends 1 d d' \<and> od_token d' = (if od_token d = [] then oc_token (od_cfg d) else od_token d)"
      if t: "oc_token (od_cfg d) \<noteq> []"
    proof -
      have "d' = d1" using assms a Inr c t cfg by (auto simp: ol_call_def Let_def)
      moreover have "sends 0 d d0" using cfgd [OF t] by (auto simp: sends_refl)
      from sends_trans [OF this c1(1)] have "sends 1 d d1" by simp
      ultimately show ?thesis using cfgd [OF t] c1(2) by auto
    qed
    have "\<not> (oc_token (od_cfg d) = [] \<and> oc_user (od_cfg d) = [] \<and> od_token d = [])"
      using a Inr by (auto simp: auth_token_def login_def)
    with four one show ?thesis by blast
  qed
qed

definition sample_ol :: ol where
  "sample_ol = ol_driver \<lparr>oc_base = ''http://o'', oc_token = ''T'', oc_user = [], oc_pass = [], oc_root = ''/c'', oc_dir_pass = []\<rparr>"

definition sample_ol_env :: ol_env where
  "sample_ol_env = \<lparr>oe_server = (\<lambda>qs. Inr \<lparr>ua_status = 401, ua_header = [], ua_body = [], ua_ok = True\<rparr>),
     oe_bad_url = (\<lambda>u. []), oe_broken = [], oe_bad_data = (\<lambda>j. [])\<rparr>"

theorem openlist_calls_witness:
  "\<exists>r d'. ol_call sample_ol_env ''POST'' ''/api/me'' No_Payload None (V_Struct []) sample_ol = (r, d') \<and>
     sends 1 sample_ol d' \<and> od_token d' = ''T''"
proof -
  obtain r d' where c: "ol_call sample_ol_env ''POST'' ''/api/me'' No_Payload None (V_Struct []) sample_ol = (r, d')" by force
  have "oc_token (od_cfg sample_ol) = ''T''" "od_token sample_ol = []" by (simp_all add: sample_ol_def ol_driver_def)
  with openlist_calls [OF c] c show ?thesis by auto
qed

text \<open>A page that is no envelope passes for a reply without data: an object of size 0 is then reported.\<close>

lemma head_of_page:
  assumes "validate_key key = None" "od_token d \<noteq> []" "url_parse (oc_base (od_cfg d) @ ''/api/fs/stat'') \<noteq> None"
    and "\<And>qs. oe_server env qs = Inr \<lparr>ua_status = 200, ua_header = [], ua_body = b, ua_ok = True\<rparr>" "open_envelope (take (2 ^ 20) b) = None"
  shows "\<exists>ob. fst (ol_head env key d) = Inr ob \<and> ob_key ob = key \<and> ob_size ob = 0"
proof -
  have n: "new_request ''POST'' (oc_base (od_cfg d) @ ''/api/fs/stat'') \<noteq> None" using assms(3) by (simp add: new_request_def)
  obtain q where q: "call_request d (od_token d) ''POST'' ''/api/fs/stat'' (path_body (path_join [oc_root (od_cfg d), key])) = Some q"
    using n by (auto simp: call_request_def)
  have z: "int_at [''size''] (zero_value stat_type) = 0" "\<not> bool_at [''is_dir''] (zero_value stat_type)" by code_simp+
  show ?thesis
    using assms(1,2,4,5) q z
    by (simp add: ol_head_def full_path_def ol_call_def auth_token_def call_with_def ol_send_def read_limited_def ol_result_def
        refused_def Let_def)
qed

end
