(* ===== verification/Executor.thy ===== *)
theory Executor
  imports Engine Ssrf UrlText
begin

text \<open>
  The builtin executor (\<open>internal/transfer/executor/executor.go\<close>), which fetches artifacts from their origins: its
  defaults, the way a request takes out of the server (guarded dialer, upstream proxy, or straight), the classification
  of hosts with its memory, redirects, one attempt over a directory of files, and the loop of retries. What the network, the
  random name of a temporary file and the file system answer is an argument per attempt.
\<close>

section \<open>Configuration\<close>

record exec_cfg =
  ex_policy :: "policy option"
  ex_retries :: int
  ex_max_bytes :: int
  ex_timeout :: duration
  ex_user_agent :: string
  ex_max_redirects :: int
  ex_upstream :: string

definition new_builtin :: "exec_cfg \<Rightarrow> exec_cfg" where
  "new_builtin c =
     c\<lparr>ex_retries := (if ex_retries c \<le> 0 then 3 else ex_retries c),
       ex_timeout := (if ex_timeout c \<le> 0 then 10 * minute else ex_timeout c),
       ex_user_agent := (if ex_user_agent c = [] then ''dldw-server/1.0 (+https://dldw.example.com)'' else ex_user_agent c),
       ex_max_redirects := (if ex_max_redirects c = 0 then 10 else ex_max_redirects c),
       ex_policy := Some (case ex_policy c of None \<Rightarrow> public_policy | Some p \<Rightarrow> p)\<rparr>"

definition exec_policy :: "exec_cfg \<Rightarrow> policy" where
  "exec_policy c = (case ex_policy c of None \<Rightarrow> public_policy | Some p \<Rightarrow> p)"

section \<open>Ways out\<close>

definition private_ip :: "ip \<Rightarrow> bool" where
  "private_ip a \<longleftrightarrow> is_loopback a \<or> is_private a \<or> is_link_local_unicast a"

definition local_name :: "string \<Rightarrow> bool" where
  "local_name h \<longleftrightarrow> h = ''host.docker.internal'' \<or> h = ''localhost'' \<or> has_suffix h ''.local'' \<or> has_suffix h ''.internal'' \<or>
     has_suffix h ''.lan'' \<or> has_suffix h ''.home''"

text \<open>\<open>hostClassCache.isPrivate\<close>: the answer and the memory afterwards; a failed lookup is \<open>None\<close>.\<close>

definition host_private ::
    "(string \<Rightarrow> string list option) \<Rightarrow> string \<Rightarrow> (string, bool) gomap \<Rightarrow> bool \<times> (string, bool) gomap" where
  "host_private lookup host known =
     (if parse_ip host \<noteq> [] then (private_ip (parse_ip host), known)
      else if local_name host then (True, known)
      else case mget known host of
        Some v \<Rightarrow> (v, known)
      | None \<Rightarrow>
          (let v = (case lookup host of
                      None \<Rightarrow> False
                    | Some as \<Rightarrow> list_ex (\<lambda>a. parse_ip a \<noteq> [] \<and> private_ip (parse_ip a)) as)
           in (v, mput host v known)))"

text \<open>How a connection to a host is made: by the dialer that checks every address, through the proxy, or by a plain
  dialer without any check.\<close>

datatype way = Guarded | Via_Proxy url | Unguarded

definition way_out ::
    "exec_cfg \<Rightarrow> (string \<Rightarrow> string list option) \<Rightarrow> string \<Rightarrow> (string, bool) gomap \<Rightarrow> way \<times> (string, bool) gomap" where
  "way_out c lookup host known =
     (if ex_upstream c = [] then (Guarded, known)
      else case url_parse (ex_upstream c) of
        None \<Rightarrow> (Unguarded, known)
      | Some pu \<Rightarrow>
          if u_scheme pu \<noteq> ''http'' \<and> u_scheme pu \<noteq> ''https'' then (Unguarded, known)
          else
            (let (priv, known') = host_private lookup host known
             in (if priv then Unguarded else Via_Proxy pu, known')))"

definition check_redirect :: "exec_cfg \<Rightarrow> nat \<Rightarrow> string \<Rightarrow> bool" where
  "check_redirect c via scheme \<longleftrightarrow> int via < ex_max_redirects c \<and> scheme \<in> {''http'', ''https''}"

text \<open>The schemes of the redirects in their order; \<open>via\<close> counts the requests made so far.\<close>

fun follow :: "exec_cfg \<Rightarrow> nat \<Rightarrow> string list \<Rightarrow> bool" where
  "follow c via [] = True"
| "follow c via (s # ss) = (check_redirect c via s \<and> follow c (Suc via) ss)"

section \<open>Names\<close>

definition file_char :: "char \<Rightarrow> bool" where
  "file_char c \<longleftrightarrow> is_lower c \<or> is_upper c \<or> is_digit c \<or> c \<in> set ''.-_''"

definition sanitize_filename :: "string \<Rightarrow> string" where
  "sanitize_filename name =
     (let out = trim_left_set (clean_runes file_char (path_base (map (\<lambda>c. if c = CHR 0x5C then CHR ''/'' else c) name))) ''.''
      in if 128 < length out then drop (length out - 128) out else out)"

definition artifact_name :: "string \<Rightarrow> string" where
  "artifact_name hint = (if sanitize_filename hint = [] then ''artifact.bin'' else sanitize_filename hint)"

definition sanitize_url_for_log :: "string \<Rightarrow> string" where
  "sanitize_url_for_log u = (case index_byte u CHR ''?'' of None \<Rightarrow> u | Some i \<Rightarrow> take i u @ ''?...'')"

section \<open>Progress\<close>

record progress =
  pg_read :: int
  pg_total :: int
  pg_last :: time

text \<open>\<open>progressReader\<close>: what one \<open>Read\<close> of \<open>n\<close> bytes at a time reports, and the report of \<open>close\<close>.\<close>

definition progress_read :: "int \<Rightarrow> time \<Rightarrow> progress \<Rightarrow> progress \<times> (int \<times> int) option" where
  "progress_read n now p =
     (let p' = p\<lparr>pg_read := pg_read p + n\<rparr> in
      if second < time_sub now (pg_last p) then (p'\<lparr>pg_last := now\<rparr>, Some (pg_read p', pg_total p')) else (p', None))"

definition progress_close :: "progress \<Rightarrow> int \<times> int" where
  "progress_close p = (pg_read p, pg_total p)"

section \<open>One attempt\<close>

datatype exec_error =
    Not_A_Directory
  | Invalid_URL
  | Refused_Port ssrf_error
  | Request_Failed
  | Status nat string
  | No_Temp_File
  | Copy_Failed
  | Too_Big int
  | Close_Failed
  | Rename_Failed
  | Cancelled
  | Exhausted "exec_error option"

text \<open>
  Which errors are tried again: the ones that wrap \<open>ErrRetryable\<close>, and all that are a \<open>net.Error\<close>. An unparsable
  URL is one (\<open>*url.Error\<close>), and so is every error that wraps an error number of the operating system.
\<close>

fun retryable :: "exec_error \<Rightarrow> bool" where
  "retryable Request_Failed = True"
| "retryable (Status s u) = (500 \<le> s \<or> s = 429)"
| "retryable Copy_Failed = True"
| "retryable Invalid_URL = True"
| "retryable No_Temp_File = True"
| "retryable Close_Failed = True"
| "retryable Rename_Failed = True"
| "retryable _ = False"

text \<open>The answer after all redirects; \<open>an_broken\<close> says that copying it breaks off behind \<open>an_body\<close>.\<close>

record answer =
  an_status :: nat
  an_body :: "byte list"
  an_broken :: bool
  an_etag :: string
  an_ctype :: string

datatype exchange = No_Answer | Answered "string list" answer

record attempt_io =
  ai_cancelled :: bool
  ai_exchange :: exchange
  ai_temp :: "string option"
  ai_close :: bool
  ai_rename :: bool

type_synonym dir = "(string, byte list) gomap"

definition request_port :: "url \<Rightarrow> int" where
  "request_port u =
     (let d = (if u_scheme u = ''https'' then 443 else 80) in
      if url_port u = [] then d else case atoi (url_port u) of Some n \<Rightarrow> n | None \<Rightarrow> d)"

definition temp_name :: "string \<Rightarrow> string \<Rightarrow> string" where
  "temp_name random name = ''.fetch-'' @ random @ ''-'' @ name"

text \<open>What is copied, and whether copying fails: the reader stops one byte behind the limit, an int64 that wraps.\<close>

definition copied :: "int \<Rightarrow> answer \<Rightarrow> byte list \<times> bool" where
  "copied limit a =
     (let stop = (if limit = max_int64 then min_int64 else limit + 1) in
      if 0 < limit \<and> stop \<le> int (length (an_body a)) then (take (nat stop) (an_body a), False)
      else (an_body a, an_broken a))"

definition save_answer :: "exec_cfg \<Rightarrow> string \<Rightarrow> string \<Rightarrow> attempt_io \<Rightarrow> answer \<Rightarrow> dir \<Rightarrow> dir \<times> (exec_error + fetched)" where
  "save_answer c dest name io a fs =
     (case ai_temp io of
        None \<Rightarrow> (fs, Inl No_Temp_File)
      | Some random \<Rightarrow>
          (let tmp = temp_name random name; (body, broken) = copied (ex_max_bytes c) a; fs1 = mput tmp body fs in
           if broken then (fs1, Inl Copy_Failed)
           else if 0 < ex_max_bytes c \<and> ex_max_bytes c < int (length body) then (fs1, Inl (Too_Big (ex_max_bytes c)))
           else if \<not> ai_close io then (fs1, Inl Close_Failed)
           else if \<not> ai_rename io then (mdel tmp fs1, Inl Rename_Failed)
           else (mput name body (mdel tmp fs1),
             Inr \<lparr>fr_local_path = path_join [dest, name], fr_size = int (length body),
                  fr_sha256 = hex_encode (map unat (sha256 body)), fr_etag = trim_set (an_etag a) [CHR 0x22],
                  fr_content_type = an_ctype a\<rparr>)))"

definition fetch_once ::
    "exec_cfg \<Rightarrow> string \<Rightarrow> string \<Rightarrow> string \<Rightarrow> attempt_io \<Rightarrow> dir \<Rightarrow> dir \<times> (exec_error + fetched)" where
  "fetch_once c dest raw hint io fs =
     (case url_parse raw of
        None \<Rightarrow> (fs, Inl Invalid_URL)
      | Some u \<Rightarrow>
          case (if ex_upstream c \<noteq> [] then check_port (exec_policy c) (request_port u) else None) of
            Some e \<Rightarrow> (fs, Inl (Refused_Port e))
          | None \<Rightarrow>
              (case ai_exchange io of
                 No_Answer \<Rightarrow> (fs, Inl Request_Failed)
               | Answered hops a \<Rightarrow>
                   if \<not> follow c 1 hops then (fs, Inl Request_Failed)
                   else if an_status a div 100 \<noteq> 2 then (fs, Inl (Status (an_status a) (sanitize_url_for_log (url_string u))))
                   else save_answer c dest (artifact_name hint) io a fs))"

section \<open>Retries\<close>

text \<open>\<open>k\<close> attempts are left, \<open>n\<close> were made; the pause before an attempt can be cut short by the context.\<close>

fun fetch_loop ::
    "exec_cfg \<Rightarrow> string \<Rightarrow> string \<Rightarrow> string \<Rightarrow> (nat \<Rightarrow> attempt_io) \<Rightarrow> nat \<Rightarrow> nat \<Rightarrow> exec_error option \<Rightarrow> dir \<Rightarrow>
     dir \<times> (exec_error + fetched)" where
  "fetch_loop c dest raw hint io 0 n err fs = (fs, Inl (Exhausted err))"
| "fetch_loop c dest raw hint io (Suc k) n err fs =
     (if 0 < n \<and> ai_cancelled (io n) then (fs, Inl Cancelled)
      else case fetch_once c dest raw hint (io n) fs of
        (fs', Inr r) \<Rightarrow> (fs', Inr r)
      | (fs', Inl e) \<Rightarrow>
          if retryable e then fetch_loop c dest raw hint io k (Suc n) (Some e) fs' else (fs', Inl e))"

definition fetch ::
    "exec_cfg \<Rightarrow> bool \<Rightarrow> string \<Rightarrow> string \<Rightarrow> string \<Rightarrow> (nat \<Rightarrow> attempt_io) \<Rightarrow> dir \<Rightarrow> dir \<times> (exec_error + fetched)" where
  "fetch c mkdir dest raw hint io fs =
     (if \<not> mkdir then (fs, Inl Not_A_Directory)
      else fetch_loop c dest raw hint io (nat (ex_retries c + 1)) 0 None fs)"

section \<open>Which way requests leave\<close>

lemma private_refused: "private_ip a \<Longrightarrow> pol_block_private p \<Longrightarrow> \<not> pol_allow_loopback p \<Longrightarrow> check_ip p a \<noteq> None"
  using not_blocked_classes [of a] by (auto simp: private_ip_def check_ip_def Let_def)


definition sample_exec :: "string \<Rightarrow> exec_cfg" where
  "sample_exec up = new_builtin \<lparr>ex_policy = None, ex_retries = 0, ex_max_bytes = 4, ex_timeout = 0, ex_user_agent = [],
     ex_max_redirects = 0, ex_upstream = up\<rparr>"


section \<open>Names inside the directory\<close>

lemma clean_file_chars: "c \<in> set (clean_runes file_char s) \<Longrightarrow> file_char c"
  using clean_runes_chars [of file_char s] by (simp add: file_char_def list_all_iff)

lemma sanitized:
  "set (sanitize_filename h) \<subseteq> Collect file_char \<and> length (sanitize_filename h) \<le> 128 \<and> sanitize_filename h \<notin> {''.'', ''..''}"
proof -
  define s where "s = trim_left_set (clean_runes file_char (path_base (map (\<lambda>c. if c = CHR 0x5C then CHR ''/'' else c) h))) ''.''"
  have n: "sanitize_filename h = (if 128 < length s then drop (length s - 128) s else s)"
    by (simp add: sanitize_filename_def s_def Let_def)
  have "set s \<subseteq> Collect file_char"
    unfolding s_def trim_left_set_def using clean_file_chars set_dropWhileD by fastforce
  moreover have "s \<notin> {''.'', ''..''}"
  proof
    assume "s \<in> {''.'', ''..''}"
    then have "s \<noteq> [] \<and> hd s = CHR ''.''" by auto
    then show False unfolding s_def using trim_left_hd [of _ "''.''"] by (metis list.set_intros(1))
  qed
  moreover have "set (drop (length s - 128) s) \<subseteq> set s" by (rule set_drop_subset)
  moreover have "length (drop (length s - 128) s) = 128" if "128 < length s" using that by simp
  moreover have "x \<notin> {''.'', ''..''}" if "length x = 128" for x :: string using that by auto
  ultimately show ?thesis unfolding n by (cases "128 < length s") auto
qed

lemma artifact_name_ok:
  "artifact_name h \<notin> {[], ''.'', ''..''} \<and> CHR ''/'' \<notin> set (artifact_name h) \<and> length (artifact_name h) \<le> 128"
proof -
  have "\<not> file_char (CHR ''/'')" by (simp add: file_char_def char_class_defs)
  with sanitized [of h] show ?thesis by (auto simp: artifact_name_def)
qed

section \<open>What is fetched\<close>

lemma temp_name_other: "temp_name r name \<noteq> name"
proof
  assume "temp_name r name = name"
  from arg_cong [OF this, of length] show False by (simp add: temp_name_def)
qed

lemma save_answer_ok:
  assumes "save_answer c dest name io a fs = (fs', Inr r)" "ex_max_bytes c < max_int64"
  shows "mget fs' name = Some (an_body a) \<and> \<not> an_broken a \<and>
    (0 < ex_max_bytes c \<longrightarrow> int (length (an_body a)) \<le> ex_max_bytes c) \<and>
    fr_local_path r = path_join [dest, name] \<and> fr_size r = int (length (an_body a)) \<and>
    fr_sha256 r = hex_encode (map unat (sha256 (an_body a)))"
proof -
  obtain body broken where b: "copied (ex_max_bytes c) a = (body, broken)" by (cases "copied (ex_max_bytes c) a")
  have f: "\<not> broken" "\<not> (0 < ex_max_bytes c \<and> ex_max_bytes c < int (length body))"
      "mget fs' name = Some body" "fr_local_path r = path_join [dest, name]" "fr_size r = int (length body)"
      "fr_sha256 r = hex_encode (map unat (sha256 body))"
    using assms(1) b by (auto simp: save_answer_def Let_def split: option.splits if_splits)
  have "\<not> (0 < ex_max_bytes c \<and> ex_max_bytes c + 1 \<le> int (length (an_body a)))"
    using f(2) b assms(2) by (auto simp: copied_def Let_def split: if_splits)
  then have "body = an_body a \<and> broken = an_broken a" using b assms(2) by (auto simp: copied_def Let_def split: if_splits)
  with f show ?thesis by auto
qed

lemma fetch_once_ok:
  assumes "fetch_once c dest raw hint io fs = (fs', Inr r)"
  obtains hops a where "ai_exchange io = Answered hops a" "follow c 1 hops" "an_status a div 100 = 2"
    "save_answer c dest (artifact_name hint) io a fs = (fs', Inr r)"
  using assms by (auto simp: fetch_once_def split: option.splits exchange.splits if_splits)

lemma fetch_loop_ok:
  "fetch_loop c dest raw hint io k n err fs = (fs', Inr r) \<Longrightarrow>
   \<exists>m fs1. n \<le> m \<and> m < n + k \<and> fetch_once c dest raw hint (io m) fs1 = (fs', Inr r)"
proof (induction c dest raw hint io k n err fs rule: fetch_loop.induct)
  case (2 c dest raw hint io k n err fs)
  obtain fs1 q where o: "fetch_once c dest raw hint (io n) fs = (fs1, q)" by (cases "fetch_once c dest raw hint (io n) fs")
  have nc: "\<not> (0 < n \<and> ai_cancelled (io n))" using "2.prems" by auto
  show ?case
  proof (cases q)
    case (Inl e)
    then have l: "retryable e" "fetch_loop c dest raw hint io k (Suc n) (Some e) fs1 = (fs', Inr r)"
      using "2.prems" nc o by (auto split: if_splits)
    then obtain m fs2 where "Suc n \<le> m \<and> m < Suc n + k \<and> fetch_once c dest raw hint (io m) fs2 = (fs', Inr r)"
      using "2.IH" [OF nc o [symmetric] Inl l] by blast
    then show ?thesis by (intro exI [of _ m] exI [of _ fs2]) auto
  next
    case (Inr r')
    then have "fetch_once c dest raw hint (io n) fs = (fs', Inr r)" using "2.prems" nc o by (auto split: if_splits)
    then show ?thesis by (intro exI [of _ n] exI [of _ fs]) auto
  qed
qed simp


definition sample_answer :: "bool \<Rightarrow> answer" where
  "sample_answer broken = \<lparr>an_status = 200, an_body = [1, 2, 3], an_broken = broken, an_etag = [], an_ctype = []\<rparr>"

definition sample_io :: "bool \<Rightarrow> nat \<Rightarrow> attempt_io" where
  "sample_io broken n = \<lparr>ai_cancelled = False, ai_exchange = Answered [] (sample_answer broken), ai_temp = Some (nat_str n),
     ai_close = True, ai_rename = True\<rparr>"

lemma sample_fetch:
  "\<exists>fs' r. fetch (sample_exec []) True ''/tmp'' ''http://h/x'' ''x'' (sample_io False) [] = (fs', Inr r)"
proof -
  have u: "url_parse ''http://h/x'' \<noteq> None" by code_simp
  have c: "ex_retries (sample_exec []) = 3" "ex_upstream (sample_exec []) = []" "ex_max_bytes (sample_exec []) = 4"
    by (simp_all add: sample_exec_def new_builtin_def)
  have four: "nat (3 + 1) = Suc 3" by simp
  show ?thesis
    unfolding fetch_def c four fetch_loop.simps
    using u by (auto simp: c fetch_once_def sample_io_def sample_answer_def save_answer_def copied_def Let_def
        max_int64_def)
qed


section \<open>What failed fetches leave\<close>

lemma fetch_loop_broken:
  assumes "url_parse raw \<noteq> None" "ex_upstream c = []" "ex_max_bytes c \<le> 0" "an_status a div 100 = 2" "an_broken a"
    and "\<And>n. ai_exchange (io n) = Answered [] a \<and> ai_temp (io n) = Some (rnd n) \<and> \<not> ai_cancelled (io n)"
  shows "fetch_loop c dest raw hint io k n err fs =
     (fold (\<lambda>n. mput (temp_name (rnd n) (artifact_name hint)) (an_body a)) [n..<n + k] fs,
      Inl (Exhausted (if k = 0 then err else Some Copy_Failed)))"
proof (induction k arbitrary: n err fs)
  case (Suc k)
  have "fetch_once c dest raw hint (io n) fs =
      (mput (temp_name (rnd n) (artifact_name hint)) (an_body a) fs, Inl Copy_Failed)"
    using assms by (auto simp: fetch_once_def save_answer_def copied_def Let_def)
  moreover have "[n..<n + Suc k] = n # [Suc n..<Suc n + k]" by (subst upt_conv_Cons) simp_all
  ultimately show ?case using Suc assms(6) by simp
qed simp

text \<open>
  C31. Failed copies stay on disk. When the body of the answer breaks off in every attempt, the fetch gives up after
  one attempt more than the configured retries, four with the default, and the directory then holds the temporary
  file of each of them: the deferred removal is disabled on that path.
\<close>

theorem broken_fetch_leaves_files:
  assumes "url_parse raw \<noteq> None" "ex_upstream c = []" "ex_max_bytes c \<le> 0" "0 \<le> ex_retries c"
    and "an_status a div 100 = 2" "an_broken a"
    and "\<And>n. ai_exchange (io n) = Answered [] a \<and> ai_temp (io n) = Some (rnd n) \<and> \<not> ai_cancelled (io n)"
  shows "fetch c True dest raw hint io fs =
     (fold (\<lambda>n. mput (temp_name (rnd n) (artifact_name hint)) (an_body a)) [0..<nat (ex_retries c + 1)] fs,
      Inl (Exhausted (Some Copy_Failed)))"
  using fetch_loop_broken [OF assms(1-3,5,6), of io rnd dest hint "nat (ex_retries c + 1)" 0 None fs] assms(4,7)
  by (simp add: fetch_def)

theorem broken_fetch_leaves_files_witness:
  "map fst (fst (fetch ((sample_exec [])\<lparr>ex_max_bytes := 0\<rparr>) True ''/tmp'' ''http://h/x'' ''x'' (sample_io True) [])) =
     [''.fetch-0-x'', ''.fetch-1-x'', ''.fetch-2-x'', ''.fetch-3-x'']"
proof -
  let ?c = "(sample_exec [])\<lparr>ex_max_bytes := 0\<rparr>"
  have u: "url_parse ''http://h/x'' \<noteq> None" by code_simp
  have c: "ex_upstream ?c = []" "ex_max_bytes ?c \<le> 0" "0 \<le> ex_retries ?c" "nat (ex_retries ?c + 1) = 4"
    by (simp_all add: sample_exec_def new_builtin_def)
  have n: "artifact_name ''x'' = ''x''" by code_simp
  have "fetch ?c True ''/tmp'' ''http://h/x'' ''x'' (sample_io True) [] =
     (fold (\<lambda>n. mput (temp_name (nat_str n) (artifact_name ''x'')) (an_body (sample_answer True))) [0..<nat (ex_retries ?c + 1)] [],
      Inl (Exhausted (Some Copy_Failed)))"
    by (rule broken_fetch_leaves_files [OF u c(1-3)]) (simp_all add: sample_io_def sample_answer_def)
  moreover have "[0..<4] = [0, 1, 2, 3::nat]" by (simp add: upt_rec)
  moreover have "char_of (48::nat) = CHR ''0''" "char_of (49::nat) = CHR ''1''" "char_of (50::nat) = CHR ''2''"
    "char_of (51::nat) = CHR ''3''" by code_simp+
  ultimately show ?thesis unfolding c(4) n
    by (simp add: mput_def temp_name_def nat_str.simps digit_char_def)
qed

end
