(* ===== verification/Aria2.thy ===== *)
theory Aria2
  imports Codec Executor
begin

text \<open>
  The aria2 executor (\<open>internal/transfer/aria2ctl/aria2ctl.go\<close>): JSON-RPC calls over one connection, the loop that
  polls a download until it is complete, and the result read from the file that aria2 names. The RPC server is a function
  of the bodies of all requests so far, with the last one at the end; clock, context and file system answer from outside.
\<close>

section \<open>Calls\<close>

record aria_cfg =
  ag_url :: string
  ag_secret :: string
  ag_poll_every :: duration
  ag_timeout :: duration

definition new_aria :: "aria_cfg \<Rightarrow> aria_cfg" where
  "new_aria c =
     c\<lparr>ag_poll_every := (if ag_poll_every c \<le> 0 then 500000000 else ag_poll_every c),
       ag_timeout := (if ag_timeout c \<le> 0 then 30 * minute else ag_timeout c)\<rparr>"

text \<open>A call's errors: no answer (or a URL that does not parse), a broken body, a status, a body that is no response, an
  error of aria2, a result that does not fit.\<close>

datatype rpc_error = Rpc_No_Answer | Rpc_Broken | Rpc_Status nat | Rpc_Not_Json | Rpc_Error string string | Rpc_Bad_Result

type_synonym rpc_server = "json list \<Rightarrow> string + upstream_answer"

definition rpc_request :: "string \<Rightarrow> json list \<Rightarrow> json" where
  "rpc_request meth params =
     J_Obj [(''jsonrpc'', J_Str ''2.0''), (''id'', J_Str ''dldw''), (''method'', J_Str (utf8_fix meth)), (''params'', J_Arr params)]"

definition rpc_error_type :: ty where
  "rpc_error_type = T_Struct [int_field ''code'', text_field ''message'']"

text \<open>The response after some members: the last result, the error, and whether a member did not fit.\<close>

record rpc_response =
  rr_result :: "json option"
  rr_error :: "gv option"
  rr_bad :: bool

definition rpc_member :: "string \<times> json \<Rightarrow> rpc_response \<Rightarrow> rpc_response" where
  "rpc_member m r =
     (let (k, j) = m in
      if equal_fold k ''id'' then r\<lparr>rr_bad := (rr_bad r \<or> snd (decode_scalar B_Str (S_Str []) j))\<rparr>
      else if equal_fold k ''result'' then r\<lparr>rr_result := Some j\<rparr>
      else if equal_fold k ''error'' then
        (if j = J_Null then r\<lparr>rr_error := None\<rparr>
         else
           (let (w, e) = decode rpc_error_type (case rr_error r of None \<Rightarrow> zero_value rpc_error_type | Some v \<Rightarrow> v) j
            in r\<lparr>rr_error := Some w, rr_bad := (rr_bad r \<or> e)\<rparr>))
      else r)"

definition read_response :: "string \<Rightarrow> rpc_response option" where
  "read_response b =
     (case parse_json b of
        Some (J_Obj ms) \<Rightarrow>
          (let r = fold rpc_member ms \<lparr>rr_result = None, rr_error = None, rr_bad = False\<rparr>
           in if rr_bad r then None else Some r)
      | Some J_Null \<Rightarrow> Some \<lparr>rr_result = None, rr_error = None, rr_bad = False\<rparr>
      | _ \<Rightarrow> None)"

text \<open>\<open>out\<close> is read by a decoder that says \<open>None\<close> for a value that does not fit; \<open>None\<close> instead of a decoder when the
  caller wants no result.\<close>

definition rpc_answer :: "string \<Rightarrow> (json \<Rightarrow> 'a option) option \<Rightarrow> 'a \<Rightarrow> upstream_answer \<Rightarrow> rpc_error + 'a" where
  "rpc_answer meth out zero a =
     (case read_limited (2 ^ 20) a of
        None \<Rightarrow> Inl Rpc_Broken
      | Some b \<Rightarrow>
          if ua_status a \<noteq> 200 then Inl (Rpc_Status (ua_status a))
          else case read_response b of
            None \<Rightarrow> Inl Rpc_Not_Json
          | Some r \<Rightarrow>
              (case rr_error r of
                 Some e \<Rightarrow> Inl (Rpc_Error (str_at [''message''] e) meth)
               | None \<Rightarrow>
                   (case out of
                      None \<Rightarrow> Inr zero
                    | Some dec \<Rightarrow>
                        (case Option.bind (rr_result r) dec of None \<Rightarrow> Inl Rpc_Bad_Result | Some x \<Rightarrow> Inr x))))"

definition rpc_call ::
    "rpc_server \<Rightarrow> aria_cfg \<Rightarrow> string \<Rightarrow> json list \<Rightarrow> (json \<Rightarrow> 'a option) option \<Rightarrow> 'a \<Rightarrow> json list \<Rightarrow> (rpc_error + 'a) \<times> json list" where
  "rpc_call srv c meth params out zero sent =
     (if url_parse (ag_url c) = None then (Inl Rpc_No_Answer, sent)
      else
        (let sent' = sent @ [rpc_request meth params] in
         (case srv sent' of Inl e \<Rightarrow> Inl Rpc_No_Answer | Inr a \<Rightarrow> rpc_answer meth out zero a, sent')))"

definition rpc_token :: "aria_cfg \<Rightarrow> json list" where
  "rpc_token c = (if ag_secret c = [] then [] else [J_Str (utf8_fix (''token:'' @ ag_secret c))])"

definition json_str :: "json \<Rightarrow> string option" where
  "json_str j = (case j of J_Str s \<Rightarrow> Some s | J_Null \<Rightarrow> Some [] | _ \<Rightarrow> None)"

text \<open>\<open>Version\<close> reads the result of \<open>getVersion\<close> into a text.\<close>

definition aria_version :: "rpc_server \<Rightarrow> aria_cfg \<Rightarrow> json list \<Rightarrow> (rpc_error + string) \<times> json list" where
  "aria_version srv c sent = rpc_call srv c ''aria2.getVersion'' (rpc_token c) (Some json_str) [] sent"

definition aria_healthy :: "rpc_server \<Rightarrow> aria_cfg \<Rightarrow> json list \<Rightarrow> rpc_error option \<times> json list" where
  "aria_healthy srv c sent =
     (let (r, sent') = aria_version srv c sent in (case r of Inl e \<Rightarrow> Some e | Inr v \<Rightarrow> None, sent'))"

section \<open>Downloads\<close>

text \<open>The same sanitizing as in the builtin executor.\<close>

definition aria_name :: "string \<Rightarrow> string" where
  "aria_name hint = artifact_name hint"

definition aria_options :: "string \<Rightarrow> string \<Rightarrow> json" where
  "aria_options dest name =
     J_Obj
       [(''allow-overwrite'', J_Str ''true''), (''auto-file-renaming'', J_Str ''false''), (''dir'', J_Str (utf8_fix dest)),
        (''max-connection-per-server'', J_Str ''8''), (''max-tries'', J_Str ''5''), (''min-split-size'', J_Str ''8M''),
        (''out'', J_Str (utf8_fix name)), (''retry-wait'', J_Str ''2''), (''split'', J_Str ''8''), (''timeout'', J_Str ''60'')]"

definition add_uri_params :: "aria_cfg \<Rightarrow> string \<Rightarrow> string \<Rightarrow> string \<Rightarrow> json list" where
  "add_uri_params c raw dest name =
     rpc_token c @ [J_Arr [J_Arr [J_Str (utf8_fix raw)]], aria_options dest name]"

record aria_status =
  at_status :: string
  at_error_code :: string
  at_error_message :: string
  at_files :: "string list"

definition status_texts :: ty where
  "status_texts = T_Struct
     [text_field ''gid'', text_field ''status'', text_field ''errorCode'', text_field ''errorMessage'', text_field ''totalLength'']"

text \<open>A file of the status: its path, when all its members fit.\<close>

definition uris_fit :: "json \<Rightarrow> bool" where
  "uris_fit j =
     (case j of
        J_Null \<Rightarrow> True
      | J_Arr us \<Rightarrow> list_all (\<lambda>u. case u of J_Null \<Rightarrow> True
          | J_Obj ms \<Rightarrow> list_all (\<lambda>(k, v). \<not> equal_fold k ''uri'' \<or> json_str v \<noteq> None) ms | _ \<Rightarrow> False) us
      | _ \<Rightarrow> False)"

definition file_texts :: ty where
  "file_texts = T_Struct [text_field ''path'', text_field ''length'']"

definition file_path :: "json \<Rightarrow> string option" where
  "file_path j =
     (let (w, bad) = decode file_texts (zero_value file_texts) j in
      if bad \<or> (case j of J_Obj ms \<Rightarrow> \<not> list_all (\<lambda>(k, v). \<not> equal_fold k ''uris'' \<or> uris_fit v) ms | _ \<Rightarrow> False) then None
      else Some (str_at [''path''] w))"

definition file_paths :: "json \<Rightarrow> string list option" where
  "file_paths j = (case j of J_Null \<Rightarrow> Some [] | J_Arr fs \<Rightarrow> those (map file_path fs) | _ \<Rightarrow> None)"

definition read_status :: "json \<Rightarrow> aria_status option" where
  "read_status j =
     (let (w, bad) = decode status_texts (zero_value status_texts) j;
          fs = (case j of J_Obj ms \<Rightarrow> map snd (filter (\<lambda>(k, v). equal_fold k ''files'') ms) | _ \<Rightarrow> [])
      in if bad then None
         else case those (map file_paths fs) of
           None \<Rightarrow> None
         | Some pss \<Rightarrow>
             Some \<lparr>at_status = str_at [''status''] w, at_error_code = str_at [''errorCode''] w,
                   at_error_message = str_at [''errorMessage''] w, at_files = (if pss = [] then [] else last pss)\<rparr>)"

text \<open>The path taken from the status: the last that is given, up to the first that ends in the name.\<close>

fun chosen_path :: "string \<Rightarrow> string \<Rightarrow> string list \<Rightarrow> string" where
  "chosen_path name path [] = path"
| "chosen_path name path (p # ps) =
     (if has_suffix p (CHR ''/'' # name) then p
      else if p \<noteq> [] then chosen_path name p ps
      else chosen_path name path ps)"

datatype aria_error =
    Ag_No_Dir | Ag_Rpc rpc_error | Ag_Cancelled | Ag_Timeout | Ag_Failed string string | Ag_No_Path | Ag_No_File | Ag_No_Open | Ag_Read

text \<open>The file system: what \<open>Stat\<close>, \<open>Open\<close> and reading give for a path.\<close>

record aria_files =
  af_size :: "string \<Rightarrow> int option"
  af_open :: "string \<Rightarrow> bool"
  af_read :: "string \<Rightarrow> byte list option"

definition result_from_status :: "aria_files \<Rightarrow> aria_status \<Rightarrow> string \<Rightarrow> aria_error + fetched" where
  "result_from_status fs st name =
     (let path = chosen_path name [] (at_files st) in
      if path = [] then Inl Ag_No_Path
      else case af_size fs path of
        None \<Rightarrow> Inl Ag_No_File
      | Some n \<Rightarrow>
          if \<not> af_open fs path then Inl Ag_No_Open
          else case af_read fs path of
            None \<Rightarrow> Inl Ag_Read
          | Some data \<Rightarrow>
              Inr \<lparr>fr_local_path = path, fr_size = n, fr_sha256 = bytes_hex (sha256 data), fr_etag = [],
                   fr_content_type = ''application/octet-stream''\<rparr>)"

definition status_params :: "aria_cfg \<Rightarrow> string \<Rightarrow> json list" where
  "status_params c gid =
     rpc_token c @ [J_Str (utf8_fix gid),
       J_Arr (map J_Str [''gid'', ''status'', ''errorCode'', ''errorMessage'', ''totalLength'', ''files''])]"

definition give_up :: "rpc_server \<Rightarrow> aria_cfg \<Rightarrow> string \<Rightarrow> json list \<Rightarrow> json list" where
  "give_up srv c gid sent =
     snd (rpc_call srv c ''aria2.forceRemove'' (rpc_token c @ [J_Str (utf8_fix gid)]) None () sent)"

text \<open>
  The loop: in every round whether the context has ended, the clock, and the file system. \<open>None\<close>: the rounds that are
  given are not enough.
\<close>

fun poll_status ::
    "rpc_server \<Rightarrow> aria_cfg \<Rightarrow> string \<Rightarrow> string \<Rightarrow> time \<Rightarrow> (bool \<times> time \<times> aria_files) list \<Rightarrow> json list \<Rightarrow>
     (aria_error + fetched) option \<times> json list" where
  "poll_status srv c gid name deadline [] sent = (None, sent)"
| "poll_status srv c gid name deadline ((ended, now, fs) # rs) sent =
     (if ended then (Some (Inl Ag_Cancelled), give_up srv c gid sent)
      else if deadline < now then (Some (Inl Ag_Timeout), give_up srv c gid sent)
      else
        (let (r, sent') = rpc_call srv c ''aria2.tellStatus'' (status_params c gid) (Some read_status)
               \<lparr>at_status = [], at_error_code = [], at_error_message = [], at_files = []\<rparr> sent
         in case r of
              Inl e \<Rightarrow> (Some (Inl (Ag_Rpc e)), sent')
            | Inr st \<Rightarrow>
                if at_status st = ''complete'' then (Some (result_from_status fs st name), sent')
                else if at_status st = ''error'' then (Some (Inl (Ag_Failed (at_error_message st) (at_error_code st))), sent')
                else poll_status srv c gid name deadline rs sent'))"

definition aria_fetch ::
    "rpc_server \<Rightarrow> aria_cfg \<Rightarrow> bool \<Rightarrow> string \<Rightarrow> string \<Rightarrow> string \<Rightarrow> time \<Rightarrow> (bool \<times> time \<times> aria_files) list \<Rightarrow> json list \<Rightarrow>
     (aria_error + fetched) option \<times> json list" where
  "aria_fetch srv c mkdir raw dest hint start rounds sent =
     (let name = aria_name hint in
      if \<not> mkdir then (Some (Inl Ag_No_Dir), sent)
      else
        (let (g, sent') = rpc_call srv c ''aria2.addUri'' (add_uri_params c raw dest name) (Some json_str) [] sent
         in case g of
              Inl e \<Rightarrow> (Some (Inl (Ag_Rpc e)), sent')
            | Inr gid \<Rightarrow> poll_status srv c gid name (start + ag_timeout c) rounds sent'))"

section \<open>Properties\<close>

text \<open>Rounds that wait for the poll interval.\<close>

fun rounds_wait :: "duration \<Rightarrow> time \<Rightarrow> (bool \<times> time \<times> aria_files) list \<Rightarrow> bool" where
  "rounds_wait d t [] = True"
| "rounds_wait d t ((ended, now, fs) # rs) = (t \<le> now \<and> rounds_wait d (now + d) rs)"

lemma poll_ends:
  "rounds_wait d t rs \<Longrightarrow> 0 < d \<Longrightarrow> rs \<noteq> [] \<Longrightarrow> deadline < t + d * (int (length rs) - 1) \<Longrightarrow>
   fst (poll_status srv c gid name deadline rs sent) \<noteq> None"
proof (induction rs arbitrary: t sent)
  case (Cons r rs)
  obtain ended now fs where r: "r = (ended, now, fs)" by (cases r)
  show ?case
  proof (cases "ended \<or> deadline < now")
    case True
    then show ?thesis by (auto simp: r)
  next
    case False
    have t: "t \<le> now" "rounds_wait d (now + d) rs" using Cons.prems(1) by (simp_all add: r)
    have rs: "rs \<noteq> []" using Cons.prems(4) False t by auto
    have e: "d * (int (length (r # rs)) - 1) = d + d * (int (length rs) - 1)" by (simp add: algebra_simps)
    have "deadline < (now + d) + d * (int (length rs) - 1)" using Cons.prems(4) t unfolding e by linarith
    from Cons.IH [OF t(2) Cons.prems(2) rs this] show ?thesis
      using False by (auto simp: r Let_def split: prod.splits sum.splits)
  qed
qed simp

lemma poll_result:
  "fst (poll_status srv c gid name deadline rs sent) = Some (Inr f) \<Longrightarrow>
   \<exists>ended now fs data. (ended, now, fs) \<in> set rs \<and> now \<le> deadline \<and> af_read fs (fr_local_path f) = Some data \<and>
     fr_sha256 f = bytes_hex (sha256 data) \<and> fr_local_path f \<noteq> []"
proof (induction rs arbitrary: sent)
  case (Cons r rs)
  obtain ended now fs where r: "r = (ended, now, fs)" by (cases r)
  have d: "\<not> ended" "now \<le> deadline" using Cons.prems by (auto simp: r split: if_splits)
  obtain a s where c: "rpc_call srv c ''aria2.tellStatus'' (status_params c gid) (Some read_status)
      \<lparr>at_status = [], at_error_code = [], at_error_message = [], at_files = []\<rparr> sent = (a, s)" by force
  then obtain st where st: "a = Inr st" using Cons.prems d by (cases a) (auto simp: r)
  show ?case
  proof (cases "at_status st = ''complete''")
    case True
    then have "result_from_status fs st name = Inr f" using Cons.prems d c st by (simp add: r)
    then obtain data where "af_read fs (fr_local_path f) = Some data" "fr_sha256 f = bytes_hex (sha256 data)" "fr_local_path f \<noteq> []"
      by (auto simp: result_from_status_def Let_def split: if_splits option.splits)
    moreover have "(ended, now, fs) \<in> set (r # rs)" by (simp add: r)
    ultimately show ?thesis using d(2) by blast
  next
    case False
    then have "fst (poll_status srv c gid name deadline rs s) = Some (Inr f)"
      using Cons.prems d c st by (auto simp: r split: if_splits)
    from Cons.IH [OF this] show ?thesis by auto
  qed
qed simp

text \<open>An answer as aria2 documents it: an object as the result.\<close>

definition documented_version :: "rpc_server \<Rightarrow> bool" where
  "documented_version srv \<longleftrightarrow> (\<forall>sent. \<exists>a b r ms. srv sent = Inr a \<and> ua_status a = 200 \<and> read_limited (2 ^ 20) a = Some b \<and>
     read_response b = Some r \<and> rr_error r = None \<and> rr_result r = Some (J_Obj ms))"


definition sample_aria :: aria_cfg where
  "sample_aria = \<lparr>ag_url = ''http://a:6800/jsonrpc'', ag_secret = ''s'', ag_poll_every = 10, ag_timeout = 5\<rparr>"

definition sample_aria_files :: aria_files where
  "sample_aria_files = \<lparr>af_size = (\<lambda>p. Some 0), af_open = (\<lambda>p. True), af_read = (\<lambda>p. Some [])\<rparr>"


end
