(* ===== verification/ServerApp.thy ===== *)
theory ServerApp
  imports Api Tunnel ServerConfig UpstreamProxy ProxyCore S3 OpenListStore Aria2
begin

text \<open>
  The server application (\<open>internal/server/app/app.go\<close>, \<open>progress_exec.go\<close> and \<open>tls.go\<close>): choosing and wiring the
  components from a configuration, the way out of every component that makes requests, starting the listeners, the event
  loop with garbage collection and whitelist reload, and the slot in which the executor reports its progress. The results of
  reading files, opening sockets and starting processes come from outside.
\<close>

section \<open>Reading the configuration\<close>

definition texts_at :: "string list \<Rightarrow> gv \<Rightarrow> string list option" where
  "texts_at p c =
     (case value_at p c of
        V_List (Some xs) \<Rightarrow> Some (concat (map (\<lambda>x. case x of S_Str s \<Rightarrow> [s] | _ \<Rightarrow> []) xs))
      | _ \<Rightarrow> None)"

definition block_private_at :: "gv \<Rightarrow> bool" where
  "block_private_at c = (case value_at [''block_private''] c of V_Ptr (Some (S_Bool b)) \<Rightarrow> b | _ \<Rightarrow> True)"

text \<open>A duration or size that does not parse counts as zero where the code drops the error.\<close>

definition duration_or_zero :: "string \<Rightarrow> duration" where
  "duration_or_zero s = (case parse_duration s of None \<Rightarrow> 0 | Some d \<Rightarrow> d)"

definition bytes_or_zero :: "string \<Rightarrow> int" where
  "bytes_or_zero s = (case parse_bytes s of None \<Rightarrow> 0 | Some n \<Rightarrow> n)"

section \<open>Choosing the components\<close>

datatype app_error =
    App_Link link_error | App_Core string | App_Audit_Log | App_Whitelist | App_Tokens
  | App_Local local_new_error | App_S3 s3_new_error | App_OpenList | App_Storage_Driver string
  | App_Executor_Proxy proxy_url_error | App_Aria2_URL | App_Executor_Driver string | App_Tasks

text \<open>The embedded core takes over as the way out where none is configured.\<close>

definition core_upstream :: "gv \<Rightarrow> string" where
  "core_upstream c =
     ''http://'' @ join_host_port (str_at [''proxy'', ''listen''] c) (itoa (int_at [''proxy'', ''port''] c))"

definition take_over :: "gv \<Rightarrow> app_error + gv \<times> share_link option" where
  "take_over c =
     (if \<not> bool_at [''proxy'', ''enabled''] c then Inr (c, None)
      else case parse_hysteria2 (str_at [''proxy'', ''share_link''] c) of
        Inl e \<Rightarrow> Inl (App_Link e)
      | Inr sl \<Rightarrow>
          if \<not> equal_fold (str_at [''proxy'', ''core''] c) ''sing-box''
          then Inl (App_Core (str_at [''proxy'', ''core''] c))
          else
            Inr (fill_str [''tunnel'', ''upstream_proxy''] (core_upstream c)
                  (fill_str [''executor'', ''upstream_proxy''] (core_upstream c) c), Some sl))"

datatype backend = Local_Backend local_cfg | S3_Backend s3_cfg | OpenList_Backend ol_cfg

definition s3_settings :: "gv \<Rightarrow> s3_cfg" where
  "s3_settings c =
     (let p = (\<lambda>k. str_at [''storage'', ''s3'', k] c) in
      \<lparr>s3_endpoint = p ''endpoint'', s3_region = p ''region'', s3_bucket = p ''bucket'', s3_key_id = p ''access_key'',
       s3_secret = p ''secret_key'',
       s3_path_style = (if equal_fold (str_at [''storage'', ''driver''] c) ''minio'' then True
                        else bool_at [''storage'', ''s3'', ''path_style''] c)\<rparr>)"

definition openlist_settings :: "gv \<Rightarrow> ol_cfg" where
  "openlist_settings c =
     (let p = (\<lambda>k. str_at [''storage'', ''openlist'', k] c) in
      \<lparr>oc_base = p ''base_url'', oc_token = p ''token'', oc_user = p ''username'', oc_pass = p ''password'',
       oc_root = p ''root_path'', oc_dir_pass = p ''dir_password''\<rparr>)"

definition local_settings :: "gv \<Rightarrow> local_cfg" where
  "local_settings c =
     \<lparr>lf_root = str_at [''storage'', ''root''] c, lf_public_base = str_at [''public_base''] c,
      lf_secret = str_bytes (str_at [''storage'', ''secret''] c), lf_expires = presign_ttl_duration c\<rparr>"

definition choose_storage :: "bool \<Rightarrow> gv \<Rightarrow> app_error + backend" where
  "choose_storage mkdir c =
     (let driver = to_lower (str_at [''storage'', ''driver''] c) in
      if driver \<in> {[], ''localfs'', ''fs''} then
        (case new_local mkdir (local_settings c) of Inl e \<Rightarrow> Inl (App_Local e) | Inr d \<Rightarrow> Inr (Local_Backend d))
      else if driver \<in> {''s3'', ''minio''} then
        (case new_s3 (s3_settings c) of Inl e \<Rightarrow> Inl (App_S3 e) | Inr d \<Rightarrow> Inr (S3_Backend d))
      else if driver = ''openlist'' then
        (case new_openlist (openlist_settings c) of None \<Rightarrow> Inl App_OpenList | Some d \<Rightarrow> Inr (OpenList_Backend d))
      else Inl (App_Storage_Driver (str_at [''storage'', ''driver''] c)))"

datatype fetcher_kind = Builtin_Fetcher exec_cfg | Aria_Fetcher aria_cfg

definition builtin_settings :: "gv \<Rightarrow> exec_cfg" where
  "builtin_settings c =
     \<lparr>ex_policy = Some \<lparr>pol_ports = int_list_at [''executor'', ''ports''] c, pol_block_private = block_private_at c,
        pol_allow_loopback = bool_at [''executor'', ''allow_loopback''] c, pol_dial_timeout = 0\<rparr>,
      ex_retries = 0, ex_max_bytes = bytes_or_zero (str_at [''executor'', ''max_bytes''] c), ex_timeout = 0,
      ex_user_agent = [], ex_max_redirects = 0, ex_upstream = str_at [''executor'', ''upstream_proxy''] c\<rparr>"

definition choose_executor :: "gv \<Rightarrow> app_error + fetcher_kind" where
  "choose_executor c =
     (let driver = to_lower (str_at [''executor'', ''driver''] c) in
      if driver \<in> {[], ''builtin''} then
        (case validate_proxy (str_at [''executor'', ''upstream_proxy''] c) of
           Some e \<Rightarrow> Inl (App_Executor_Proxy e)
         | None \<Rightarrow> Inr (Builtin_Fetcher (new_builtin (builtin_settings c))))
      else if driver = ''aria2'' then
        (if str_at [''executor'', ''aria2'', ''rpc_url''] c = [] then Inl App_Aria2_URL
         else Inr (Aria_Fetcher (new_aria
           \<lparr>ag_url = str_at [''executor'', ''aria2'', ''rpc_url''] c, ag_secret = str_at [''executor'', ''aria2'', ''secret''] c,
            ag_poll_every = 0, ag_timeout = 0\<rparr>)))
      else Inl (App_Executor_Driver (str_at [''executor'', ''driver''] c)))"

text \<open>The client with which the mirrors pass requests through; \<open>None\<close> is a nil client.\<close>

datatype pass_client = Pass_Proxy url | Pass_Direct policy

definition choose_pass_client :: "gv \<Rightarrow> pass_client option" where
  "choose_pass_client c =
     (let up = str_at [''executor'', ''upstream_proxy''] c in
      if up \<noteq> [] then map_option Pass_Proxy (url_parse up)
      else Some (Pass_Direct \<lparr>pol_ports = [80, 443], pol_block_private = block_private_at c, pol_allow_loopback = False,
             pol_dial_timeout = 0\<rparr>))"

section \<open>The mirrors\<close>

definition if_enabled :: "string \<Rightarrow> gv \<Rightarrow> 'a \<Rightarrow> 'a option" where
  "if_enabled k c x = (if bool_at [k, ''enabled''] c then Some x else None)"

definition choose_pypi :: "gv \<Rightarrow> pypi_cfg option" where
  "choose_pypi c = if_enabled ''pypi'' c (pypi_defaults
     \<lparr>py_index_origin = str_at [''pypi'', ''index_origin''] c, py_index_origins = texts_at [''pypi'', ''index_origins''] c,
      py_files_origin = str_at [''pypi'', ''files_origin''] c, py_files_origins = texts_at [''pypi'', ''files_origins''] c,
      py_public_base = str_at [''public_base''] c, py_index_ttl = duration_or_zero (str_at [''pypi'', ''index_ttl''] c)\<rparr>)"

definition choose_npm :: "gv \<Rightarrow> npm_cfg option" where
  "choose_npm c = if_enabled ''npm'' c (npm_defaults
     \<lparr>np_origin = str_at [''npm'', ''registry_origin''] c, np_origins = texts_at [''npm'', ''registry_origins''] c,
      np_public_base = str_at [''public_base''] c, np_index_ttl = duration_or_zero (str_at [''npm'', ''index_ttl''] c)\<rparr>)"

definition choose_web :: "gv \<Rightarrow> string list option" where
  "choose_web c = if_enabled ''mirror'' c
     (clean_hosts (case texts_at [''mirror'', ''allowed_hosts''] c of None \<Rightarrow> [] | Some hs \<Rightarrow> hs))"

definition choose_gomod :: "gv \<Rightarrow> string list option" where
  "choose_gomod c = if_enabled ''gomod'' c
     (gomod_origins (str_at [''gomod'', ''origin''] c) (texts_at [''gomod'', ''origins''] c))"

definition choose_hf :: "gv \<Rightarrow> string option" where
  "choose_hf c = if_enabled ''huggingface'' c (hf_origin (str_at [''huggingface'', ''origin''] c))"

definition choose_registry :: "gv \<Rightarrow> docker_cfg option" where
  "choose_registry c = if_enabled ''registry'' c (docker_defaults
     \<lparr>dk_origin = str_at [''registry'', ''origin''] c, dk_auth_url = str_at [''registry'', ''auth_url''] c,
      dk_username = str_at [''registry'', ''username''] c, dk_password = str_at [''registry'', ''password''] c,
      dk_manifest_ttl = duration_or_zero (str_at [''registry'', ''manifest_ttl''] c)\<rparr>)"

section \<open>The application\<close>

record app =
  app_cfg :: gv
  app_core :: "share_link option"
  app_tokens :: tstore
  app_wl :: wl_store
  app_wl_time :: time
  app_storage :: backend
  app_exec :: fetcher_kind
  app_tasks :: task_store
  app_engine :: engine_cfg
  app_pypi :: "pypi_cfg option"
  app_npm :: "npm_cfg option"
  app_web :: "string list option"
  app_gomod :: "string list option"
  app_registry :: "docker_cfg option"
  app_hf :: "string option"
  app_pass :: "pass_client option"

text \<open>What opening and reading files gives while the application is built.\<close>

record app_io =
  ao_audit_log :: bool
  ao_whitelist :: file_read
  ao_wl_stamp :: "time option"
  ao_wl_stat :: "time option"
  ao_tokens_dir :: bool
  ao_tokens :: token_file
  ao_objects_dir :: bool
  ao_tasks_dir :: bool
  ao_tasks :: tasks_file
  ao_tmp :: string

text \<open>The version of a list without one: the modification time as \<open>2006-01-02.150405\<close>.\<close>

definition stamp_text :: "time \<Rightarrow> string" where
  "stamp_text t =
     (let (y, m, d) = civil_date (time_unix t div 86400) in
      four_digits y @ ''-'' @ two_digits m @ ''-'' @ two_digits d @ ''.'' @ clock_digits t)"

definition wire_app :: "app_io \<Rightarrow> gv \<Rightarrow> share_link option \<Rightarrow> wl_list \<Rightarrow> tstore \<Rightarrow> backend \<Rightarrow> fetcher_kind \<Rightarrow> task_store \<Rightarrow> app" where
  "wire_app io c core wl toks stor ex store =
     \<lparr>app_cfg = c, app_core = core, app_tokens = toks, app_wl = wl_new_store (Some wl),
      app_wl_time = (case ao_wl_stat io of None \<Rightarrow> zero_time | Some t \<Rightarrow> t), app_storage = stor, app_exec = ex, app_tasks = store,
      app_engine = engine_defaults (ao_tmp io)
        \<lparr>ec_tmp_dir = str_at [''tmp_dir''] c, ec_presign_ttl = presign_ttl_duration c, ec_max_retries = 0, ec_retry_backoff = 0,
         ec_gc_age = 0\<rparr>,
      app_pypi = choose_pypi c, app_npm = choose_npm c, app_web = choose_web c, app_gomod = choose_gomod c,
      app_registry = choose_registry c, app_hf = choose_hf c, app_pass = choose_pass_client c\<rparr>"

definition new_app :: "app_io \<Rightarrow> gv \<Rightarrow> app_error + app" where
  "new_app io c0 =
     (case take_over c0 of
        Inl e \<Rightarrow> Inl e
      | Inr (c, core) \<Rightarrow>
          if str_at [''audit_log''] c \<noteq> [] \<and> \<not> ao_audit_log io then Inl App_Audit_Log
          else case load_whitelist (ao_whitelist io) (map_option stamp_text (ao_wl_stamp io)) of
            None \<Rightarrow> Inl App_Whitelist
          | Some wl \<Rightarrow>
              (case new_tstore (str_at [''auth'', ''tokens_file''] c) (token_ttl c) (ao_tokens_dir io) (ao_tokens io) of
                 None \<Rightarrow> Inl App_Tokens
               | Some toks \<Rightarrow>
                   (case choose_storage (ao_objects_dir io) c of
                      Inl e \<Rightarrow> Inl e
                    | Inr stor \<Rightarrow>
                        (case choose_executor c of
                           Inl e \<Rightarrow> Inl e
                         | Inr ex \<Rightarrow>
                             (case new_store (str_at [''tasks_file''] c) (ao_tasks_dir io) (ao_tasks io) of
                                None \<Rightarrow> Inl App_Tasks
                              | Some store \<Rightarrow> Inr (wire_app io c core wl toks stor ex store))))))"

section \<open>The handler\<close>

text \<open>
  \<open>handlerOrNil\<close> compares an interface with nil. The interface it gets holds the pointer of a mirror, so it is
  never nil itself, and the caller gets an interface with a nil pointer for a mirror that is disabled.
\<close>

datatype 'a mounted = Nil_Handler | Nil_Mirror | Mounted 'a

definition as_handler :: "'a option \<Rightarrow> 'a mounted" where
  "as_handler m = (case m of None \<Rightarrow> Nil_Mirror | Some x \<Rightarrow> Mounted x)"

definition handler_or_nil :: "'a mounted \<Rightarrow> 'a mounted" where
  "handler_or_nil h = (if h = Nil_Handler then Nil_Handler else h)"

record handlers =
  hs_web :: "string list mounted"
  hs_gomod :: "string list mounted"
  hs_registry :: "docker_cfg mounted"
  hs_hf :: "string mounted"

definition app_handlers :: "app \<Rightarrow> handlers" where
  "app_handlers a =
     \<lparr>hs_web = handler_or_nil (as_handler (app_web a)), hs_gomod = handler_or_nil (as_handler (app_gomod a)),
      hs_registry = handler_or_nil (as_handler (app_registry a)), hs_hf = handler_or_nil (as_handler (app_hf a))\<rparr>"

text \<open>The configuration of the API, with the mirrors that can answer; and the client for index pages.\<close>

definition app_api :: "app \<Rightarrow> api_cfg" where
  "app_api a =
     \<lparr>ac_engine = app_engine a, ac_local = (case app_storage a of Local_Backend d \<Rightarrow> Some d | _ \<Rightarrow> None),
      ac_registration = bool_at [''auth'', ''allow_registration''] (app_cfg a), ac_pypi = app_pypi a, ac_npm = app_npm a,
      ac_web = app_web a, ac_gomod = app_gomod a, ac_hf = app_hf a, ac_docker = app_registry a,
      ac_mirror_auth = bool_at [''auth'', ''mirror_auth''] (app_cfg a)\<rparr>"

definition index_client :: "app \<Rightarrow> url option" where
  "index_client a =
     (let up = str_at [''executor'', ''upstream_proxy''] (app_cfg a) in if up = [] then None else url_parse up)"

text \<open>What the API tells of a mirror: whether its handler is not nil.\<close>

definition advertised :: "app \<Rightarrow> (string \<times> bool) list" where
  "advertised a =
     (let h = app_handlers a in
      [(''mirror'', hs_web h \<noteq> Nil_Handler), (''gomod'', hs_gomod h \<noteq> Nil_Handler), (''hf'', hs_hf h \<noteq> Nil_Handler),
       (''registry'', hs_registry h \<noteq> Nil_Handler)])"

section \<open>Starting\<close>

datatype listener = Plain_Listener | TLS_Listener

definition wrap_tls :: "(string \<Rightarrow> string \<Rightarrow> bool) \<Rightarrow> string list \<Rightarrow> gv \<Rightarrow> listener" where
  "wrap_tls cert_ok p c =
     (if cert_ok (str_at (p @ [''tls'', ''cert'']) c) (str_at (p @ [''tls'', ''key'']) c) then TLS_Listener else Plain_Listener)"

datatype run_error =
    Run_Core_Dir | Run_Core_Config | Run_Core_Start start_error | Run_Core_Wait ready
  | Run_Listen | Run_Tunnel_Listen | Run_Tunnel_Proxy proxy_url_error | Run_Failed string

record run_io =
  ri_mkdir :: bool
  ri_write :: bool
  ri_binary :: bool
  ri_log :: bool
  ri_started :: bool
  ri_now :: time
  ri_rounds :: "(time \<times> bool \<times> bool) list"
  ri_listen :: bool
  ri_cert :: "string \<Rightarrow> string \<Rightarrow> bool"
  ri_tunnel_listen :: bool

text \<open>
  Starting the core: the files written with the text of the configuration, the process, the wait. \<open>None\<close>: the rounds given
  are not enough. The manager is returned as it is left, stopped when the port does not answer.
\<close>

definition start_proxy_core ::
    "(rat \<Rightarrow> string) \<Rightarrow> run_io \<Rightarrow> gv \<Rightarrow> share_link \<Rightarrow> (run_error option \<times> manager option \<times> (string \<times> string) list) option" where
  "start_proxy_core ft io c sl =
     (let dir = str_at [''proxy'', ''config_dir''] c; path = path_join [dir, ''sing-box.json''];
          txt = generate_sing_box_config ft sl (str_at [''proxy'', ''listen''] c) (int_at [''proxy'', ''port''] c)
                  (str_at [''proxy'', ''log_level''] c)
      in if \<not> ri_mkdir io then Some (Some Run_Core_Dir, None, [])
         else if \<not> ri_write io then Some (Some Run_Core_Config, None, [])
         else case start_core (ri_binary io) (ri_log io) (ri_started io) (str_at [''proxy'', ''binary''] c)
                (path_join [dir, ''sing-box.log'']) of
           Inl e \<Rightarrow> Some (Some (Run_Core_Start e), None, [(path, txt)])
         | Inr m \<Rightarrow>
             (case wait_ready (ri_now io + 15 * second) (ri_rounds io) of
                None \<Rightarrow> None
              | Some Is_Ready \<Rightarrow> Some (None, Some m, [(path, txt)])
              | Some Exited_Early \<Rightarrow> Some (Some (Run_Core_Wait Exited_Early), Some (stop_core (m\<lparr>mg_exited := True\<rparr>)), [(path, txt)])
              | Some Not_In_Time \<Rightarrow> Some (Some (Run_Core_Wait Not_In_Time), Some (stop_core m), [(path, txt)])))"

definition tunnel_settings :: "gv \<Rightarrow> tcfg" where
  "tunnel_settings c =
     tcfg_defaults
       \<lparr>tc_policy = default_policy, tc_upstream = str_at [''tunnel'', ''upstream_proxy''] c, tc_mode = str_at [''tunnel'', ''mode''] c,
        tc_handshake = 0, tc_idle = duration_or_zero (str_at [''tunnel'', ''idle_timeout''] c),
        tc_max_conns = int_at [''tunnel'', ''max_conns_per_token''] c,
        tc_max_bytes = bytes_or_zero (str_at [''tunnel'', ''max_bytes_per_conn''] c), tc_copy_buffer = 0\<rparr>
       (Some \<lparr>pol_ports = [80, 443], pol_block_private = True, pol_allow_loopback = False, pol_dial_timeout = 0\<rparr>)"

text \<open>The servers that were started, also when starting ends with an error.\<close>

record running =
  rn_core :: "manager option"
  rn_api :: "listener option"
  rn_tunnel :: "(listener \<times> tserver) option"

definition start_tunnel :: "run_io \<Rightarrow> app \<Rightarrow> run_error + (listener \<times> tserver) option" where
  "start_tunnel io a =
     (let c = app_cfg a in
      if \<not> bool_at [''tunnel'', ''enabled''] c then Inr None
      else if \<not> ri_tunnel_listen io then Inl Run_Tunnel_Listen
      else case validate_proxy (str_at [''tunnel'', ''upstream_proxy''] c) of
        Some e \<Rightarrow> Inl (Run_Tunnel_Proxy e)
      | None \<Rightarrow>
          Inr (Some (wrap_tls (ri_cert io) [''tunnel''] c,
                 new_tserver (tunnel_settings c) (app_tokens a) (new_nonce_store (10 * minute)) (app_wl a))))"

definition start_servers :: "run_io \<Rightarrow> app \<Rightarrow> manager option \<Rightarrow> run_error option \<times> running" where
  "start_servers io a core =
     (let c = app_cfg a; stopped = \<lparr>rn_core = map_option stop_core core, rn_api = None, rn_tunnel = None\<rparr> in
      if \<not> ri_listen io then (Some Run_Listen, stopped)
      else
        (let api = (if str_at [''tls'', ''cert''] c \<noteq> [] \<and> str_at [''tls'', ''key''] c \<noteq> [] then wrap_tls (ri_cert io) [] c
                    else Plain_Listener)
         in case start_tunnel io a of
              Inl e \<Rightarrow> (Some e, stopped\<lparr>rn_api := Some api\<rparr>)
            | Inr tun \<Rightarrow> (None, \<lparr>rn_core = core, rn_api = Some api, rn_tunnel = tun\<rparr>)))"

definition start_app :: "(rat \<Rightarrow> string) \<Rightarrow> run_io \<Rightarrow> app \<Rightarrow> (run_error option \<times> running) option" where
  "start_app ft io a =
     (case app_core a of
        Some sl \<Rightarrow>
          if bool_at [''proxy'', ''enabled''] (app_cfg a) then
            (case start_proxy_core ft io (app_cfg a) sl of
               None \<Rightarrow> None
             | Some (Some e, m, files) \<Rightarrow> Some (Some e, \<lparr>rn_core = m, rn_api = None, rn_tunnel = None\<rparr>)
             | Some (None, m, files) \<Rightarrow> Some (start_servers io a m))
          else Some (start_servers io a None)
      | None \<Rightarrow> Some (start_servers io a None))"

section \<open>The event loop\<close>

text \<open>
  \<open>maybeReloadWhitelist\<close>: the modification time that \<open>Stat\<close> finds, the content, and the time found by the second \<open>Stat\<close>
  while the list is loaded. The third component says whether a reload is logged.
\<close>

definition reload_whitelist ::
    "time option \<Rightarrow> file_read \<Rightarrow> time option \<Rightarrow> wl_store \<times> time \<Rightarrow> (wl_store \<times> time) \<times> bool" where
  "reload_whitelist stat content stamp s =
     (case stat of
        None \<Rightarrow> (s, False)
      | Some t \<Rightarrow>
          if snd s < t then
            (case load_whitelist content (map_option stamp_text stamp) of
               None \<Rightarrow> (s, False)
             | Some wl \<Rightarrow> ((wl_swap (fst s) wl, t), True))
          else (s, False))"

datatype run_event =
    Stop_Signal
  | Server_Ended "string option"
  | GC_Tick time "string \<Rightarrow> bool" "(string \<times> time option \<times> bool) list"
  | WL_Tick "time option" file_read "time option"

text \<open>A server that ends without error, or closed, changes nothing. The result is \<open>None\<close> while the loop goes on.\<close>

definition run_step :: "run_event \<Rightarrow> app \<Rightarrow> app \<times> string option option" where
  "run_step e a =
     (case e of
        Stop_Signal \<Rightarrow> (a, Some None)
      | Server_Ended None \<Rightarrow> (a, None)
      | Server_Ended (Some msg) \<Rightarrow> (a, Some (Some msg))
      | GC_Tick now io dirs \<Rightarrow>
          (let (files, n, store) = gc now (app_engine a) io dirs (app_tasks a) in (a\<lparr>app_tasks := store\<rparr>, None))
      | WL_Tick stat content stamp \<Rightarrow>
          (let ((wl, t), logged) = reload_whitelist stat content stamp (app_wl a, app_wl_time a)
           in (a\<lparr>app_wl := wl, app_wl_time := t\<rparr>, None)))"

fun run_loop :: "run_event list \<Rightarrow> app \<Rightarrow> app \<times> string option option" where
  "run_loop [] a = (a, None)"
| "run_loop (e # es) a = (case run_step e a of (b, None) \<Rightarrow> run_loop es b | (b, Some r) \<Rightarrow> (b, Some r))"

section \<open>The first whitelist file\<close>

definition default_whitelist_lines :: "string list" where
  "default_whitelist_lines =
     [''# dldw tunnel whitelist'', ''# version: 2026-09-16.1'',
      ''# One domain per line. github.com also matches *.github.com.'',
      ''github.com'', ''objects.githubusercontent.com'', ''codeload.github.com'', ''raw.githubusercontent.com'',
      ''github-releases.githubusercontent.com'', ''api.github.com'', ''files.pythonhosted.org'', ''pypi.org'',
      ''registry.npmjs.org'', []]"

definition default_whitelist_text :: string where
  "default_whitelist_text = join [CHR 0x0A] default_whitelist_lines"

text \<open>\<open>exists\<close>: \<open>Stat\<close> succeeds. The file written, when one is written, or an error.\<close>

definition default_whitelist_file :: "bool \<Rightarrow> bool \<Rightarrow> bool \<Rightarrow> bool \<times> string option" where
  "default_whitelist_file exists mkdir write =
     (if exists then (True, None)
      else if \<not> mkdir \<or> \<not> write then (False, None) else (True, Some default_whitelist_text))"

section \<open>Progress of a fetch\<close>

record fetch_slot =
  fp_task :: string
  fp_read :: int
  fp_total :: int

definition slot_update :: "int \<Rightarrow> int \<Rightarrow> fetch_slot \<Rightarrow> fetch_slot" where
  "slot_update r n p = p\<lparr>fp_read := r, fp_total := n\<rparr>"

definition slot_begin :: "string \<Rightarrow> fetch_slot \<Rightarrow> fetch_slot" where
  "slot_begin tid p = p\<lparr>fp_task := tid, fp_read := 0, fp_total := 0\<rparr>"

definition slot_end :: "fetch_slot \<Rightarrow> fetch_slot" where
  "slot_end p = p\<lparr>fp_task := []\<rparr>"

text \<open>A progress is a fraction with a positive denominator; it is shown as at most 99 hundredths.\<close>

definition capped :: "int \<times> int \<Rightarrow> int \<times> int" where
  "capped q = (if 99 * snd q < 100 * fst q then (99, 100) else q)"

definition more_progress :: "int \<times> int \<Rightarrow> int \<times> int \<Rightarrow> bool" where
  "more_progress q r \<longleftrightarrow> fst r * snd q < fst q * snd r"

definition raise_progress :: "int \<times> int \<Rightarrow> task \<Rightarrow> task" where
  "raise_progress q t =
     (if tk_status t = Downloading \<and> more_progress q (tk_progress t) then t\<lparr>tk_progress := q\<rparr> else t)"

definition slot_tick :: "bool \<Rightarrow> time \<Rightarrow> fetch_slot \<Rightarrow> task_store \<Rightarrow> task_store" where
  "slot_tick io now p s =
     (if fp_task p = [] \<or> fp_total p \<le> 0 then s
      else if fp_read p \<le> 0 then s
      else snd (update io now s (fp_task p) (raise_progress (capped (fp_read p, fp_total p)))))"

section \<open>Ways out of the server\<close>

lemma proxy_settings [simp]:
  "text_setting [''executor'', ''upstream_proxy'']" "text_setting [''tunnel'', ''upstream_proxy'']"
  by code_simp+

lemma take_over_upstream:
  assumes "take_over c0 = Inr (c, core)" "server_typed c0"
  shows "str_at [''executor'', ''upstream_proxy''] c =
      (if core \<noteq> None \<and> str_at [''executor'', ''upstream_proxy''] c0 = [] then core_upstream c0
       else str_at [''executor'', ''upstream_proxy''] c0)"
    and "str_at [''tunnel'', ''upstream_proxy''] c =
      (if core \<noteq> None \<and> str_at [''tunnel'', ''upstream_proxy''] c0 = [] then core_upstream c0
       else str_at [''tunnel'', ''upstream_proxy''] c0)"
    and "core \<noteq> None \<longleftrightarrow> bool_at [''proxy'', ''enabled''] c0"
  using assms by (auto simp: take_over_def fill_str_rules split: if_splits sum.splits)

lemma new_app_parts:
  assumes "new_app io c0 = Inr a"
  shows "\<exists>core ex. take_over c0 = Inr (app_cfg a, core) \<and> app_core a = core \<and> choose_executor (app_cfg a) = Inr ex \<and>
    app_exec a = ex \<and> app_pass a = choose_pass_client (app_cfg a)"
  using assms by (auto simp: new_app_def wire_app_def split: sum.splits option.splits prod.splits if_splits)

lemma validate_proxy_parses: "validate_proxy s = None \<Longrightarrow> s \<noteq> [] \<Longrightarrow> \<exists>u. url_parse s = Some u \<and> u_scheme u \<in> {''http'', ''https''}"
  by (auto simp: validate_proxy_def split: option.splits if_splits)

lemma builtin_way:
  assumes "choose_executor c = Inr (Builtin_Fetcher ex)"
  shows "ex_upstream ex = str_at [''executor'', ''upstream_proxy''] c" and "validate_proxy (ex_upstream ex) = None"
  using assms by (auto simp: choose_executor_def Let_def new_builtin_def builtin_settings_def split: if_splits option.splits)


definition sample_app_io :: app_io where
  "sample_app_io =
     \<lparr>ao_audit_log = True, ao_whitelist = file_read.No_File, ao_wl_stamp = None, ao_wl_stat = None, ao_tokens_dir = True,
      ao_tokens = No_Token_File, ao_objects_dir = True, ao_tasks_dir = True, ao_tasks = No_Tasks_File, ao_tmp = ''/tmp''\<rparr>"

lemma default_app_built: "\<exists>a. new_app sample_app_io (server_default ''/d'') = Inr a"
proof -
  have "\<not> bool_at [''proxy'', ''enabled''] (server_default ''/d'')" by code_simp
  then have "take_over (server_default ''/d'') = Inr (server_default ''/d'', None)" by (simp add: take_over_def)
  moreover have "str_at [''audit_log''] (server_default ''/d'') = []" by code_simp
  moreover have "\<exists>d. choose_storage True (server_default ''/d'') = Inr d"
  proof -
    have "to_lower (str_at [''storage'', ''driver''] (server_default ''/d'')) = ''localfs''"
      "str_at [''storage'', ''root''] (server_default ''/d'') = ''/d/objects''"
      "str_at [''storage'', ''secret''] (server_default ''/d'') = dev_secret"
      by code_simp+
    then show ?thesis by (simp add: choose_storage_def new_local_def local_settings_def dev_secret_def str_bytes_def Let_def)
  qed
  moreover have "\<exists>e. choose_executor (server_default ''/d'') = Inr e"
  proof -
    have "to_lower (str_at [''executor'', ''driver''] (server_default ''/d'')) = ''builtin''"
      "validate_proxy (str_at [''executor'', ''upstream_proxy''] (server_default ''/d'')) = None"
      by code_simp+
    then show ?thesis by (auto simp: choose_executor_def Let_def)
  qed
  ultimately show ?thesis
    by (auto simp: new_app_def sample_app_io_def load_whitelist_def new_tstore_def new_store_def Let_def)
qed


section \<open>The whitelist in the loop\<close>

text \<open>
  C36. The whitelist of a running server. Over any run of the event loop the list is the one it had, or one loaded from the
  file at an event of the run at which its modification time had grown; that time never goes back. A file that is gone or cannot be
  read leaves the list as it is. Files that only change without a newer time are not seen.
\<close>

theorem running_whitelist:
  "app_wl_time a \<le> app_wl_time (fst (run_loop es a)) \<and>
   (app_wl (fst (run_loop es a)) = app_wl a \<and> app_wl_time (fst (run_loop es a)) = app_wl_time a \<or>
    (\<exists>t content stamp. WL_Tick (Some t) content stamp \<in> set es \<and> app_wl_time (fst (run_loop es a)) = t \<and> app_wl_time a < t \<and>
       load_whitelist content (map_option stamp_text stamp) = Some (wl_get (app_wl (fst (run_loop es a)))))) \<and>
   fst (run_step (WL_Tick None content stamp) a) = a \<and> fst (run_step (WL_Tick (Some t) file_read.Read_Error stamp) a) = a"
proof (intro conjI)
  have *: "app_wl_time a \<le> app_wl_time (fst (run_loop es a)) \<and>
   (app_wl (fst (run_loop es a)) = app_wl a \<and> app_wl_time (fst (run_loop es a)) = app_wl_time a \<or>
    (\<exists>t content stamp. WL_Tick (Some t) content stamp \<in> set es \<and> app_wl_time (fst (run_loop es a)) = t \<and> app_wl_time a < t \<and>
       load_whitelist content (map_option stamp_text stamp) = Some (wl_get (app_wl (fst (run_loop es a))))))"
  proof (induction es arbitrary: a)
    case (Cons e es)
    obtain b r where s: "run_step e a = (b, r)" by force
    have step: "app_wl b = app_wl a \<and> app_wl_time b = app_wl_time a \<or>
      (\<exists>t content stamp. e = WL_Tick (Some t) content stamp \<and> app_wl_time a < t \<and> app_wl_time b = t \<and>
         load_whitelist content (map_option stamp_text stamp) = Some (wl_get (app_wl b)))"
      using s by (cases e)
        (auto simp: run_step_def reload_whitelist_def wl_swap_def wl_get_def split: option.splits prod.splits if_splits)
    show ?case
    proof (cases r)
      case None
      then have "run_loop (e # es) a = run_loop es b" using s by simp
      with Cons.IH [of b] step show ?thesis by fastforce
    next
      case (Some x)
      then have "fst (run_loop (e # es) a) = b" using s by simp
      with step show ?thesis by fastforce
    qed
  qed simp
  then show "app_wl_time a \<le> app_wl_time (fst (run_loop es a))"
    "app_wl (fst (run_loop es a)) = app_wl a \<and> app_wl_time (fst (run_loop es a)) = app_wl_time a \<or>
    (\<exists>t content stamp. WL_Tick (Some t) content stamp \<in> set es \<and> app_wl_time (fst (run_loop es a)) = t \<and> app_wl_time a < t \<and>
       load_whitelist content (map_option stamp_text stamp) = Some (wl_get (app_wl (fst (run_loop es a)))))"
    by blast+
  show "fst (run_step (WL_Tick None content stamp) a) = a" "fst (run_step (WL_Tick (Some t) file_read.Read_Error stamp) a) = a"
    by (simp_all add: run_step_def reload_whitelist_def load_whitelist_def)
qed

text \<open>
  The first whitelist file. The file that is written for a first run, when it is loaded, lets through exactly the hosts of the
  built-in list (which has one entry more, a name below another entry).
\<close>

theorem default_file_same_hosts:
  "\<exists>l. load_whitelist (file_read.File default_whitelist_text) stamp = Some l \<and> wl_version l = ''2026-09-16.1'' \<and>
    (\<forall>host. wl_match l host = wl_match wl_default host)"
proof -
  let ?es = "[''github.com'', ''objects.githubusercontent.com'', ''codeload.github.com'', ''raw.githubusercontent.com'',
    ''github-releases.githubusercontent.com'', ''api.github.com'', ''files.pythonhosted.org'', ''pypi.org'', ''registry.npmjs.org'']"
  have l: "load_lines [] [] (split_byte (CHR 0x0A) (replace_all default_whitelist_text crlf [CHR 0x0A])) = (''2026-09-16.1'', ?es)"
    by code_simp
  have same: "wl_match (wl_parse v ?es) host = wl_match wl_default host" for v host
  proof -
    have "entry_covers ''gist.github.com'' h \<Longrightarrow> entry_covers ''github.com'' h" for h
    proof -
      have g: "wl_clean ''gist.github.com'' = ''gist.github.com''" "wl_clean ''github.com'' = ''github.com''" by code_simp+
      assume "entry_covers ''gist.github.com'' h"
      then have "h = ''gist.github.com'' \<or> has_suffix h ''.gist.github.com''" by (simp add: entry_covers_def g Let_def)
      moreover have "suffix ''.github.com'' ''.gist.github.com''" "suffix ''.github.com'' ''gist.github.com''" by code_simp+
      ultimately have "has_suffix h ''.github.com''" using suffix_order.trans by blast
      then show ?thesis by (simp add: entry_covers_def g Let_def)
    qed
    then show ?thesis unfolding wl_default_def wl_match_parse by auto
  qed
  have v: "wl_version (wl_parse v es) = v" for v es
  proof -
    have "wl_version (foldl wl_add m es) = wl_version m" for m
      by (induction es arbitrary: m) (simp_all add: wl_add_def Let_def)
    then show ?thesis by (simp add: wl_parse_def wl_empty_def)
  qed
  show ?thesis using l same v by (simp add: load_whitelist_def)
qed

section \<open>What progress shows\<close>

lemma persist_by_id: "st_by_id (snd (persist io s)) = st_by_id s"
  by (simp add: persist_def)

lemma raise_progress_bounds:
  "raise_progress (capped q) t = t \<or>
   (tk_status t = Downloading \<and> raise_progress (capped q) t = t\<lparr>tk_progress := capped q\<rparr> \<and>
    more_progress (capped q) (tk_progress t) \<and> \<not> more_progress (capped q) (99, 100))"
  by (auto simp: raise_progress_def capped_def more_progress_def)

text \<open>
  The progress of fetches. A tick of the background loop changes at most the progress of the task in the slot, only while
  it is downloading, only upwards and to at most 99 hundredths; its status and identity stay. But the slot is shared: when a
  second fetch has begun, the bytes of the first are shown for the second, and when either has ended nothing is shown for the other.
\<close>

theorem fetch_progress_slot:
  assumes "ids_ok s" "mget (st_by_id s) tid = Some t"
  shows "(\<exists>t'. mget (st_by_id (slot_tick io now p s)) tid = Some t' \<and> tk_id t' = tid \<and> tk_status t' = tk_status t \<and>
      tk_cache_key t' = tk_cache_key t \<and>
      (tk_progress t' = tk_progress t \<or>
       tid = fp_task p \<and> tk_status t = Downloading \<and> more_progress (tk_progress t') (tk_progress t) \<and>
         \<not> more_progress (tk_progress t') (99, 100))) \<and>
    slot_tick io now (slot_update r n (slot_end (slot_begin t2 (slot_begin t1 p)))) s = s \<and>
    fp_task (slot_update r n (slot_begin t2 (slot_begin t1 p))) = t2"
proof (intro conjI)
  have tid: "tk_id t = tid" using assms by (auto simp: ids_ok_def)
  show "\<exists>t'. mget (st_by_id (slot_tick io now p s)) tid = Some t' \<and> tk_id t' = tid \<and> tk_status t' = tk_status t \<and>
      tk_cache_key t' = tk_cache_key t \<and>
      (tk_progress t' = tk_progress t \<or>
       tid = fp_task p \<and> tk_status t = Downloading \<and> more_progress (tk_progress t') (tk_progress t) \<and>
         \<not> more_progress (tk_progress t') (99, 100))"
  proof (cases "fp_task p = [] \<or> fp_total p \<le> 0 \<or> fp_read p \<le> 0")
    case True
    then have "slot_tick io now p s = s" by (auto simp: slot_tick_def)
    then show ?thesis using assms(2) tid by simp
  next
    case False
    define q where "q = capped (fp_read p, fp_total p)"
    have s': "slot_tick io now p s = snd (update io now s (fp_task p) (raise_progress q))"
      using False by (simp add: slot_tick_def q_def)
    show ?thesis
    proof (cases "mget (st_by_id s) (fp_task p)")
      case None
      then show ?thesis using assms(2) tid by (simp add: s' update_def)
    next
      case (Some u)
      have u: "tk_id u = fp_task p" using assms(1) Some by (auto simp: ids_ok_def)
      note b = raise_progress_bounds [of "(fp_read p, fp_total p)" u, folded q_def]
      have same: "tk_status (raise_progress q u) = tk_status u" "tk_id (raise_progress q u) = tk_id u"
        "tk_cache_key (raise_progress q u) = tk_cache_key u" by (simp_all add: raise_progress_def)
      have "st_by_id (slot_tick io now p s) = mput (fp_task p) ((raise_progress q u)\<lparr>tk_updated_at := now\<rparr>) (st_by_id s)"
        using Some same u by (simp add: s' update_def Let_def case_prod_beta persist_by_id store_both_def)
      then show ?thesis using b same u assms(2) tid Some by (cases "tid = fp_task p") auto
    qed
  qed
qed (simp_all add: slot_tick_def slot_update_def slot_end_def slot_begin_def)

definition progress_store :: task_store where
  "progress_store = (empty_store [])\<lparr>st_by_id := [(''a'', sample_task ''a'' Downloading 0)]\<rparr>"

theorem fetch_progress_slot_witness:
  "\<exists>t'. mget (st_by_id (slot_tick True 5 \<lparr>fp_task = ''a'', fp_read = 1, fp_total = 2\<rparr> progress_store)) ''a'' = Some t' \<and>
     tk_status t' = Downloading"
proof -
  have i: "ids_ok progress_store"
    by (simp add: ids_ok_def progress_store_def empty_store_def mkeys_ok_def sample_task_def)
  have m: "mget (st_by_id progress_store) ''a'' = Some (sample_task ''a'' Downloading 0)"
    by (simp add: progress_store_def empty_store_def)
  have "tk_status (sample_task ''a'' Downloading 0) = Downloading" by (simp add: sample_task_def)
  with fetch_progress_slot [OF i m, of True 5 "\<lparr>fp_task = ''a'', fp_read = 1, fp_total = 2\<rparr>" 0 0 "[]" "[]"] show ?thesis by metis
qed

end
