(* ===== verification/ClientProxy.thy ===== *)
theory ClientProxy
  imports Tunnel UrlText
begin

text \<open>
  The local proxy of the client (\<open>internal/client/proxy\<close>: \<open>proxy.go\<close>, \<open>metrics.go\<close> and the tunnel's address in
  \<open>tunnelclient.go\<close>). One connection is a function of the bytes that were received with the head of the request, of what parsing
  a plain request gives, and of the network; its result is what the client is sent, what was dialled or asked of the tunnel, the
  request that is forwarded, and the counters. The copying in both directions is a fold over events.
\<close>

section \<open>The tunnel's address\<close>

record tunnel_conf =
  tf_addr :: string
  tf_tls :: bool
  tf_skip_verify :: bool
  tf_token :: string
  tf_client :: string

datatype tunnel_conf_error = Tunnel_Missing | Tunnel_Bad_Server

text \<open>A port that is not a number reads as 0, one that is too large as the largest number.\<close>

definition port_number :: "string \<Rightarrow> int" where
  "port_number p = (case atoi p of Some n \<Rightarrow> n | None \<Rightarrow> if all_digits p then max_int64 else 0)"

definition tunnel_config_from_server :: "string \<Rightarrow> string \<Rightarrow> string \<Rightarrow> bool \<Rightarrow> tunnel_conf_error + tunnel_conf" where
  "tunnel_config_from_server server token client skip =
     (if server = [] \<or> token = [] then Inl Tunnel_Missing
      else case url_parse server of
        None \<Rightarrow> Inl Tunnel_Bad_Server
      | Some u \<Rightarrow>
          if u_host u = [] then Inl Tunnel_Bad_Server
          else
            (let tls = (u_scheme u = ''https'');
                 port = (if url_port u \<noteq> [] then
                           (if port_number (url_port u) = max_int64 then min_int64 else port_number (url_port u) + 1)
                         else if tls then 4443 else 8081)
             in Inr \<lparr>tf_addr = join_host_port (url_hostname u) (itoa port), tf_tls = tls, tf_skip_verify = (tls \<and> skip),
                     tf_token = token, tf_client = client\<rparr>))"

section \<open>Counters\<close>

record metrics =
  mx_connections :: int
  mx_tunnel :: int
  mx_direct :: int
  mx_https :: int
  mx_http :: int
  mx_errors :: int
  mx_active :: int
  mx_hosts :: "(string, int) gomap"

definition new_metrics :: metrics where
  "new_metrics = \<lparr>mx_connections = 0, mx_tunnel = 0, mx_direct = 0, mx_https = 0, mx_http = 0, mx_errors = 0, mx_active = 0,
     mx_hosts = []\<rparr>"

definition add_host :: "string \<Rightarrow> int \<Rightarrow> metrics \<Rightarrow> metrics" where
  "add_host host n m =
     (if host = [] \<or> n \<le> 0 then m
      else m\<lparr>mx_hosts := mput host ((case mget (mx_hosts m) host of None \<Rightarrow> 0 | Some c \<Rightarrow> c) + n) (mx_hosts m)\<rparr>)"

text \<open>More connections first, then by name; at most \<open>n\<close>, which is not negative.\<close>

definition top_hosts :: "int \<Rightarrow> metrics \<Rightarrow> (string \<times> int) list" where
  "top_hosts n m =
     (let out = sort_key (\<lambda>(h, c). - c) (sort_key fst (mx_hosts m))
      in if n < int (length out) then take (nat n) out else out)"

definition count_error :: "metrics \<Rightarrow> metrics" where
  "count_error m = m\<lparr>mx_errors := mx_errors m + 1\<rparr>"

section \<open>Options\<close>

record popts =
  po_bind :: string
  po_port :: int
  po_wl :: wl_store
  po_policy :: policy
  po_tunnel :: "tunnel_conf option"
  po_force :: bool
  po_idle :: duration
  po_max_header :: int
  po_copy :: int

text \<open>The completion at the start; \<open>wl\<close> and \<open>pol\<close> are what the caller gave, if anything.\<close>

definition proxy_options :: "wl_store option \<Rightarrow> policy option \<Rightarrow> popts \<Rightarrow> popts" where
  "proxy_options wl pol c =
     c\<lparr>po_bind := (if po_bind c = [] then ''127.0.0.1'' else po_bind c),
       po_idle := (if po_idle c \<le> 0 then 5 * minute else po_idle c),
       po_max_header := (if po_max_header c \<le> 0 then 16384 else po_max_header c),
       po_copy := (if po_copy c \<le> 0 then 32768 else po_copy c),
       po_wl := (case wl of None \<Rightarrow> wl_new_store (Some wl_default) | Some w \<Rightarrow> w),
       po_policy := (case pol of None \<Rightarrow> public_policy | Some p \<Rightarrow> p)\<rparr>"

definition loop_detect :: "popts \<Rightarrow> string \<Rightarrow> int \<Rightarrow> bool" where
  "loop_detect pp host port \<longleftrightarrow> port = po_port pp \<and>
     (host = ''127.0.0.1'' \<or> equal_fold host ''localhost'' \<or> parse_ip host \<noteq> [] \<and> is_loopback (parse_ip host))"

section \<open>Upstream connections\<close>

datatype upstream_fail = Up_Loop | Up_Tunnel dial_fail | Up_Direct dial_error

datatype upstream_conn = Up_Tunneled tunnel_conn | Up_Dialled

text \<open>The network of one connection: names, addresses, and the tunnel's dial, write and reply.\<close>

record proxy_net_env =
  pe_lookup :: resolver
  pe_connect :: "string \<Rightarrow> string + unit"
  pe_rnd :: "nat \<Rightarrow> byte list option"
  pe_tunnel_dial :: "string + bool"
  pe_tunnel_write :: bool
  pe_tunnel_server :: "string \<Rightarrow> string list"

record upstream_run =
  ur_asked :: "(string \<times> int) option"
  ur_tried :: "string list"
  ur_result :: "upstream_fail + upstream_conn"

definition connect_upstream :: "popts \<Rightarrow> proxy_net_env \<Rightarrow> string \<Rightarrow> int \<Rightarrow> upstream_run" where
  "connect_upstream pp net host port =
     (if loop_detect pp host port then \<lparr>ur_asked = None, ur_tried = [], ur_result = Inl Up_Loop\<rparr>
      else case (if po_force pp \<or> wl_match (wl_get (po_wl pp)) host then po_tunnel pp else None) of
        Some t \<Rightarrow>
          \<lparr>ur_asked = Some (host, port), ur_tried = [],
           ur_result = (case tunnel_dial (tf_token t) (tf_client t) (pe_rnd net) [(''v'', ''1'')] host port
                          (pe_tunnel_dial net) (pe_tunnel_write net) (pe_tunnel_server net) of
              Inl e \<Rightarrow> Inl (Up_Tunnel e) | Inr c \<Rightarrow> Inr (Up_Tunneled c))\<rparr>
      | None \<Rightarrow>
          (let (tried, r) = dial_context (po_policy pp) (pe_lookup net) (pe_connect net) ''tcp'' (join_host_port host (itoa port))
           in \<lparr>ur_asked = None, ur_tried = tried,
               ur_result = (case r of Inl e \<Rightarrow> Inl (Up_Direct e) | Inr c \<Rightarrow> Inr Up_Dialled)\<rparr>))"

definition count_conn :: "bool \<Rightarrow> string \<Rightarrow> upstream_conn \<Rightarrow> metrics \<Rightarrow> metrics" where
  "count_conn https host c m =
     (let m = (if https then m\<lparr>mx_https := mx_https m + 1\<rparr> else m\<lparr>mx_http := mx_http m + 1\<rparr>);
          m = add_host host 1 m
      in case c of Up_Tunneled t \<Rightarrow> m\<lparr>mx_tunnel := mx_tunnel m + 1\<rparr> | Up_Dialled \<Rightarrow> m\<lparr>mx_direct := mx_direct m + 1\<rparr>)"

section \<open>Replies\<close>

definition status_text :: "nat \<Rightarrow> string" where
  "status_text n =
     (case map_of
        [(400, ''Bad Request''), (414, ''Request URI Too Long''), (431, ''Request Header Fields Too Large''),
         (502, ''Bad Gateway''), (508, ''Loop Detected'')] n of
        Some t \<Rightarrow> t | None \<Rightarrow> [])"

definition status_line :: "nat \<Rightarrow> string" where
  "status_line n = ''HTTP/1.1 '' @ itoa (int n) @ '' '' @ status_text n @ crlf @ ''Content-Type: text/plain'' @ crlf"

definition connect_error_text :: "nat \<Rightarrow> string \<Rightarrow> string \<Rightarrow> string" where
  "connect_error_text n cd msg =
     (let body = cd @ '': '' @ msg in
      status_line n @ ''X-Dldw-Error: '' @ cd @ crlf @ ''Content-Length: '' @ itoa (int (length body)) @ crlf @
      ''Connection: close'' @ crlf @ crlf @ body)"

definition simple_text :: "nat \<Rightarrow> string \<Rightarrow> string" where
  "simple_text n msg =
     (let body = msg @ [CHR 0x0A] in
      status_line n @ ''Content-Length: '' @ itoa (int (length body)) @ crlf @ ''Connection: close'' @ crlf @ crlf @ body)"

section \<open>One connection\<close>

definition take_line :: "string \<Rightarrow> (string \<times> string) option" where
  "take_line s = (case index_byte s (CHR 0x0A) of None \<Rightarrow> None | Some i \<Rightarrow> Some (take (Suc i) s, drop (Suc i) s))"

lemma take_line_shorter: "take_line s = Some (l, rest) \<Longrightarrow> length rest < length s"
  by (cases s) (auto simp: take_line_def split: option.splits)

text \<open>The headers up to the empty line; \<open>None\<close> when they are too long or end early. What is left was read with them.\<close>

function drain_headers :: "int \<Rightarrow> int \<Rightarrow> string \<Rightarrow> string option" where
  "drain_headers limit seen s =
     (case take_line s of
        None \<Rightarrow> None
      | Some (l, rest) \<Rightarrow>
          if limit < seen + int (length l) then None
          else if trim_right_set l crlf = [] then Some rest
          else drain_headers limit (seen + int (length l)) rest)"
  by pat_completeness auto
termination
  by (relation "measure (\<lambda>(limit, seen, s). length s)") (auto dest: take_line_shorter)

declare drain_headers.simps [simp del]

text \<open>What \<open>ReadRequest\<close> makes of a plain request, and what is written upstream.\<close>

record plain_request =
  cr_method :: string
  cr_url :: url
  cr_header :: header

record forwarded =
  fw_method :: string
  fw_host :: string
  fw_url :: url
  fw_header :: header

text \<open>
  The environment of a connection: the bytes that have come when the head is read, the parsed request, the network, whether the
  request is written upstream, the answer read from there (or an error), whether it is written to the client, and
  the texts of errors.
\<close>

record conn_env =
  ce_input :: string
  ce_request :: "string \<Rightarrow> plain_request option"
  ce_net :: proxy_net_env
  ce_write :: bool
  ce_answer :: "string + upstream_answer"
  ce_reply_ok :: bool
  ce_text :: "upstream_fail \<Rightarrow> string"

datatype proxy_reply = No_Reply | Text_Reply string | Tunnel_Open string | Passed_On upstream_answer

record conn_run =
  px_reply :: proxy_reply
  px_upstream :: "upstream_run option"
  px_forward :: "forwarded option"
  px_lost :: string
  px_metrics :: metrics

definition px_start :: "metrics \<Rightarrow> conn_run" where
  "px_start m = \<lparr>px_reply = No_Reply, px_upstream = None, px_forward = None, px_lost = [], px_metrics = m\<rparr>"

definition px_fail :: "metrics \<Rightarrow> proxy_reply \<Rightarrow> conn_run" where
  "px_fail m r = (px_start (count_error m))\<lparr>px_reply := r\<rparr>"

text \<open>The two directions are copied from the connection itself: what the reader holds behind the headers is lost.\<close>

definition handle_connect :: "popts \<Rightarrow> conn_env \<Rightarrow> string \<Rightarrow> string \<Rightarrow> metrics \<Rightarrow> conn_run" where
  "handle_connect pp env target rest m =
     (let (host, port_text) = (case split_host_port target of None \<Rightarrow> (target, ''443'') | Some hp \<Rightarrow> hp) in
      case atoi port_text of
        None \<Rightarrow> px_fail m (Text_Reply (connect_error_text 400 ''E_BAD_REQUEST'' ''invalid port''))
      | Some port \<Rightarrow>
          if port \<le> 0 \<or> 65535 < port then px_fail m (Text_Reply (connect_error_text 400 ''E_BAD_REQUEST'' ''invalid port''))
          else if loop_detect pp host port then px_fail m (Text_Reply (connect_error_text 508 ''E_PROXY_LOOP'' ''proxy loop detected''))
          else case drain_headers (po_max_header pp) 0 rest of
            None \<Rightarrow> px_fail m No_Reply
          | Some left \<Rightarrow>
              (let up = connect_upstream pp (ce_net env) host port in
               case ur_result up of
                 Inl e \<Rightarrow> (px_fail m (Text_Reply (connect_error_text 502 ''E_UPSTREAM'' (ce_text env e))))\<lparr>px_upstream := Some up\<rparr>
               | Inr c \<Rightarrow>
                   \<lparr>px_reply = Tunnel_Open (''HTTP/1.1 200 Connection established'' @ crlf @ crlf), px_upstream = Some up,
                    px_forward = None, px_lost = left, px_metrics = count_conn True host c m\<rparr>))"

definition hop_headers :: "string list" where
  "hop_headers =
     [''Proxy-Connection'', ''Proxy-Authenticate'', ''Proxy-Authorization'', ''Connection'', ''Keep-Alive'',
      ''Proxy-Proxy-Connection'', ''Te'', ''Trailer'', ''Transfer-Encoding'', ''Upgrade'', ''Via'', ''X-Forwarded-For'',
      ''X-Forwarded-Host'', ''X-Forwarded-Proto'', ''Forwarded'']"

definition clean_proxy_headers :: "header \<Rightarrow> header" where
  "clean_proxy_headers h = fold hdel hop_headers h"

definition handle_http :: "popts \<Rightarrow> conn_env \<Rightarrow> string \<Rightarrow> metrics \<Rightarrow> conn_run" where
  "handle_http pp env input m =
     (case ce_request env input of
        None \<Rightarrow> px_fail m (Text_Reply (simple_text 400 ''malformed request''))
      | Some q \<Rightarrow>
          if u_scheme (cr_url q) = [] \<or> u_host (cr_url q) = [] then
            px_fail m (Text_Reply (simple_text 400 ''proxy requires absolute URI''))
          else
            (let host = url_hostname (cr_url q);
                 port = (if url_port (cr_url q) = [] then 80 else port_number (url_port (cr_url q)));
                 up = connect_upstream pp (ce_net env) host port
             in case ur_result up of
                  Inl e \<Rightarrow>
                    (px_fail m (Text_Reply (simple_text 502 (''upstream unreachable: '' @ ce_text env e))))\<lparr>px_upstream := Some up\<rparr>
                | Inr c \<Rightarrow>
                    (let m = count_conn False host c m;
                         fw = \<lparr>fw_method = cr_method q, fw_host = u_host (cr_url q), fw_url = cr_url q,
                               fw_header = clean_proxy_headers (cr_header q)\<rparr>;
                         run = (\<lambda>r k. \<lparr>px_reply = r, px_upstream = Some up, px_forward = Some fw, px_lost = [], px_metrics = k\<rparr>)
                     in if \<not> ce_write env then run (Text_Reply (simple_text 502 ''write upstream failed'')) (count_error m)
                        else case ce_answer env of
                          Inl e \<Rightarrow> run (Text_Reply (simple_text 502 (''read upstream failed: '' @ e))) (count_error m)
                        | Inr a \<Rightarrow> run (Passed_On a) (if ce_reply_ok env then m else count_error m))))"

definition handle_head :: "popts \<Rightarrow> conn_env \<Rightarrow> metrics \<Rightarrow> conn_run" where
  "handle_head pp env m =
     (case take_line (ce_input env) of
        None \<Rightarrow> px_fail m No_Reply
      | Some (l, rest) \<Rightarrow>
          if po_max_header pp < int (length l) then px_fail m (Text_Reply (simple_text 431 ''request line too long''))
          else
            (case str_fields l of
               meth # target # version # others \<Rightarrow>
                 if 8192 < length target then px_fail m (Text_Reply (simple_text 414 ''request target too long''))
                 else if equal_fold meth ''CONNECT'' then handle_connect pp env target rest m
                 else handle_http pp env (l @ rest) m
             | _ \<Rightarrow> px_fail m (Text_Reply (simple_text 400 ''malformed request line''))))"

definition handle_conn :: "popts \<Rightarrow> conn_env \<Rightarrow> metrics \<Rightarrow> conn_run" where
  "handle_conn pp env m =
     (let m = m\<lparr>mx_connections := mx_connections m + 1, mx_active := mx_active m + 1\<rparr>;
          r = handle_head pp env m;
          k = px_metrics r
      in r\<lparr>px_metrics := k\<lparr>mx_active := mx_active k - 1\<rparr>\<rparr>)"

section \<open>Copying\<close>

text \<open>
  What happens to the two connections: bytes that are read and written on, a write that fails, the end of a direction. When one
  direction has ended, both connections are closed, whatever the other direction still has to deliver.
\<close>

record copying =
  py_to_remote :: string
  py_to_client :: string
  py_in :: int
  py_out :: int
  py_open :: bool

datatype copy_event = From_Client string | From_Remote string | Write_Fails | Client_Ends | Remote_Ends

definition copy_step :: "copy_event \<Rightarrow> copying \<Rightarrow> copying" where
  "copy_step e s =
     (if \<not> py_open s then s
      else case e of
        From_Client b \<Rightarrow> s\<lparr>py_to_remote := py_to_remote s @ b, py_in := py_in s + int (length b)\<rparr>
      | From_Remote b \<Rightarrow> s\<lparr>py_to_client := py_to_client s @ b, py_out := py_out s + int (length b)\<rparr>
      | _ \<Rightarrow> s\<lparr>py_open := False\<rparr>)"

definition copy_start :: copying where
  "copy_start = \<lparr>py_to_remote = [], py_to_client = [], py_in = 0, py_out = 0, py_open = True\<rparr>"

definition copy_run :: "copy_event list \<Rightarrow> copying" where
  "copy_run es = fold copy_step es copy_start"

text \<open>What is copied is counted; and after either end nothing more is delivered, so that a client that only closes its sending
  side loses the rest of the answer.\<close>

lemma copy_counts: "py_in (copy_run es) = int (length (py_to_remote (copy_run es))) \<and>
  py_out (copy_run es) = int (length (py_to_client (copy_run es)))"
proof -
  have "py_in s = int (length (py_to_remote s)) \<and> py_out s = int (length (py_to_client s)) \<Longrightarrow>
    py_in (fold copy_step es s) = int (length (py_to_remote (fold copy_step es s))) \<and>
    py_out (fold copy_step es s) = int (length (py_to_client (fold copy_step es s)))" for s
    by (induction es arbitrary: s) (auto simp: copy_step_def split: copy_event.splits)
  then show ?thesis by (simp add: copy_run_def copy_start_def)
qed

lemma copy_after_end: "e \<in> {Client_Ends, Remote_Ends, Write_Fails} \<Longrightarrow> copy_run (es @ e # fs) = copy_run (es @ [e])"
proof -
  have closed: "\<not> py_open s \<Longrightarrow> fold copy_step fs s = s" for s
    by (induction fs) (simp_all add: copy_step_def)
  assume "e \<in> {Client_Ends, Remote_Ends, Write_Fails}"
  then have "\<not> py_open (copy_step e s)" for s by (auto simp: copy_step_def)
  from closed [OF this] show ?thesis by (simp add: copy_run_def)
qed

section \<open>Accepting and stopping\<close>

text \<open>
  The accept loop: a connection is handled; a failed \<open>Accept\<close> ends the loop when the proxy is closing or the listener is closed,
  and is tried again at once otherwise. \<open>Stop\<close> closes once; the result is whether it waited.
\<close>

datatype proxy_accept = Client_Conn nat | Accept_Error bool bool

fun accept_loop :: "proxy_accept list \<Rightarrow> nat list \<times> bool" where
  "accept_loop [] = ([], False)"
| "accept_loop (Client_Conn c # es) = (let (cs, ended) = accept_loop es in (c # cs, ended))"
| "accept_loop (Accept_Error closing shut # es) = (if closing \<or> shut then ([], True) else accept_loop es)"

definition proxy_stop :: "bool \<Rightarrow> bool \<times> bool" where
  "proxy_stop closing = (if closing then (closing, False) else (True, True))"

section \<open>The proxy as a gate\<close>

lemma connect_upstream_gate:
  "ur_asked (connect_upstream pp net host port) = Some (h, p) \<Longrightarrow>
     h = host \<and> p = port \<and> po_tunnel pp \<noteq> None \<and> (po_force pp \<or> wl_match (wl_get (po_wl pp)) host) \<and> \<not> loop_detect pp host port"
  "t \<in> set (ur_tried (connect_upstream pp net host port)) \<Longrightarrow>
     target_ok (po_policy pp) t \<and> (po_tunnel pp = None \<or> \<not> po_force pp \<and> \<not> wl_match (wl_get (po_wl pp)) host)"
  by (auto simp: connect_upstream_def dest: dial_context_tried split: option.splits if_splits prod.splits)

lemma hget_fold_hdel: "hget (fold hdel ks h) n = (if canonical_key n \<in> canonical_key ` set ks then [] else hget h n)"
proof (induction ks arbitrary: h)
  case (Cons k ks)
  have "hget (hdel k h) n = (if canonical_key n = canonical_key k then [] else hget h n)"
    by (simp add: hget_def map_of_hdel)
  with Cons show ?case by auto
qed simp

lemma px_fail_simps [simp]:
  "px_upstream (px_fail m r) = None" "px_forward (px_fail m r) = None" "px_reply (px_fail m r) = r"
  "px_metrics (px_fail m r) = count_error m" "px_lost (px_fail m r) = []"
  by (simp_all add: px_fail_def px_start_def)

text \<open>Where a run can have gone: nowhere, or to one upstream.\<close>

definition through_gate :: "popts \<Rightarrow> conn_env \<Rightarrow> conn_run \<Rightarrow> bool" where
  "through_gate pp env r \<longleftrightarrow>
     (px_upstream r = None \<or> (\<exists>host port. px_upstream r = Some (connect_upstream pp (ce_net env) host port))) \<and>
     (\<forall>fw. px_forward r = Some fw \<longrightarrow> (\<exists>h. fw_header fw = clean_proxy_headers h))"

lemma handle_gate:
  "through_gate pp env (handle_connect pp env target rest m)"
  "through_gate pp env (handle_http pp env input m)"
  by (auto simp: through_gate_def handle_connect_def handle_http_def Let_def split: prod.splits option.splits sum.splits)

lemma handle_conn_gate: "through_gate pp env (handle_conn pp env m)"
proof -
  have "through_gate pp env (handle_head pp env k)" for k
    using handle_gate [of pp env] by (auto simp: handle_head_def through_gate_def split: option.splits prod.splits list.splits)
  then show ?thesis by (simp add: handle_conn_def through_gate_def Let_def)
qed

definition sample_popts :: popts where
  "sample_popts =
     \<lparr>po_bind = ''127.0.0.1'', po_port = 9, po_wl = wl_new_store None, po_policy = public_policy, po_tunnel = None, po_force = False,
      po_idle = 1, po_max_header = 100, po_copy = 1\<rparr>"

definition sample_conn :: conn_env where
  "sample_conn =
     \<lparr>ce_input = ''CONNECT 10.0.0.1:443 HTTP/1.1'' @ crlf @ crlf, ce_request = (\<lambda>s. None),
      ce_net = \<lparr>pe_lookup = (\<lambda>h. Inl []), pe_connect = (\<lambda>a. Inl []), pe_rnd = (\<lambda>_. None), pe_tunnel_dial = Inl [],
        pe_tunnel_write = False, pe_tunnel_server = (\<lambda>_. [])\<rparr>,
      ce_write = False, ce_answer = Inl [], ce_reply_ok = False, ce_text = (\<lambda>e. [])\<rparr>"



section \<open>The counters balance\<close>

definition balanced :: "metrics \<Rightarrow> bool" where
  "balanced m \<longleftrightarrow> mx_tunnel m + mx_direct m = mx_https m + mx_http m \<and> sum_list (map snd (mx_hosts m)) \<le> mx_https m + mx_http m \<and>
     mkeys_ok (mx_hosts m)"

lemma sum_update:
  fixes m :: "('k \<times> int) list"
  shows "distinct (map fst m) \<Longrightarrow>
    sum_list (map snd (AList.update k v m)) = sum_list (map snd m) - (case map_of m k of None \<Rightarrow> 0 | Some c \<Rightarrow> c) + v"
proof (induction m)
  case (Cons x m)
  obtain a b where x: "x = (a, b)" by (cases x)
  have "a = k \<Longrightarrow> map_of m k = None" using Cons.prems by (auto simp: x map_of_eq_None_iff)
  with Cons show ?case by (cases "a = k") (simp_all add: x)
qed simp

lemma add_host_sum:
  assumes "mkeys_ok (mx_hosts m)"
  shows "sum_list (map snd (mx_hosts (add_host h n m))) \<le> sum_list (map snd (mx_hosts m)) + max n 0"
    and "mkeys_ok (mx_hosts (add_host h n m))"
  using sum_update [OF assms [unfolded mkeys_ok_def]] assms
  by (auto simp: add_host_def mput_def mkeys_ok_def distinct_update)

lemma add_host_fields [simp]:
  "mx_tunnel (add_host h n m) = mx_tunnel m" "mx_direct (add_host h n m) = mx_direct m" "mx_https (add_host h n m) = mx_https m"
  "mx_http (add_host h n m) = mx_http m" "mx_errors (add_host h n m) = mx_errors m" "mx_active (add_host h n m) = mx_active m"
  "mx_connections (add_host h n m) = mx_connections m"
  by (simp_all add: add_host_def)

lemma count_error_balanced [simp]: "balanced (count_error m) = balanced m"
  by (simp add: balanced_def count_error_def)

lemma count_conn_balanced: "balanced m \<Longrightarrow> balanced (count_conn https h c m)"
  using add_host_sum [of "m\<lparr>mx_https := mx_https m + 1\<rparr>" h 1] add_host_sum [of "m\<lparr>mx_http := mx_http m + 1\<rparr>" h 1]
  by (cases c) (auto simp: balanced_def count_conn_def Let_def)

text \<open>What the handlers do to the counters: an error or a connection is counted, and nothing else but both.\<close>

definition counted :: "metrics \<Rightarrow> metrics \<Rightarrow> bool" where
  "counted m k \<longleftrightarrow> mx_active k = mx_active m \<and> mx_connections k = mx_connections m \<and> (balanced m \<longrightarrow> balanced k) \<and>
     mx_errors m \<le> mx_errors k \<and> mx_errors k \<le> mx_errors m + 1 \<and>
     mx_https m + mx_http m \<le> mx_https k + mx_http k \<and> mx_https k + mx_http k \<le> mx_https m + mx_http m + 1 \<and>
     mx_errors m + mx_https m + mx_http m < mx_errors k + mx_https k + mx_http k"

lemma counted_steps:
  "counted m (count_error m)" "counted m (count_conn b h c m)" "counted m (count_error (count_conn b h c m))"
proof -
  show "counted m (count_error m)" using count_error_balanced [of m] by (simp add: counted_def) (simp add: count_error_def)
  have f: "mx_active (count_conn b h c m) = mx_active m" "mx_connections (count_conn b h c m) = mx_connections m"
    "mx_errors (count_conn b h c m) = mx_errors m"
    "mx_https (count_conn b h c m) + mx_http (count_conn b h c m) = mx_https m + mx_http m + 1"
    by (cases c; simp add: count_conn_def Let_def)+
  show "counted m (count_conn b h c m)" using count_conn_balanced [of m b h c] f by (simp add: counted_def)
  have e: "mx_active (count_error k) = mx_active k" "mx_connections (count_error k) = mx_connections k"
    "mx_errors (count_error k) = mx_errors k + 1" "mx_https (count_error k) = mx_https k" "mx_http (count_error k) = mx_http k" for k
    by (simp_all add: count_error_def)
  show "counted m (count_error (count_conn b h c m))" using count_conn_balanced [of m b h c] f e by (simp add: counted_def)
qed

lemma handle_counted:
  "counted m (px_metrics (handle_connect pp env target rest m))"
  "counted m (px_metrics (handle_http pp env input m))"
  using counted_steps [of m]
  by (auto simp: handle_connect_def handle_http_def Let_def split: prod.splits option.splits sum.splits)

text \<open>
  C38. The counters of the local proxy. Whatever happens on a connection, it is counted once and not active afterwards; it counts
  as an error, as a connection, or as both; and connections through the tunnel and direct ones together are always the
  HTTPS and HTTP ones together, which the counts of the hosts never exceed.
\<close>

theorem proxy_counters_balance:
  assumes "balanced m"
  shows "balanced (px_metrics (handle_conn pp env m)) \<and>
    mx_active (px_metrics (handle_conn pp env m)) = mx_active m \<and>
    mx_connections (px_metrics (handle_conn pp env m)) = mx_connections m + 1 \<and>
    mx_errors m + mx_https m + mx_http m
      < mx_errors (px_metrics (handle_conn pp env m)) + mx_https (px_metrics (handle_conn pp env m)) + mx_http (px_metrics (handle_conn pp env m)) \<and>
    (0 \<le> n \<longrightarrow> int (length (top_hosts n m)) \<le> n) \<and> set (top_hosts n m) \<subseteq> set (mx_hosts m)"
proof -
  let ?m = "m\<lparr>mx_connections := mx_connections m + 1, mx_active := mx_active m + 1\<rparr>"
  have "counted ?m (px_metrics (handle_head pp env ?m))"
    using handle_counted [of ?m pp env] counted_steps(1) [of ?m]
    by (auto simp: handle_head_def split: option.splits prod.splits list.splits)
  moreover have "balanced ?m" using assms by (simp add: balanced_def)
  moreover have "balanced (k\<lparr>mx_active := x\<rparr>) = balanced k" for k x by (simp add: balanced_def)
  ultimately show ?thesis
    by (auto simp: counted_def handle_conn_def top_hosts_def Let_def dest: in_set_takeD)
qed

theorem proxy_counters_balance_witness:
  "\<exists>k. k = px_metrics (handle_conn sample_popts sample_conn new_metrics) \<and> balanced k \<and> mx_errors k + mx_https k + mx_http k > 0"
proof -
  have "balanced new_metrics" by (simp add: balanced_def new_metrics_def)
  from proxy_counters_balance [OF this, of sample_popts sample_conn 0] show ?thesis by (simp add: new_metrics_def)
qed

end
