(* ===== verification/Adapters.thy ===== *)
theory Adapters
  imports ClientConfig UrlText
begin

text \<open>
  The tool adapters of the client (\<open>internal/client/adapters\<close>: \<open>adapters.go\<close> and \<open>mirrors.go\<close>): how a tool is classified,
  what preparing it prints and writes, the environment of the child, and the mirror variables that are injected unless the
  user has chosen an index. A hint is a constructor with its arguments; a write is listed with the text it writes.
  Environment, files and the outcome of commands are fields of the machine.
\<close>

section \<open>The machine\<close>

record machine =
  mc_env :: "string \<Rightarrow> string"
  mc_home :: "string option"
  mc_cwd :: string
  mc_config_dir :: "string option"
  mc_exists :: "string \<Rightarrow> bool"
  mc_file :: "string \<Rightarrow> file_read"
  mc_windows :: bool
  mc_root :: bool
  mc_writable :: "string \<Rightarrow> bool"
  mc_npm :: bool
  mc_npm_proxy :: "string option"
  mc_npm_set :: "string \<Rightarrow> bool"

datatype file_op = Write_To string string | Append_To string string | Run_Command "string list"

section \<open>Tools\<close>

datatype level = Level_High | Level_Mid | Level_Low | Level_Unknown

record tool_info =
  ti_name :: string
  ti_level :: level
  ti_env_only :: bool

definition base_name :: "string \<Rightarrow> string" where
  "base_name tool = path_base (map (\<lambda>c. if c = CHR 0x5C then CHR ''/'' else c) tool)"

definition identify :: "string \<Rightarrow> tool_info" where
  "identify tool =
     (let base = base_name tool; info = (\<lambda>l e. \<lparr>ti_name = base, ti_level = l, ti_env_only = e\<rparr>) in
      if base \<in> {''curl'', ''wget'', ''git'', ''pip'', ''pip3'', ''uv'', ''python'', ''python3'', ''go'', ''cargo'', ''rustup'',
                 ''gem'', ''bundle'', ''gradle'', ''mvn''} then info Level_High True
      else if base \<in> {''npm'', ''yarn'', ''pnpm'', ''bun''} then info Level_Mid False
      else if base \<in> {''conda'', ''mamba'', ''micromamba''} then info Level_Mid False
      else if base \<in> {''apt'', ''apt-get''} then info Level_Mid False
      else if base \<in> {''yum'', ''dnf'', ''microdnf''} then info Level_Mid False
      else if base \<in> {''docker'', ''podman'', ''nerdctl''} then info Level_Low False
      else if base \<in> {''docker-compose'', ''compose''} then info Level_Low False
      else info Level_Unknown True)"

section \<open>Preparing a tool\<close>

datatype hint =
    Proxy_Disabled string | Reads_Env string | Unknown_Tool string
  | Npm_Query_Failed | Npm_Differs string string | Npm_Set_Failed string | Npm_Set string string
  | Conda_Hint string string | Conda_Not_Readable string | Conda_Not_Parsed string | Conda_Not_Written string | Conda_Merged string
  | Apt_Hint string string | Apt_Windows | Apt_Root | Apt_Not_Written string | Apt_Written string
  | Dnf_Hint string string | Dnf_Windows string | Dnf_Root string | Dnf_Already string string | Dnf_Not_Written string string
  | Dnf_Appended string string string
  | Docker_Daemon string | Docker_No_File | Docker_Not_Readable string | Docker_Not_Json string | Docker_Mirrors "json list"
  | Docker_Hint string | Docker_No_Restart

record pre_options =
  pt_tool :: string
  pt_proxy :: string
  pt_apply :: bool
  pt_verbose :: bool

type_synonym prepared = "hint list \<times> file_op list"

definition npm_adapt :: "machine \<Rightarrow> pre_options \<Rightarrow> prepared" where
  "npm_adapt mc q =
     (if \<not> mc_npm mc then ([], [])
      else case mc_npm_proxy mc of
        None \<Rightarrow> (if pt_verbose q then [Npm_Query_Failed] else [], [])
      | Some out \<Rightarrow>
          (let cur = trim_space out;
               differs = (if cur \<noteq> [] \<and> cur \<noteq> ''null'' \<and> cur \<noteq> pt_proxy q then [Npm_Differs cur (pt_proxy q)] else []);
               keys = (if pt_apply q then [''proxy'', ''https-proxy''] else [])
           in (differs @ map (\<lambda>k. if mc_npm_set mc k then Npm_Set k (pt_proxy q) else Npm_Set_Failed k) keys,
               map (\<lambda>k. Run_Command [''npm'', ''config'', ''set'', k, pt_proxy q]) keys)))"

text \<open>
  How \<open>%v\<close> prints a value of a JSON tree; \<open>ft\<close> writes a float64, which every number of the tree is. Maps are
  printed with sorted keys.
\<close>

fun go_value :: "(rat \<Rightarrow> string) \<Rightarrow> json \<Rightarrow> string"
  and go_values :: "(rat \<Rightarrow> string) \<Rightarrow> json list \<Rightarrow> string list"
  and go_entries :: "(rat \<Rightarrow> string) \<Rightarrow> (string \<times> json) list \<Rightarrow> (string \<times> string) list" where
  "go_value ft J_Null = ''<nil>''"
| "go_value ft (J_Bool b) = (if b then ''true'' else ''false'')"
| "go_value ft (J_Int i) = ft (of_int i)"
| "go_value ft (J_Float x) = ft x"
| "go_value ft (J_Str s) = s"
| "go_value ft (J_Arr js) = ''['' @ join '' '' (go_values ft js) @ '']''"
| "go_value ft (J_Obj ms) = ''map['' @ join '' '' (map (\<lambda>(k, v). k @ '':'' @ v) (sort_key fst (go_entries ft ms))) @ '']''"
| "go_values ft [] = []"
| "go_values ft (j # js) = go_value ft j # go_values ft js"
| "go_entries ft [] = []"
| "go_entries ft ((k, j) # ms) = (k, go_value ft j) # go_entries ft ms"

text \<open>\<open>writeCondarc\<close>; the entries in the order in which the maps are walked.\<close>

definition condarc_text :: "(rat \<Rightarrow> string) \<Rightarrow> (string, json) gomap \<Rightarrow> string" where
  "condarc_text ft cfg =
     concat (map (\<lambda>(k, v). case v of
         J_Obj ms \<Rightarrow> k @ '':'' @ [CHR 0x0A] @ concat (map (\<lambda>(k2, v2). ''  '' @ k2 @ '': '' @ go_value ft v2 @ [CHR 0x0A]) ms)
       | _ \<Rightarrow> k @ '': '' @ go_value ft v @ [CHR 0x0A]) cfg)"

text \<open>The merged configuration: a map that was read from the file, with the two entries replaced.\<close>

definition merge_condarc :: "string \<Rightarrow> (string, json) gomap \<Rightarrow> (string, json) gomap" where
  "merge_condarc proxy cfg =
     (let ps = (case mget cfg ''proxy_servers'' of Some (J_Obj ms) \<Rightarrow> as_map ms | _ \<Rightarrow> []) in
      mput ''proxy_servers'' (J_Obj (mput ''https'' (J_Str proxy) (mput ''http'' (J_Str proxy) ps))) cfg)"

definition condarc_snippet :: "string \<Rightarrow> string" where
  "condarc_snippet proxy =
     ''proxy_servers:'' @ [CHR 0x0A] @ ''  http: '' @ proxy @ [CHR 0x0A] @ ''  https: '' @ proxy @ [CHR 0x0A]"

definition conda_adapt :: "(rat \<Rightarrow> string) \<Rightarrow> machine \<Rightarrow> pre_options \<Rightarrow> prepared" where
  "conda_adapt ft mc q =
     (let rc = path_join [(case mc_home mc of None \<Rightarrow> [] | Some h \<Rightarrow> h), ''.condarc''] in
      if \<not> pt_apply q then ([Conda_Hint rc (trim_right_set (condarc_snippet (pt_proxy q)) [CHR 0x0A])], [])
      else
        (let write = (\<lambda>cfg. if mc_writable mc rc
               then ([Conda_Merged rc], [Write_To rc (condarc_text ft (merge_condarc (pt_proxy q) cfg))])
               else ([Conda_Not_Written rc], []))
         in case mc_file mc rc of
              Read_Error \<Rightarrow> ([Conda_Not_Readable rc], [])
            | No_File \<Rightarrow> write []
            | File data \<Rightarrow>
                (case (if data = [] then Some (Inr None) else yaml_document data) of
                   Some (Inr None) \<Rightarrow> write []
                 | Some (Inr (Some (J_Obj ms))) \<Rightarrow> write (as_map ms)
                 | _ \<Rightarrow> ([Conda_Not_Parsed rc], []))))"

definition apt_file :: string where
  "apt_file = ''/etc/apt/apt.conf.d/99dldw''"

definition apt_text :: "string \<Rightarrow> string" where
  "apt_text proxy =
     ''// written by dldw (remove to disable)'' @ [CHR 0x0A] @
     ''Acquire::http::Proxy '' @ [CHR 0x22] @ proxy @ [CHR 0x22, CHR '';'', CHR 0x0A] @
     ''Acquire::https::Proxy '' @ [CHR 0x22] @ proxy @ [CHR 0x22, CHR '';'', CHR 0x0A]"

definition apt_adapt :: "machine \<Rightarrow> pre_options \<Rightarrow> prepared" where
  "apt_adapt mc q =
     (if \<not> pt_apply q then ([Apt_Hint (pt_tool q) (trim_right_set (apt_text (pt_proxy q)) [CHR 0x0A])], [])
      else if mc_windows mc then ([Apt_Windows], [])
      else if \<not> mc_root mc then ([Apt_Root], [])
      else if \<not> mc_writable mc apt_file then ([Apt_Not_Written apt_file], [])
      else ([Apt_Written apt_file], [Write_To apt_file (apt_text (pt_proxy q))]))"

definition dnf_files :: "string list" where
  "dnf_files = [''/etc/dnf/dnf.conf'', ''/etc/yum.conf'', ''/etc/yum/yum.conf'']"

definition dnf_adapt :: "machine \<Rightarrow> pre_options \<Rightarrow> prepared" where
  "dnf_adapt mc q =
     (let tool = pt_tool q; line = ''proxy='' @ pt_proxy q in
      if \<not> pt_apply q then ([Dnf_Hint tool (pt_proxy q)], [])
      else if mc_windows mc then ([Dnf_Windows tool], [])
      else if \<not> mc_root mc then ([Dnf_Root tool], [])
      else
        (let target = (case find (mc_exists mc) dnf_files of Some f \<Rightarrow> f | None \<Rightarrow> hd dnf_files);
             data = (case mc_file mc target of File d \<Rightarrow> d | _ \<Rightarrow> [])
         in if contains data ''proxy='' then ([Dnf_Already tool target], [])
            else if \<not> mc_writable mc target then ([Dnf_Not_Written tool target], [])
            else ([Dnf_Appended tool line target],
              [Append_To target ((if data \<noteq> [] \<and> \<not> has_suffix data [CHR 0x0A] then [CHR 0x0A] else []) @ line @ [CHR 0x0A])])))"

definition docker_daemon_json :: "machine \<Rightarrow> string" where
  "docker_daemon_json mc =
     (if mc_windows mc then
        (let p = path_join [(case mc_home mc of None \<Rightarrow> [] | Some h \<Rightarrow> h), ''.docker'', ''daemon.json'']
         in if mc_exists mc p then p else path_join [mc_env mc ''ProgramData'', ''docker'', ''config'', ''daemon.json''])
      else if mc_exists mc ''/etc/docker/daemon.json'' then ''/etc/docker/daemon.json'' else [])"

definition docker_adapt :: "machine \<Rightarrow> pre_options \<Rightarrow> prepared" where
  "docker_adapt mc q =
     (let path = docker_daemon_json mc; first = Docker_Daemon (pt_tool q) in
      if path = [] then ([first, Docker_No_File], [])
      else case mc_file mc path of
        File data \<Rightarrow>
          (let mirrors = (\<lambda>cfg :: (string, json) gomap. case mget cfg ''registry-mirrors'' of
                 Some (J_Arr (j # js)) \<Rightarrow> Docker_Mirrors (j # js) | _ \<Rightarrow> Docker_Hint path)
           in (case parse_json data of
                 Some (J_Obj ms) \<Rightarrow> ([first, mirrors (as_map ms), Docker_No_Restart], [])
               | Some J_Null \<Rightarrow> ([first, mirrors [], Docker_No_Restart], [])
               | _ \<Rightarrow> ([first, Docker_Not_Json path], [])))
      | _ \<Rightarrow> ([first, Docker_Not_Readable path], []))"

definition pre_tool :: "(rat \<Rightarrow> string) \<Rightarrow> machine \<Rightarrow> pre_options \<Rightarrow> prepared" where
  "pre_tool ft mc q =
     (let info = identify (pt_tool q); n = ti_name info in
      if pt_proxy q = [] then (if ti_env_only info then [] else [Proxy_Disabled n], [])
      else if n = ''npm'' then npm_adapt mc q
      else if n \<in> {''yarn'', ''pnpm'', ''bun''} then ([Reads_Env n], [])
      else if n \<in> {''conda'', ''mamba'', ''micromamba''} then conda_adapt ft mc q
      else if n \<in> {''apt'', ''apt-get''} then apt_adapt mc q
      else if n \<in> {''yum'', ''dnf'', ''microdnf''} then dnf_adapt mc q
      else if n \<in> {''docker'', ''podman'', ''nerdctl'', ''docker-compose'', ''compose''} then docker_adapt mc q
      else (if ti_level info = Level_Unknown then [Unknown_Tool n] else [], []))"

section \<open>The environment of the child\<close>

definition proxy_env_vars :: "string \<Rightarrow> string \<Rightarrow> string list" where
  "proxy_env_vars proxy no_proxy =
     (let np = (if no_proxy = [] then ''localhost,127.0.0.1,::1,*.local'' else no_proxy) in
      [''http_proxy='' @ proxy, ''https_proxy='' @ proxy, ''HTTP_PROXY='' @ proxy, ''HTTPS_PROXY='' @ proxy,
       ''no_proxy='' @ np, ''NO_PROXY='' @ np])"

definition dropped_vars :: "string list" where
  "dropped_vars =
     [''http_proxy'', ''https_proxy'', ''HTTP_PROXY'', ''HTTPS_PROXY'', ''all_proxy'', ''ALL_PROXY'', ''no_proxy'', ''NO_PROXY'']"

text \<open>The name before the first equals sign, when there is one that is not first; and the value behind it.\<close>

definition env_entry :: "string \<Rightarrow> (string \<times> string) option" where
  "env_entry kv =
     (case index_byte kv CHR ''='' of
        None \<Rightarrow> None | Some i \<Rightarrow> if i = 0 then None else Some (take i kv, drop (Suc i) kv))"

definition drops :: "string \<Rightarrow> bool" where
  "drops kv = (case env_entry kv of None \<Rightarrow> False | Some (k, v) \<Rightarrow> k \<in> set dropped_vars)"

definition build_env :: "string list \<Rightarrow> string \<Rightarrow> string list" where
  "build_env base proxy =
     filter (\<lambda>kv. \<not> drops kv) base @ (if proxy = [] then [] else proxy_env_vars proxy [])"

definition validate_proxy_url :: "string \<Rightarrow> bool" where
  "validate_proxy_url u =
     (case url_parse u of None \<Rightarrow> False | Some p \<Rightarrow> u_scheme p = ''http'' \<and> u_host p \<noteq> [])"

section \<open>Mirrors\<close>

record mirror_caps =
  mk_pypi :: bool
  mk_npm :: bool
  mk_mirror :: bool
  mk_gomod :: bool
  mk_hf :: bool
  mk_auth :: bool

definition uv_flags :: "string list" where
  "uv_flags = [''--index'', ''--index-url'', ''--default-index'', ''--extra-index-url'', ''--uv-index'']"
definition uv_env :: "string list" where
  "uv_env = [''UV_INDEX_URL'', ''UV_DEFAULT_INDEX'', ''UV_INDEX'', ''PIP_INDEX_URL'']"
definition pip_flags :: "string list" where
  "pip_flags = [''-i'', ''--index-url'', ''--extra-index-url'']"
definition pip_env :: "string list" where
  "pip_env = [''PIP_INDEX_URL'']"
definition npm_flags :: "string list" where
  "npm_flags = [''--registry'']"
definition npm_env :: "string list" where
  "npm_env = [''NPM_CONFIG_REGISTRY'', ''npm_config_registry'']"
definition pip_reads :: "string list" where
  "pip_reads = [''install'', ''download'', ''wheel'']"
definition npm_reads :: "string list" where
  "npm_reads =
     [''install'', ''i'', ''ci'', ''add'', ''install-clean'', ''update'', ''outdated'', ''view'', ''info'', ''show'', ''pack'',
      ''cache'', ''ls'', ''list'', ''why'', ''diff'', ''audit'', ''rebuild'']"

definition uv_files :: "machine \<Rightarrow> string list" where
  "uv_files mc = filter (mc_exists mc) (map (\<lambda>f. path_join [mc_cwd mc, f]) [''uv.toml'', ''pyproject.toml''])"

definition pip_files :: "machine \<Rightarrow> string list" where
  "pip_files mc =
     (if mc_env mc ''PIP_CONFIG_FILE'' \<noteq> [] then [mc_env mc ''PIP_CONFIG_FILE''] else []) @
     (if mc_env mc ''APPDATA'' \<noteq> [] then [path_join [mc_env mc ''APPDATA'', ''pip'', ''pip.ini'']] else []) @
     (case mc_home mc of None \<Rightarrow> [] | Some h \<Rightarrow> [path_join [h, ''.config'', ''pip'', ''pip.conf'']])"

definition npm_files :: "machine \<Rightarrow> string list" where
  "npm_files mc =
     filter (mc_exists mc) (path_join [mc_cwd mc, ''.npmrc''] #
       (case mc_home mc of None \<Rightarrow> [] | Some h \<Rightarrow> [path_join [h, ''.npmrc'']]))"

definition env_has :: "string list \<Rightarrow> string \<Rightarrow> bool" where
  "env_has env key =
     list_ex (\<lambda>kv. case env_entry kv of None \<Rightarrow> False | Some (k, v) \<Rightarrow> equal_fold k key \<and> trim_space v \<noteq> []) env"

definition lines_of :: "string \<Rightarrow> string list" where
  "lines_of s = split_byte CHR 0x0A s"

definition go_proxy_configured :: "machine \<Rightarrow> string list \<Rightarrow> bool" where
  "go_proxy_configured mc env \<longleftrightarrow>
     env_has env ''GOPROXY'' \<or> mc_env mc ''GOPROXY'' \<noteq> [] \<or>
     (case mc_config_dir mc of
        None \<Rightarrow> False
      | Some d \<Rightarrow>
          (case mc_file mc (path_join [d, ''go'', ''env'']) of
             File data \<Rightarrow>
               list_ex (\<lambda>l. has_prefix (trim_space l) ''GOPROXY='' \<and> trim_space (drop 8 (trim_space l)) \<noteq> []) (lines_of data)
           | _ \<Rightarrow> False))"

definition flag_given :: "string list \<Rightarrow> string list \<Rightarrow> bool" where
  "flag_given args flags = list_ex (\<lambda>a. list_ex (\<lambda>f. a = f \<or> has_prefix a (f @ ''='')) flags) args"

definition names_index :: "machine \<Rightarrow> string \<Rightarrow> bool" where
  "names_index mc f =
     (case mc_file mc f of
        File s \<Rightarrow> contains s ''index-url'' \<or> contains s ''registry'' \<or> contains s ''[[tool.uv.index]]'' \<or>
          contains s ''tool.uv.index'' \<or> contains s ''default-index''
      | _ \<Rightarrow> False)"

definition user_specifies_index :: "machine \<Rightarrow> string list \<Rightarrow> string list \<Rightarrow> string list \<Rightarrow> string list \<Rightarrow> string list \<Rightarrow> bool" where
  "user_specifies_index mc args env flags keys files \<longleftrightarrow>
     flag_given args flags \<or> list_ex (env_has env) keys \<or> list_ex (names_index mc) files"

fun is_read_subcommand :: "string list \<Rightarrow> string list \<Rightarrow> bool" where
  "is_read_subcommand [] allowed = False"
| "is_read_subcommand (a # as) allowed = (if has_prefix a ''-'' then is_read_subcommand as allowed else a \<in> set allowed)"

text \<open>The server's address with the token as user, and the token of such an address.\<close>

definition mirror_base :: "mirror_caps \<Rightarrow> string \<Rightarrow> string \<Rightarrow> string" where
  "mirror_base caps server token =
     (let base = trim_right_set server ''/'' in
      if mk_auth caps \<and> token \<noteq> [] then
        (case url_parse base of
           Some u \<Rightarrow> if u_user u = None then url_string (u\<lparr>u_user := Some (url_escape In_User token)\<rparr>) else base
         | None \<Rightarrow> base)
      else base)"

definition token_for_url :: "string \<Rightarrow> string" where
  "token_for_url base =
     (case url_parse base of Some u \<Rightarrow> if u_user u \<noteq> None then url_username u else [] | None \<Rightarrow> [])"

definition npmrc_lines :: "string \<Rightarrow> string \<Rightarrow> string" where
  "npmrc_lines registry token =
     (let plain = (case url_parse registry of
            Some u \<Rightarrow> if u_user u \<noteq> None then url_string (u\<lparr>u_user := None\<rparr>) else registry | None \<Rightarrow> registry)
      in ''registry='' @ plain @ [CHR 0x0A] @
         (if token = [] then []
          else case url_parse plain of
            Some u \<Rightarrow> ''//'' @ u_host u @ u_path u @ ''/:_authToken='' @ token @ [CHR 0x0A] | None \<Rightarrow> []))"

text \<open>\<open>ensureNpmrcRegistry\<close>: whether it succeeds, and what is appended.\<close>

definition ensure_npmrc :: "machine \<Rightarrow> string \<Rightarrow> string \<Rightarrow> bool \<times> file_op list" where
  "ensure_npmrc mc registry token =
     (let rc = path_join [mc_cwd mc, ''.npmrc'']; data = (case mc_file mc rc of File d \<Rightarrow> d | _ \<Rightarrow> []) in
      if mc_file mc rc = Read_Error then (False, [])
      else if list_ex (\<lambda>l. has_prefix (trim_space l) ''registry='') (lines_of data) then (True, [])
      else if \<not> mc_writable mc rc then (False, [])
      else (True, [Append_To rc ((if data \<noteq> [] \<and> \<not> has_suffix data [CHR 0x0A] then [CHR 0x0A] else []) @ npmrc_lines registry token)]))"

definition npm_vars :: "string \<Rightarrow> string list" where
  "npm_vars url = [''NPM_CONFIG_REGISTRY='' @ url, ''npm_config_registry='' @ url]"

definition tool_mirrors ::
    "machine \<Rightarrow> string \<Rightarrow> string list \<Rightarrow> string list \<Rightarrow> string \<Rightarrow> mirror_caps \<Rightarrow> string list \<times> file_op list" where
  "tool_mirrors mc tool args env base caps =
     (let pypi = base @ ''/pypi/simple''; npm = base @ ''/npm'';
          npm_ok = (mk_npm caps \<and> is_read_subcommand args npm_reads \<and>
                    \<not> user_specifies_index mc args env npm_flags npm_env (npm_files mc))
      in if tool = ''uv'' then
           (if mk_pypi caps \<and> \<not> user_specifies_index mc args env uv_flags uv_env (uv_files mc)
            then [''UV_INDEX_URL='' @ pypi] else [], [])
         else if tool \<in> {''pip'', ''pip3''} then
           (if mk_pypi caps \<and> is_read_subcommand args pip_reads \<and>
               \<not> user_specifies_index mc args env pip_flags pip_env (pip_files mc)
            then [''PIP_INDEX_URL='' @ pypi] else [], [])
         else if tool = ''go'' then
           (if mk_gomod caps \<and> \<not> go_proxy_configured mc env then [''GOPROXY='' @ base @ ''/gomod,direct''] else [], [])
         else if tool \<in> {''npm'', ''bun'', ''yarn''} then (if npm_ok then npm_vars npm else [], [])
         else if tool = ''pnpm'' then
           (if npm_ok then
              (let (ok, ops) = ensure_npmrc mc npm (token_for_url base)
               in (if ok then [''DLDW_NPM_MIRROR=1''] else [], ops))
            else ([], []))
         else ([], []))"

text \<open>
  \<open>python -m pip\<close> counts as pip with the remaining arguments; the call for it starts again with the trimmed address of the
  server, of which nothing may be left.
\<close>

definition python_pip :: "string \<Rightarrow> string list \<Rightarrow> string \<times> string list" where
  "python_pip tool args =
     (if tool \<in> {''python'', ''python3''} then
        (case args of
           m # p # rest \<Rightarrow> if m = ''-m'' \<and> (p = ''pip'' \<or> p = ''pip3'') then (p, rest) else (tool, args)
         | _ \<Rightarrow> (tool, args))
      else (tool, args))"

definition inject_mirrors ::
    "machine \<Rightarrow> string \<Rightarrow> string list \<Rightarrow> string list \<Rightarrow> string \<Rightarrow> string \<Rightarrow> mirror_caps \<Rightarrow> string list \<times> file_op list" where
  "inject_mirrors mc tool args env server token caps =
     (if server = [] \<or> fst (python_pip tool args) \<noteq> tool \<and> trim_right_set server ''/'' = [] then ([], [])
      else
        (let base = mirror_base caps server token; (tool', args') = python_pip tool args;
             (vars, ops) = tool_mirrors mc tool' args' env base caps
         in (vars @ (if mk_hf caps \<and> \<not> env_has env ''HF_ENDPOINT'' \<and> mc_env mc ''HF_ENDPOINT'' = []
                     then [''HF_ENDPOINT='' @ base @ ''/hf''] else []), ops)))"

section \<open>The environment has one source of proxies\<close>

lemma env_entry_append:
  assumes "CHR ''='' \<notin> set k" and "k \<noteq> []"
  shows "env_entry (k @ CHR ''='' # v) = Some (k, v)"
  using assms by (simp add: env_entry_def index_byte_append)

lemma index_of_sign:
  assumes "CHR ''='' \<notin> set k"
  shows "index_byte (k @ CHR ''='' # v) CHR ''='' = Some (length k)"
  using assms by (simp add: index_byte_append)

lemma dropped_entry:
  assumes "k \<in> set dropped_vars"
  shows "drops (k @ CHR ''='' # v)"
proof -
  have "CHR ''='' \<notin> set k" and "k \<noteq> []" using assms by (auto simp: dropped_vars_def)
  then show ?thesis using assms by (simp add: drops_def env_entry_append)
qed

lemma proxy_vars_dropped:
  assumes "kv \<in> set (proxy_env_vars proxy np)"
  shows "drops kv"
  using assms dropped_entry [of "''http_proxy''"] dropped_entry [of "''https_proxy''"] dropped_entry [of "''HTTP_PROXY''"]
    dropped_entry [of "''HTTPS_PROXY''"] dropped_entry [of "''no_proxy''"] dropped_entry [of "''NO_PROXY''"]
  by (auto simp: proxy_env_vars_def dropped_vars_def Let_def)

lemma filter_drops_vars [simp]:
  "filter drops (proxy_env_vars proxy np) = proxy_env_vars proxy np"
  "filter (\<lambda>kv. \<not> drops kv) (proxy_env_vars proxy np) = []"
  using proxy_vars_dropped by (auto simp: filter_id_conv filter_empty_conv)

lemma build_env_drops: "filter drops (build_env base proxy) = (if proxy = [] then [] else proxy_env_vars proxy [])"
  by (auto simp: build_env_def filter_empty_conv proxy_vars_dropped)


section \<open>Injected variables do not replace those of the user\<close>

definition mirror_vars :: "string list" where
  "mirror_vars = [''UV_INDEX_URL'', ''PIP_INDEX_URL'', ''GOPROXY'', ''NPM_CONFIG_REGISTRY'', ''npm_config_registry'',
     ''DLDW_NPM_MIRROR'', ''HF_ENDPOINT'']"

lemma mirror_vars_plain: "k \<in> set mirror_vars \<Longrightarrow> CHR ''='' \<notin> set k \<and> k \<noteq> [] \<and> k \<notin> set dropped_vars"
  by (auto simp: mirror_vars_def dropped_vars_def)

definition gives_way :: "string list \<Rightarrow> string \<Rightarrow> bool" where
  "gives_way env kv \<longleftrightarrow>
     (\<exists>k v. env_entry kv = Some (k, v) \<and> k \<in> set mirror_vars \<and> (k = ''DLDW_NPM_MIRROR'' \<or> \<not> env_has env k))"

lemma gives_wayI:
  assumes "k \<in> set mirror_vars" and "k = ''DLDW_NPM_MIRROR'' \<or> \<not> env_has env k"
  shows "gives_way env (k @ CHR ''='' # v)"
  using env_entry_append [of k v] mirror_vars_plain [OF assms(1)] assms by (auto simp: gives_way_def)

lemma gives_way_not_dropped: "gives_way env kv \<Longrightarrow> \<not> drops kv"
  using mirror_vars_plain by (auto simp: gives_way_def drops_def)

lemma no_choice_no_env:
  assumes "\<not> user_specifies_index mc args env flags keys files" and "k \<in> set keys"
  shows "\<not> env_has env k"
  using assms by (auto simp: user_specifies_index_def list_ex_iff)

lemma choice_by_flag:
  assumes "flag_given args flags"
  shows "user_specifies_index mc args env flags keys files"
  using assms by (simp add: user_specifies_index_def)

lemma ensure_npmrc_ops:
  assumes "ensure_npmrc mc registry token = (ok, ops)" and "w \<in> set ops"
  shows "\<exists>t. w = Append_To (path_join [mc_cwd mc, ''.npmrc'']) t"
  using assms by (auto simp: ensure_npmrc_def Let_def split: if_splits)

lemma tool_mirrors_give_way:
  assumes "tool_mirrors mc tool args env base caps = (vars, ops)" and "kv \<in> set vars"
  shows "gives_way env kv"
proof -
  have registry: "gives_way env kv"
    if "\<not> user_specifies_index mc args env npm_flags npm_env (npm_files mc)" and "kv \<in> set (npm_vars v)" for v
  proof -
    have "\<not> env_has env ''NPM_CONFIG_REGISTRY''" and "\<not> env_has env ''npm_config_registry''"
      using that(1) by (auto dest: no_choice_no_env simp: npm_env_def)
    then show ?thesis
      using that(2) gives_wayI [of "''NPM_CONFIG_REGISTRY''" env v] gives_wayI [of "''npm_config_registry''" env v]
      by (auto simp: npm_vars_def mirror_vars_def)
  qed
  consider (uv) "tool = ''uv''" | (pip) "tool \<noteq> ''uv''" "tool \<in> {''pip'', ''pip3''}"
    | (go) "tool \<noteq> ''uv''" "tool \<notin> {''pip'', ''pip3''}" "tool = ''go''"
    | (npm) "tool \<noteq> ''uv''" "tool \<notin> {''pip'', ''pip3''}" "tool \<noteq> ''go''" "tool \<in> {''npm'', ''bun'', ''yarn''}"
    | (pnpm) "tool \<noteq> ''uv''" "tool \<notin> {''pip'', ''pip3''}" "tool \<noteq> ''go''" "tool \<notin> {''npm'', ''bun'', ''yarn''}"
    by blast
  then show ?thesis
  proof cases
    case uv
    then have *: "\<not> user_specifies_index mc args env uv_flags uv_env (uv_files mc)"
      and kv: "kv = ''UV_INDEX_URL'' @ CHR ''='' # (base @ ''/pypi/simple'')"
      using assms by (simp_all only: tool_mirrors_def Let_def if_True split: if_splits) auto
    have "\<not> env_has env ''UV_INDEX_URL''" using no_choice_no_env [OF *] by (simp add: uv_env_def)
    then show ?thesis unfolding kv by (intro gives_wayI) (simp_all add: mirror_vars_def)
  next
    case pip
    then have *: "\<not> user_specifies_index mc args env pip_flags pip_env (pip_files mc)"
      and kv: "kv = ''PIP_INDEX_URL'' @ CHR ''='' # (base @ ''/pypi/simple'')"
      using assms by (simp_all only: tool_mirrors_def Let_def if_True if_False split: if_splits) auto
    have "\<not> env_has env ''PIP_INDEX_URL''" using no_choice_no_env [OF *] by (simp add: pip_env_def)
    then show ?thesis unfolding kv by (intro gives_wayI) (simp_all add: mirror_vars_def)
  next
    case go
    then have *: "\<not> go_proxy_configured mc env" and kv: "kv = ''GOPROXY'' @ CHR ''='' # (base @ ''/gomod,direct'')"
      using assms by (simp_all only: tool_mirrors_def Let_def if_True if_False split: if_splits) auto
    have "\<not> env_has env ''GOPROXY''" using * by (simp add: go_proxy_configured_def)
    then show ?thesis unfolding kv by (intro gives_wayI) (simp_all add: mirror_vars_def)
  next
    case npm
    then have "\<not> user_specifies_index mc args env npm_flags npm_env (npm_files mc)"
      and "kv \<in> set (npm_vars (base @ ''/npm''))"
      using assms by (simp_all only: tool_mirrors_def Let_def if_True if_False split: if_splits) auto
    then show ?thesis by (rule registry)
  next
    case pnpm
    then have "kv = ''DLDW_NPM_MIRROR'' @ CHR ''='' # ''1''"
      using assms
      by (simp_all only: tool_mirrors_def Let_def if_True if_False split: if_splits prod.splits) (auto split: if_splits)
    then show ?thesis by (simp only:) (intro gives_wayI; simp add: mirror_vars_def)
  qed
qed

lemma tool_mirrors_ops:
  assumes "tool_mirrors mc tool args env base caps = (vars, ops)" and "w \<in> set ops"
  shows "tool = ''pnpm''" and "\<exists>t. w = Append_To (path_join [mc_cwd mc, ''.npmrc'']) t"
proof -
  have "tool = ''pnpm'' \<and> ops = snd (ensure_npmrc mc (base @ ''/npm'') (token_for_url base))"
    using assms
    by (simp only: tool_mirrors_def Let_def split: if_splits prod.splits) auto
  then show "tool = ''pnpm''" and "\<exists>t. w = Append_To (path_join [mc_cwd mc, ''.npmrc'']) t"
    using ensure_npmrc_ops [OF prod.collapse [symmetric]] assms(2) by blast+
qed

lemma hf_gives_way:
  assumes "\<not> env_has env ''HF_ENDPOINT''"
  shows "gives_way env (''HF_ENDPOINT='' @ v)"
  using gives_wayI [of "''HF_ENDPOINT''" env v] assms by (simp add: mirror_vars_def)

lemma base_without_auth:
  assumes "\<not> mk_auth caps"
  shows "mirror_base caps server token = trim_right_set server ''/''"
  using assms by (simp add: mirror_base_def)

lemma inject_gives_way:
  assumes "inject_mirrors mc tool args env server token caps = (vars, ops)"
  shows "\<forall>kv \<in> set vars. gives_way env kv"
    and "\<forall>w \<in> set ops. fst (python_pip tool args) = ''pnpm'' \<and> (\<exists>t. w = Append_To (path_join [mc_cwd mc, ''.npmrc'']) t)"
proof -
  obtain t a where p: "python_pip tool args = (t, a)" by (cases "python_pip tool args")
  obtain vs os where m: "tool_mirrors mc t a env (mirror_base caps server token) caps = (vs, os)"
    by (cases "tool_mirrors mc t a env (mirror_base caps server token) caps")
  let ?hf = "mk_hf caps \<and> \<not> env_has env ''HF_ENDPOINT'' \<and> mc_env mc ''HF_ENDPOINT'' = []"
  have "vars = [] \<and> ops = [] \<or>
      ops = os \<and> vars = vs @ (if ?hf then [''HF_ENDPOINT='' @ mirror_base caps server token @ ''/hf''] else [])"
    using assms p m by (auto simp: inject_mirrors_def Let_def split: if_splits)
  moreover have "\<forall>kv \<in> set vs. gives_way env kv" using tool_mirrors_give_way [OF m] by blast
  moreover have "\<forall>w \<in> set os. t = ''pnpm'' \<and> (\<exists>s. w = Append_To (path_join [mc_cwd mc, ''.npmrc'']) s)"
    using tool_mirrors_ops [OF m] by blast
  ultimately show "\<forall>kv \<in> set vars. gives_way env kv"
    and "\<forall>w \<in> set ops. fst (python_pip tool args) = ''pnpm'' \<and> (\<exists>t. w = Append_To (path_join [mc_cwd mc, ''.npmrc'']) t)"
    using p hf_gives_way by (auto split: if_splits)
qed

text \<open>
  C1. What is injected gives way to the user: no injected variable but the marker of pnpm replaces one that the environment
  sets, only for pnpm a file is changed, by appending to the \<open>.npmrc\<close> of the working directory, without a server nothing
  is injected, and as long as the server asks for no authentication the device token does not occur in what is injected.
\<close>

theorem mirrors_give_way:
  assumes "inject_mirrors mc tool args env server token caps = (vars, ops)"
  shows "(\<forall>kv \<in> set vars. gives_way env kv) \<and>
         (\<forall>w \<in> set ops. fst (python_pip tool args) = ''pnpm'' \<and>
           (\<exists>t. w = Append_To (path_join [mc_cwd mc, ''.npmrc'']) t)) \<and>
         (server = [] \<longrightarrow> vars = [] \<and> ops = []) \<and>
         (\<not> mk_auth caps \<longrightarrow> inject_mirrors mc tool args env server other caps = (vars, ops))"
  using inject_gives_way [OF assms] assms
  by (auto simp: inject_mirrors_def base_without_auth split: if_splits)

definition bare_machine :: machine where
  "bare_machine = \<lparr>mc_env = (\<lambda>_. []), mc_home = None, mc_cwd = ''/w'', mc_config_dir = None, mc_exists = (\<lambda>_. False),
     mc_file = (\<lambda>_. No_File), mc_windows = False, mc_root = False, mc_writable = (\<lambda>_. True), mc_npm = False,
     mc_npm_proxy = None, mc_npm_set = (\<lambda>_. False)\<rparr>"

definition all_mirrors :: mirror_caps where
  "all_mirrors = \<lparr>mk_pypi = True, mk_npm = True, mk_mirror = False, mk_gomod = True, mk_hf = False, mk_auth = False\<rparr>"

lemma pip_injected:
  "inject_mirrors bare_machine ''python3'' [''-m'', ''pip'', ''install'', ''six''] [''HOME=/h''] ''http://d/'' ''tk'' all_mirrors =
     ([''PIP_INDEX_URL=http://d/pypi/simple''], [])"
  by code_simp

theorem mirrors_give_way_witness:
  "gives_way [''HOME=/h''] ''PIP_INDEX_URL=http://d/pypi/simple''"
  using mirrors_give_way [OF pip_injected, of "[]"] by simp

section \<open>Merging the conda configuration\<close>

lemma mput_again:
  assumes "a \<noteq> b"
  shows "mput b y (mput a x (mput b y' (mput a x' m))) = mput b y (mput a x m)"
  using assms by (induction m) (auto simp: mput_def)

lemma mput_twice [simp]: "mput k v (mput k w m) = mput k v m"
  by (induction m) (auto simp: mput_def)

lemma mdel_mput [simp]: "mdel k (mput k v m) = mdel k m"
  by (induction m) (auto simp: mput_def mdel_def)

lemma mdel_swap: "mdel a (mdel b m) = mdel b (mdel a m)"
  by (induction m) (auto simp: mdel_def)

lemma as_map_keys: "distinct (map fst (as_map ms))"
proof -
  have "distinct (map fst m) \<Longrightarrow> distinct (map fst (foldl (\<lambda>m (k, j). mput k j m) m ms))" for m :: "(string, json) gomap"
    by (induction ms arbitrary: m) (auto simp: mput_distinct)
  then show ?thesis by (simp add: as_map_def)
qed

text \<open>
  Merging keeps every entry of the configuration but \<open>proxy_servers\<close>, sets both proxies there and keeps the other
  members, and a second merge forgets the first. The text that is written does not tell a list from a text: the list of
  two channels is written as the text that names both.
\<close>

theorem conda_merge:
  "mdel ''proxy_servers'' (merge_condarc proxy cfg) = mdel ''proxy_servers'' cfg \<and>
   (\<exists>ps. mget (merge_condarc proxy cfg) ''proxy_servers'' = Some (J_Obj ps) \<and>
     mget ps ''http'' = Some (J_Str proxy) \<and> mget ps ''https'' = Some (J_Str proxy) \<and>
     mdel ''http'' (mdel ''https'' ps) =
       mdel ''http'' (mdel ''https'' (case mget cfg ''proxy_servers'' of Some (J_Obj ms) \<Rightarrow> as_map ms | _ \<Rightarrow> []))) \<and>
   merge_condarc proxy (merge_condarc old cfg) = merge_condarc proxy cfg \<and>
   condarc_text ft [(k, J_Arr [J_Str a, J_Str b])] = condarc_text ft [(k, J_Str (''['' @ a @ '' '' @ b @ '']''))]"
proof -
  define ps where "ps = (case mget cfg ''proxy_servers'' of Some (J_Obj ms) \<Rightarrow> as_map ms | _ \<Rightarrow> [])"
  have m: "merge_condarc p cfg = mput ''proxy_servers'' (J_Obj (mput ''https'' (J_Str p) (mput ''http'' (J_Str p) ps))) cfg" for p
    by (simp add: merge_condarc_def ps_def Let_def)
  have "distinct (map fst ps)"
    by (auto simp: ps_def as_map_keys split: option.split json.split)
  then have a: "as_map (mput ''https'' (J_Str p) (mput ''http'' (J_Str p) ps)) = mput ''https'' (J_Str p) (mput ''http'' (J_Str p) ps)" for p
    by (intro as_map_distinct mput_distinct)
  have d: "mdel ''http'' (mdel ''https'' (mput ''https'' (J_Str p) (mput ''http'' (J_Str p) ps))) = mdel ''http'' (mdel ''https'' ps)" for p
    using mdel_swap [of "''http''" "''https''" "mput ''http'' (J_Str p) ps"] by (simp add: mdel_swap [of "''http''" "''https''"])
  have twice: "merge_condarc proxy (merge_condarc old cfg) = merge_condarc proxy cfg"
    unfolding m by (simp add: merge_condarc_def a Let_def mput_again)
  have "condarc_text ft [(k, J_Arr [J_Str a, J_Str b])] = condarc_text ft [(k, J_Str (''['' @ a @ '' '' @ b @ '']''))]"
    by (simp add: condarc_text_def)
  then show ?thesis using twice d by (auto simp: m ps_def [symmetric])
qed

end
