(* ===== verification/Spec2Isabelle.thy ===== *)
theory Spec2Isabelle
  imports Whitelist Ssrf Dldw1 RateLimit Auth Tunnel UrlCanon Tasks LocalFs Engine Chunk Downloader Api ServerConfig AuditLog ServerApp
    ClientProxy Adapters
begin

text \<open>
  A verification development of \<^verbatim>\<open>dldw\<close>, a download accelerator: a server that tunnels, mirrors and
  caches downloads, and a client (\<^verbatim>\<open>dldc\<close>) that reaches it.
\<close>

end
